(* ===== verification/Substrate_Prelude.thy ===== *)
theory Substrate_Prelude
  imports Main
begin

text \<open>
  Shared vocabulary of the development.

  \<^item> Identifiers and texts of the Rust code (\<open>String\<close>) are \<^typ>\<open>string\<close>, read as the bytes of
    their UTF-8 encoding.
  \<^item> An operation that may fail with an error of type \<open>'e\<close> and that changes a state \<open>'s\<close> returns
    \<open>('e + 'a) \<times> 's\<close>; \<open>bind_res\<close> is Rust's \<^verbatim>\<open>?\<close>: it stops at the first error and keeps the
    state that the statements before the error have left behind (the storages run without a
    surrounding transaction unless the code opens one).
  \<^item> An SQL table is the list of its rows in insertion order. \<open>update_where\<close> is an \<open>UPDATE .. WHERE\<close>,
    \<open>filter\<close> a \<open>SELECT .. WHERE\<close>, \<open>sort_key\<close> a (stable) \<open>ORDER BY\<close>, and \<open>row_by\<close> a lookup by
    primary key.
  \<^item> JSON values (\<open>serde_json::Value\<close>) are a datatype; an object is the association list of its
    entries.
\<close>

subsection \<open>Results with state\<close>

type_synonym ('e, 'a, 's) outcome = "('e + 'a) \<times> 's"

definition bind_res :: "('e, 'a, 's) outcome \<Rightarrow> ('a \<Rightarrow> 's \<Rightarrow> ('e, 'b, 's) outcome) \<Rightarrow> ('e, 'b, 's) outcome" where
  "bind_res r k = (case r of (Inl e, s) \<Rightarrow> (Inl e, s) | (Inr x, s) \<Rightarrow> k x s)"

lemma bind_res_simps [simp]:
  "bind_res (Inl e, s) k = (Inl e, s)"
  "bind_res (Inr x, s) k = k x s"
  by (simp_all add: bind_res_def)

lemma bind_res_snd_cases:
  assumes "\<And>e s. r = (Inl e, s) \<Longrightarrow> P (Inl e, s)" and "\<And>x s. r = (Inr x, s) \<Longrightarrow> P (k x s)"
  shows "P (bind_res r k)"
  using assms by (cases r; cases "fst r") auto

fun is_ok :: "'e + 'a \<Rightarrow> bool" where
  "is_ok (Inl _) = False"
| "is_ok (Inr _) = True"

subsection \<open>Tables\<close>

definition update_where :: "('r \<Rightarrow> bool) \<Rightarrow> ('r \<Rightarrow> 'r) \<Rightarrow> 'r list \<Rightarrow> 'r list" where
  "update_where p f rows = map (\<lambda>r. if p r then f r else r) rows"

definition row_by :: "('r \<Rightarrow> 'k) \<Rightarrow> 'k \<Rightarrow> 'r list \<Rightarrow> 'r option" where
  "row_by key k rows = find (\<lambda>r. key r = k) rows"

definition count_where :: "('r \<Rightarrow> bool) \<Rightarrow> 'r list \<Rightarrow> nat" where
  "count_where p rows = length (filter p rows)"

lemma update_where_simps [simp]:
  "update_where p f [] = []"
  "update_where p f (r # rs) = (if p r then f r else r) # update_where p f rs"
  "update_where p f (xs @ ys) = update_where p f xs @ update_where p f ys"
  by (simp_all add: update_where_def)

lemma length_update_where [simp]: "length (update_where p f rows) = length rows"
  by (simp add: update_where_def)

lemma row_by_simps [simp]:
  "row_by key k [] = None"
  "row_by key k (r # rs) = (if key r = k then Some r else row_by key k rs)"
  by (simp_all add: row_by_def)

lemma row_by_append:
  "row_by key k (xs @ ys) = (case row_by key k xs of Some r \<Rightarrow> Some r | None \<Rightarrow> row_by key k ys)"
  by (induction xs) auto

lemma row_by_None_iff: "row_by key k rows = None \<longleftrightarrow> k \<notin> key ` set rows"
  by (induction rows) auto

lemma row_by_Some_in: "row_by key k rows = Some r \<Longrightarrow> r \<in> set rows \<and> key r = k"
  by (induction rows) (auto split: if_splits)

lemma row_by_unique:
  "distinct (map key rows) \<Longrightarrow> r \<in> set rows \<Longrightarrow> row_by key (key r) rows = Some r"
  by (induction rows) (auto simp: rev_image_eqI)

lemma map_key_update_where:
  assumes "\<And>r. key (f r) = key r"
  shows "map key (update_where p f rows) = map key rows"
  using assms by (induction rows) auto

lemma row_by_update_where:
  assumes "\<And>r. key (f r) = key r"
  shows "row_by key k (update_where (\<lambda>r. key r = k') f rows)
       = (if k = k' then map_option f (row_by key k rows) else row_by key k rows)"
  using assms by (induction rows) auto

lemma row_by_update_where_gen:
  assumes "\<And>r. key (f r) = key r"
  shows "row_by key k (update_where p f rows) = map_option (\<lambda>r. if p r then f r else r) (row_by key k rows)"
  using assms by (induction rows) auto

lemma update_where_id: "(\<And>r. r \<in> set rows \<Longrightarrow> p r \<Longrightarrow> f r = r) \<Longrightarrow> update_where p f rows = rows"
  by (induction rows) auto

lemma set_update_where: "set (update_where p f rows) = (\<lambda>r. if p r then f r else r) ` set rows"
  by (simp add: update_where_def)

lemma image_key_update_where:
  assumes "\<And>r. key (f r) = key r"
  shows "key ` set (update_where p f rows) = key ` set rows"
  using arg_cong [OF map_key_update_where [of key f p rows, OF assms], of set] by simp

lemma ball_update_where:
  "(\<forall>r \<in> set (update_where p f rows). Q r) \<longleftrightarrow> (\<forall>r \<in> set rows. Q (if p r then f r else r))"
  by (induction rows) auto

lemma filter_update_where:
  assumes "\<And>r. q (f r) = q r"
  shows "filter q (update_where p f rows) = update_where p f (filter q rows)"
  using assms by (induction rows) auto

lemma count_where_simps [simp]:
  "count_where p [] = 0"
  "count_where p (r # rs) = (if p r then Suc (count_where p rs) else count_where p rs)"
  "count_where p (xs @ ys) = count_where p xs + count_where p ys"
  by (simp_all add: count_where_def)

lemma count_where_pos_iff: "0 < count_where p rows \<longleftrightarrow> (\<exists>r \<in> set rows. p r)"
  by (induction rows) auto

subsection \<open>JSON values\<close>

text \<open>
  \<open>serde_json::Value\<close>. A number is an integer or the bit pattern of a double; the code modelled
  here only compares numbers. The entries of an object carry distinct keys.
\<close>

datatype json_number = Int_Number int | Float_Bits nat

datatype json =
    JNull
  | JBool bool
  | JNum json_number
  | JStr string
  | JArr "json list"
  | JObj "(string \<times> json) list"

text \<open>\<open>Value::get\<close> on a key, and \<open>Value::as_str\<close>.\<close>

fun json_get :: "string \<Rightarrow> json \<Rightarrow> json option" where
  "json_get k (JObj kvs) = map_of kvs k"
| "json_get k _ = None"

fun json_as_str :: "json \<Rightarrow> string option" where
  "json_as_str (JStr s) = Some s"
| "json_as_str _ = None"

text \<open>
  \<open>plexus_core::types::Handle\<close> is a type of another crate; only the four fields below are read or
  written by the code modelled here.
\<close>

record handle =
  h_plugin_id :: string
  h_version :: string
  h_method :: string
  h_meta :: "string list"

end
