(* ===== verification/Lattice_Types.thy ===== *)
theory Lattice_Types
  imports Substrate_Prelude
begin

text \<open>
  The data of the Lattice graph engine: \<^verbatim>\<open>src/src/activations/lattice/types.rs\<close>. Enums are datatypes
  with the source's constructors (those that two enums share carry the enum's initial), structs are
  records, the \<open>Display\<close>/\<open>FromStr\<close> pairs under which statuses are stored in text columns are
  functions on strings.
\<close>

type_synonym graph_id = string
type_synonym node_id = string

subsection \<open>Tokens\<close>

datatype token_color = Color_Ok | Color_Error | Color_Named string

datatype token_payload = Payload_Data json | Payload_Handle handle

record token =
  tk_color :: token_color
  tk_payload :: "token_payload option"

definition token_ok :: token where
  "token_ok = \<lparr>tk_color = Color_Ok, tk_payload = None\<rparr>"

definition token_ok_data :: "json \<Rightarrow> token" where
  "token_ok_data v = \<lparr>tk_color = Color_Ok, tk_payload = Some (Payload_Data v)\<rparr>"

definition token_ok_handle :: "handle \<Rightarrow> token" where
  "token_ok_handle h = \<lparr>tk_color = Color_Ok, tk_payload = Some (Payload_Handle h)\<rparr>"

definition token_error :: "string \<Rightarrow> token" where
  "token_error msg =
     \<lparr>tk_color = Color_Error, tk_payload = Some (Payload_Data (JObj [(''message'', JStr msg)]))\<rparr>"

datatype node_output = Single token | Many "token list"

fun output_tokens :: "node_output \<Rightarrow> token list" where
  "output_tokens (Single t) = [t]"
| "output_tokens (Many ts) = ts"

text \<open>A token whose handle has been fetched.\<close>

record resolved_token =
  rt_color :: token_color
  rt_data :: "json option"

subsection \<open>Graph structure\<close>

datatype join_type = Join_All | Join_Any

datatype gather_strategy = Gather_All | Gather_First nat

datatype node_spec =
    Spec_Task json "handle option"
  | Spec_Scatter json "handle option"
  | Spec_Gather gather_strategy
  | Spec_SubGraph graph_id

fun is_gather :: "node_spec \<Rightarrow> bool" where
  "is_gather (Spec_Gather _) = True"
| "is_gather _ = False"

datatype edge_condition = Edge_Condition "token_color option"

fun condition_matches :: "edge_condition \<Rightarrow> token_color \<Rightarrow> bool" where
  "condition_matches (Edge_Condition None) color = True"
| "condition_matches (Edge_Condition (Some c)) color = (c = color)"

subsection \<open>Statuses and their text form\<close>

datatype node_status = N_Pending | N_Ready | N_Running | N_Complete | N_Failed

fun node_status_str :: "node_status \<Rightarrow> string" where
  "node_status_str N_Pending = ''pending''"
| "node_status_str N_Ready = ''ready''"
| "node_status_str N_Running = ''running''"
| "node_status_str N_Complete = ''complete''"
| "node_status_str N_Failed = ''failed''"

definition node_status_of_str :: "string \<Rightarrow> string + node_status" where
  "node_status_of_str s =
     (if s = ''pending'' then Inr N_Pending
      else if s = ''ready'' then Inr N_Ready
      else if s = ''running'' then Inr N_Running
      else if s = ''complete'' then Inr N_Complete
      else if s = ''failed'' then Inr N_Failed
      else Inl (''Unknown node status: '' @ s))"

datatype graph_status = G_Pending | G_Running | G_Complete | G_Failed | G_Cancelled

fun graph_status_str :: "graph_status \<Rightarrow> string" where
  "graph_status_str G_Pending = ''pending''"
| "graph_status_str G_Running = ''running''"
| "graph_status_str G_Complete = ''complete''"
| "graph_status_str G_Failed = ''failed''"
| "graph_status_str G_Cancelled = ''cancelled''"

definition graph_status_of_str :: "string \<Rightarrow> string + graph_status" where
  "graph_status_of_str s =
     (if s = ''pending'' then Inr G_Pending
      else if s = ''running'' then Inr G_Running
      else if s = ''complete'' then Inr G_Complete
      else if s = ''failed'' then Inr G_Failed
      else if s = ''cancelled'' then Inr G_Cancelled
      else Inl (''Unknown graph status: '' @ s))"

lemma node_status_of_str_str [simp]: "node_status_of_str (node_status_str s) = Inr s"
  by (cases s) (simp_all add: node_status_of_str_def)

lemma graph_status_of_str_str [simp]: "graph_status_of_str (graph_status_str s) = Inr s"
  by (cases s) (simp_all add: graph_status_of_str_def)

lemma node_status_str_inj: "node_status_str s = node_status_str t \<Longrightarrow> s = t"
  by (metis node_status_of_str_str sum.inject(2))

lemma graph_status_str_inj: "graph_status_str s = graph_status_str t \<Longrightarrow> s = t"
  by (metis graph_status_of_str_str sum.inject(2))

definition terminal_status :: "node_status \<Rightarrow> bool" where
  "terminal_status s \<longleftrightarrow> s = N_Complete \<or> s = N_Failed"

lemma terminal_status_simps [simp]:
  "terminal_status N_Complete" "terminal_status N_Failed"
  "\<not> terminal_status N_Pending" "\<not> terminal_status N_Ready" "\<not> terminal_status N_Running"
  by (simp_all add: terminal_status_def)

subsection \<open>Node and graph views, events\<close>

record lattice_node =
  ln_id :: node_id
  ln_graph_id :: graph_id
  ln_spec :: node_spec
  ln_status :: node_status
  ln_join_type :: join_type
  ln_output :: "node_output option"
  ln_error :: "string option"
  ln_created_at :: int
  ln_completed_at :: "int option"

record lattice_graph =
  lg_id :: graph_id
  lg_metadata :: json
  lg_status :: graph_status
  lg_created_at :: int
  lg_node_count :: nat
  lg_edge_count :: nat
  lg_parent_graph_id :: "graph_id option"

datatype lattice_event =
    NodeReady node_id node_spec
  | NodeStarted node_id
  | NodeDone node_id "node_output option"
  | NodeFailed node_id string
  | GraphDone graph_id
  | GraphFailed graph_id node_id string

fun ends_stream :: "lattice_event \<Rightarrow> bool" where
  "ends_stream (GraphDone _) = True"
| "ends_stream (GraphFailed _ _ _) = True"
| "ends_stream _ = False"

end
