(* ===== verification/Lattice_Store.thy ===== *)
theory Lattice_Store
  imports Lattice_Types "HOL-Library.Word"
begin

text \<open>
  The tables of the Lattice storage and its row operations:
  \<^verbatim>\<open>src/src/activations/lattice/storage.rs\<close>, everything below the transition logic. Each table is the
  list of its rows; the schema of \<open>run_migrations\<close> is the row records, \<open>PRIMARY KEY\<close> and (when the
  connection enforces them, \<open>db_foreign_keys\<close>) \<open>FOREIGN KEY\<close> violations are the errors of the
  insertions. \<open>db_clock\<close> is what \<open>current_timestamp\<close> reads; \<open>db_notifiers\<close> is the map of
  \<open>Notify\<close> objects, the boolean of an entry the permit that \<open>notify_one\<close> leaves behind.
  Identifiers that the code draws from \<open>Uuid::new_v4\<close> are arguments of the operations.
\<close>

subsection \<open>Schema\<close>

record graph_row =
  gr_id :: graph_id
  gr_metadata :: json
  gr_status :: graph_status
  gr_created_at :: int
  gr_parent :: "graph_id option"

text \<open>\<open>nr_join\<close> is the text column \<open>join_type\<close> with its default \<open>'all'\<close>.\<close>

record node_row =
  nr_id :: node_id
  nr_graph :: graph_id
  nr_spec :: node_spec
  nr_status :: node_status
  nr_output :: "node_output option"
  nr_error :: "string option"
  nr_created_at :: int
  nr_completed_at :: "int option"
  nr_join :: string

record edge_row =
  er_id :: string
  er_graph :: graph_id
  er_from :: node_id
  er_to :: node_id
  er_condition :: "edge_condition option"

record token_row =
  tr_edge :: string
  tr_graph :: graph_id
  tr_token :: token
  tr_seq :: int

record event_row =
  ev_seq :: int
  ev_graph :: graph_id
  ev_event :: lattice_event
  ev_created_at :: int

record lattice_db =
  db_graphs :: "graph_row list"
  db_nodes :: "node_row list"
  db_edges :: "edge_row list"
  db_tokens :: "token_row list"
  db_events :: "event_row list"
  db_next_seq :: int
  db_notifiers :: "graph_id \<Rightarrow> bool option"
  db_clock :: int
  db_foreign_keys :: bool

definition empty_db :: "bool \<Rightarrow> lattice_db" where
  "empty_db fk = \<lparr>db_graphs = [], db_nodes = [], db_edges = [], db_tokens = [], db_events = [],
     db_next_seq = 1, db_notifiers = (\<lambda>_. None), db_clock = 0, db_foreign_keys = fk\<rparr>"

text \<open>The errors of the storage, one constructor per message format.\<close>

datatype lattice_error =
    Sql_Error string
  | Graph_Not_Found graph_id
  | Node_Not_Found node_id
  | Node_Not_In_Graph node_id graph_id

type_synonym 'a lattice_op = "lattice_db \<Rightarrow> (lattice_error, 'a, lattice_db) outcome"

subsection \<open>Row helpers\<close>

definition row_to_graph :: "graph_row \<Rightarrow> nat \<Rightarrow> nat \<Rightarrow> lattice_graph" where
  "row_to_graph r node_count edge_count =
     \<lparr>lg_id = gr_id r, lg_metadata = gr_metadata r, lg_status = gr_status r,
      lg_created_at = gr_created_at r, lg_node_count = node_count, lg_edge_count = edge_count,
      lg_parent_graph_id = gr_parent r\<rparr>"

text \<open>
  \<open>row_to_node\<close> reads the column \<open>join_type\<close> with \<open>try_get\<close>, which fails when the query has not
  selected it: its second argument is what the query selected.
\<close>

definition row_to_node :: "node_row \<Rightarrow> string option \<Rightarrow> lattice_node" where
  "row_to_node r join_col =
     \<lparr>ln_id = nr_id r, ln_graph_id = nr_graph r, ln_spec = nr_spec r, ln_status = nr_status r,
      ln_join_type = (if (case join_col of Some s \<Rightarrow> s | None \<Rightarrow> ''all'') = ''any'' then Join_Any else Join_All),
      ln_output = nr_output r, ln_error = nr_error r, ln_created_at = nr_created_at r,
      ln_completed_at = nr_completed_at r\<rparr>"

text \<open>
  The column list of every node query of the storage:
  \<open>id, graph_id, spec, status, output, error, created_at, completed_at\<close>.
\<close>

definition select_node :: "node_row \<Rightarrow> lattice_node" where
  "select_node r = row_to_node r None"

lemma select_node_simps [simp]:
  "ln_id (select_node r) = nr_id r" "ln_graph_id (select_node r) = nr_graph r"
  "ln_spec (select_node r) = nr_spec r" "ln_status (select_node r) = nr_status r"
  "ln_join_type (select_node r) = Join_All" "ln_output (select_node r) = nr_output r"
  "ln_error (select_node r) = nr_error r" "ln_created_at (select_node r) = nr_created_at r"
  "ln_completed_at (select_node r) = nr_completed_at r"
  by (simp_all add: select_node_def row_to_node_def)

definition graph_counts :: "lattice_db \<Rightarrow> graph_row \<Rightarrow> lattice_graph" where
  "graph_counts db r = row_to_graph r
     (count_where (\<lambda>n. nr_graph n = gr_id r) (db_nodes db))
     (count_where (\<lambda>e. er_graph e = gr_id r) (db_edges db))"

subsection \<open>Graphs\<close>

definition create_graph :: "json \<Rightarrow> string \<Rightarrow> graph_id lattice_op" where
  "create_graph metadata uuid db =
     (let id = ''lattice-'' @ uuid in
      if row_by gr_id id (db_graphs db) \<noteq> None then (Inl (Sql_Error ''Failed to create graph''), db)
      else (Inr id, db\<lparr>db_graphs := db_graphs db @
        [\<lparr>gr_id = id, gr_metadata = metadata, gr_status = G_Pending,
          gr_created_at = db_clock db, gr_parent = None\<rparr>]\<rparr>))"

definition create_child_graph :: "graph_id \<Rightarrow> json \<Rightarrow> string \<Rightarrow> graph_id lattice_op" where
  "create_child_graph parent metadata uuid db =
     (let id = ''lattice-'' @ uuid in
      if row_by gr_id id (db_graphs db) \<noteq> None
         \<or> (db_foreign_keys db \<and> parent \<noteq> id \<and> row_by gr_id parent (db_graphs db) = None)
      then (Inl (Sql_Error ''Failed to create child graph''), db)
      else (Inr id, db\<lparr>db_graphs := db_graphs db @
        [\<lparr>gr_id = id, gr_metadata = metadata, gr_status = G_Pending,
          gr_created_at = db_clock db, gr_parent = Some parent\<rparr>]\<rparr>))"

definition get_child_graphs :: "lattice_db \<Rightarrow> graph_id \<Rightarrow> lattice_graph list" where
  "get_child_graphs db parent =
     map (graph_counts db) (sort_key gr_created_at (filter (\<lambda>r. gr_parent r = Some parent) (db_graphs db)))"

definition get_graph :: "lattice_db \<Rightarrow> graph_id \<Rightarrow> lattice_error + lattice_graph" where
  "get_graph db g =
     (case row_by gr_id g (db_graphs db) of
        None \<Rightarrow> Inl (Graph_Not_Found g)
      | Some r \<Rightarrow> Inr (graph_counts db r))"

definition get_graph_status :: "lattice_db \<Rightarrow> graph_id \<Rightarrow> lattice_error + graph_status" where
  "get_graph_status db g =
     (case row_by gr_id g (db_graphs db) of
        None \<Rightarrow> Inl (Sql_Error ''no rows'')
      | Some r \<Rightarrow> Inr (gr_status r))"

definition list_graphs :: "lattice_db \<Rightarrow> lattice_graph list" where
  "list_graphs db = map (graph_counts db) (sort_key (\<lambda>r. - gr_created_at r) (db_graphs db))"

definition get_running_graph_ids :: "lattice_db \<Rightarrow> graph_id list" where
  "get_running_graph_ids db =
     map gr_id (sort_key gr_created_at (filter (\<lambda>r. gr_status r = G_Running) (db_graphs db)))"

definition update_graph_status :: "graph_id \<Rightarrow> graph_status \<Rightarrow> lattice_db \<Rightarrow> lattice_db" where
  "update_graph_status g st db =
     db\<lparr>db_graphs := update_where (\<lambda>r. gr_id r = g) (\<lambda>r. r\<lparr>gr_status := st\<rparr>) (db_graphs db)\<rparr>"

subsection \<open>Nodes\<close>

definition count_nodes :: "lattice_db \<Rightarrow> graph_id \<Rightarrow> nat" where
  "count_nodes db g = count_where (\<lambda>r. nr_graph r = g) (db_nodes db)"

definition get_nodes :: "lattice_db \<Rightarrow> graph_id \<Rightarrow> lattice_node list" where
  "get_nodes db g = map select_node (sort_key nr_created_at (filter (\<lambda>r. nr_graph r = g) (db_nodes db)))"

definition get_node :: "lattice_db \<Rightarrow> node_id \<Rightarrow> lattice_error + lattice_node" where
  "get_node db n =
     (case row_by nr_id n (db_nodes db) of
        None \<Rightarrow> Inl (Node_Not_Found n)
      | Some r \<Rightarrow> Inr (select_node r))"

definition get_nodes_with_no_predecessors :: "lattice_db \<Rightarrow> graph_id \<Rightarrow> lattice_node list" where
  "get_nodes_with_no_predecessors db g =
     map select_node (sort_key nr_created_at (filter
       (\<lambda>r. nr_graph r = g \<and>
            nr_id r \<notin> set (map er_to (filter (\<lambda>e. er_graph e = g \<and> er_from e \<noteq> er_to e) (db_edges db))))
       (db_nodes db)))"

definition set_node_status ::
  "node_id \<Rightarrow> node_status \<Rightarrow> node_output option \<Rightarrow> string option \<Rightarrow> lattice_db \<Rightarrow> lattice_db" where
  "set_node_status n st out err db =
     (let completed = (case st of N_Complete \<Rightarrow> Some (db_clock db) | N_Failed \<Rightarrow> Some (db_clock db) | _ \<Rightarrow> None) in
      db\<lparr>db_nodes := update_where (\<lambda>r. nr_id r = n)
        (\<lambda>r. r\<lparr>nr_status := st, nr_output := out, nr_error := err, nr_completed_at := completed\<rparr>)
        (db_nodes db)\<rparr>)"

definition reset_node_to_pending :: "node_id \<Rightarrow> lattice_db \<Rightarrow> lattice_db" where
  "reset_node_to_pending n db =
     db\<lparr>db_nodes := update_where (\<lambda>r. nr_id r = n)
        (\<lambda>r. r\<lparr>nr_status := N_Pending, nr_output := None, nr_error := None, nr_completed_at := None\<rparr>)
        (db_nodes db)\<rparr>"

subsection \<open>Edges\<close>

definition get_inbound_edges :: "lattice_db \<Rightarrow> node_id \<Rightarrow> node_id list" where
  "get_inbound_edges db n = map er_from (filter (\<lambda>e. er_to e = n) (db_edges db))"

definition get_outbound_edges :: "lattice_db \<Rightarrow> node_id \<Rightarrow> node_id list" where
  "get_outbound_edges db n = map er_to (filter (\<lambda>e. er_from e = n) (db_edges db))"

definition get_outbound_edges_with_conditions ::
  "lattice_db \<Rightarrow> node_id \<Rightarrow> (string \<times> node_id \<times> edge_condition option) list" where
  "get_outbound_edges_with_conditions db n =
     map (\<lambda>e. (er_id e, er_to e, er_condition e)) (filter (\<lambda>e. er_from e = n) (db_edges db))"

text \<open>The guard of token routing: no condition, or a condition that matches the token's color.\<close>

definition edge_accepts :: "edge_condition option \<Rightarrow> token \<Rightarrow> bool" where
  "edge_accepts cond t = (case cond of None \<Rightarrow> True | Some c \<Rightarrow> condition_matches c (tk_color t))"

subsection \<open>Tokens on edges\<close>

definition count_tokens_on_edge :: "lattice_db \<Rightarrow> string \<Rightarrow> int" where
  "count_tokens_on_edge db e = int (count_where (\<lambda>t. tr_edge t = e) (db_tokens db))"

text \<open>The table's primary key is \<open>(edge_id, seq)\<close>.\<close>

definition deliver_token :: "string \<Rightarrow> graph_id \<Rightarrow> token \<Rightarrow> int \<Rightarrow> unit lattice_op" where
  "deliver_token e g tok seq db =
     (if \<exists>t \<in> set (db_tokens db). tr_edge t = e \<and> tr_seq t = seq
      then (Inl (Sql_Error ''Failed to deliver token''), db)
      else (Inr (), db\<lparr>db_tokens := db_tokens db @
        [\<lparr>tr_edge = e, tr_graph = g, tr_token = tok, tr_seq = seq\<rparr>]\<rparr>))"

definition inbound_edge_ids :: "lattice_db \<Rightarrow> node_id \<Rightarrow> string list" where
  "inbound_edge_ids db n = map er_id (filter (\<lambda>e. er_to e = n \<and> er_from e \<noteq> n) (db_edges db))"

definition count_edges_with_tokens :: "lattice_db \<Rightarrow> node_id \<Rightarrow> nat \<times> nat" where
  "count_edges_with_tokens db n =
     (let total = count_where (\<lambda>e. er_to e = n \<and> er_from e \<noteq> er_to e) (db_edges db);
          delivered = length (remdups (map tr_edge
            (filter (\<lambda>t. tr_edge t \<in> set (inbound_edge_ids db n)) (db_tokens db))))
      in (delivered, total))"

text \<open>
  The join of the token table with the edges into \<open>n\<close>, self-loops included, ordered by the
  per-edge sequence number.
\<close>

definition get_node_inputs :: "lattice_db \<Rightarrow> node_id \<Rightarrow> token list" where
  "get_node_inputs db n =
     map tr_token (sort_key tr_seq (concat (map
       (\<lambda>t. map (\<lambda>_. t) (filter (\<lambda>e. er_id e = tr_edge t \<and> er_to e = n) (db_edges db)))
       (db_tokens db))))"

subsection \<open>Event log\<close>

definition persist_event :: "graph_id \<Rightarrow> lattice_event \<Rightarrow> lattice_db \<Rightarrow> lattice_db" where
  "persist_event g ev db =
     db\<lparr>db_events := db_events db @
          [\<lparr>ev_seq = db_next_seq db, ev_graph = g, ev_event = ev, ev_created_at = db_clock db\<rparr>],
        db_next_seq := db_next_seq db + 1\<rparr>"

text \<open>The sequence number that \<open>persist_event\<close> returns, as \<open>u64\<close>.\<close>

definition persist_event_seq :: "lattice_db \<Rightarrow> 64 word" where
  "persist_event_seq db = word_of_int (db_next_seq db)"

text \<open>The cursor is a \<open>u64\<close> that the query binds as \<open>i64\<close>; sequence numbers travel back as \<open>u64\<close>.\<close>

definition get_events_after :: "lattice_db \<Rightarrow> graph_id \<Rightarrow> 64 word \<Rightarrow> (64 word \<times> lattice_event) list" where
  "get_events_after db g after_seq =
     map (\<lambda>r. (word_of_int (ev_seq r), ev_event r))
       (sort_key ev_seq (filter (\<lambda>r. ev_graph r = g \<and> sint after_seq < ev_seq r) (db_events db)))"

definition notify_graph :: "graph_id \<Rightarrow> lattice_db \<Rightarrow> lattice_db" where
  "notify_graph g db =
     (case db_notifiers db g of
        None \<Rightarrow> db
      | Some _ \<Rightarrow> db\<lparr>db_notifiers := (db_notifiers db)(g := Some True)\<rparr>)"

definition get_or_create_notifier :: "graph_id \<Rightarrow> lattice_db \<Rightarrow> lattice_db" where
  "get_or_create_notifier g db =
     (case db_notifiers db g of
        None \<Rightarrow> db\<lparr>db_notifiers := (db_notifiers db)(g := Some False)\<rparr>
      | Some _ \<Rightarrow> db)"

end
