(* ===== verification/Lattice_Engine.thy ===== *)
theory Lattice_Engine
  imports Lattice_Store
begin

text \<open>
  The transition logic of the Lattice engine: \<open>check_and_ready\<close>, \<open>advance_graph\<close>, \<open>start_graph\<close>, the
  recovery operations, and the two construction operations \<open>add_node\<close>/\<open>add_edge\<close> that consult it on
  a running graph (\<^verbatim>\<open>src/src/activations/lattice/storage.rs\<close>), with the handlers of
  \<^verbatim>\<open>src/src/activations/lattice/activation.rs\<close>. The work queue of \<open>advance_graph\<close> is a stack (the code
  pushes and pops at the end of a \<open>Vec\<close>); its head is the list's head here. The loop need not end, so
  it is a \<^theory_text>\<open>partial_function (option)\<close>: \<open>None\<close> means that the call does not return.
\<close>

subsection \<open>Enabling a node\<close>

fun node_enabled :: "join_type \<Rightarrow> nat \<times> nat \<Rightarrow> bool" where
  "node_enabled Join_All (delivered, inbound) = (delivered = inbound \<and> 0 < inbound)"
| "node_enabled Join_Any (delivered, inbound) = (1 \<le> delivered)"

fun gather_output :: "gather_strategy \<Rightarrow> token list \<Rightarrow> node_output" where
  "gather_output Gather_All ts = Many ts"
| "gather_output (Gather_First n) ts = Many (take (min n (length ts)) ts)"

definition make_ready :: "graph_id \<Rightarrow> node_id \<Rightarrow> node_spec \<Rightarrow> lattice_db \<Rightarrow> lattice_db" where
  "make_ready g n spec db = persist_event g (NodeReady n spec) (set_node_status n N_Ready None None db)"

definition check_and_ready :: "graph_id \<Rightarrow> node_id \<Rightarrow> node_output option lattice_op" where
  "check_and_ready g n db =
     (case get_node db n of
        Inl e \<Rightarrow> (Inl e, db)
      | Inr node \<Rightarrow>
          if ln_status node \<noteq> N_Pending \<and> ln_status node \<noteq> N_Complete then (Inr None, db)
          else if \<not> node_enabled (ln_join_type node) (count_edges_with_tokens db n) then (Inr None, db)
          else (case ln_spec node of
                  Spec_Gather strategy \<Rightarrow>
                    (Inr (Some (gather_output strategy (get_node_inputs db n))),
                     set_node_status n N_Running None None db)
                | _ \<Rightarrow> (Inr None, make_ready g n (ln_spec node) db)))"

subsection \<open>Advancing a graph\<close>

type_synonym work = "node_id \<times> node_output option \<times> string option"

fun route_edges :: "graph_id \<Rightarrow> token \<Rightarrow> (string \<times> node_id \<times> edge_condition option) list \<Rightarrow>
    work list \<times> bool \<Rightarrow> (work list \<times> bool) lattice_op" where
  "route_edges g tok [] acc db = (Inr acc, db)"
| "route_edges g tok ((e, to, cond) # es) (queue, any_delivered) db =
     (if edge_accepts cond tok then
        bind_res (deliver_token e g tok (count_tokens_on_edge db e + 1) db) (\<lambda>_ db1.
        bind_res (check_and_ready g to db1) (\<lambda>gathered db2.
          route_edges g tok es
            (case gathered of None \<Rightarrow> queue | Some out \<Rightarrow> (to, Some out, None) # queue, True) db2))
      else route_edges g tok es (queue, any_delivered) db)"

fun route_tokens :: "graph_id \<Rightarrow> token list \<Rightarrow> (string \<times> node_id \<times> edge_condition option) list \<Rightarrow>
    work list \<times> bool \<Rightarrow> (work list \<times> bool) lattice_op" where
  "route_tokens g [] outbound acc db = (Inr acc, db)"
| "route_tokens g (tok # toks) outbound acc db =
     bind_res (route_edges g tok outbound acc db) (\<lambda>acc1 db1. route_tokens g toks outbound acc1 db1)"

definition produce_tokens :: "node_output option \<Rightarrow> string option \<Rightarrow> token list" where
  "produce_tokens out err =
     (case err of
        Some msg \<Rightarrow> [token_error msg]
      | None \<Rightarrow> (case out of None \<Rightarrow> [token_ok] | Some o1 \<Rightarrow> output_tokens o1))"

definition record_outcome ::
  "graph_id \<Rightarrow> node_id \<Rightarrow> node_output option \<Rightarrow> string option \<Rightarrow> lattice_db \<Rightarrow> lattice_db" where
  "record_outcome g n out err db =
     (case err of
        Some msg \<Rightarrow> persist_event g (NodeFailed n msg) (set_node_status n N_Failed None (Some msg) db)
      | None \<Rightarrow> persist_event g (NodeDone n out) (set_node_status n N_Complete out None db))"

definition error_text :: "token list \<Rightarrow> string" where
  "error_text toks =
     (case toks of
        [] \<Rightarrow> []
      | t # _ \<Rightarrow> (case tk_payload t of
                     Some (Payload_Data v) \<Rightarrow>
                       (case Option.bind (json_get ''message'' v) json_as_str of None \<Rightarrow> [] | Some s \<Rightarrow> s)
                   | _ \<Rightarrow> []))"

definition fail_graph :: "graph_id \<Rightarrow> node_id \<Rightarrow> string \<Rightarrow> lattice_db \<Rightarrow> lattice_db" where
  "fail_graph g n msg db =
     notify_graph g (persist_event g (GraphFailed g n msg) (update_graph_status g G_Failed db))"

text \<open>One iteration of the loop either goes on with a new queue or returns from the function.\<close>

datatype step_outcome =
    Continue "work list" lattice_db
  | Return "lattice_error + unit" lattice_db

definition advance_step :: "graph_id \<Rightarrow> work \<Rightarrow> work list \<Rightarrow> lattice_db \<Rightarrow> step_outcome" where
  "advance_step g w queue db =
     (case w of (n, out, err) \<Rightarrow>
        case get_node db n of
          Inl _ \<Rightarrow> Continue queue db
        | Inr node \<Rightarrow>
            if ln_status node = N_Complete \<or> ln_status node = N_Failed then Continue queue db
            else
              let toks = produce_tokens out err; db1 = record_outcome g n out err db in
              case route_tokens g toks (get_outbound_edges_with_conditions db1 n) (queue, False) db1 of
                (Inl e, db2) \<Rightarrow> Return (Inl e) db2
              | (Inr (queue1, any_delivered), db2) \<Rightarrow>
                  if err \<noteq> None \<and> \<not> any_delivered
                  then Return (Inr ()) (fail_graph g n (error_text toks) db2)
                  else Continue queue1 db2)"

definition complete_if_all_done :: "graph_id \<Rightarrow> lattice_db \<Rightarrow> lattice_db" where
  "complete_if_all_done g db =
     (let db1 = (if list_all (\<lambda>n. ln_status n = N_Complete) (get_nodes db g)
                 then persist_event g (GraphDone g) (update_graph_status g G_Complete db)
                 else db)
      in notify_graph g db1)"

partial_function (option) advance_loop ::
  "graph_id \<Rightarrow> work list \<Rightarrow> lattice_db \<Rightarrow> (lattice_error, unit, lattice_db) outcome option" where
  "advance_loop g queue db =
     (case queue of
        [] \<Rightarrow> Some (Inr (), complete_if_all_done g db)
      | w # rest \<Rightarrow>
          (case advance_step g w rest db of
             Return r db1 \<Rightarrow> Some (r, db1)
           | Continue queue1 db1 \<Rightarrow> advance_loop g queue1 db1))"

declare advance_loop.simps [code]

definition advance_graph ::
  "graph_id \<Rightarrow> node_id \<Rightarrow> node_output option \<Rightarrow> string option \<Rightarrow> lattice_db \<Rightarrow>
   (lattice_error, unit, lattice_db) outcome option" where
  "advance_graph g n out err db = advance_loop g [(n, out, err)] db"

text \<open>The handlers \<open>node_complete\<close>, \<open>node_failed\<close> and \<open>cancel\<close>.\<close>

definition node_complete ::
  "graph_id \<Rightarrow> node_id \<Rightarrow> node_output option \<Rightarrow> lattice_db \<Rightarrow> (lattice_error, unit, lattice_db) outcome option" where
  "node_complete g n out db = advance_graph g n out None db"

definition node_failed ::
  "graph_id \<Rightarrow> node_id \<Rightarrow> string \<Rightarrow> lattice_db \<Rightarrow> (lattice_error, unit, lattice_db) outcome option" where
  "node_failed g n msg db = advance_graph g n None (Some msg) db"

definition cancel :: "graph_id \<Rightarrow> lattice_db \<Rightarrow> lattice_db" where
  "cancel g db = update_graph_status g G_Cancelled db"

definition lattice_get_node_inputs :: "lattice_db \<Rightarrow> graph_id \<Rightarrow> node_id \<Rightarrow> lattice_error + token list" where
  "lattice_get_node_inputs db g n =
     (if \<not> list_ex (\<lambda>nd. ln_id nd = n) (get_nodes db g) then Inl (Node_Not_In_Graph n g)
      else Inr (get_node_inputs db n))"

definition lattice_get ::
  "lattice_db \<Rightarrow> graph_id \<Rightarrow> lattice_error + (lattice_graph \<times> lattice_node list)" where
  "lattice_get db g =
     (case get_graph db g of Inl e \<Rightarrow> Inl e | Inr gr \<Rightarrow> Inr (gr, get_nodes db g))"

subsection \<open>Starting and recovering\<close>

fun seed_roots :: "graph_id \<Rightarrow> lattice_node list \<Rightarrow> lattice_db \<Rightarrow> lattice_db" where
  "seed_roots g [] db = db"
| "seed_roots g (node # rest) db =
     seed_roots g rest
       (if is_gather (ln_spec node) then db else make_ready g (ln_id node) (ln_spec node) db)"

definition start_graph :: "graph_id \<Rightarrow> lattice_db \<Rightarrow> lattice_db" where
  "start_graph g db =
     (if count_where (\<lambda>r. gr_id r = g \<and> gr_status r = G_Pending) (db_graphs db) = 0 then db
      else
        let db1 = db\<lparr>db_graphs := update_where (\<lambda>r. gr_id r = g \<and> gr_status r = G_Pending)
                      (\<lambda>r. r\<lparr>gr_status := G_Running\<rparr>) (db_graphs db)\<rparr>;
            roots = get_nodes_with_no_predecessors db1 g;
            db2 = (if roots = [] then persist_event g (GraphDone g) (update_graph_status g G_Complete db1)
                   else seed_roots g roots db1)
        in notify_graph g db2)"

definition reset_running_to_ready :: "graph_id \<Rightarrow> node_id \<Rightarrow> unit lattice_op" where
  "reset_running_to_ready g n db =
     (case get_node db n of
        Inl e \<Rightarrow> (Inl e, db)
      | Inr node \<Rightarrow>
          if ln_status node \<noteq> N_Running then (Inr (), db)
          else (Inr (), notify_graph g (make_ready g n (ln_spec node) db)))"

fun emit_ready :: "graph_id \<Rightarrow> lattice_node list \<Rightarrow> lattice_db \<Rightarrow> lattice_db" where
  "emit_ready g [] db = db"
| "emit_ready g (node # rest) db =
     emit_ready g rest
       (if ln_status node = N_Ready then persist_event g (NodeReady (ln_id node) (ln_spec node)) db else db)"

definition reemit_ready_nodes :: "graph_id \<Rightarrow> lattice_db \<Rightarrow> lattice_db" where
  "reemit_ready_nodes g db = notify_graph g (emit_ready g (get_nodes db g) db)"

subsection \<open>Growing a graph\<close>

text \<open>
  \<open>add_node\<close> drops what \<open>check_and_ready\<close> returns (\<^verbatim>\<open>let _ = ..\<close>), errors and gather outputs alike; only
  its effect on the tables stays. \<open>add_edge\<close> does the same after it has routed the tokens of a complete
  source over the new edge.
\<close>

definition add_node :: "graph_id \<Rightarrow> node_id option \<Rightarrow> node_spec \<Rightarrow> node_id \<Rightarrow> node_id lattice_op" where
  "add_node g hint spec uuid db =
     (let id = (case hint of Some i \<Rightarrow> i | None \<Rightarrow> uuid) in
      if row_by nr_id id (db_nodes db) \<noteq> None
         \<or> (db_foreign_keys db \<and> row_by gr_id g (db_graphs db) = None)
      then (Inl (Sql_Error ''Failed to add node''), db)
      else
        let db1 = db\<lparr>db_nodes := db_nodes db @
              [\<lparr>nr_id = id, nr_graph = g, nr_spec = spec, nr_status = N_Pending, nr_output = None,
                nr_error = None, nr_created_at = db_clock db, nr_completed_at = None, nr_join = ''all''\<rparr>]\<rparr>
        in if get_graph_status db1 g = Inr G_Running then (Inr id, snd (check_and_ready g id db1))
           else (Inr id, db1))"

definition node_in_graph :: "lattice_db \<Rightarrow> node_id \<Rightarrow> graph_id \<Rightarrow> bool" where
  "node_in_graph db n g \<longleftrightarrow> 0 < count_where (\<lambda>r. nr_id r = n \<and> nr_graph r = g) (db_nodes db)"

fun deliver_all :: "string \<Rightarrow> graph_id \<Rightarrow> edge_condition option \<Rightarrow> token list \<Rightarrow> unit lattice_op" where
  "deliver_all e g cond [] db = (Inr (), db)"
| "deliver_all e g cond (tok # toks) db =
     (if edge_accepts cond tok
      then bind_res (deliver_token e g tok (count_tokens_on_edge db e + 1) db)
             (\<lambda>_ db1. deliver_all e g cond toks db1)
      else deliver_all e g cond toks db)"

definition add_edge ::
  "graph_id \<Rightarrow> node_id \<Rightarrow> node_id \<Rightarrow> edge_condition option \<Rightarrow> string \<Rightarrow> unit lattice_op" where
  "add_edge g from to cond uuid db =
     (if \<not> node_in_graph db from g then (Inl (Node_Not_In_Graph from g), db)
      else if \<not> node_in_graph db to g then (Inl (Node_Not_In_Graph to g), db)
      else if row_by er_id uuid (db_edges db) \<noteq> None
              \<or> (db_foreign_keys db \<and> row_by gr_id g (db_graphs db) = None)
      then (Inl (Sql_Error ''Failed to add edge''), db)
      else
        let db1 = db\<lparr>db_edges := db_edges db @
              [\<lparr>er_id = uuid, er_graph = g, er_from = from, er_to = to, er_condition = cond\<rparr>]\<rparr>
        in if get_graph_status db1 g = Inr G_Running then
             (case get_node db1 from of
                Inl _ \<Rightarrow> (Inr (), db1)
              | Inr src \<Rightarrow>
                  if ln_status src = N_Complete then
                    bind_res (deliver_all uuid g cond (produce_tokens (ln_output src) None) db1)
                      (\<lambda>_ db2. (Inr (), notify_graph g (snd (check_and_ready g to db2))))
                  else (Inr (), db1))
           else (Inr (), db1))"

end
