(* ===== verification/Lattice_Frame.thy ===== *)
theory Lattice_Frame
  imports Lattice_Engine
begin

text \<open>
  What the engine writes. Every operation of the transition logic is a sequence of five primitive
  writes (a node status, a graph status, an event, a notification, a token delivery); a property that
  the five keep is kept by every operation. The first use is the frame: the engine never touches the
  structure of a graph, and it only appends to the token and the event table.
\<close>

named_theorems writes

subsection \<open>Primitive writes\<close>

inductive engine_write :: "lattice_db \<Rightarrow> lattice_db \<Rightarrow> bool" where
  write_node: "engine_write db (set_node_status n st out err db)"
| write_graph: "engine_write db (update_graph_status g gst db)"
| write_event: "engine_write db (persist_event g ev db)"
| write_notify: "engine_write db (notify_graph g db)"
| write_token: "deliver_token e g tok (count_tokens_on_edge db e + 1) db = (Inr (), db') \<Longrightarrow> engine_write db db'"

abbreviation engine_writes :: "lattice_db \<Rightarrow> lattice_db \<Rightarrow> bool" where
  "engine_writes \<equiv> engine_write\<^sup>*\<^sup>*"

lemma writes_refl [writes]: "engine_writes db db"
  by simp

lemmas writes_trans = rtranclp_trans [of engine_write]

lemma writes_node: "engine_writes a b \<Longrightarrow> engine_writes a (set_node_status n st out err b)"
  by (erule rtranclp.rtrancl_into_rtrancl) (rule write_node)

lemma writes_graph: "engine_writes a b \<Longrightarrow> engine_writes a (update_graph_status g st b)"
  by (erule rtranclp.rtrancl_into_rtrancl) (rule write_graph)

lemma writes_event: "engine_writes a b \<Longrightarrow> engine_writes a (persist_event g ev b)"
  by (erule rtranclp.rtrancl_into_rtrancl) (rule write_event)

lemma writes_notify: "engine_writes a b \<Longrightarrow> engine_writes a (notify_graph g b)"
  by (erule rtranclp.rtrancl_into_rtrancl) (rule write_notify)

lemmas writes_intros = writes_refl writes_node writes_graph writes_event writes_notify

lemma writes_make_ready: "engine_writes a b \<Longrightarrow> engine_writes a (make_ready g n spec b)"
  by (simp add: make_ready_def writes_intros)

lemma deliver_token_cases:
  "deliver_token e g tok seq db = (r, db') \<Longrightarrow> (db' = db \<and> (\<exists>er. r = Inl er)) \<or>
     (r = Inr () \<and> db' = db\<lparr>db_tokens := db_tokens db @
        [\<lparr>tr_edge = e, tr_graph = g, tr_token = tok, tr_seq = seq\<rparr>]\<rparr>)"
  by (auto simp: deliver_token_def split: if_splits)

lemma writes_deliver:
  "engine_writes db (snd (deliver_token e g tok (count_tokens_on_edge db e + 1) db))"
  by (cases "deliver_token e g tok (count_tokens_on_edge db e + 1) db")
     (auto dest: deliver_token_cases intro: r_into_rtranclp write_token)

text \<open>
  What enabling and routing keep: a property that survives the statuses they set (on nodes that are
  \<open>Pending\<close> or \<open>Complete\<close>), the \<open>NodeReady\<close> events they log and the tokens they deliver.
\<close>

definition unsettled :: "lattice_db \<Rightarrow> node_id \<Rightarrow> bool" where
  "unsettled db n \<longleftrightarrow> (\<exists>node. get_node db n = Inr node \<and> (ln_status node = N_Pending \<or> ln_status node = N_Complete))"

lemma check_and_ready_keeps_at:
  assumes "P db" and "\<And>node. P db \<Longrightarrow> get_node db n = Inr node \<Longrightarrow> unsettled db n \<Longrightarrow> is_gather (ln_spec node) \<Longrightarrow>
      P (set_node_status n N_Running None None db)"
    and "\<And>node. P db \<Longrightarrow> get_node db n = Inr node \<Longrightarrow> unsettled db n \<Longrightarrow> P (make_ready g n (ln_spec node) db)"
  shows "P (snd (check_and_ready g n db))"
  using assms by (auto simp: check_and_ready_def unsettled_def split: sum.splits node_spec.splits)

lemma route_edges_keeps_at:
  assumes "P db" and set: "\<And>d n node. P d \<Longrightarrow> get_node d n = Inr node \<Longrightarrow> unsettled d n \<Longrightarrow> is_gather (ln_spec node) \<Longrightarrow>
      n \<in> (fst \<circ> snd) ` set es \<Longrightarrow> P (set_node_status n N_Running None None d)"
    and ready: "\<And>d n node. P d \<Longrightarrow> get_node d n = Inr node \<Longrightarrow> unsettled d n \<Longrightarrow> n \<in> (fst \<circ> snd) ` set es \<Longrightarrow>
      P (make_ready g n (ln_spec node) d)"
    and token: "\<And>d e d'. P d \<Longrightarrow> deliver_token e g tok (count_tokens_on_edge d e + 1) d = (Inr (), d') \<Longrightarrow> P d'"
  shows "P (snd (route_edges g tok es acc db))"
  using assms(1-3)
proof (induction es arbitrary: acc db)
  case (Cons x es)
  obtain e to cond where x: "x = (e, to, cond)" by (cases x)
  obtain queue any where acc: "acc = (queue, any)" by (cases acc)
  have IH: "P (snd (route_edges g tok es acc d))" if "P d" for acc d
    using that Cons.IH [of d acc] Cons.prems(2,3) by simp
  show ?case
  proof (cases "edge_accepts cond tok")
    case True
    obtain r db1 where d: "deliver_token e g tok (count_tokens_on_edge db e + 1) db = (r, db1)" by fastforce
    show ?thesis
    proof (cases r)
      case (Inl er)
      then have "db1 = db" using deliver_token_cases [OF d] by auto
      with Inl d True Cons.prems show ?thesis by (simp add: x acc)
    next
      case (Inr u)
      then have 1: "P db1" using token Cons.prems d by simp
      obtain r2 db2 where c: "check_and_ready g to db1 = (r2, db2)" by fastforce
      have "P db2" using check_and_ready_keeps_at [of P db1 to g, OF 1] Cons.prems(2,3) c by (simp add: x)
      then show ?thesis using IH True d c Inr by (cases r2) (simp_all add: x acc)
    qed
  qed (use Cons IH in \<open>simp add: x acc\<close>)
qed simp

lemma route_tokens_keeps_at:
  assumes "P db" and "\<And>d n node. P d \<Longrightarrow> get_node d n = Inr node \<Longrightarrow> unsettled d n \<Longrightarrow> is_gather (ln_spec node) \<Longrightarrow>
      n \<in> (fst \<circ> snd) ` set es \<Longrightarrow> P (set_node_status n N_Running None None d)"
    and "\<And>d n node. P d \<Longrightarrow> get_node d n = Inr node \<Longrightarrow> unsettled d n \<Longrightarrow> n \<in> (fst \<circ> snd) ` set es \<Longrightarrow>
      P (make_ready g n (ln_spec node) d)"
    and "\<And>d e tok d'. P d \<Longrightarrow> deliver_token e g tok (count_tokens_on_edge d e + 1) d = (Inr (), d') \<Longrightarrow> P d'"
  shows "P (snd (route_tokens g toks es acc db))"
  using assms(1)
proof (induction toks arbitrary: acc db)
  case (Cons tok toks)
  have "P (snd (route_edges g tok es acc db))"
    by (rule route_edges_keeps_at [where P = P]) (rule Cons.prems assms(2-4); assumption)+
  then show ?case
    using Cons.IH by (cases "route_edges g tok es acc db"; cases "fst (route_edges g tok es acc db)") auto
qed simp

text \<open>The same without regard to where the statuses are set.\<close>

lemma check_and_ready_keeps:
  assumes "P db" and "\<And>d n. P d \<Longrightarrow> unsettled d n \<Longrightarrow> P (set_node_status n N_Running None None d)"
    and "\<And>d n spec. P d \<Longrightarrow> unsettled d n \<Longrightarrow> P (make_ready g n spec d)"
  shows "P (snd (check_and_ready g n db))"
  by (rule check_and_ready_keeps_at [where P = P]) (rule assms; assumption)+

lemma route_tokens_keeps:
  assumes "P db" and "\<And>d n. P d \<Longrightarrow> unsettled d n \<Longrightarrow> P (set_node_status n N_Running None None d)"
    and "\<And>d n spec. P d \<Longrightarrow> unsettled d n \<Longrightarrow> P (make_ready g n spec d)"
    and "\<And>d e tok d'. P d \<Longrightarrow> deliver_token e g tok (count_tokens_on_edge d e + 1) d = (Inr (), d') \<Longrightarrow> P d'"
  shows "P (snd (route_tokens g toks es acc db))"
  by (rule route_tokens_keeps_at [where P = P]) (rule assms; assumption)+

lemma writes_check_and_ready: "engine_writes db (snd (check_and_ready g n db))"
  by (rule check_and_ready_keeps) (auto intro: writes_make_ready writes_intros)

lemma writes_token:
  "engine_writes a d \<Longrightarrow> deliver_token e g tok (count_tokens_on_edge d e + 1) d = (Inr (), d') \<Longrightarrow> engine_writes a d'"
  by (meson rtranclp.rtrancl_into_rtrancl write_token)

lemma writes_route_edges: "engine_writes db (snd (route_edges g tok es acc db))"
  by (rule route_edges_keeps_at) (blast intro: writes_make_ready writes_intros writes_token)+

lemma writes_route_tokens: "engine_writes db (snd (route_tokens g toks es acc db))"
  by (rule route_tokens_keeps) (blast intro: writes_make_ready writes_intros writes_token)+

lemma writes_record_outcome: "engine_writes db (record_outcome g n out err db)"
  by (auto simp: record_outcome_def writes_intros split: option.splits)

lemma writes_fail_graph: "engine_writes a b \<Longrightarrow> engine_writes a (fail_graph g n msg b)"
  by (simp add: fail_graph_def writes_intros)

lemma writes_complete_if_all_done: "engine_writes a b \<Longrightarrow> engine_writes a (complete_if_all_done g b)"
  by (simp add: complete_if_all_done_def writes_intros Let_def)

fun outcome_db :: "step_outcome \<Rightarrow> lattice_db" where
  "outcome_db (Continue _ db) = db"
| "outcome_db (Return _ db) = db"

lemma writes_advance_step: "engine_writes db (outcome_db (advance_step g w queue db))"
proof -
  obtain n out err where w: "w = (n, out, err)" by (cases w)
  let ?db1 = "record_outcome g n out err db"
  have 1: "engine_writes db ?db1" by (rule writes_record_outcome)
  have "engine_writes ?db1 (snd (route_tokens g (produce_tokens out err)
     (get_outbound_edges_with_conditions ?db1 n) (queue, False) ?db1))"
    by (rule writes_route_tokens)
  with 1 have "engine_writes db (snd (route_tokens g (produce_tokens out err)
     (get_outbound_edges_with_conditions ?db1 n) (queue, False) ?db1))"
    by (rule writes_trans)
  then show ?thesis
    by (auto simp: w advance_step_def Let_def writes_fail_graph split: sum.splits prod.splits)
qed

text \<open>Partial correctness of the loop: what every step keeps, the returned state has.\<close>

lemma advance_loop_rule:
  assumes ret: "advance_loop g queue db = Some (r, db')"
    and init: "I queue db"
    and step: "\<And>w rest db q1 db1. I (w # rest) db \<Longrightarrow> advance_step g w rest db = Continue q1 db1 \<Longrightarrow> I q1 db1"
    and stop: "\<And>w rest db r db1. I (w # rest) db \<Longrightarrow> advance_step g w rest db = Return r db1 \<Longrightarrow> Q r db1"
    and fin: "\<And>db. I [] db \<Longrightarrow> Q (Inr ()) (complete_if_all_done g db)"
  shows "Q r db'"
proof -
  have "g = g \<longrightarrow> I queue db \<longrightarrow> Q (fst (r, db')) (snd (r, db'))"
  proof (rule advance_loop.raw_induct
      [where P = "\<lambda>g' q d res. g' = g \<longrightarrow> I q d \<longrightarrow> Q (fst res) (snd res)", OF _ ret], goal_cases)
    case (1 f g' q d res)
    show ?case
    proof (intro impI)
      assume g: "g' = g" and I: "I q d"
      show "Q (fst res) (snd res)"
      proof (cases q)
        case Nil
        with 1(2) g I fin show ?thesis by auto
      next
        case (Cons w rest)
        show ?thesis
        proof (cases "advance_step g w rest d")
          case (Continue q1 d1)
          have "I q1 d1" using I Cons Continue by (auto intro: step)
          moreover have "f g q1 d1 = Some res" using 1(2) g Cons Continue by simp
          ultimately show ?thesis using 1(1) by blast
        next
          case (Return r1 d1)
          have "Q r1 d1" using I Cons Return by (auto intro: stop)
          moreover have "res = (r1, d1)" using 1(2) g Cons Return by simp
          ultimately show ?thesis by simp
        qed
      qed
    qed
  qed
  with init show ?thesis by simp
qed

lemma writes_advance_graph:
  assumes "advance_graph g n out err db = Some (r, db')"
  shows "engine_writes db db'"
proof (rule advance_loop_rule [where I = "\<lambda>_ d. engine_writes db d" and Q = "\<lambda>_ d. engine_writes db d"])
  show "advance_loop g [(n, out, err)] db = Some (r, db')"
    using assms by (simp add: advance_graph_def)
next
  fix w rest d q1 d1
  assume "engine_writes db d" "advance_step g w rest d = Continue q1 d1"
  then show "engine_writes db d1" using writes_advance_step [of d g w rest] by (auto intro: writes_trans)
next
  fix w rest d r d1
  assume "engine_writes db d" "advance_step g w rest d = Return r d1"
  then show "engine_writes db d1" using writes_advance_step [of d g w rest] by (auto intro: writes_trans)
qed (simp_all add: writes_complete_if_all_done)

lemma writes_seed_roots: "engine_writes a b \<Longrightarrow> engine_writes a (seed_roots g roots b)"
  by (induction roots arbitrary: b) (auto simp: writes_make_ready)

lemma writes_emit_ready: "engine_writes a b \<Longrightarrow> engine_writes a (emit_ready g ns b)"
  by (induction ns arbitrary: b) (auto simp: writes_event)

lemma writes_reemit: "engine_writes db (reemit_ready_nodes g db)"
  by (simp add: reemit_ready_nodes_def writes_intros writes_emit_ready)

lemma writes_reset_running: "engine_writes db (snd (reset_running_to_ready g n db))"
  by (auto simp: reset_running_to_ready_def writes_intros writes_make_ready split: sum.splits)

lemma writes_deliver_all: "engine_writes db (snd (deliver_all e g cond toks db))"
proof (induction toks arbitrary: db)
  case (Cons tok toks)
  have "engine_writes db (snd (deliver_token e g tok (count_tokens_on_edge db e + 1) db))"
    by (rule writes_deliver)
  then show ?case
    using Cons.IH by (cases "deliver_token e g tok (count_tokens_on_edge db e + 1) db";
        cases "fst (deliver_token e g tok (count_tokens_on_edge db e + 1) db)") (auto intro: writes_trans)
qed simp

subsection \<open>The frame of an engine operation\<close>

definition node_shape :: "node_row \<Rightarrow> node_id \<times> graph_id \<times> node_spec \<times> int \<times> string" where
  "node_shape r = (nr_id r, nr_graph r, nr_spec r, nr_created_at r, nr_join r)"

definition frame :: "lattice_db \<Rightarrow> lattice_db \<Rightarrow> bool" where
  "frame db db' \<longleftrightarrow>
     map node_shape (db_nodes db') = map node_shape (db_nodes db) \<and>
     db_edges db' = db_edges db \<and>
     map gr_id (db_graphs db') = map gr_id (db_graphs db) \<and>
     (\<exists>ts. db_tokens db' = db_tokens db @ ts) \<and>
     (\<exists>evs. db_events db' = db_events db @ evs) \<and>
     db_clock db' = db_clock db \<and> db_foreign_keys db' = db_foreign_keys db"

lemma frame_refl: "frame db db"
  by (simp add: frame_def)

lemma frame_trans: "frame a b \<Longrightarrow> frame b c \<Longrightarrow> frame a c"
  by (auto simp: frame_def)

lemma node_shape_status [simp]:
  "node_shape (r\<lparr>nr_status := st, nr_output := out, nr_error := err, nr_completed_at := c\<rparr>) = node_shape r"
  by (simp add: node_shape_def)

lemma engine_write_frame: "engine_write db db' \<Longrightarrow> frame db db'"
proof (induction rule: engine_write.induct)
  case (write_token e g tok db db')
  then show ?case by (auto simp: frame_def dest: deliver_token_cases)
qed (auto simp: frame_def set_node_status_def update_graph_status_def persist_event_def notify_graph_def
      map_key_update_where split: option.splits)

lemma engine_writes_frame: "engine_writes db db' \<Longrightarrow> frame db db'"
  by (induction rule: rtranclp_induct) (auto intro: frame_refl frame_trans engine_write_frame)

lemmas frame_of_advance = engine_writes_frame [OF writes_advance_graph]

lemma frame_edges: "frame db db' \<Longrightarrow> db_edges db' = db_edges db"
  by (simp add: frame_def)

lemma frame_node_ids: "frame db db' \<Longrightarrow> map nr_id (db_nodes db') = map nr_id (db_nodes db)"
proof -
  assume "frame db db'"
  then have "map fst (map node_shape (db_nodes db')) = map fst (map node_shape (db_nodes db))"
    by (simp add: frame_def)
  then show ?thesis by (simp add: node_shape_def comp_def)
qed

lemma row_by_shape:
  "map node_shape rs = map node_shape rs' \<Longrightarrow>
   map_option node_shape (row_by nr_id n rs) = map_option node_shape (row_by nr_id n rs')"
proof (induction rs arbitrary: rs')
  case (Cons r rs)
  then obtain r' rs1 where rs': "rs' = r' # rs1" and r: "node_shape r = node_shape r'"
    and rs1: "map node_shape rs = map node_shape rs1" by (cases rs') auto
  have "map_option node_shape (row_by nr_id n rs) = map_option node_shape (row_by nr_id n rs1)"
    by (rule Cons.IH) (rule rs1)
  moreover have "nr_id r = nr_id r'" using r by (simp add: node_shape_def)
  ultimately show ?case using r by (simp add: rs')
qed simp

lemma frame_row:
  assumes "frame db db'"
  shows "map_option node_shape (row_by nr_id n (db_nodes db')) = map_option node_shape (row_by nr_id n (db_nodes db))"
  using assms by (auto simp: frame_def intro: row_by_shape)

lemma frame_row_Some:
  assumes "frame db db'" and "row_by nr_id n (db_nodes db) = Some r"
  obtains r' where "row_by nr_id n (db_nodes db') = Some r'" "nr_id r' = nr_id r"
    "nr_graph r' = nr_graph r" "nr_spec r' = nr_spec r"
proof -
  have "map_option node_shape (row_by nr_id n (db_nodes db')) = Some (node_shape r)"
    using frame_row [OF assms(1), of n] assms(2) by simp
  then obtain r' where "row_by nr_id n (db_nodes db') = Some r'" "node_shape r' = node_shape r"
    by (cases "row_by nr_id n (db_nodes db')") auto
  then show ?thesis by (intro that [of r']) (simp_all add: node_shape_def)
qed

end
