(* ===== verification/Lattice_Invariant.thy ===== *)
theory Lattice_Invariant
  imports Lattice_Frame
begin

text \<open>
  Well-formedness of the Lattice tables (unique keys, edges between nodes of their own graph,
  per-edge token numbers \<open>1..k\<close>, event numbers \<open>1..n\<close>), its preservation by every operation of the
  storage, and what it buys: on well-formed tables no engine operation returns an error.
\<close>

subsection \<open>Well-formed tables\<close>

definition token_seqs :: "lattice_db \<Rightarrow> string \<Rightarrow> int list" where
  "token_seqs db e = map tr_seq (filter (\<lambda>t. tr_edge t = e) (db_tokens db))"

definition numbered :: "int list \<Rightarrow> bool" where
  "numbered xs \<longleftrightarrow> xs = map int [1..<Suc (length xs)]"

definition keys_distinct :: "lattice_db \<Rightarrow> bool" where
  "keys_distinct db \<longleftrightarrow> distinct (map gr_id (db_graphs db)) \<and> distinct (map nr_id (db_nodes db)) \<and>
     distinct (map er_id (db_edges db))"

definition edges_closed :: "lattice_db \<Rightarrow> bool" where
  "edges_closed db \<longleftrightarrow> (\<forall>e \<in> set (db_edges db).
     node_in_graph db (er_from e) (er_graph e) \<and> node_in_graph db (er_to e) (er_graph e))"

definition tokens_numbered :: "lattice_db \<Rightarrow> bool" where
  "tokens_numbered db \<longleftrightarrow> (\<forall>e. numbered (token_seqs db e))"

definition events_numbered :: "lattice_db \<Rightarrow> bool" where
  "events_numbered db \<longleftrightarrow> numbered (map ev_seq (db_events db)) \<and> db_next_seq db = int (length (db_events db)) + 1"

definition wf_db :: "lattice_db \<Rightarrow> bool" where
  "wf_db db \<longleftrightarrow> keys_distinct db \<and> edges_closed db \<and> tokens_numbered db \<and> events_numbered db"

lemmas wf_db_defs = wf_db_def keys_distinct_def edges_closed_def tokens_numbered_def events_numbered_def

lemma numbered_Nil [simp]: "numbered []"
  by (simp add: numbered_def)

lemma numbered_snoc [simp]: "numbered (xs @ [x]) \<longleftrightarrow> numbered xs \<and> x = int (length xs) + 1"
  by (auto simp: numbered_def)

lemma numbered_le: "numbered xs \<Longrightarrow> x \<in> set xs \<Longrightarrow> 1 \<le> x \<and> x \<le> int (length xs)"
proof -
  assume "numbered xs" "x \<in> set xs"
  then have "x \<in> set (map int [1..<Suc (length xs)])" by (simp add: numbered_def)
  then show ?thesis by auto
qed

lemma numbered_sorted: "numbered xs \<Longrightarrow> sorted xs \<and> distinct xs"
proof -
  assume "numbered xs"
  then obtain n where "xs = map int [1..<n]" unfolding numbered_def by blast
  then show ?thesis by (simp add: sorted_map distinct_map inj_on_def)
qed

lemma token_seqs_length: "int (length (token_seqs db e)) = count_tokens_on_edge db e"
  by (simp add: token_seqs_def count_tokens_on_edge_def count_where_def)

lemma wf_empty_db: "wf_db (empty_db fk)"
  by (simp add: wf_db_defs empty_db_def token_seqs_def)

subsection \<open>Preservation by the primitive writes\<close>

lemma node_in_graph_shape:
  assumes "map node_shape (db_nodes db') = map node_shape (db_nodes db)"
  shows "node_in_graph db' n g = node_in_graph db n g"
proof -
  have *: "node_in_graph d n g \<longleftrightarrow> (\<exists>s \<in> set (map node_shape (db_nodes d)). fst s = n \<and> fst (snd s) = g)" for d
    by (auto simp: node_shape_def node_in_graph_def count_where_pos_iff)
  show ?thesis unfolding * assms by (rule refl)
qed

lemma frame_node_in_graph: "frame db db' \<Longrightarrow> node_in_graph db' n g = node_in_graph db n g"
  by (rule node_in_graph_shape) (simp add: frame_def)

lemma frame_keys: "frame db db' \<Longrightarrow> keys_distinct db \<Longrightarrow> edges_closed db \<Longrightarrow> keys_distinct db' \<and> edges_closed db'"
  by (simp add: keys_distinct_def edges_closed_def frame_node_in_graph frame_edges frame_node_ids)
     (simp add: frame_def)

lemma deliver_token_next:
  assumes "tokens_numbered db"
  shows "deliver_token e g tok (count_tokens_on_edge db e + 1) db =
    (Inr (), db\<lparr>db_tokens := db_tokens db @
        [\<lparr>tr_edge = e, tr_graph = g, tr_token = tok, tr_seq = count_tokens_on_edge db e + 1\<rparr>]\<rparr>)"
proof -
  have "tr_seq t \<le> count_tokens_on_edge db e" if "t \<in> set (db_tokens db)" "tr_edge t = e" for t
  proof -
    have "tr_seq t \<in> set (token_seqs db e)" using that by (auto simp: token_seqs_def)
    moreover have "numbered (token_seqs db e)" using assms by (simp add: tokens_numbered_def)
    ultimately show ?thesis using numbered_le token_seqs_length by fastforce
  qed
  then show ?thesis by (fastforce simp: deliver_token_def)
qed

lemma engine_write_wf: "engine_write db db' \<Longrightarrow> wf_db db \<Longrightarrow> wf_db db'"
proof -
  assume w: "engine_write db db'" and wf: "wf_db db"
  have "keys_distinct db' \<and> edges_closed db'"
    using frame_keys [OF engine_write_frame [OF w]] wf by (simp add: wf_db_def)
  moreover have "tokens_numbered db' \<and> events_numbered db'"
    using w wf
  proof cases
    case (write_token e g tok)
    then have "db' = db\<lparr>db_tokens := db_tokens db @
        [\<lparr>tr_edge = e, tr_graph = g, tr_token = tok, tr_seq = count_tokens_on_edge db e + 1\<rparr>]\<rparr>"
      using deliver_token_cases by fastforce
    with wf show ?thesis
      by (auto simp: wf_db_def tokens_numbered_def token_seqs_def count_tokens_on_edge_def
          count_where_def events_numbered_def)
  qed (auto simp: wf_db_defs token_seqs_def set_node_status_def update_graph_status_def
        persist_event_def notify_graph_def split: option.splits)
  ultimately show ?thesis by (simp add: wf_db_def)
qed

lemma engine_writes_wf: "engine_writes db db' \<Longrightarrow> wf_db db \<Longrightarrow> wf_db db'"
  by (induction rule: rtranclp_induct) (auto intro: engine_write_wf)

subsection \<open>No errors on well-formed tables\<close>

definition node_exists :: "lattice_db \<Rightarrow> node_id \<Rightarrow> bool" where
  "node_exists db n \<longleftrightarrow> row_by nr_id n (db_nodes db) \<noteq> None"

lemma node_in_graph_exists: "node_in_graph db n g \<Longrightarrow> node_exists db n"
  by (auto simp: node_in_graph_def count_where_pos_iff node_exists_def row_by_None_iff)

lemma frame_node_exists: "frame db db' \<Longrightarrow> node_exists db' n = node_exists db n"
  using frame_row [of db db' n] unfolding node_exists_def by (metis option.map_disc_iff)

lemma get_node_exists: "node_exists db n \<Longrightarrow> \<exists>r. row_by nr_id n (db_nodes db) = Some r \<and> get_node db n = Inr (select_node r)"
  by (auto simp: node_exists_def get_node_def)

lemma check_and_ready_ok: "node_exists db n \<Longrightarrow> \<exists>out db'. check_and_ready g n db = (Inr out, db')"
  by (auto dest!: get_node_exists simp: check_and_ready_def split: node_spec.splits)

lemma route_edges_ok:
  assumes "wf_db db" and "\<forall>(e, to, c) \<in> set es. node_exists db to"
  shows "\<exists>acc'. fst (route_edges g tok es acc db) = Inr acc'"
  using assms
proof (induction g tok es acc db rule: route_edges.induct)
  case (2 g tok e to cond es queue any db)
  show ?case
  proof (cases "edge_accepts cond tok")
    case True
    let ?d = "deliver_token e g tok (count_tokens_on_edge db e + 1) db"
    obtain db1 where d1: "?d = (Inr (), db1)"
      using deliver_token_next "2.prems"(1) by (auto simp: wf_db_def)
    have w1: "engine_writes db db1" using d1 by (auto intro: write_token)
    have ex: "node_exists db1 to" using "2.prems"(2) engine_writes_frame [OF w1] by (simp add: frame_node_exists)
    then obtain out db2 where c: "check_and_ready g to db1 = (Inr out, db2)" using check_and_ready_ok by blast
    have w2: "engine_writes db1 db2" using writes_check_and_ready [of db1 g to] c by simp
    have "wf_db db2" using engine_writes_wf w1 w2 "2.prems"(1) by blast
    moreover have "\<forall>(e, to, c) \<in> set es. node_exists db2 to"
      using "2.prems"(2) frame_trans [OF engine_writes_frame [OF w1] engine_writes_frame [OF w2]]
      by (auto simp: frame_node_exists)
    ultimately have "\<exists>acc'. fst (route_edges g tok es
            (case out of None \<Rightarrow> queue | Some oo \<Rightarrow> (to, Some oo, None) # queue, True) db2) = Inr acc'"
      using "2.IH"(1) [OF True] by blast
    with True d1 c show ?thesis by simp
  next
    case False
    with "2.IH"(2) "2.prems" show ?thesis by simp
  qed
qed simp

lemma route_tokens_ok:
  assumes "wf_db db" and "\<forall>(e, to, c) \<in> set es. node_exists db to"
  shows "\<exists>acc'. fst (route_tokens g toks es acc db) = Inr acc'"
  using assms
proof (induction toks arbitrary: acc db)
  case (Cons tok toks)
  obtain acc1 db1 where r: "route_edges g tok es acc db = (Inr acc1, db1)"
    using route_edges_ok [OF Cons.prems] by (metis prod.collapse)
  have w: "engine_writes db db1" using writes_route_edges [of db g tok es acc] r by simp
  have "wf_db db1" using engine_writes_wf w Cons.prems(1) by blast
  moreover have "\<forall>(e, to, c) \<in> set es. node_exists db1 to"
    using Cons.prems(2) engine_writes_frame [OF w] by (auto simp: frame_node_exists)
  ultimately show ?case using Cons.IH r by simp
qed simp

lemma outbound_exist:
  assumes "wf_db db"
  shows "\<forall>(e, to, c) \<in> set (get_outbound_edges_with_conditions db n). node_exists db to"
  using assms by (fastforce simp: wf_db_def edges_closed_def get_outbound_edges_with_conditions_def
      intro: node_in_graph_exists)

lemma advance_step_ok:
  assumes "wf_db db" and "advance_step g w queue db = Return r db'"
  shows "r = Inr ()"
proof -
  obtain n out err where w: "w = (n, out, err)" by (cases w)
  let ?db1 = "record_outcome g n out err db"
  have "wf_db ?db1" using engine_writes_wf writes_record_outcome assms(1) by blast
  then obtain acc' where "fst (route_tokens g (produce_tokens out err)
     (get_outbound_edges_with_conditions ?db1 n) (queue, False) ?db1) = Inr acc'"
    using route_tokens_ok outbound_exist by blast
  with assms(2) show ?thesis
    by (auto simp: w advance_step_def Let_def split: sum.splits prod.splits if_splits)
qed

lemma outcome_step_wf: "wf_db db \<Longrightarrow> wf_db (outcome_db (advance_step g w queue db))"
  using engine_writes_wf writes_advance_step by blast

lemma advance_loop_ok:
  assumes "advance_loop g queue db = Some (r, db')" and "wf_db db"
  shows "r = Inr ()"
proof (rule advance_loop_rule [where I = "\<lambda>_. wf_db" and Q = "\<lambda>r _. r = Inr ()", OF assms(1)])
  fix w rest d q1 d1
  assume "wf_db d" "advance_step g w rest d = Continue q1 d1"
  then show "wf_db d1" using outcome_step_wf [of d g w rest] by simp
qed (use assms in \<open>auto dest: advance_step_ok\<close>)

end
