(* ===== verification/Lattice_Reach.thy ===== *)
theory Lattice_Reach
  imports Lattice_Invariant
begin

text \<open>
  All operations of the storage as one step relation, the states they reach, and the invariants of
  those states: the tables are well-formed, and the event table is an append-only log numbered from 1.
\<close>

subsection \<open>Well-formedness is kept by the growing operations\<close>

lemma wf_db_irrelevant [simp]:
  "wf_db (db\<lparr>db_notifiers := x\<rparr>) = wf_db db"
  "wf_db (db\<lparr>db_clock := t\<rparr>) = wf_db db"
  by (simp_all add: wf_db_defs token_seqs_def node_in_graph_def)

lemma wf_db_graphs: "wf_db db \<Longrightarrow> wf_db (db\<lparr>db_graphs := gs\<rparr>) = distinct (map gr_id gs)"
  by (auto simp: wf_db_defs token_seqs_def node_in_graph_def)

lemma wf_db_distinct_graphs: "wf_db db \<Longrightarrow> distinct (map gr_id (db_graphs db))"
  by (simp add: wf_db_def keys_distinct_def)

lemma wf_create_graph: "wf_db db \<Longrightarrow> wf_db (snd (create_graph m u db))"
  by (auto simp: create_graph_def Let_def row_by_None_iff wf_db_graphs wf_db_distinct_graphs)

lemma wf_create_child_graph: "wf_db db \<Longrightarrow> wf_db (snd (create_child_graph p m u db))"
  by (auto simp: create_child_graph_def Let_def row_by_None_iff wf_db_graphs wf_db_distinct_graphs)

lemma wf_append_node:
  assumes "wf_db db" and "row_by nr_id (nr_id r) (db_nodes db) = None"
  shows "wf_db (db\<lparr>db_nodes := db_nodes db @ [r]\<rparr>)"
  using assms by (auto simp: wf_db_defs token_seqs_def node_in_graph_def row_by_None_iff)

lemma wf_append_edge:
  assumes "wf_db db" and "row_by er_id (er_id e) (db_edges db) = None"
    and "node_in_graph db (er_from e) (er_graph e)" and "node_in_graph db (er_to e) (er_graph e)"
  shows "wf_db (db\<lparr>db_edges := db_edges db @ [e]\<rparr>)"
  using assms by (auto simp: wf_db_defs token_seqs_def node_in_graph_def row_by_None_iff)

lemma wf_check_and_ready: "wf_db db \<Longrightarrow> wf_db (snd (check_and_ready g n db))"
  using engine_writes_wf writes_check_and_ready by blast

lemma wf_add_node: "wf_db db \<Longrightarrow> wf_db (snd (add_node g hint spec uuid db))"
  by (auto simp: add_node_def Let_def intro!: wf_append_node wf_check_and_ready)

lemma wf_deliver_all: "wf_db db \<Longrightarrow> wf_db (snd (deliver_all e g cond toks db))"
  using engine_writes_wf writes_deliver_all by blast

lemma wf_notify: "wf_db db \<Longrightarrow> wf_db (notify_graph g db)"
  using engine_write_wf write_notify by blast

lemma wf_bind:
  "wf_db (snd r) \<Longrightarrow> (\<And>x d. wf_db d \<Longrightarrow> wf_db (snd (k x d))) \<Longrightarrow> wf_db (snd (bind_res r k))"
  by (cases r; cases "fst r") auto

lemma wf_add_edge: "wf_db db \<Longrightarrow> wf_db (snd (add_edge g from to cond uuid db))"
proof -
  assume wf: "wf_db db"
  let ?db1 = "db\<lparr>db_edges := db_edges db @
    [\<lparr>er_id = uuid, er_graph = g, er_from = from, er_to = to, er_condition = cond\<rparr>]\<rparr>"
  have 1: "wf_db ?db1" if "node_in_graph db from g" "node_in_graph db to g" "row_by er_id uuid (db_edges db) = None"
    using that wf by (intro wf_append_edge) simp_all
  have 2: "wf_db (snd (bind_res (deliver_all uuid g cond toks ?db1)
      (\<lambda>_ db2. (Inr (), notify_graph g (snd (check_and_ready g to db2))))))"
    if "wf_db ?db1" for toks
    using that by (intro wf_bind) (auto intro: wf_deliver_all wf_notify wf_check_and_ready)
  show ?thesis
    using 1 2 wf by (auto simp: add_edge_def Let_def split: sum.splits)
qed

lemma wf_start_graph: "wf_db db \<Longrightarrow> wf_db (start_graph g db)"
proof -
  assume wf: "wf_db db"
  let ?db1 = "db\<lparr>db_graphs := update_where (\<lambda>r. gr_id r = g \<and> gr_status r = G_Pending)
      (\<lambda>r. r\<lparr>gr_status := G_Running\<rparr>) (db_graphs db)\<rparr>"
  have "wf_db ?db1" using wf by (simp add: wf_db_graphs wf_db_distinct_graphs map_key_update_where)
  then have "engine_writes ?db1 d \<Longrightarrow> wf_db d" for d using engine_writes_wf by blast
  then show ?thesis using wf
    by (simp add: start_graph_def Let_def writes_intros writes_seed_roots)
qed

subsection \<open>The step relation\<close>

text \<open>
  \<open>set_node_status\<close>, \<open>update_graph_status\<close> and \<open>persist_event\<close> are public operations that Orcha calls
  directly, so they are steps on their own; \<open>ls_clock\<close> is the passing of time.
\<close>

inductive lattice_step :: "lattice_db \<Rightarrow> lattice_db \<Rightarrow> bool" where
  ls_create_graph: "lattice_step db (snd (create_graph m u db))"
| ls_create_child: "lattice_step db (snd (create_child_graph p m u db))"
| ls_add_node: "lattice_step db (snd (add_node g hint spec u db))"
| ls_add_edge: "lattice_step db (snd (add_edge g from to cond u db))"
| ls_start: "lattice_step db (start_graph g db)"
| ls_advance: "advance_graph g n out err db = Some (r, db') \<Longrightarrow> lattice_step db db'"
| ls_cancel: "lattice_step db (cancel g db)"
| ls_reset_running: "lattice_step db (snd (reset_running_to_ready g n db))"
| ls_reemit: "lattice_step db (reemit_ready_nodes g db)"
| ls_reset_pending: "lattice_step db (reset_node_to_pending n db)"
| ls_set_status: "lattice_step db (set_node_status n st out err db)"
| ls_graph_status: "lattice_step db (update_graph_status g gst db)"
| ls_persist: "lattice_step db (persist_event g ev db)"
| ls_notifier: "lattice_step db (get_or_create_notifier g db)"
| ls_notify: "lattice_step db (notify_graph g db)"
| ls_clock: "lattice_step db (db\<lparr>db_clock := t\<rparr>)"

inductive lattice_reachable :: "bool \<Rightarrow> lattice_db \<Rightarrow> bool" for fk where
  lr_init: "lattice_reachable fk (empty_db fk)"
| lr_step: "lattice_reachable fk db \<Longrightarrow> lattice_step db db' \<Longrightarrow> lattice_reachable fk db'"

lemma reset_pending_writes: "reset_node_to_pending n db = set_node_status n N_Pending None None db"
  by (simp add: reset_node_to_pending_def set_node_status_def)

lemma lattice_step_wf: "lattice_step db db' \<Longrightarrow> wf_db db \<Longrightarrow> wf_db db'"
proof (induction rule: lattice_step.induct)
  case (ls_advance g n out err db r db')
  then show ?case using engine_writes_wf writes_advance_graph by blast
next
  case (ls_reset_running db g n)
  then show ?case using engine_writes_wf writes_reset_running by blast
next
  case (ls_reemit db g)
  then show ?case using engine_writes_wf writes_reemit by blast
next
  case (ls_notifier db g)
  then show ?case by (simp add: get_or_create_notifier_def split: option.splits)
qed (auto simp: cancel_def reset_pending_writes wf_create_graph wf_create_child_graph wf_add_node wf_add_edge
      wf_start_graph wf_notify intro: engine_write_wf [OF write_node] engine_write_wf [OF write_graph]
        engine_write_wf [OF write_event])

lemma lattice_reachable_wf: "lattice_reachable fk db \<Longrightarrow> wf_db db"
  by (induction rule: lattice_reachable.induct) (auto intro: wf_empty_db lattice_step_wf)

subsection \<open>The event log only grows\<close>

definition log_extends :: "lattice_db \<Rightarrow> lattice_db \<Rightarrow> bool" where
  "log_extends db db' \<longleftrightarrow> (\<exists>evs. db_events db' = db_events db @ evs)"

lemma log_extends_trans: "log_extends a b \<Longrightarrow> log_extends b c \<Longrightarrow> log_extends a c"
  by (auto simp: log_extends_def)

lemma writes_log_extends: "engine_writes db db' \<Longrightarrow> log_extends db db'"
  using engine_writes_frame by (auto simp: frame_def log_extends_def)

lemma log_extends_same: "db_events db' = db_events db \<Longrightarrow> log_extends db db'"
  by (simp add: log_extends_def)

lemma log_extends_via:
  "db_events a = db_events b \<Longrightarrow> engine_writes b c \<Longrightarrow> log_extends a c"
  using writes_log_extends by (simp add: log_extends_def)

lemma log_add_edge: "log_extends db (snd (add_edge g from to cond u db))"
proof -
  let ?db1 = "db\<lparr>db_edges := db_edges db @
    [\<lparr>er_id = u, er_graph = g, er_from = from, er_to = to, er_condition = cond\<rparr>]\<rparr>"
  have "engine_writes ?db1 (snd (bind_res (deliver_all u g cond toks ?db1)
      (\<lambda>_ db2. (Inr (), notify_graph g (snd (check_and_ready g to db2))))))" for toks
    using writes_deliver_all [of ?db1 u g cond toks] writes_check_and_ready
    by (cases "deliver_all u g cond toks ?db1"; cases "fst (deliver_all u g cond toks ?db1)")
      (auto intro!: writes_notify intro: writes_trans)
  then have "log_extends db (snd (bind_res (deliver_all u g cond toks ?db1)
      (\<lambda>_ db2. (Inr (), notify_graph g (snd (check_and_ready g to db2))))))" for toks
    by (intro log_extends_via [of db ?db1]) simp_all
  then show ?thesis
    by (auto simp: add_edge_def Let_def log_extends_same split: sum.splits)
qed

lemma log_start_graph: "log_extends db (start_graph g db)"
proof -
  let ?db1 = "db\<lparr>db_graphs := update_where (\<lambda>r. gr_id r = g \<and> gr_status r = G_Pending)
      (\<lambda>r. r\<lparr>gr_status := G_Running\<rparr>) (db_graphs db)\<rparr>"
  have "engine_writes ?db1 d \<Longrightarrow> log_extends db d" for d
    by (rule log_extends_via [of db ?db1]) simp_all
  then show ?thesis
    by (simp add: start_graph_def Let_def log_extends_same writes_intros writes_seed_roots)
qed

lemma log_check_and_ready:
  "db_events b = db_events a \<Longrightarrow> log_extends a (snd (check_and_ready g n b))"
  using log_extends_via writes_check_and_ready by metis

lemma log_add_node: "log_extends db (snd (add_node g hint spec u db))"
  by (simp add: add_node_def Let_def log_extends_same log_check_and_ready)

lemma lattice_step_log: "lattice_step db db' \<Longrightarrow> log_extends db db'"
proof (induction rule: lattice_step.induct)
  case (ls_advance g n out err db r db')
  then show ?case using writes_log_extends writes_advance_graph by blast
qed (auto simp: cancel_def reset_pending_writes log_add_node log_add_edge log_start_graph
      create_graph_def create_child_graph_def get_or_create_notifier_def Let_def log_extends_same
      split: option.splits
      intro: writes_log_extends writes_intros writes_reset_running writes_reemit)

lemma events_seq: "wf_db db \<Longrightarrow> map ev_seq (db_events db) = map int [1..<Suc (length (db_events db))]"
  by (simp add: wf_db_def events_numbered_def numbered_def)

end
