(* ===== verification/Lattice_Status.thy ===== *)
theory Lattice_Status
  imports Lattice_Reach
begin

text \<open>
  The status of a node as the engine sees and changes it: what each primitive write does to it, the
  meaning of the AND-join counters, and the cases of \<open>check_and_ready\<close>. The collection \<open>status\<close> holds
  the rewrite rules that the later theories use.
\<close>

named_theorems status

definition status_of :: "lattice_db \<Rightarrow> node_id \<Rightarrow> node_status option" where
  "status_of db n = map_option nr_status (row_by nr_id n (db_nodes db))"

definition spec_of :: "lattice_db \<Rightarrow> node_id \<Rightarrow> node_spec option" where
  "spec_of db n = map_option nr_spec (row_by nr_id n (db_nodes db))"

lemma status_of_None: "status_of db n = None \<longleftrightarrow> \<not> node_exists db n"
  by (simp add: status_of_def node_exists_def)

lemma status_set [status]:
  "status_of (set_node_status m st out err db) n =
     (if m = n \<and> node_exists db n then Some st else status_of db n)"
  by (simp add: status_of_def set_node_status_def Let_def row_by_update_where node_exists_def
      option.map_comp comp_def)

lemma status_persist [status]: "status_of (persist_event g ev db) n = status_of db n"
  by (simp add: status_of_def persist_event_def)

lemma status_graph [status]: "status_of (update_graph_status g st db) n = status_of db n"
  by (simp add: status_of_def update_graph_status_def)

lemma status_notify [status]: "status_of (notify_graph g db) n = status_of db n"
  by (simp add: status_of_def notify_graph_def split: option.splits)

lemma status_make_ready [status]:
  "status_of (make_ready g m spec db) n = (if m = n \<and> node_exists db n then Some N_Ready else status_of db n)"
  by (simp add: make_ready_def status)

lemma status_fail_graph [status]: "status_of (fail_graph g m msg db) n = status_of db n"
  by (simp add: fail_graph_def status)

lemma status_complete [status]: "status_of (complete_if_all_done g db) n = status_of db n"
  by (simp add: complete_if_all_done_def status Let_def)

lemma status_record [status]:
  "status_of (record_outcome g m out err db) n =
     (if m = n \<and> node_exists db n then Some (if err = None then N_Complete else N_Failed) else status_of db n)"
  by (auto simp: record_outcome_def status split: option.splits)

lemma status_deliver [status]:
  "deliver_token e g tok seq db = (r, db') \<Longrightarrow> status_of db' n = status_of db n"
  by (auto dest!: deliver_token_cases simp: status_of_def)

lemma frame_spec: "frame db db' \<Longrightarrow> spec_of db' n = spec_of db n"
proof -
  assume "frame db db'"
  then have "map_option (fst \<circ> snd \<circ> snd) (map_option node_shape (row_by nr_id n (db_nodes db'))) =
    map_option (fst \<circ> snd \<circ> snd) (map_option node_shape (row_by nr_id n (db_nodes db)))"
    by (simp add: frame_row)
  then show ?thesis by (simp add: spec_of_def option.map_comp comp_def node_shape_def)
qed

definition gather_node :: "lattice_db \<Rightarrow> node_id \<Rightarrow> bool" where
  "gather_node db n = (case spec_of db n of None \<Rightarrow> False | Some sp \<Rightarrow> is_gather sp)"

lemma frame_gather: "frame db db' \<Longrightarrow> gather_node db' n = gather_node db n"
  by (simp add: gather_node_def frame_spec)

subsection \<open>The AND-join\<close>

text \<open>Every inbound edge that is not a self-loop holds a token, and there is such an edge.\<close>

definition join_satisfied :: "lattice_db \<Rightarrow> node_id \<Rightarrow> bool" where
  "join_satisfied db n \<longleftrightarrow> inbound_edge_ids db n \<noteq> [] \<and>
     (\<forall>e \<in> set (inbound_edge_ids db n). \<exists>t \<in> set (db_tokens db). tr_edge t = e)"

lemma inbound_ids_distinct: "wf_db db \<Longrightarrow> distinct (inbound_edge_ids db n)"
  by (auto simp: wf_db_def keys_distinct_def inbound_edge_ids_def distinct_map intro: inj_on_subset)

lemma total_inbound: "snd (count_edges_with_tokens db n) = length (inbound_edge_ids db n)"
proof -
  have "filter (\<lambda>e. er_to e = n \<and> er_from e \<noteq> er_to e) (db_edges db) = filter (\<lambda>e. er_to e = n \<and> er_from e \<noteq> n) (db_edges db)"
    by (rule filter_cong) auto
  then show ?thesis by (simp add: count_edges_with_tokens_def inbound_edge_ids_def count_where_def Let_def)
qed

lemma delivered_inbound:
  "fst (count_edges_with_tokens db n) = card (set (inbound_edge_ids db n) \<inter> tr_edge ` set (db_tokens db))"
proof -
  have "tr_edge ` {t \<in> set (db_tokens db). tr_edge t \<in> set (inbound_edge_ids db n)} =
        set (inbound_edge_ids db n) \<inter> tr_edge ` set (db_tokens db)"
    by auto
  then show ?thesis
    by (simp add: count_edges_with_tokens_def Let_def length_remdups_card_conv)
qed

lemma node_enabled_iff:
  assumes "wf_db db"
  shows "node_enabled Join_All (count_edges_with_tokens db n) \<longleftrightarrow> join_satisfied db n"
proof -
  let ?I = "set (inbound_edge_ids db n)" and ?T = "tr_edge ` set (db_tokens db)"
  have total: "snd (count_edges_with_tokens db n) = card ?I"
    using inbound_ids_distinct [OF assms] by (simp add: total_inbound distinct_card)
  have sub: "card (?I \<inter> ?T) = card ?I \<longleftrightarrow> ?I \<inter> ?T = ?I"
    using card_subset_eq [of ?I "?I \<inter> ?T"] by auto
  have "node_enabled Join_All (count_edges_with_tokens db n) \<longleftrightarrow>
    fst (count_edges_with_tokens db n) = snd (count_edges_with_tokens db n) \<and> 0 < snd (count_edges_with_tokens db n)"
    by (cases "count_edges_with_tokens db n") simp
  also have "\<dots> \<longleftrightarrow> ?I \<inter> ?T = ?I \<and> ?I \<noteq> {}"
    using sub by (simp add: total delivered_inbound card_gt_0_iff)
  also have "?I \<inter> ?T = ?I \<longleftrightarrow> ?I \<subseteq> ?T" by (rule inf.absorb_iff1 [symmetric])
  also have "?I \<subseteq> ?T \<longleftrightarrow> (\<forall>e \<in> ?I. \<exists>t \<in> set (db_tokens db). tr_edge t = e)" by force
  also have "\<dots> \<and> ?I \<noteq> {} \<longleftrightarrow> join_satisfied db n" by (auto simp: join_satisfied_def)
  finally show ?thesis .
qed

text \<open>
  The only columns that matter to \<open>check_and_ready\<close> are the status, the spec and the join counters;
  the queries do not select \<open>join_type\<close>, so every node is an AND-join.
\<close>

lemma check_and_ready_eq:
  assumes wf: "wf_db db" and st: "status_of db n = Some st" and sp: "spec_of db n = Some spec"
  shows "check_and_ready g n db =
    (if (st = N_Pending \<or> st = N_Complete) \<and> join_satisfied db n then
       (case spec of
          Spec_Gather s \<Rightarrow> (Inr (Some (gather_output s (get_node_inputs db n))), set_node_status n N_Running None None db)
        | _ \<Rightarrow> (Inr None, make_ready g n spec db))
     else (Inr None, db))"
proof -
  obtain r where r: "row_by nr_id n (db_nodes db) = Some r" "nr_status r = st" "nr_spec r = spec"
    using st sp by (auto simp: status_of_def spec_of_def)
  then show ?thesis
    using node_enabled_iff [OF wf, of n] by (cases spec) (simp_all add: check_and_ready_def get_node_def)
qed

lemma status_spec_exists:
  assumes "node_exists db n"
  obtains st spec where "status_of db n = Some st" "spec_of db n = Some spec"
  using assms by (auto simp: node_exists_def status_of_def spec_of_def)

text \<open>The four ways in which \<open>check_and_ready\<close> can end on an existing node.\<close>

lemma check_and_ready_cases:
  assumes "wf_db db" and "node_exists db n" and "check_and_ready g n db = (r, db')"
  obtains
    (unchanged) "r = Inr None" "db' = db"
      "status_of db n \<notin> {Some N_Pending, Some N_Complete} \<or> \<not> join_satisfied db n"
  | (gathered) s where "r = Inr (Some (gather_output s (get_node_inputs db n)))"
      "db' = set_node_status n N_Running None None db" "spec_of db n = Some (Spec_Gather s)"
      "status_of db n \<in> {Some N_Pending, Some N_Complete}" "join_satisfied db n"
  | (readied) spec where "r = Inr None" "db' = make_ready g n spec db" "spec_of db n = Some spec"
      "\<not> is_gather spec" "status_of db n \<in> {Some N_Pending, Some N_Complete}" "join_satisfied db n"
proof -
  obtain st spec where st: "status_of db n = Some st" and sp: "spec_of db n = Some spec"
    using status_spec_exists assms(2) by blast
  note eq = check_and_ready_eq [OF assms(1) st sp, of g]
  show ?thesis
  proof (cases "(st = N_Pending \<or> st = N_Complete) \<and> join_satisfied db n")
    case False
    with eq assms(3) st show ?thesis by (intro unchanged) auto
  next
    case True
    show ?thesis
    proof (cases "is_gather spec")
      case gather: True
      then obtain s where "spec = Spec_Gather s" by (cases spec) auto
      with True eq assms(3) st sp show ?thesis by (intro gathered) auto
    next
      case False
      then have "check_and_ready g n db = (Inr None, make_ready g n spec db)"
        using True eq by (cases spec) auto
      with True False assms(3) st sp show ?thesis by (intro readied [of spec]) auto
    qed
  qed
qed

lemma join_satisfied_mono:
  assumes "frame db db'" and "join_satisfied db n"
  shows "join_satisfied db' n"
proof -
  from assms(1) obtain ts where "db_edges db' = db_edges db" "db_tokens db' = db_tokens db @ ts"
    by (auto simp: frame_def)
  with assms(2) show ?thesis by (fastforce simp: join_satisfied_def inbound_edge_ids_def)
qed

end
