(* ===== verification/Lattice_Termination.thy ===== *)
theory Lattice_Termination
  imports Lattice_Status "HOL-Library.Multiset"
begin

text \<open>
  When \<open>advance_graph\<close> returns. Only Gather nodes enter the work queue, and only behind a node with an
  edge into them; so the queue shrinks in the multiset order of those edges, and the loop ends when
  they form no cycle. A Gather node with a self-loop shows that the condition is needed: once enabled
  it feeds itself for ever.
\<close>

subsection \<open>Edges into Gather nodes\<close>

definition gather_edges :: "lattice_db \<Rightarrow> (node_id \<times> node_id) set" where
  "gather_edges db = set (map (\<lambda>e. (er_from e, er_to e)) (filter (\<lambda>e. gather_node db (er_to e)) (db_edges db)))"

lemma frame_gather_edges: "frame db db' \<Longrightarrow> gather_edges db' = gather_edges db"
  by (simp add: gather_edges_def frame_edges frame_gather)

lemma finite_gather_edges: "finite (gather_edges db)"
  by (simp add: gather_edges_def)

text \<open>What routing pushes: Gather targets of the outbound edges, each without an error.\<close>

definition pushes :: "lattice_db \<Rightarrow> (string \<times> node_id \<times> edge_condition option) list \<Rightarrow> work list \<Rightarrow> work list \<Rightarrow> bool" where
  "pushes db es q q' \<longleftrightarrow> (\<exists>p. q' = p @ q \<and>
     (\<forall>(m, out, err) \<in> set p. err = None \<and> gather_node db m \<and> m \<in> (fst \<circ> snd) ` set es))"

lemma pushes_refl: "pushes db es q q"
  by (simp add: pushes_def)

lemma pushes_trans: "pushes db es a b \<Longrightarrow> pushes db es b c \<Longrightarrow> pushes db es a c"
  unfolding pushes_def by (elim exE conjE) (fastforce intro: exI [of _ "_ @ _"])

lemma pushes_mono: "pushes db es q q' \<Longrightarrow> set es \<subseteq> set es' \<Longrightarrow> pushes db es' q q'"
  unfolding pushes_def by fastforce

lemma pushes_frame: "frame db db' \<Longrightarrow> pushes db' es q q' = pushes db es q q'"
  by (simp add: pushes_def frame_gather)

lemma check_and_ready_gather:
  assumes "check_and_ready g n db = (Inr (Some out), db')"
  shows "gather_node db n"
  using assms by (auto simp: check_and_ready_def get_node_def gather_node_def spec_of_def
      split: sum.splits option.splits if_splits node_spec.splits)

lemma route_edges_pushes:
  assumes "route_edges g tok es (q, any) db = (Inr (q', any'), db')"
  shows "pushes db es q q'"
  using assms
proof (induction g tok es "(q, any)" db arbitrary: q any rule: route_edges.induct)
  case (1 g tok db)
  then show ?case by (simp add: pushes_refl)
next
  case (2 g tok e to cond es q any db)
  show ?case
  proof (cases "edge_accepts cond tok")
    case False
    with 2 have "pushes db es q q'" by auto
    then show ?thesis by (rule pushes_mono) auto
  next
    case True
    obtain db1 where d: "deliver_token e g tok (count_tokens_on_edge db e + 1) db = (Inr (), db1)"
      using True "2.prems" by (cases "deliver_token e g tok (count_tokens_on_edge db e + 1) db";
        cases "fst (deliver_token e g tok (count_tokens_on_edge db e + 1) db)") auto
    obtain out db2 where c: "check_and_ready g to db1 = (Inr out, db2)"
      using True d "2.prems" by (cases "check_and_ready g to db1"; cases "fst (check_and_ready g to db1)") auto
    define q2 where "q2 = (case out of None \<Rightarrow> q | Some oo \<Rightarrow> (to, Some oo, None) # q)"
    have r: "route_edges g tok es (q2, True) db2 = (Inr (q', any'), db')"
      using True d c "2.prems" by (simp add: q2_def)
    have f1: "frame db db1" using d by (auto intro: engine_writes_frame write_token)
    have f2: "frame db1 db2" using writes_check_and_ready [of db1 g to] c by (auto intro: engine_writes_frame)
    have f: "frame db db2" using f1 f2 by (rule frame_trans)
    have "pushes db2 es q2 q'"
      using "2.hyps"(1) [OF True, of out db2] r by (simp add: q2_def)
    then have "pushes db es q2 q'" by (simp add: pushes_frame [OF f])
    then have p2: "pushes db ((e, to, cond) # es) q2 q'" by (rule pushes_mono) auto
    have "pushes db ((e, to, cond) # es) q q2"
    proof (cases out)
      case None
      then show ?thesis by (simp add: q2_def pushes_refl)
    next
      case (Some oo)
      then have "gather_node db to" using c check_and_ready_gather frame_gather [OF f1] by blast
      with Some show ?thesis by (auto simp: q2_def pushes_def)
    qed
    then show ?thesis using p2 by (rule pushes_trans)
  qed
qed

lemma route_tokens_pushes:
  assumes "route_tokens g toks es (q, any) db = (Inr (q', any'), db')"
  shows "pushes db es q q'"
  using assms
proof (induction toks arbitrary: q any db)
  case Nil
  then show ?case by (simp add: pushes_refl)
next
  case (Cons tok toks)
  obtain q1 any1 db1 where r: "route_edges g tok es (q, any) db = (Inr (q1, any1), db1)"
    using Cons.prems by (cases "route_edges g tok es (q, any) db"; cases "fst (route_edges g tok es (q, any) db)") auto
  have f: "frame db db1" using writes_route_edges [of db g tok es "(q, any)"] r by (auto intro: engine_writes_frame)
  have "pushes db1 es q1 q'" using Cons r by simp
  then have "pushes db es q1 q'" by (simp add: pushes_frame [OF f])
  then show ?case using route_edges_pushes [OF r] pushes_trans by blast
qed

lemma advance_step_pushes:
  assumes "advance_step g (n, out, err) rest db = Continue q' db'"
  shows "\<exists>p. q' = p @ rest \<and> (\<forall>(m, out, err) \<in> set p. err = None \<and> (n, m) \<in> gather_edges db)"
proof -
  let ?db1 = "record_outcome g n out err db"
  have f: "frame db ?db1" by (rule engine_writes_frame) (rule writes_record_outcome)
  consider (skip) "q' = rest" | (route) any' db2 where
    "route_tokens g (produce_tokens out err) (get_outbound_edges_with_conditions ?db1 n) (rest, False) ?db1 = (Inr (q', any'), db2)"
    using assms by (auto simp: advance_step_def Let_def split: sum.splits prod.splits if_splits)
  then show ?thesis
  proof cases
    case route
    then have "pushes ?db1 (get_outbound_edges_with_conditions ?db1 n) rest q'" by (rule route_tokens_pushes)
    then show ?thesis
      by (fastforce simp: pushes_def gather_edges_def get_outbound_edges_with_conditions_def
          frame_gather [OF f] frame_edges [OF f])
  qed simp
qed

subsection \<open>Termination\<close>

lemma mult_replace_head:
  assumes "\<forall>y \<in> set p. (y, x) \<in> r"
  shows "(mset (p @ q), mset (x # q)) \<in> mult r"
proof -
  have "(mset q + mset p, mset q + {#x#}) \<in> mult r"
    using assms by (intro one_step_implies_mult) auto
  then show ?thesis by (simp add: union_commute)
qed

lemma advance_loop_returns:
  assumes "wf ((gather_edges db)\<inverse>)"
  shows "\<exists>res. advance_loop g queue db = Some res"
proof -
  have "\<forall>(queue :: work list) d. M = mset (map fst queue) \<longrightarrow> gather_edges d = gather_edges db \<longrightarrow>
      (\<exists>res. advance_loop g queue d = Some res)" for M
  proof (induction M rule: wf_induct_rule [OF wf_mult [OF assms]])
    case (1 M)
    show ?case
    proof (intro allI impI)
      fix queue :: "work list" and d
      assume M: "M = mset (map fst queue)" and E: "gather_edges d = gather_edges db"
      show "\<exists>res. advance_loop g queue d = Some res"
      proof (cases queue)
        case Nil
        then show ?thesis by (simp add: advance_loop.simps)
      next
        case (Cons w rest)
        show ?thesis
        proof (cases "advance_step g w rest d")
          case (Return r d1)
          with Cons show ?thesis by (simp add: advance_loop.simps)
        next
          case (Continue q1 d1)
          obtain n out err where w: "w = (n, out, err)" by (cases w)
          obtain p where p: "q1 = p @ rest" "\<forall>(m, out, err) \<in> set p. err = None \<and> (n, m) \<in> gather_edges d"
            using advance_step_pushes Continue unfolding w by blast
          have "frame d d1" using writes_advance_step [of d g w rest] Continue by (auto intro: engine_writes_frame)
          then have E1: "gather_edges d1 = gather_edges db" using E by (simp add: frame_gather_edges)
          have "\<forall>y \<in> set (map fst p). (y, n) \<in> (gather_edges db)\<inverse>" using p(2) E by auto
          then have "(mset (map fst p @ map fst rest), mset (n # map fst rest)) \<in> mult ((gather_edges db)\<inverse>)"
            by (rule mult_replace_head)
          then have "(mset (map fst q1), M) \<in> mult ((gather_edges db)\<inverse>)" by (simp add: M Cons p(1) w)
          then have "\<exists>res. advance_loop g q1 d1 = Some res" using 1 E1 by blast
          with Cons Continue show ?thesis by (simp add: advance_loop.simps [of g "w # rest"])
        qed
      qed
    qed
  qed
  then show ?thesis by blast
qed

lemma advance_graph_returns:
  assumes "acyclic (gather_edges db)"
  shows "\<exists>r db'. advance_graph g n out err db = Some (r, db')"
proof -
  have "wf ((gather_edges db)\<inverse>)"
    using finite_gather_edges assms by (rule finite_acyclic_wf_converse)
  then have "\<exists>res. advance_loop g [(n, out, err)] db = Some res" by (rule advance_loop_returns)
  then show ?thesis by (simp add: advance_graph_def)
qed

subsection \<open>Divergence\<close>

text \<open>A Gather node, enabled from outside, with an unconditional edge to itself.\<close>

definition feeds_itself :: "lattice_db \<Rightarrow> node_id \<Rightarrow> bool" where
  "feeds_itself db n \<longleftrightarrow> spec_of db n = Some (Spec_Gather Gather_All) \<and> join_satisfied db n \<and>
     (\<exists>e \<in> set (db_edges db). er_from e = n \<and> er_to e = n \<and> er_condition e = None)"

lemma feeds_itself_frame: "frame db db' \<Longrightarrow> feeds_itself db n \<Longrightarrow> feeds_itself db' n"
  by (simp add: feeds_itself_def frame_spec frame_edges join_satisfied_mono)

text \<open>What the divergence argument follows: \<open>n\<close> waits in the queue, and its entries carry tokens.\<close>

definition entries_ok :: "node_id \<Rightarrow> work list \<Rightarrow> bool" where
  "entries_ok n q \<longleftrightarrow> (\<forall>w \<in> set q. fst w = n \<longrightarrow> produce_tokens (fst (snd w)) None \<noteq> [])"

definition self_running :: "lattice_db \<Rightarrow> node_id \<Rightarrow> work list \<Rightarrow> bool" where
  "self_running db n q \<longleftrightarrow> status_of db n = Some N_Running \<and> n \<in> fst ` set q"

definition self_live :: "lattice_db \<Rightarrow> node_id \<Rightarrow> work list \<Rightarrow> bool" where
  "self_live db n q \<longleftrightarrow> entries_ok n q \<and> (status_of db n = Some N_Complete \<or> self_running db n q)"

lemma inputs_nonempty:
  assumes "join_satisfied db n"
  shows "get_node_inputs db n \<noteq> []"
proof -
  obtain i where "i \<in> set (inbound_edge_ids db n)" using assms by (cases "inbound_edge_ids db n") (auto simp: join_satisfied_def)
  then obtain e t where e: "e \<in> set (db_edges db)" "er_to e = n" "t \<in> set (db_tokens db)" "tr_edge t = er_id e"
    using assms by (auto simp: join_satisfied_def inbound_edge_ids_def)
  then have "t \<in> set (concat (map (\<lambda>t. map (\<lambda>_. t) (filter (\<lambda>e. er_id e = tr_edge t \<and> er_to e = n) (db_edges db))) (db_tokens db)))"
    by force
  then show ?thesis by (metis (lifting) get_node_inputs_def list.map_disc_iff list.set(1) empty_iff set_sort)
qed

lemma check_and_ready_self:
  assumes "wf_db db" and "node_exists db m" and self: "feeds_itself db n" and live: "self_live db n q"
    and c: "check_and_ready g m db = (Inr out, db')"
    and q': "q' = (case out of None \<Rightarrow> q | Some oo \<Rightarrow> (m, Some oo, None) # q)"
  shows "self_live db' n q' \<and> (m = n \<or> self_running db n q \<longrightarrow> self_running db' n q')"
  using assms(1,2) c
proof (cases rule: check_and_ready_cases)
  case unchanged
  then show ?thesis using live q' self by (auto simp: self_live_def self_running_def feeds_itself_def)
next
  case (gathered s)
  then show ?thesis using live q' assms(2) self inputs_nonempty [of db n]
    by (auto simp: self_live_def self_running_def feeds_itself_def status entries_ok_def produce_tokens_def)
next
  case (readied spec)
  then show ?thesis using live q' assms(2) self
    by (auto simp: self_live_def self_running_def feeds_itself_def status entries_ok_def)
qed

lemma route_edges_self:
  assumes "wf_db db" and "\<forall>(e, to, c) \<in> set es. node_exists db to" and "feeds_itself db n"
    and "self_live db n q" and "route_edges g tok es (q, any) db = (Inr (q', any'), db')"
  shows "self_live db' n q' \<and> ((\<exists>e. (e, n, None) \<in> set es) \<or> self_running db n q \<longrightarrow> self_running db' n q')"
  using assms
proof (induction g tok es "(q, any)" db arbitrary: q any rule: route_edges.induct)
  case (1 g tok db)
  then show ?case by auto
next
  case (2 g tok e to cond es q any db)
  show ?case
  proof (cases "edge_accepts cond tok")
    case False
    then have "cond \<noteq> None" by (auto simp: edge_accepts_def split: option.splits)
    with False 2 show ?thesis by auto
  next
    case True
    obtain db1 where d: "deliver_token e g tok (count_tokens_on_edge db e + 1) db = (Inr (), db1)"
      using deliver_token_next "2.prems"(1) by (auto simp: wf_db_def)
    have w1: "engine_writes db db1" using d by (auto intro: write_token)
    note f1 = engine_writes_frame [OF w1]
    have wf1: "wf_db db1" using engine_writes_wf w1 "2.prems"(1) by blast
    have ex1: "node_exists db1 to" using "2.prems"(2) by (simp add: frame_node_exists [OF f1])
    obtain out db2 where c: "check_and_ready g to db1 = (Inr out, db2)" using check_and_ready_ok [OF ex1] by blast
    define q2 where "q2 = (case out of None \<Rightarrow> q | Some oo \<Rightarrow> (to, Some oo, None) # q)"
    have r: "route_edges g tok es (q2, True) db2 = (Inr (q', any'), db')"
      using True d c "2.prems"(5) by (simp add: q2_def)
    have w2: "engine_writes db1 db2" using writes_check_and_ready [of db1 g to] c by simp
    have f: "frame db db2" using f1 engine_writes_frame [OF w2] by (rule frame_trans)
    have wf2: "wf_db db2" using engine_writes_wf w2 wf1 by blast
    have ex2: "\<forall>(e, to, c) \<in> set es. node_exists db2 to" using "2.prems"(2) by (simp add: frame_node_exists [OF f])
    have live1: "self_live db1 n q" and run1: "self_running db1 n q \<longleftrightarrow> self_running db n q"
      using "2.prems"(4) by (simp_all add: self_live_def self_running_def status_deliver [OF d])
    note step = check_and_ready_self [OF wf1 ex1 feeds_itself_frame [OF f1 "2.prems"(3)] live1 c q2_def]
    have "self_live db' n q' \<and> ((\<exists>e. (e, n, None) \<in> set es) \<or> self_running db2 n q2 \<longrightarrow> self_running db' n q')"
      using "2.hyps"(1) [OF True, of db2 out] wf2 ex2 feeds_itself_frame [OF f "2.prems"(3)] conjunct1 [OF step] r
      unfolding q2_def by blast
    then show ?thesis using step run1 by auto
  qed
qed

lemma route_tokens_self:
  assumes "wf_db db" and "\<forall>(e, to, c) \<in> set es. node_exists db to" and "feeds_itself db n"
    and "self_live db n q" and "route_tokens g toks es (q, any) db = (Inr (q', any'), db')"
  shows "self_live db' n q' \<and>
    (toks \<noteq> [] \<and> (\<exists>e. (e, n, None) \<in> set es) \<or> self_running db n q \<longrightarrow> self_running db' n q')"
  using assms
proof (induction toks arbitrary: q any db)
  case Nil
  then show ?case by auto
next
  case (Cons tok toks)
  obtain q1 any1 db1 where r: "route_edges g tok es (q, any) db = (Inr (q1, any1), db1)"
    using route_edges_ok [OF Cons.prems(1,2), of g tok "(q, any)"] by (metis prod.collapse)
  have w: "engine_writes db db1" using writes_route_edges [of db g tok es "(q, any)"] r by simp
  note f = engine_writes_frame [OF w]
  have ex: "\<forall>(e, to, c) \<in> set es. node_exists db1 to" using Cons.prems(2) by (simp add: frame_node_exists [OF f])
  note self = route_edges_self [OF Cons.prems(1-4) r]
  have r1: "route_tokens g toks es (q1, any1) db1 = (Inr (q', any'), db')" using Cons.prems(5) r by simp
  have "self_live db' n q' \<and>
    (toks \<noteq> [] \<and> (\<exists>e. (e, n, None) \<in> set es) \<or> self_running db1 n q1 \<longrightarrow> self_running db' n q')"
    by (rule Cons.IH [OF engine_writes_wf [OF w Cons.prems(1)] ex feeds_itself_frame [OF f Cons.prems(3)] conjunct1 [OF self] r1])
  with self show ?case by auto
qed

lemma advance_step_self:
  assumes wf: "wf_db db" and self: "feeds_itself db n" and run: "self_running db n (w # rest)"
    and ok: "entries_ok n (w # rest)" and err: "\<forall>w \<in> set (w # rest). snd (snd w) = None"
  shows "\<exists>q' db'. advance_step g w rest db = Continue q' db' \<and> self_running db' n q' \<and> entries_ok n q' \<and>
    (\<forall>w \<in> set q'. snd (snd w) = None)"
proof -
  obtain m out where w: "w = (m, out, None)" using err by (cases w) auto
  have st: "status_of db n = Some N_Running" using run by (simp add: self_running_def)
  have okr: "entries_ok n rest" using ok by (simp add: entries_ok_def)
  show ?thesis
  proof (cases "case status_of db m of None \<Rightarrow> True | Some st \<Rightarrow> terminal_status st")
    case True
    then have step: "advance_step g w rest db = Continue rest db"
      by (auto simp: w advance_step_def get_node_def status_of_def terminal_status_def split: option.splits)
    have "m \<noteq> n" using True st by auto
    with step run okr err show ?thesis by (auto simp: self_running_def w)
  next
    case False
    then obtain stm where stm: "status_of db m = Some stm" "\<not> terminal_status stm" by (auto split: option.splits)
    let ?db1 = "record_outcome g m out None db" and ?toks = "produce_tokens out None"
    let ?es = "get_outbound_edges_with_conditions ?db1 m"
    have w1: "engine_writes db ?db1" by (rule writes_record_outcome)
    note f1 = engine_writes_frame [OF w1]
    have wf1: "wf_db ?db1" using engine_writes_wf w1 wf by blast
    have ex1: "\<forall>(e, to, c) \<in> set ?es. node_exists ?db1 to" by (rule outbound_exist [OF wf1])
    obtain q' any' db' where r: "route_tokens g ?toks ?es (rest, False) ?db1 = (Inr (q', any'), db')"
      using route_tokens_ok [OF wf1 ex1, of g ?toks "(rest, False)"] by (metis prod.collapse)
    have step: "advance_step g w rest db = Continue q' db'"
      using stm r by (auto simp: w advance_step_def get_node_def status_of_def terminal_status_def Let_def
          split: option.splits)
    have ex: "node_exists db n" using st by (metis option.distinct(1) status_of_None)
    have live: "self_live ?db1 n rest"
      using run okr ex st by (auto simp: status self_running_def self_live_def w)
    have "self_live db' n q' \<and> self_running db' n q'"
    proof (cases "m = n")
      case True
      obtain e where "e \<in> set (db_edges db)" "er_from e = n" "er_to e = n" "er_condition e = None"
        using self by (auto simp: feeds_itself_def)
      then have "(er_id e, n, None) \<in> set ?es"
        using frame_edges [OF f1] True
        by (auto simp: get_outbound_edges_with_conditions_def intro!: image_eqI [of _ _ e])
      moreover have "?toks \<noteq> []" using ok True by (simp add: entries_ok_def w)
      ultimately show ?thesis
        using route_tokens_self [OF wf1 ex1 feeds_itself_frame [OF f1 self] live r] by blast
    next
      case False
      then have "self_running ?db1 n rest" using run by (auto simp: self_running_def status w)
      then show ?thesis using route_tokens_self [OF wf1 ex1 feeds_itself_frame [OF f1 self] live r] by blast
    qed
    moreover have "\<forall>w \<in> set q'. snd (snd w) = None"
    proof -
      obtain p where "q' = p @ rest" "\<forall>(m, out, err) \<in> set p. err = None \<and> (fst w, m) \<in> gather_edges db"
        using advance_step_pushes [of g m out None rest db q' db'] step by (auto simp: w)
      then show ?thesis using err by fastforce
    qed
    ultimately show ?thesis using step by (simp add: self_live_def)
  qed
qed

lemma advance_loop_diverges:
  assumes "wf_db db" and "feeds_itself db n" and "self_running db n queue" and "entries_ok n queue"
    and "\<forall>w \<in> set queue. snd (snd w) = None"
  shows "advance_loop g queue db = None"
proof (rule ccontr)
  define I where "I = (\<lambda>q d. wf_db d \<and> feeds_itself d n \<and> self_running d n q \<and> entries_ok n q \<and>
    (\<forall>w \<in> set q. snd (snd w) = None))"
  assume "advance_loop g queue db \<noteq> None"
  then obtain r db' where ret: "advance_loop g queue db = Some (r, db')" by auto
  show False
  proof (rule advance_loop_rule [where Q = "\<lambda>_ _. False" and I = I, OF ret])
    show "I queue db" using assms by (simp add: I_def)
  next
    fix w rest d q1 d1
    assume Id: "I (w # rest) d" and s: "advance_step g w rest d = Continue q1 d1"
    have w: "engine_writes d d1" using writes_advance_step [of d g w rest] s by simp
    have "self_running d1 n q1 \<and> entries_ok n q1 \<and> (\<forall>w \<in> set q1. snd (snd w) = None)"
      using advance_step_self [of d n w rest g] Id s by (auto simp: I_def)
    then show "I q1 d1"
      using Id engine_writes_wf [OF w] feeds_itself_frame [OF engine_writes_frame [OF w]] by (simp add: I_def)
  next
    fix w rest d r d1
    assume "I (w # rest) d" and "advance_step g w rest d = Return r d1"
    then show False using advance_step_self [of d n w rest g] by (auto simp: I_def)
  next
    fix d
    assume "I [] d"
    then show False by (simp add: I_def self_running_def)
  qed
qed

end
