(* ===== verification/Lattice_Safety.thy ===== *)
theory Lattice_Safety
  imports Lattice_Termination
begin

text \<open>
  Dependency order. A run builds graphs, starts them, and reports the outcome of nodes that have been
  handed out; edges may be added while a graph runs, as long as their target has not started. In
  every state of such a run a node that has left \<open>Pending\<close> has only finished predecessors, and a token
  lies on an edge only behind a finished node.
\<close>

subsection \<open>Views of the tables\<close>

definition started :: "lattice_db \<Rightarrow> node_id \<Rightarrow> bool" where
  "started db n \<longleftrightarrow> (case status_of db n of None \<Rightarrow> False | Some s \<Rightarrow> s \<noteq> N_Pending)"

definition finished :: "lattice_db \<Rightarrow> node_id \<Rightarrow> bool" where
  "finished db n \<longleftrightarrow> (case status_of db n of None \<Rightarrow> False | Some s \<Rightarrow> terminal_status s)"

definition marked :: "lattice_db \<Rightarrow> string \<Rightarrow> bool" where
  "marked db e \<longleftrightarrow> (\<exists>t \<in> set (db_tokens db). tr_edge t = e)"

definition graph_of :: "lattice_db \<Rightarrow> node_id \<Rightarrow> graph_id option" where
  "graph_of db n = map_option nr_graph (row_by nr_id n (db_nodes db))"

definition gstatus_of :: "lattice_db \<Rightarrow> graph_id \<Rightarrow> graph_status option" where
  "gstatus_of db g = map_option gr_status (row_by gr_id g (db_graphs db))"

text \<open>The graph of the node has been started.\<close>

definition graph_open :: "lattice_db \<Rightarrow> node_id \<Rightarrow> bool" where
  "graph_open db n \<longleftrightarrow> (\<forall>g. graph_of db n = Some g \<longrightarrow> gstatus_of db g \<notin> {None, Some G_Pending})"

definition safe_db :: "lattice_db \<Rightarrow> bool" where
  "safe_db db \<longleftrightarrow>
     (\<forall>e \<in> set (db_edges db). started db (er_to e) \<longrightarrow> marked db (er_id e)) \<and>
     (\<forall>e \<in> set (db_edges db). marked db (er_id e) \<longrightarrow> finished db (er_from e)) \<and>
     (\<forall>e \<in> set (db_edges db). er_from e \<noteq> er_to e) \<and>
     (\<forall>t \<in> set (db_tokens db). tr_edge t \<in> er_id ` set (db_edges db)) \<and>
     (\<forall>n. started db n \<longrightarrow> graph_open db n)"

lemma finished_started: "finished db n \<Longrightarrow> started db n"
  by (auto simp: finished_def started_def split: option.splits)

lemma frame_graph_of: "frame db db' \<Longrightarrow> graph_of db' n = graph_of db n"
proof -
  assume "frame db db'"
  then have "map_option (fst \<circ> snd) (map_option node_shape (row_by nr_id n (db_nodes db'))) =
    map_option (fst \<circ> snd) (map_option node_shape (row_by nr_id n (db_nodes db)))"
    by (simp add: frame_row)
  then show ?thesis by (simp add: graph_of_def option.map_comp comp_def node_shape_def)
qed

lemma edge_same_graph:
  assumes "wf_db db" and "e \<in> set (db_edges db)"
  shows "graph_of db (er_from e) = Some (er_graph e)" "graph_of db (er_to e) = Some (er_graph e)"
proof -
  have "graph_of db n = Some g" if "node_in_graph db n g" for n g
  proof -
    obtain r where "r \<in> set (db_nodes db)" "nr_id r = n" "nr_graph r = g"
      using \<open>node_in_graph db n g\<close> by (auto simp: node_in_graph_def count_where_pos_iff)
    moreover have "distinct (map nr_id (db_nodes db))" using assms(1) by (simp add: wf_db_def keys_distinct_def)
    ultimately have "row_by nr_id n (db_nodes db) = Some r" using row_by_unique [of nr_id] by blast
    then show ?thesis using \<open>nr_graph r = g\<close> by (simp add: graph_of_def)
  qed
  then show "graph_of db (er_from e) = Some (er_graph e)" "graph_of db (er_to e) = Some (er_graph e)"
    using assms by (auto simp: wf_db_def edges_closed_def)
qed

subsection \<open>Which views a write touches\<close>

named_theorems views

lemma write_fields [simp]:
  "db_tokens (set_node_status m st out err db) = db_tokens db" "db_graphs (set_node_status m st out err db) = db_graphs db"
  "db_tokens (persist_event g ev db) = db_tokens db" "db_graphs (persist_event g ev db) = db_graphs db"
  "db_tokens (notify_graph g db) = db_tokens db" "db_graphs (notify_graph g db) = db_graphs db"
  "db_tokens (update_graph_status g gst db) = db_tokens db"
  by (simp_all add: set_node_status_def persist_event_def notify_graph_def update_graph_status_def Let_def split: option.splits)

lemma views_set [views]:
  "started (set_node_status m st out err db) n = (if m = n \<and> node_exists db n then st \<noteq> N_Pending else started db n)"
  "finished (set_node_status m st out err db) n = (if m = n \<and> node_exists db n then terminal_status st else finished db n)"
  "marked (set_node_status m st out err db) e = marked db e"
  "gstatus_of (set_node_status m st out err db) g = gstatus_of db g"
  by (simp_all add: started_def finished_def status marked_def gstatus_of_def)

lemma views_persist [views]:
  "started (persist_event g ev db) n = started db n" "finished (persist_event g ev db) n = finished db n"
  "marked (persist_event g ev db) e = marked db e" "gstatus_of (persist_event g ev db) g' = gstatus_of db g'"
  by (simp_all add: started_def finished_def status marked_def gstatus_of_def)

lemma views_notify [views]:
  "started (notify_graph g db) n = started db n" "finished (notify_graph g db) n = finished db n"
  "marked (notify_graph g db) e = marked db e" "gstatus_of (notify_graph g db) g' = gstatus_of db g'"
  by (simp_all add: started_def finished_def status marked_def gstatus_of_def)

lemma views_graph [views]:
  "started (update_graph_status g st db) n = started db n" "finished (update_graph_status g st db) n = finished db n"
  "marked (update_graph_status g st db) e = marked db e"
  by (simp_all add: started_def finished_def status marked_def)

lemma gstatus_update [views]:
  "gstatus_of (update_graph_status g st db) g' =
     (if g' = g \<and> gstatus_of db g \<noteq> None then Some st else gstatus_of db g')"
  by (auto simp: gstatus_of_def update_graph_status_def row_by_update_where)

lemma views_make_ready [views]:
  "started (make_ready g m spec db) n = (if m = n \<and> node_exists db n then True else started db n)"
  "finished (make_ready g m spec db) n = (if m = n \<and> node_exists db n then False else finished db n)"
  "marked (make_ready g m spec db) e = marked db e"
  "gstatus_of (make_ready g m spec db) g' = gstatus_of db g'"
  by (simp_all add: make_ready_def views)

lemma views_record [views]:
  "started (record_outcome g m out err db) n = (if m = n \<and> node_exists db n then True else started db n)"
  "finished (record_outcome g m out err db) n = (if m = n \<and> node_exists db n then True else finished db n)"
  "marked (record_outcome g m out err db) e = marked db e"
  "gstatus_of (record_outcome g m out err db) g' = gstatus_of db g'"
  by (auto simp: record_outcome_def views split: option.splits)

text \<open>A write that leaves the views alone keeps \<open>safe_db\<close>.\<close>

lemma safe_db_views:
  assumes "frame db db'" and "db_tokens db' = db_tokens db"
    and "\<And>n. started db' n = started db n" and "\<And>n. finished db' n = finished db n"
    and "\<And>g. gstatus_of db' g \<in> {None, Some G_Pending} \<Longrightarrow> gstatus_of db g \<in> {None, Some G_Pending}" and "safe_db db"
  shows "safe_db db'"
proof -
  have "graph_open db' n" if "graph_open db n" for n
    using that assms(5) by (auto simp del: insert_iff simp: graph_open_def frame_graph_of [OF assms(1)])
  then show ?thesis
    using assms(6) by (auto simp: safe_db_def marked_def assms(2-4) frame_edges [OF assms(1)])
qed

subsection \<open>Routing the tokens of one node\<close>

text \<open>The state while the outcome of \<open>q\<close> is being routed.\<close>

definition routing :: "lattice_db \<Rightarrow> node_id \<Rightarrow> bool" where
  "routing db q \<longleftrightarrow> wf_db db \<and> safe_db db \<and> finished db q \<and>
     (\<forall>e \<in> set (db_edges db). er_from e = q \<longrightarrow> status_of db (er_to e) \<noteq> Some N_Complete)"

definition started_le :: "lattice_db \<Rightarrow> lattice_db \<Rightarrow> bool" where
  "started_le db db' \<longleftrightarrow> (\<forall>n. started db n \<longrightarrow> started db' n)"

lemma started_le_refl: "started_le db db" and started_le_trans: "started_le a b \<Longrightarrow> started_le b c \<Longrightarrow> started_le a c"
  by (auto simp: started_le_def)

lemma edge_by_id:
  "wf_db db \<Longrightarrow> e \<in> set (db_edges db) \<Longrightarrow> e' \<in> set (db_edges db) \<Longrightarrow> er_id e = er_id e' \<Longrightarrow> e = e'"
  by (auto simp: wf_db_def keys_distinct_def distinct_map inj_on_def)

lemma deliver_safe:
  assumes wf: "wf_db db" and safe: "safe_db db" and e: "e \<in> set (db_edges db)" "finished db (er_from e)"
    and d: "deliver_token (er_id e) g tok (count_tokens_on_edge db (er_id e) + 1) db = (Inr (), db')"
  shows "wf_db db'" and "safe_db db'" and "\<And>n. status_of db' n = status_of db n"
    and "db_edges db' = db_edges db"
proof -
  have db': "db' = db\<lparr>db_tokens := db_tokens db @
     [\<lparr>tr_edge = er_id e, tr_graph = g, tr_token = tok, tr_seq = count_tokens_on_edge db (er_id e) + 1\<rparr>]\<rparr>"
    using deliver_token_cases [OF d] by auto
  show st: "status_of db' n = status_of db n" for n by (rule status_deliver [OF d])
  have views: "started db' n = started db n" "finished db' n = finished db n" "graph_open db' n = graph_open db n"
    "marked db' i = (marked db i \<or> i = er_id e)" for n i
    unfolding started_def finished_def st by (simp_all add: graph_open_def graph_of_def gstatus_of_def db' marked_def) auto
  show "wf_db db'" using engine_write_wf [OF write_token [OF d]] wf by simp
  show "db_edges db' = db_edges db" by (simp add: db')
  have uniq: "e' = e" if "e' \<in> set (db_edges db)" "er_id e' = er_id e" for e'
    using edge_by_id [of db e' e] that e wf by auto
  show "safe_db db'"
    using safe e uniq by (auto simp: safe_db_def views) (auto simp: db')
qed

lemma routing_deliver:
  assumes r: "routing db q" and e: "e \<in> set (db_edges db)" "er_from e = q"
    and d: "deliver_token (er_id e) g tok (count_tokens_on_edge db (er_id e) + 1) db = (Inr (), db')"
  shows "routing db' q" and "started_le db db'"
proof -
  have pre: "wf_db db" "safe_db db" "finished db (er_from e)" using r e(2) by (simp_all add: routing_def)
  note s = deliver_safe [OF pre(1,2) e(1) pre(3) d]
  show "routing db' q" using r s by (simp add: routing_def finished_def)
  show "started_le db db'" by (simp add: started_le_def started_def s)
qed

text \<open>Making an enabled, not completed node \<open>Ready\<close> or \<open>Running\<close>.\<close>

lemma safe_enable:
  assumes wf: "wf_db db" and safe: "safe_db db" and join: "join_satisfied db n" and pend: "status_of db n = Some N_Pending"
    and frame: "frame db db'" and st: "\<And>m. status_of db' m = (if m = n then Some st1 else status_of db m)"
    and tok: "db_tokens db' = db_tokens db" and gst: "\<And>g. gstatus_of db' g = gstatus_of db g"
    and st1: "st1 = N_Ready \<or> st1 = N_Running" and opn: "graph_open db n"
  shows "safe_db db'"
proof -
  have ed: "db_edges db' = db_edges db" by (rule frame_edges [OF frame])
  have mk: "marked db' i = marked db i" for i by (simp add: marked_def tok)
  have go: "graph_open db' m = graph_open db m" for m by (simp add: graph_open_def gst frame_graph_of [OF frame])
  have stt: "started db' m = (if m = n then True else started db m)" for m
    using st1 by (auto simp: started_def st)
  have fin: "finished db' m = (if m = n then False else finished db m)" for m
    using st1 by (auto simp: finished_def st)
  have nf: "\<not> finished db n" using pend by (simp add: finished_def)
  have inb: "marked db (er_id e)" if "e \<in> set (db_edges db)" "er_to e = n" for e
    using join that safe by (auto simp: join_satisfied_def inbound_edge_ids_def marked_def safe_db_def)
  show ?thesis
    using safe inb nf opn by (auto simp: safe_db_def ed mk go stt fin tok)
qed

lemma routing_check:
  assumes r: "routing db q" and e: "e \<in> set (db_edges db)" "er_from e = q"
    and c: "check_and_ready g (er_to e) db = (Inr out, db')"
  shows "routing db' q" and "started_le db db'" and "out \<noteq> None \<Longrightarrow> started db' (er_to e)"
proof -
  let ?n = "er_to e"
  have wf: "wf_db db" and safe: "safe_db db" and fin: "finished db q"
    and nc: "status_of db ?n \<noteq> Some N_Complete" and nq: "?n \<noteq> q"
    using r e by (auto simp: routing_def safe_db_def)
  have ex: "node_exists db ?n" using wf e node_in_graph_exists by (auto simp: wf_db_def edges_closed_def)
  have "graph_open db q" using fin finished_started safe by (auto simp: safe_db_def)
  then have opn: "graph_open db ?n"
    using edge_same_graph [OF wf e(1)] e(2) by (simp add: graph_open_def)
  have frame: "frame db db'" using writes_check_and_ready [of db g ?n] c by (auto intro: engine_writes_frame)
  have wf': "wf_db db'" using wf_check_and_ready [OF wf, of g ?n] c by simp
  have *: "routing db' q \<and> started_le db db' \<and> started db' ?n"
    if st: "\<And>m. status_of db' m = (if m = ?n then Some st1 else status_of db m)"
      and "db_tokens db' = db_tokens db" "\<And>g. gstatus_of db' g = gstatus_of db g"
      and st1: "st1 = N_Ready \<or> st1 = N_Running" and "status_of db ?n = Some N_Pending" "join_satisfied db ?n" for st1
  proof -
    have "safe_db db'" by (rule safe_enable [OF wf safe that(6,5) frame that(1-4) opn])
    moreover have "finished db' q" using fin nq by (simp add: finished_def st)
    moreover have "\<forall>e \<in> set (db_edges db'). er_from e = q \<longrightarrow> status_of db' (er_to e) \<noteq> Some N_Complete"
      using r st1 by (auto simp: frame_edges [OF frame] routing_def st)
    ultimately show ?thesis using wf' st1 by (auto simp: routing_def started_le_def started_def st)
  qed
  have "routing db' q \<and> started_le db db' \<and> (out \<noteq> None \<longrightarrow> started db' ?n)"
    using wf ex c
  proof (cases rule: check_and_ready_cases)
    case unchanged
    then show ?thesis using r by (simp add: started_le_refl)
  next
    case (gathered s)
    then show ?thesis using nc ex *[of N_Running] by (auto simp: status views)
  next
    case (readied spec)
    then show ?thesis using nc ex *[of N_Ready] by (auto simp: status views make_ready_def)
  qed
  then show "routing db' q" "started_le db db'" "out \<noteq> None \<Longrightarrow> started db' ?n" by auto
qed

lemma route_edges_safe:
  assumes "routing db q" and "\<forall>(i, to, c) \<in> set es. \<exists>e \<in> set (db_edges db). er_id e = i \<and> er_to e = to \<and> er_from e = q"
    and "route_edges g tok es (wq, any) db = (Inr (wq', any'), db')"
    and "\<forall>w \<in> set wq. started db (fst w)"
  shows "routing db' q \<and> started_le db db' \<and> (\<forall>w \<in> set wq'. started db' (fst w))"
  using assms
proof (induction g tok es "(wq, any)" db arbitrary: wq any rule: route_edges.induct)
  case (1 g tok db)
  then show ?case by (simp add: started_le_refl)
next
  case (2 g tok i to cond es wq any db)
  show ?case
  proof (cases "edge_accepts cond tok")
    case False
    with 2 show ?thesis by simp
  next
    case True
    obtain e where e: "e \<in> set (db_edges db)" "er_id e = i" "er_to e = to" "er_from e = q"
      using "2.prems"(2) by auto
    obtain db1 where d: "deliver_token i g tok (count_tokens_on_edge db i + 1) db = (Inr (), db1)"
      using deliver_token_next "2.prems"(1) by (auto simp: wf_db_def routing_def)
    have r1: "routing db1 q" and l1: "started_le db db1"
      using routing_deliver [OF "2.prems"(1) e(1,4)] d e(2) by auto
    have f1: "frame db db1" using d by (auto intro: engine_writes_frame write_token)
    have e1: "e \<in> set (db_edges db1)" using e by (simp add: frame_edges [OF f1])
    have ex: "node_exists db1 to"
      using r1 e1 e(3) node_in_graph_exists by (fastforce simp: routing_def wf_db_def edges_closed_def)
    obtain out db2 where c: "check_and_ready g to db1 = (Inr out, db2)" using check_and_ready_ok [OF ex] by blast
    have r2: "routing db2 q" and l2: "started_le db1 db2" and o2: "out \<noteq> None \<Longrightarrow> started db2 to"
      using routing_check [OF r1 e1 e(4)] c e(3) by auto
    have f2: "frame db1 db2" using writes_check_and_ready [of db1 g to] c by (auto intro: engine_writes_frame)
    have es2: "\<forall>(i, to, c) \<in> set es. \<exists>e \<in> set (db_edges db2). er_id e = i \<and> er_to e = to \<and> er_from e = q"
      using "2.prems"(2) by (simp add: frame_edges [OF f1] frame_edges [OF f2])
    have l: "started_le db db2" using l1 l2 by (rule started_le_trans)
    define q2 where "q2 = (case out of None \<Rightarrow> wq | Some oo \<Rightarrow> (to, Some oo, None) # wq)"
    have q2: "\<forall>w \<in> set q2. started db2 (fst w)"
      using "2.prems"(4) l o2 by (auto simp: q2_def started_le_def split: option.splits)
    have r: "route_edges g tok es (q2, True) db2 = (Inr (wq', any'), db')"
      using True d c "2.prems"(3) by (simp add: q2_def)
    have "routing db' q \<and> started_le db2 db' \<and> (\<forall>w \<in> set wq'. started db' (fst w))"
      using "2.hyps"(1) [OF True, of db2 out] r2 es2 r q2 unfolding q2_def by blast
    then show ?thesis using l started_le_trans by blast
  qed
qed

lemma route_tokens_safe:
  assumes "routing db q" and "\<forall>(i, to, c) \<in> set es. \<exists>e \<in> set (db_edges db). er_id e = i \<and> er_to e = to \<and> er_from e = q"
    and "route_tokens g toks es (wq, any) db = (Inr (wq', any'), db')"
    and "\<forall>w \<in> set wq. started db (fst w)"
  shows "routing db' q \<and> (\<forall>w \<in> set wq'. started db' (fst w))"
  using assms
proof (induction toks arbitrary: wq any db)
  case (Cons tok toks)
  obtain q1 any1 db1 where r: "route_edges g tok es (wq, any) db = (Inr (q1, any1), db1)"
    using Cons.prems(3) by (cases "route_edges g tok es (wq, any) db"; cases "fst (route_edges g tok es (wq, any) db)") auto
  have f: "frame db db1" using writes_route_edges [of db g tok es "(wq, any)"] r by (auto intro: engine_writes_frame)
  note step = route_edges_safe [OF Cons.prems(1,2) r Cons.prems(4)]
  show ?case
    using Cons.IH [of db1 q1 any1] step Cons.prems(2,3) r by (simp add: frame_edges [OF f])
qed simp

subsection \<open>One iteration, the loop, the other operations\<close>

lemma routing_record:
  assumes wf: "wf_db db" and safe: "safe_db db" and st: "started db n" and nt: "\<not> finished db n"
  shows "routing (record_outcome g n out err db) n"
proof -
  let ?db1 = "record_outcome g n out err db"
  have frame: "frame db ?db1" by (rule engine_writes_frame) (rule writes_record_outcome)
  have ex: "node_exists db n" using st status_of_None [of db n] by (auto simp: started_def split: option.splits)
  have v: "graph_open ?db1 m = graph_open db m" for m by (simp add: graph_open_def views frame_graph_of [OF frame])
  have tok: "db_tokens ?db1 = db_tokens db" by (auto simp: record_outcome_def split: option.splits)
  have "safe_db ?db1" using safe st nt ex
    by (auto simp: safe_db_def views v frame_edges [OF frame] tok)
  moreover have "status_of ?db1 (er_to e) \<noteq> Some N_Complete" if e: "e \<in> set (db_edges db)" "er_from e = n" for e
  proof -
    have "er_to e \<noteq> n" using safe e by (auto simp: safe_db_def)
    moreover have "\<not> started db (er_to e)" using safe e nt by (auto simp: safe_db_def)
    ultimately show ?thesis by (auto simp: status started_def)
  qed
  ultimately show ?thesis
    using engine_writes_wf [OF writes_record_outcome wf] ex by (simp add: routing_def views frame_edges [OF frame])
qed

lemma outbound_edges_of:
  "\<forall>(i, to, c) \<in> set (get_outbound_edges_with_conditions db q).
     \<exists>e \<in> set (db_edges db). er_id e = i \<and> er_to e = to \<and> er_from e = q"
  by (auto simp: get_outbound_edges_with_conditions_def)

lemma safe_fail_graph: "safe_db db \<Longrightarrow> safe_db (fail_graph g n msg db)"
  by (rule safe_db_views [where db = db, OF engine_writes_frame])
    (auto simp: fail_graph_def views writes_intros split: if_splits)

lemma safe_complete: "safe_db db \<Longrightarrow> safe_db (complete_if_all_done g db)"
  by (rule safe_db_views [where db = db, OF engine_writes_frame])
    (auto simp: complete_if_all_done_def views writes_intros Let_def split: if_splits)

lemma started_complete [views]: "started (complete_if_all_done g db) n = started db n"
  by (simp add: complete_if_all_done_def views Let_def)

lemma started_fail_graph [views]: "started (fail_graph g m msg db) n = started db n"
  by (simp add: fail_graph_def views)

lemma advance_step_safe:
  assumes wf: "wf_db db" and safe: "safe_db db" and st: "\<forall>w \<in> set (w # rest). started db (fst w)"
  shows "safe_db (outcome_db (advance_step g w rest db)) \<and>
    (\<forall>q' db'. advance_step g w rest db = Continue q' db' \<longrightarrow> (\<forall>w \<in> set q'. started db' (fst w)))"
proof -
  obtain n out err where w: "w = (n, out, err)" by (cases w)
  show ?thesis
  proof (cases "finished db n")
    case True
    then have "advance_step g w rest db = Continue rest db"
      by (auto simp: w advance_step_def get_node_def finished_def status_of_def terminal_status_def split: option.splits)
    with safe st show ?thesis by simp
  next
    case False
    let ?db1 = "record_outcome g n out err db"
    have r: "routing ?db1 n" using wf safe st False by (intro routing_record) (simp_all add: w)
    have wf1: "wf_db ?db1" using r by (simp add: routing_def)
    obtain q' any' db2 where t: "route_tokens g (produce_tokens out err)
        (get_outbound_edges_with_conditions ?db1 n) (rest, False) ?db1 = (Inr (q', any'), db2)"
      using route_tokens_ok [OF wf1 outbound_exist [OF wf1]] by (metis prod.collapse)
    have "routing db2 n \<and> (\<forall>w \<in> set q'. started db2 (fst w))"
      using st by (intro route_tokens_safe [OF r outbound_edges_of t]) (simp add: views)
    moreover have "advance_step g w rest db =
      (if err \<noteq> None \<and> \<not> any' then Return (Inr ()) (fail_graph g n (error_text (produce_tokens out err)) db2)
       else Continue q' db2)"
    proof -
      obtain r where "row_by nr_id n (db_nodes db) = Some r" "\<not> terminal_status (nr_status r)"
        using st False by (auto simp: w started_def finished_def status_of_def split: option.splits)
      then show ?thesis using t by (auto simp: w advance_step_def get_node_def Let_def)
    qed
    ultimately show ?thesis by (auto simp: routing_def safe_fail_graph)
  qed
qed

lemma advance_graph_safe:
  assumes ret: "advance_graph g n out err db = Some (r, db')"
    and wf: "wf_db db" and safe: "safe_db db" and st: "started db n"
  shows "safe_db db'"
proof (rule advance_loop_rule [where
      I = "\<lambda>q d. wf_db d \<and> safe_db d \<and> (\<forall>w \<in> set q. started d (fst w))" and Q = "\<lambda>_. safe_db"])
  show "advance_loop g [(n, out, err)] db = Some (r, db')" using ret by (simp add: advance_graph_def)
next
  fix w rest d q1 d1
  assume "wf_db d \<and> safe_db d \<and> (\<forall>w \<in> set (w # rest). started d (fst w))" "advance_step g w rest d = Continue q1 d1"
  then show "wf_db d1 \<and> safe_db d1 \<and> (\<forall>w \<in> set q1. started d1 (fst w))"
    using advance_step_safe [of d w rest g] outcome_step_wf [of d g w rest] by auto
next
  fix w rest d r d1
  assume "wf_db d \<and> safe_db d \<and> (\<forall>w \<in> set (w # rest). started d (fst w))" "advance_step g w rest d = Return r d1"
  then show "safe_db d1" using advance_step_safe [of d w rest g] by auto
qed (use wf safe st in \<open>simp_all add: safe_complete\<close>)

end
