(* ===== verification/Orcha_Graph.thy ===== *)
theory Orcha_Graph
  imports Lattice_Engine
begin

text \<open>
  Orcha's handle on a Lattice graph: \<^verbatim>\<open>src/src/activations/orcha/graph_runtime.rs\<close> and the types
  \<open>OrchaNodeKind\<close>, \<open>OrchaNodeSpec\<close>, \<open>OrchaNodeDef\<close>, \<open>OrchaEdgeDef\<close> of
  \<^verbatim>\<open>src/src/activations/orcha/types.rs\<close>. An \<open>OrchaGraph\<close> is its graph id; the storage is the state that
  the operations pass on. The JSON form of a node kind is the one that \<open>serde\<close> derives from the
  attributes in the source (internally tagged by \<open>orcha_type\<close>, snake case, absent options are \<open>None\<close>).
\<close>

subsection \<open>Node kinds and their JSON form\<close>

datatype orcha_node_kind =
    Kind_Task string "nat option"
  | Kind_Synthesize string "nat option"
  | Kind_Validate string "string option" "nat option"
  | Kind_Review string
  | Kind_Plan string

fun json_of_retries :: "nat option \<Rightarrow> json" where
  "json_of_retries None = JNull"
| "json_of_retries (Some n) = JNum (Int_Number (int n))"

fun json_of_text :: "string option \<Rightarrow> json" where
  "json_of_text None = JNull"
| "json_of_text (Some s) = JStr s"

fun kind_to_json :: "orcha_node_kind \<Rightarrow> json" where
  "kind_to_json (Kind_Task task retries) =
     JObj [(''orcha_type'', JStr ''task''), (''task'', JStr task), (''max_retries'', json_of_retries retries)]"
| "kind_to_json (Kind_Synthesize task retries) =
     JObj [(''orcha_type'', JStr ''synthesize''), (''task'', JStr task), (''max_retries'', json_of_retries retries)]"
| "kind_to_json (Kind_Validate command cwd retries) =
     JObj [(''orcha_type'', JStr ''validate''), (''command'', JStr command), (''cwd'', json_of_text cwd),
           (''max_retries'', json_of_retries retries)]"
| "kind_to_json (Kind_Review prompt) = JObj [(''orcha_type'', JStr ''review''), (''prompt'', JStr prompt)]"
| "kind_to_json (Kind_Plan task) = JObj [(''orcha_type'', JStr ''plan''), (''task'', JStr task)]"

text \<open>An \<open>Option<u8>\<close> field: absent or null is \<open>None\<close>, a number must fit eight bits; \<open>None\<close> outside is a type error.\<close>

fun retries_of_json :: "json option \<Rightarrow> nat option option" where
  "retries_of_json None = Some None"
| "retries_of_json (Some JNull) = Some None"
| "retries_of_json (Some (JNum (Int_Number i))) = (if 0 \<le> i \<and> i < 256 then Some (Some (nat i)) else None)"
| "retries_of_json (Some _) = None"

fun text_of_json :: "json option \<Rightarrow> string option option" where
  "text_of_json None = Some None"
| "text_of_json (Some JNull) = Some None"
| "text_of_json (Some (JStr s)) = Some (Some s)"
| "text_of_json (Some _) = None"

definition json_str_field :: "string \<Rightarrow> json \<Rightarrow> string option" where
  "json_str_field k v = Option.bind (json_get k v) json_as_str"

definition kind_of_json :: "json \<Rightarrow> orcha_node_kind option" where
  "kind_of_json v =
     (case json_str_field ''orcha_type'' v of
        None \<Rightarrow> None
      | Some tag \<Rightarrow>
          if tag = ''task'' then
            Option.bind (json_str_field ''task'' v) (\<lambda>t.
              map_option (Kind_Task t) (retries_of_json (json_get ''max_retries'' v)))
          else if tag = ''synthesize'' then
            Option.bind (json_str_field ''task'' v) (\<lambda>t.
              map_option (Kind_Synthesize t) (retries_of_json (json_get ''max_retries'' v)))
          else if tag = ''validate'' then
            Option.bind (json_str_field ''command'' v) (\<lambda>c.
            Option.bind (text_of_json (json_get ''cwd'' v)) (\<lambda>d.
              map_option (Kind_Validate c d) (retries_of_json (json_get ''max_retries'' v))))
          else if tag = ''review'' then map_option Kind_Review (json_str_field ''prompt'' v)
          else if tag = ''plan'' then map_option Kind_Plan (json_str_field ''task'' v)
          else None)"

fun kind_retries_fit :: "orcha_node_kind \<Rightarrow> bool" where
  "kind_retries_fit (Kind_Task _ r) = (case r of None \<Rightarrow> True | Some n \<Rightarrow> n < 256)"
| "kind_retries_fit (Kind_Synthesize _ r) = (case r of None \<Rightarrow> True | Some n \<Rightarrow> n < 256)"
| "kind_retries_fit (Kind_Validate _ _ r) = (case r of None \<Rightarrow> True | Some n \<Rightarrow> n < 256)"
| "kind_retries_fit _ = True"

lemma retries_json: "(case r of None \<Rightarrow> True | Some n \<Rightarrow> n < 256) \<Longrightarrow> retries_of_json (Some (json_of_retries r)) = Some r"
  by (cases r) auto

lemma text_json: "text_of_json (Some (json_of_text t)) = Some t"
  by (cases t) auto

lemma kind_json: "kind_retries_fit k \<Longrightarrow> kind_of_json (kind_to_json k) = Some k"
  by (cases k) (simp_all add: kind_of_json_def json_str_field_def retries_json text_json)

subsection \<open>Graph handles\<close>

definition runtime_create_graph :: "json \<Rightarrow> string \<Rightarrow> graph_id lattice_op" where
  "runtime_create_graph metadata uuid db = create_graph metadata uuid db"

definition add_spec :: "graph_id \<Rightarrow> node_spec \<Rightarrow> node_id \<Rightarrow> node_id lattice_op" where
  "add_spec g spec uuid db = add_node g None spec uuid db"

definition add_task :: "graph_id \<Rightarrow> string \<Rightarrow> nat option \<Rightarrow> node_id \<Rightarrow> node_id lattice_op" where
  "add_task g task retries uuid = add_spec g (Spec_Task (kind_to_json (Kind_Task task retries)) None) uuid"

definition add_synthesize :: "graph_id \<Rightarrow> string \<Rightarrow> nat option \<Rightarrow> node_id \<Rightarrow> node_id lattice_op" where
  "add_synthesize g task retries uuid = add_spec g (Spec_Task (kind_to_json (Kind_Synthesize task retries)) None) uuid"

definition add_validate :: "graph_id \<Rightarrow> string \<Rightarrow> string option \<Rightarrow> nat option \<Rightarrow> node_id \<Rightarrow> node_id lattice_op" where
  "add_validate g command cwd retries uuid =
     add_spec g (Spec_Task (kind_to_json (Kind_Validate command cwd retries)) None) uuid"

definition add_gather :: "graph_id \<Rightarrow> gather_strategy \<Rightarrow> node_id \<Rightarrow> node_id lattice_op" where
  "add_gather g strategy uuid = add_spec g (Spec_Gather strategy) uuid"

definition add_subgraph :: "graph_id \<Rightarrow> graph_id \<Rightarrow> node_id \<Rightarrow> node_id lattice_op" where
  "add_subgraph g child uuid = add_spec g (Spec_SubGraph child) uuid"

definition add_plan :: "graph_id \<Rightarrow> string \<Rightarrow> node_id \<Rightarrow> node_id lattice_op" where
  "add_plan g task uuid = add_spec g (Spec_Task (kind_to_json (Kind_Plan task)) None) uuid"

definition add_review :: "graph_id \<Rightarrow> string \<Rightarrow> node_id \<Rightarrow> node_id lattice_op" where
  "add_review g prompt uuid = add_spec g (Spec_Task (kind_to_json (Kind_Review prompt)) None) uuid"

definition depends_on :: "graph_id \<Rightarrow> node_id \<Rightarrow> node_id \<Rightarrow> string \<Rightarrow> unit lattice_op" where
  "depends_on g dependent dependency uuid db = add_edge g dependency dependent None uuid db"

definition start_node :: "graph_id \<Rightarrow> node_id \<Rightarrow> lattice_db \<Rightarrow> lattice_db" where
  "start_node g n db =
     notify_graph g (persist_event g (NodeStarted n) (set_node_status n N_Running None None db))"

definition complete_node ::
  "graph_id \<Rightarrow> node_id \<Rightarrow> node_output option \<Rightarrow> lattice_db \<Rightarrow> (lattice_error, unit, lattice_db) outcome option" where
  "complete_node g n out db = advance_graph g n out None db"

definition fail_node ::
  "graph_id \<Rightarrow> node_id \<Rightarrow> string \<Rightarrow> lattice_db \<Rightarrow> (lattice_error, unit, lattice_db) outcome option" where
  "fail_node g n msg db = advance_graph g n None (Some msg) db"

definition get_inbound_node_ids :: "lattice_db \<Rightarrow> node_id \<Rightarrow> node_id list" where
  "get_inbound_node_ids db n = get_inbound_edges db n"

definition get_node_spec :: "lattice_db \<Rightarrow> node_id \<Rightarrow> lattice_error + node_spec" where
  "get_node_spec db n = (case get_node db n of Inl e \<Rightarrow> Inl e | Inr r \<Rightarrow> Inr (ln_spec r))"

definition get_node_output :: "lattice_db \<Rightarrow> node_id \<Rightarrow> lattice_error + node_output option" where
  "get_node_output db n = (case get_node db n of Inl e \<Rightarrow> Inl e | Inr r \<Rightarrow> Inr (ln_output r))"

definition get_terminal_node_ids :: "lattice_db \<Rightarrow> graph_id \<Rightarrow> node_id list" where
  "get_terminal_node_ids db g =
     map ln_id (filter (\<lambda>n. ln_status n = N_Complete \<or> ln_status n = N_Failed) (get_nodes db g))"

subsection \<open>Building a graph from a definition\<close>

datatype orcha_node_spec =
    Def_Task string "nat option"
  | Def_Synthesize string "nat option"
  | Def_Validate string "string option" "nat option"
  | Def_Gather gather_strategy
  | Def_Review string
  | Def_Plan string

record orcha_node_def =
  nd_id :: string
  nd_spec :: orcha_node_spec

record orcha_edge_def =
  ed_from :: string
  ed_to :: string

fun add_def :: "graph_id \<Rightarrow> orcha_node_spec \<Rightarrow> node_id \<Rightarrow> node_id lattice_op" where
  "add_def g (Def_Task task retries) uuid = add_task g task retries uuid"
| "add_def g (Def_Synthesize task retries) uuid = add_synthesize g task retries uuid"
| "add_def g (Def_Validate command cwd retries) uuid = add_validate g command cwd retries uuid"
| "add_def g (Def_Gather strategy) uuid = add_gather g strategy uuid"
| "add_def g (Def_Review prompt) uuid = add_review g prompt uuid"
| "add_def g (Def_Plan task) uuid = add_plan g task uuid"

text \<open>The errors of \<open>build_child_graph\<close>.\<close>

datatype build_error =
    Build_Storage lattice_error
  | Build_Node string lattice_error
  | Unknown_From string
  | Unknown_To string
  | Build_Edge string string lattice_error

text \<open>
  The two loops of \<open>build_child_graph\<close>. \<open>uuids\<close> supplies the identifiers that the insertions draw; the
  map \<open>ids\<close> is the \<open>HashMap\<close> from the caller's labels to Lattice nodes, later labels overwriting
  earlier ones.
\<close>

fun build_nodes :: "graph_id \<Rightarrow> orcha_node_def list \<Rightarrow> (nat \<Rightarrow> node_id) \<Rightarrow> (string \<rightharpoonup> node_id) \<Rightarrow> lattice_db \<Rightarrow>
    (build_error, string \<rightharpoonup> node_id, lattice_db) outcome" where
  "build_nodes g [] uuids ids db = (Inr ids, db)"
| "build_nodes g (d # ds) uuids ids db =
     (case add_def g (nd_spec d) (uuids 0) db of
        (Inl e, db1) \<Rightarrow> (Inl (Build_Node (nd_id d) e), db1)
      | (Inr n, db1) \<Rightarrow> build_nodes g ds (\<lambda>i. uuids (Suc i)) (ids(nd_id d \<mapsto> n)) db1)"

fun build_edges :: "graph_id \<Rightarrow> orcha_edge_def list \<Rightarrow> (nat \<Rightarrow> string) \<Rightarrow> (string \<rightharpoonup> node_id) \<Rightarrow> lattice_db \<Rightarrow>
    (build_error, unit, lattice_db) outcome" where
  "build_edges g [] uuids ids db = (Inr (), db)"
| "build_edges g (d # ds) uuids ids db =
     (case ids (ed_from d) of
        None \<Rightarrow> (Inl (Unknown_From (ed_from d)), db)
      | Some dep \<Rightarrow>
          (case ids (ed_to d) of
             None \<Rightarrow> (Inl (Unknown_To (ed_to d)), db)
           | Some n \<Rightarrow>
               (case depends_on g n dep (uuids 0) db of
                  (Inl e, db1) \<Rightarrow> (Inl (Build_Edge (ed_from d) (ed_to d) e), db1)
                | (Inr _, db1) \<Rightarrow> build_edges g ds (\<lambda>i. uuids (Suc i)) ids db1)))"

definition build_child_graph ::
  "graph_id \<Rightarrow> json \<Rightarrow> orcha_node_def list \<Rightarrow> orcha_edge_def list \<Rightarrow>
   string \<Rightarrow> (nat \<Rightarrow> node_id) \<Rightarrow> (nat \<Rightarrow> string) \<Rightarrow> lattice_db \<Rightarrow>
   (build_error, graph_id \<times> (string \<rightharpoonup> node_id), lattice_db) outcome" where
  "build_child_graph parent metadata nodes edges graph_uuid node_uuids edge_uuids db =
     (case create_child_graph parent metadata graph_uuid db of
        (Inl e, db1) \<Rightarrow> (Inl (Build_Storage e), db1)
      | (Inr g, db1) \<Rightarrow>
          bind_res (build_nodes g nodes node_uuids Map.empty db1) (\<lambda>ids db2.
          bind_res (build_edges g edges edge_uuids ids db2) (\<lambda>_ db3. (Inr (g, ids), db3))))"

end
