(* ===== verification/Lattice_Run.thy ===== *)
theory Lattice_Run
  imports Lattice_Safety Orcha_Graph
begin

text \<open>
  Runs of the engine as Orcha drives it: graphs are created and grown, started, their nodes picked up
  (\<open>start_node\<close>) and their outcomes reported (\<open>complete_node\<close>, \<open>fail_node\<close>), recovery resets and
  re-emits, cancellation. Compared with \<open>lattice_step\<close> the callers' discipline is a guard: an outcome is
  reported for a node that has been handed out, and an edge is added only in front of a node that has
  not started. Under that discipline dependency order is an invariant.
\<close>

subsection \<open>The run relation\<close>

definition handed_out :: "lattice_db \<Rightarrow> node_id \<Rightarrow> bool" where
  "handed_out db n \<longleftrightarrow> status_of db n = Some N_Ready \<or> status_of db n = Some N_Running"

inductive run_step :: "lattice_db \<Rightarrow> lattice_db \<Rightarrow> bool" where
  run_create_graph: "run_step db (snd (create_graph m u db))"
| run_create_child: "run_step db (snd (create_child_graph p m u db))"
| run_add_node: "run_step db (snd (add_node g hint spec u db))"
| run_add_edge: "from \<noteq> to \<Longrightarrow> status_of db to = Some N_Pending \<Longrightarrow> run_step db (snd (add_edge g from to cond u db))"
| run_start: "run_step db (start_graph g db)"
| run_start_node: "status_of db n = Some N_Ready \<Longrightarrow> run_step db (start_node g n db)"
| run_outcome: "handed_out db n \<Longrightarrow> advance_graph g n out err db = Some (r, db') \<Longrightarrow> run_step db db'"
| run_reset: "run_step db (snd (reset_running_to_ready g n db))"
| run_reemit: "run_step db (reemit_ready_nodes g db)"
| run_cancel: "run_step db (cancel g db)"
| run_notifier: "run_step db (get_or_create_notifier g db)"
| run_clock: "run_step db (db\<lparr>db_clock := t\<rparr>)"

inductive run_reachable :: "bool \<Rightarrow> lattice_db \<Rightarrow> bool" for fk where
  run_init: "run_reachable fk (empty_db fk)"
| run_more: "run_reachable fk db \<Longrightarrow> run_step db db' \<Longrightarrow> run_reachable fk db'"

inductive_cases run_stepE: "run_step db db'"

subsection \<open>Every run step is a storage step\<close>

lemma start_node_steps: "lattice_step\<^sup>*\<^sup>* db (start_node g n db)"
  unfolding start_node_def
  by (meson ls_set_status ls_persist ls_notify r_into_rtranclp rtranclp_trans)

lemma run_step_lattice: "run_step db db' \<Longrightarrow> lattice_step\<^sup>*\<^sup>* db db'"
  by (induction rule: run_step.induct)
     (blast intro: start_node_steps r_into_rtranclp lattice_step.intros)+

lemma lattice_steps_reachable: "lattice_step\<^sup>*\<^sup>* db db' \<Longrightarrow> lattice_reachable fk db \<Longrightarrow> lattice_reachable fk db'"
  by (induction rule: rtranclp_induct) (auto intro: lr_step)

lemma run_reachable_lattice: "run_reachable fk db \<Longrightarrow> lattice_reachable fk db"
  by (induction rule: run_reachable.induct) (auto intro: lr_init lattice_steps_reachable run_step_lattice)

lemmas run_reachable_wf = lattice_reachable_wf [OF run_reachable_lattice]

subsection \<open>Growing a graph is safe\<close>

lemma safe_empty: "safe_db (empty_db fk)"
  by (simp add: safe_db_def empty_db_def marked_def started_def status_of_def)

lemma views_eq_fields:
  assumes "db_nodes db' = db_nodes db"
  shows "started db' n = started db n" "finished db' n = finished db n" "graph_of db' n = graph_of db n"
    "status_of db' n = status_of db n" "spec_of db' n = spec_of db n" "node_exists db' n = node_exists db n"
  using assms by (simp_all add: started_def finished_def status_of_def graph_of_def spec_of_def node_exists_def)

lemma safe_more_graphs:
  assumes "safe_db db" and "row_by gr_id (gr_id r) (db_graphs db) = None"
  shows "safe_db (db\<lparr>db_graphs := db_graphs db @ [r]\<rparr>)"
proof -
  let ?db = "db\<lparr>db_graphs := db_graphs db @ [r]\<rparr>"
  have "gstatus_of ?db g = (if gstatus_of db g = None then (if gr_id r = g then Some (gr_status r) else None) else gstatus_of db g)" for g
    by (auto simp: gstatus_of_def row_by_append split: option.splits)
  moreover have "gstatus_of db (gr_id r) = None" using assms(2) by (simp add: gstatus_of_def)
  ultimately have "graph_open db n \<Longrightarrow> graph_open ?db n" for n
    by (auto simp: graph_open_def views_eq_fields [of ?db db])
  then show ?thesis
    using assms(1) by (auto simp: safe_db_def marked_def views_eq_fields [of ?db db])
qed

lemma safe_create_graph: "safe_db db \<Longrightarrow> safe_db (snd (create_graph m u db))"
  by (simp add: create_graph_def Let_def safe_more_graphs)

lemma safe_create_child: "safe_db db \<Longrightarrow> safe_db (snd (create_child_graph p m u db))"
  by (simp add: create_child_graph_def Let_def safe_more_graphs)

text \<open>A new node is pending, and nothing leads into it, so the attempt to ready it does nothing.\<close>

lemma check_fresh:
  assumes "wf_db db" and "status_of db n = Some st" and "\<forall>e \<in> set (db_edges db). er_to e \<noteq> n"
  shows "snd (check_and_ready g n db) = db"
proof -
  have ex: "node_exists db n" using assms(2) status_of_None [of db n] by auto
  obtain r db' where c: "check_and_ready g n db = (r, db')" by fastforce
  have nj: "\<not> join_satisfied db n" using assms(3) by (auto simp: join_satisfied_def inbound_edge_ids_def)
  from check_and_ready_cases [OF assms(1) ex c] nj c show ?thesis by auto
qed

lemma safe_more_nodes:
  assumes wf: "wf_db db" and safe: "safe_db db" and fresh: "row_by nr_id (nr_id r) (db_nodes db) = None"
    and pend: "nr_status r = N_Pending"
  shows "safe_db (db\<lparr>db_nodes := db_nodes db @ [r]\<rparr>)"
proof -
  let ?db = "db\<lparr>db_nodes := db_nodes db @ [r]\<rparr>"
  have st: "status_of ?db n = (if n = nr_id r then Some N_Pending else status_of db n)" for n
    using fresh pend by (auto simp: status_of_def row_by_append split: option.splits)
  have none: "status_of db (nr_id r) = None" using fresh by (simp add: status_of_def)
  have v: "started ?db n = started db n" "finished ?db n = finished db n" for n
    using none by (auto simp: started_def finished_def st)
  have "graph_open ?db n" if "started db n" for n
  proof -
    have "n \<noteq> nr_id r" using that none by (auto simp: started_def)
    then have "graph_of ?db n = graph_of db n"
      by (auto simp: graph_of_def row_by_append split: option.splits)
    then show ?thesis using safe that by (simp add: safe_db_def graph_open_def gstatus_of_def)
  qed
  then show ?thesis using safe by (auto simp: safe_db_def v marked_def)
qed

definition fresh_node :: "node_id \<Rightarrow> graph_id \<Rightarrow> node_spec \<Rightarrow> lattice_db \<Rightarrow> node_row" where
  "fresh_node i g spec db = \<lparr>nr_id = i, nr_graph = g, nr_spec = spec, nr_status = N_Pending, nr_output = None,
     nr_error = None, nr_created_at = db_clock db, nr_completed_at = None, nr_join = ''all''\<rparr>"

lemma add_node_result:
  assumes "wf_db db"
  shows "snd (add_node g hint spec u db) = db \<or>
    (\<exists>i. row_by nr_id i (db_nodes db) = None \<and>
       snd (add_node g hint spec u db) = db\<lparr>db_nodes := db_nodes db @ [fresh_node i g spec db]\<rparr>)"
proof -
  define i where "i = (case hint of Some i \<Rightarrow> i | None \<Rightarrow> u)"
  let ?db = "db\<lparr>db_nodes := db_nodes db @ [fresh_node i g spec db]\<rparr>"
  show ?thesis
  proof (cases "row_by nr_id i (db_nodes db)")
    case None
    have wf: "wf_db ?db" using assms None by (intro wf_append_node) (simp_all add: fresh_node_def)
    have "node_exists db (er_to e)" if "e \<in> set (db_edges db)" for e
      using that assms node_in_graph_exists by (auto simp: wf_db_def edges_closed_def)
    then have "\<forall>e \<in> set (db_edges ?db). er_to e \<noteq> i" using None by (fastforce simp: node_exists_def)
    moreover have "status_of ?db i = Some N_Pending" using None by (simp add: status_of_def row_by_append fresh_node_def)
    ultimately have "snd (check_and_ready g i ?db) = ?db" using wf by (intro check_fresh) auto
    then have "snd (add_node g hint spec u db) \<in> {db, ?db}"
      by (simp add: add_node_def Let_def i_def [symmetric] fresh_node_def)
    then show ?thesis using None by auto
  qed (simp add: add_node_def Let_def i_def [symmetric])
qed

lemma safe_add_node:
  assumes "wf_db db" and "safe_db db"
  shows "safe_db (snd (add_node g hint spec u db))"
proof -
  have "safe_db (db\<lparr>db_nodes := db_nodes db @ [fresh_node i g spec db]\<rparr>)" if "row_by nr_id i (db_nodes db) = None" for i
    using assms that by (intro safe_more_nodes) (simp_all add: fresh_node_def)
  then show ?thesis using add_node_result [OF assms(1), of g hint spec u] assms(2) by auto
qed

lemma safe_more_edges:
  assumes wf: "wf_db db" and safe: "safe_db db" and fresh: "row_by er_id (er_id e) (db_edges db) = None"
    and pend: "status_of db (er_to e) = Some N_Pending" and loop: "er_from e \<noteq> er_to e"
  shows "safe_db (db\<lparr>db_edges := db_edges db @ [e]\<rparr>)"
proof -
  let ?db = "db\<lparr>db_edges := db_edges db @ [e]\<rparr>"
  have v: "started ?db n = started db n" "finished ?db n = finished db n" "graph_open ?db n = graph_open db n" for n
    by (simp_all add: started_def finished_def status_of_def graph_open_def graph_of_def gstatus_of_def)
  have "\<not> marked db (er_id e)"
  proof
    assume "marked db (er_id e)"
    then obtain t where "t \<in> set (db_tokens db)" "tr_edge t = er_id e" by (auto simp: marked_def)
    moreover have "\<forall>t \<in> set (db_tokens db). tr_edge t \<in> er_id ` set (db_edges db)" using safe by (simp add: safe_db_def)
    ultimately have "er_id e \<in> er_id ` set (db_edges db)" by metis
    then show False using fresh unfolding row_by_None_iff by contradiction
  qed
  moreover have "\<not> started db (er_to e)" using pend by (simp add: started_def)
  ultimately show ?thesis using safe loop by (auto simp: safe_db_def v marked_def)
qed

text \<open>Enabling a target that is not complete, behind a finished source.\<close>

lemma check_safe:
  assumes wf: "wf_db db" and safe: "safe_db db" and e: "e \<in> set (db_edges db)" "finished db (er_from e)"
    and nc: "status_of db (er_to e) \<noteq> Some N_Complete"
  shows "safe_db (snd (check_and_ready g (er_to e) db))"
proof -
  let ?n = "er_to e"
  have ex: "node_exists db ?n" using wf e node_in_graph_exists by (auto simp: wf_db_def edges_closed_def)
  have "graph_open db (er_from e)" using e finished_started safe by (auto simp: safe_db_def)
  then have opn: "graph_open db ?n" using edge_same_graph [OF wf e(1)] by (simp add: graph_open_def)
  obtain r db' where c: "check_and_ready g ?n db = (r, db')" by fastforce
  have frame: "frame db db'" using writes_check_and_ready [of db g ?n] c by (auto intro: engine_writes_frame)
  from wf ex c show ?thesis
  proof (cases rule: check_and_ready_cases)
    case unchanged
    then show ?thesis using c safe by simp
  next
    case (gathered s)
    then have "status_of db ?n = Some N_Pending" using nc by simp
    moreover have "status_of db' m = (if m = ?n then Some N_Running else status_of db m)" for m
      using ex by (simp add: gathered(2) status)
    ultimately have "safe_db db'"
      by (rule safe_enable [OF wf safe gathered(5) _ frame]) (simp_all add: gathered(2) views opn)
    then show ?thesis using c by simp
  next
    case (readied spec)
    then have "status_of db ?n = Some N_Pending" using nc by simp
    moreover have "status_of db' m = (if m = ?n then Some N_Ready else status_of db m)" for m
      using ex by (simp add: readied(2) status)
    ultimately have "safe_db db'"
      by (rule safe_enable [OF wf safe readied(6) _ frame]) (simp_all add: readied(2) make_ready_def views opn)
    then show ?thesis using c by simp
  qed
qed

lemma deliver_all_safe:
  assumes "wf_db db" and "safe_db db" and "e \<in> set (db_edges db)" and "finished db (er_from e)"
    and "deliver_all (er_id e) g cond toks db = (r, db')"
  shows "wf_db db' \<and> safe_db db' \<and> db_edges db' = db_edges db \<and> (\<forall>n. status_of db' n = status_of db n)"
  using assms
proof (induction toks arbitrary: db)
  case (Cons tok toks)
  show ?case
  proof (cases "edge_accepts cond tok")
    case True
    let ?d = "deliver_token (er_id e) g tok (count_tokens_on_edge db (er_id e) + 1) db"
    obtain r1 db1 where d: "?d = (r1, db1)" by fastforce
    show ?thesis
    proof (cases r1)
      case (Inl er)
      then have "db1 = db" using deliver_token_cases [OF d] by auto
      with Inl True d Cons.prems show ?thesis by auto
    next
      case (Inr u)
      then have d': "?d = (Inr (), db1)" using d by simp
      note s = deliver_safe [OF Cons.prems(1-4) d']
      have "finished db1 (er_from e)" using Cons.prems(4) by (simp add: finished_def s)
      then show ?thesis using Cons.IH [of db1] s Cons.prems True d' by simp
    qed
  qed (use Cons in simp)
qed simp

lemma safe_notify: "safe_db db \<Longrightarrow> safe_db (notify_graph g db)"
  by (rule safe_db_views [where db = db]) (auto simp: views intro: engine_writes_frame writes_intros)

lemma safe_add_edge:
  assumes wf: "wf_db db" and safe: "safe_db db" and loop: "from \<noteq> to" and pend: "status_of db to = Some N_Pending"
  shows "safe_db (snd (add_edge g from to cond u db))"
proof -
  let ?e = "\<lparr>er_id = u, er_graph = g, er_from = from, er_to = to, er_condition = cond\<rparr>"
  let ?db1 = "db\<lparr>db_edges := db_edges db @ [?e]\<rparr>"
  have deliver: "safe_db (snd (bind_res (deliver_all u g cond toks ?db1)
      (\<lambda>_ db2. (Inr (), notify_graph g (snd (check_and_ready g to db2))))))"
    if w1: "wf_db ?db1" and s1: "safe_db ?db1" and fin: "finished ?db1 from" for toks
  proof -
    obtain r db2 where d: "deliver_all u g cond toks ?db1 = (r, db2)" by fastforce
    have s: "wf_db db2" "safe_db db2" "db_edges db2 = db_edges db @ [?e]" "status_of db2 n = status_of ?db1 n" for n
      using deliver_all_safe [of ?db1 ?e g cond toks r db2] w1 s1 fin d by auto
    have "finished db2 from" using fin by (simp add: finished_def s)
    moreover have "status_of db2 to \<noteq> Some N_Complete" using pend unfolding s(4) by (auto simp: status_of_def)
    ultimately have "safe_db (snd (check_and_ready g to db2))"
      using check_safe [of db2 ?e g] s by simp
    then show ?thesis using d s(2) by (cases r) (simp_all add: safe_notify)
  qed
  have 1: "wf_db ?db1 \<and> safe_db ?db1"
    if "node_in_graph db from g" "node_in_graph db to g" "row_by er_id u (db_edges db) = None"
    using that wf safe pend loop by (auto intro: wf_append_edge safe_more_edges)
  have 2: "finished ?db1 from" if "get_node ?db1 from = Inr src" "ln_status src = N_Complete" for src
    using that by (auto simp: get_node_def finished_def status_of_def split: option.splits)
  show ?thesis
    using 1 2 deliver safe by (auto simp: add_edge_def Let_def split: sum.splits)
qed

subsection \<open>Starting and recovering are safe\<close>

text \<open>A root: nothing leads into it. Its graph has been started.\<close>

definition ready_root :: "lattice_db \<Rightarrow> node_id \<Rightarrow> bool" where
  "ready_root db n \<longleftrightarrow> node_exists db n \<and> graph_open db n \<and> (\<forall>e \<in> set (db_edges db). er_to e \<noteq> n) \<and>
     status_of db n = Some N_Pending"

lemma safe_make_ready:
  assumes "safe_db db" and "node_exists db n" and "graph_open db n" and "\<not> finished db n"
    and "\<And>e. e \<in> set (db_edges db) \<Longrightarrow> er_to e = n \<Longrightarrow> marked db (er_id e)"
  shows "safe_db (make_ready g n spec db)"
proof -
  have fr: "frame db (make_ready g n spec db)" by (intro engine_writes_frame writes_make_ready) simp
  have go: "graph_open (make_ready g n spec db) m = graph_open db m" for m
    by (simp add: graph_open_def views frame_graph_of [OF fr])
  have tok: "db_tokens (make_ready g n spec db) = db_tokens db" by (simp add: make_ready_def)
  show ?thesis
    using assms by (auto simp: safe_db_def views go tok frame_edges [OF fr])
qed

lemma seed_roots_safe:
  assumes "safe_db db" and "\<forall>nd \<in> set roots. ready_root db (ln_id nd)" and "distinct (map ln_id roots)"
  shows "safe_db (seed_roots g roots db)"
  using assms
proof (induction roots arbitrary: db)
  case (Cons nd roots)
  show ?case
  proof (cases "is_gather (ln_spec nd)")
    case False
    let ?db1 = "make_ready g (ln_id nd) (ln_spec nd) db"
    have fr: "frame db ?db1" by (intro engine_writes_frame writes_make_ready) simp
    have "safe_db ?db1" using Cons.prems
      by (intro safe_make_ready) (auto simp: ready_root_def finished_def)
    moreover have "\<forall>nd' \<in> set roots. ready_root ?db1 (ln_id nd')"
      using Cons.prems by (auto simp: ready_root_def frame_node_exists [OF fr] frame_edges [OF fr] status
          graph_open_def views frame_graph_of [OF fr] rev_image_eqI)
    ultimately show ?thesis using Cons False by simp
  qed (use Cons in simp)
qed simp

lemma roots_ready:
  assumes wf: "wf_db db" and safe: "safe_db db" and nd: "nd \<in> set (get_nodes_with_no_predecessors db g)"
    and run: "gstatus_of db g \<notin> {None, Some G_Pending}"
    and fresh: "\<And>n. graph_of db n = Some g \<Longrightarrow> \<not> started db n"
  shows "ready_root db (ln_id nd)"
proof -
  obtain r where r: "r \<in> set (db_nodes db)" "nr_graph r = g" "ln_id nd = nr_id r"
    and np: "nr_id r \<notin> er_to ` {e \<in> set (db_edges db). er_graph e = g \<and> er_from e \<noteq> er_to e}"
    using nd by (auto simp: get_nodes_with_no_predecessors_def)
  have row: "row_by nr_id (nr_id r) (db_nodes db) = Some r"
    using wf r by (intro row_by_unique) (simp_all add: wf_db_def keys_distinct_def)
  then have g: "graph_of db (nr_id r) = Some g" using r by (simp add: graph_of_def)
  have "er_to e \<noteq> nr_id r" if e: "e \<in> set (db_edges db)" for e
  proof
    assume to: "er_to e = nr_id r"
    then have "er_graph e = g" using edge_same_graph(2) [OF wf e] g by simp
    moreover have "er_from e \<noteq> er_to e" using safe e by (simp add: safe_db_def)
    ultimately show False using np e to by (metis (mono_tags, lifting) imageI mem_Collect_eq)
  qed
  moreover have "status_of db (nr_id r) = Some N_Pending"
    using fresh [OF g] row by (auto simp: started_def status_of_def)
  ultimately show ?thesis
    using row g run by (simp add: ready_root_def r node_exists_def graph_open_def)
qed

lemma roots_distinct: "wf_db db \<Longrightarrow> distinct (map ln_id (get_nodes_with_no_predecessors db g))"
  by (auto simp: get_nodes_with_no_predecessors_def wf_db_def keys_distinct_def comp_def distinct_map
      intro: inj_on_subset)

lemma safe_start_graph:
  assumes wf: "wf_db db" and safe: "safe_db db"
  shows "safe_db (start_graph g db)"
proof (cases "count_where (\<lambda>r. gr_id r = g \<and> gr_status r = G_Pending) (db_graphs db) = 0")
  case False
  let ?db1 = "db\<lparr>db_graphs := update_where (\<lambda>r. gr_id r = g \<and> gr_status r = G_Pending)
                      (\<lambda>r. r\<lparr>gr_status := G_Running\<rparr>) (db_graphs db)\<rparr>"
  obtain r where "r \<in> set (db_graphs db)" "gr_id r = g" "gr_status r = G_Pending"
    using False unfolding neq0_conv count_where_pos_iff by blast
  then have pend: "row_by gr_id g (db_graphs db) = Some r" "gr_status r = G_Pending"
    using wf row_by_unique [of gr_id "db_graphs db" r] by (auto simp: wf_db_def keys_distinct_def)
  have gst: "gstatus_of ?db1 g' = (if g' = g then Some G_Running else gstatus_of db g')" for g'
    using pend row_by_Some_in [of gr_id g' "db_graphs db"]
    by (cases "row_by gr_id g' (db_graphs db)") (auto simp: gstatus_of_def row_by_update_where_gen)
  have wf1: "wf_db ?db1" using wf by (simp add: wf_db_graphs wf_db_distinct_graphs map_key_update_where)
  note v = views_eq_fields [of ?db1 db, simplified]
  have "graph_open ?db1 n" if "graph_open db n" for n
    using that by (auto simp: graph_open_def gst v)
  then have safe1: "safe_db ?db1" using safe by (auto simp: safe_db_def v marked_def)
  have "\<not> started ?db1 n" if "graph_of ?db1 n = Some g" for n
    using that safe pend by (auto simp: v safe_db_def graph_open_def gstatus_of_def)
  then have roots: "\<forall>nd \<in> set (get_nodes_with_no_predecessors ?db1 g). ready_root ?db1 (ln_id nd)"
    using roots_ready [OF wf1 safe1] gst by auto
  have "safe_db (seed_roots g (get_nodes_with_no_predecessors ?db1 g) ?db1)"
    by (rule seed_roots_safe [OF safe1 roots roots_distinct [OF wf1]])
  moreover have "safe_db (persist_event g (GraphDone g) (update_graph_status g G_Complete ?db1))"
    by (rule safe_db_views [where db = ?db1]) (use safe1 in \<open>auto simp: views intro: engine_writes_frame writes_intros split: if_splits\<close>)
  ultimately show ?thesis using False by (simp add: start_graph_def Let_def safe_notify)
qed (use safe in \<open>simp add: start_graph_def\<close>)

lemma safe_started_status:
  assumes "safe_db db" and "status_of db n = Some st0" and "st0 \<in> {N_Ready, N_Running}"
  shows "safe_db (set_node_status n N_Running None None db)" and "safe_db (make_ready g n spec db)"
proof -
  have st: "started db n" "\<not> finished db n" "node_exists db n"
    using assms status_of_None [of db n] by (auto simp: started_def finished_def)
  then have "marked db (er_id e)" if "e \<in> set (db_edges db)" "er_to e = n" for e
    using that assms(1) by (auto simp: safe_db_def)
  moreover have "graph_open db n" using st assms(1) by (simp add: safe_db_def)
  ultimately show "safe_db (make_ready g n spec db)"
    using st assms(1) by (blast intro: safe_make_ready)
  show "safe_db (set_node_status n N_Running None None db)"
    by (rule safe_db_views [where db = db]) (use assms(1) st in \<open>auto simp: views intro: engine_writes_frame writes_intros\<close>)
qed

lemma safe_start_node: "safe_db db \<Longrightarrow> status_of db n = Some N_Ready \<Longrightarrow> safe_db (start_node g n db)"
  unfolding start_node_def
  by (rule safe_db_views [where db = "set_node_status n N_Running None None db"])
     (auto simp: views safe_started_status intro: engine_writes_frame writes_intros)

lemma safe_reset_running: "safe_db db \<Longrightarrow> safe_db (snd (reset_running_to_ready g n db))"
  by (auto simp: reset_running_to_ready_def get_node_def status_of_def
      intro!: safe_notify safe_started_status(2) split: option.splits sum.splits)

lemma emit_ready_frame: "frame db (emit_ready g ns db)" "db_tokens (emit_ready g ns db) = db_tokens db"
  "started (emit_ready g ns db) n = started db n" "finished (emit_ready g ns db) n = finished db n"
  "gstatus_of (emit_ready g ns db) g' = gstatus_of db g'"
proof -
  show "frame db (emit_ready g ns db)" by (intro engine_writes_frame writes_emit_ready) simp
qed (induction ns arbitrary: db; simp add: views)+

lemma safe_reemit: "safe_db db \<Longrightarrow> safe_db (reemit_ready_nodes g db)"
  unfolding reemit_ready_nodes_def
  by (rule safe_notify, rule safe_db_views [where db = db]) (auto simp: emit_ready_frame)

subsection \<open>The invariant\<close>

lemma run_step_safe: "run_step db db' \<Longrightarrow> wf_db db \<Longrightarrow> safe_db db \<Longrightarrow> safe_db db'"
proof (induction rule: run_step.induct)
  case (run_outcome db n g out err r db')
  then have "started db n" by (auto simp: handed_out_def started_def)
  with run_outcome show ?case by (blast intro: advance_graph_safe)
next
  case (run_cancel db g)
  show ?case unfolding cancel_def
    by (rule safe_db_views [where db = db])
       (use run_cancel in \<open>auto simp: views intro: engine_writes_frame writes_intros split: if_splits\<close>)
next
  case (run_notifier db g)
  then show ?case
    by (auto simp: get_or_create_notifier_def safe_db_def marked_def graph_open_def gstatus_of_def views_eq_fields
        [of "db\<lparr>db_notifiers := x\<rparr>" db for x] split: option.splits)
next
  case (run_clock db t)
  then show ?case
    by (auto simp: safe_db_def marked_def graph_open_def gstatus_of_def views_eq_fields [of "db\<lparr>db_clock := t\<rparr>" db])
qed (auto intro: safe_create_graph safe_create_child safe_add_node safe_add_edge safe_start_graph safe_start_node
      safe_reset_running safe_reemit)

lemma run_reachable_safe: "run_reachable fk db \<Longrightarrow> safe_db db"
  by (induction rule: run_reachable.induct) (auto intro: safe_empty run_step_safe run_reachable_wf)

subsection \<open>Consequences of a run\<close>

lemma run_edge_order:
  assumes "run_reachable fk db" and "e \<in> set (db_edges db)" and "status_of db (er_to e) \<noteq> Some N_Pending"
  shows "finished db (er_from e) \<and> marked db (er_id e)"
proof -
  have wf: "wf_db db" and safe: "safe_db db"
    using assms(1) run_reachable_wf run_reachable_safe by blast+
  have "node_exists db (er_to e)"
    using wf assms(2) node_in_graph_exists by (auto simp: wf_db_def edges_closed_def)
  then have "started db (er_to e)"
    using assms(3) status_of_None [of db "er_to e"] by (auto simp: started_def split: option.splits)
  then show ?thesis using safe assms(2) by (auto simp: safe_db_def)
qed

lemma edges_add_edge: "set (db_edges db) \<subseteq> set (db_edges (snd (add_edge g from to cond u db)))"
proof -
  let ?db1 = "db\<lparr>db_edges := db_edges db @
    [\<lparr>er_id = u, er_graph = g, er_from = from, er_to = to, er_condition = cond\<rparr>]\<rparr>"
  have "engine_writes ?db1 (snd (bind_res (deliver_all u g cond toks ?db1)
      (\<lambda>_ db2. (Inr (), notify_graph g (snd (check_and_ready g to db2))))))" for toks
    using writes_deliver_all [of ?db1 u g cond toks] writes_check_and_ready
    by (cases "deliver_all u g cond toks ?db1"; cases "fst (deliver_all u g cond toks ?db1)")
      (auto intro!: writes_notify intro: writes_trans)
  from frame_edges [OF engine_writes_frame [OF this]]
  have "db_edges (snd (bind_res (deliver_all u g cond toks ?db1)
      (\<lambda>_ db2. (Inr (), notify_graph g (snd (check_and_ready g to db2)))))) = db_edges ?db1" for toks .
  then show ?thesis by (auto simp: add_edge_def Let_def split: sum.splits)
qed

lemma writes_edges: "engine_writes a b \<Longrightarrow> set (db_edges a) \<subseteq> set (db_edges b)"
  by (simp add: frame_edges [OF engine_writes_frame])

lemma run_step_edges: "run_step db db' \<Longrightarrow> set (db_edges db) \<subseteq> set (db_edges db')"
proof (induction rule: run_step.induct)
  case (run_add_node db g hint spec u)
  have "db_edges (snd (check_and_ready g n d)) = db_edges d" for n d
    by (rule frame_edges [OF engine_writes_frame [OF writes_check_and_ready]])
  then show ?case by (auto simp: add_node_def Let_def split: sum.splits option.splits)
next
  case (run_start db g)
  let ?db1 = "db\<lparr>db_graphs := update_where (\<lambda>r. gr_id r = g \<and> gr_status r = G_Pending)
      (\<lambda>r. r\<lparr>gr_status := G_Running\<rparr>) (db_graphs db)\<rparr>"
  have "engine_writes ?db1 d \<Longrightarrow> db_edges d = db_edges db" for d
    using frame_edges [OF engine_writes_frame, of ?db1 d] by simp
  then show ?case by (simp add: start_graph_def Let_def writes_intros writes_seed_roots)
next
  case (run_start_node db n g)
  have "engine_writes db (start_node g n db)" by (simp add: start_node_def writes_intros)
  then show ?case by (rule writes_edges)
next
  case (run_outcome db n g out err r db')
  then show ?case using writes_edges [OF writes_advance_graph] by blast
next
  case (run_reset db g n)
  show ?case by (rule writes_edges [OF writes_reset_running])
next
  case (run_reemit db g)
  show ?case by (rule writes_edges [OF writes_reemit])
next
  case (run_cancel db g)
  have "engine_writes db (cancel g db)" by (simp add: cancel_def writes_intros)
  then show ?case by (rule writes_edges)
qed (auto simp: edges_add_edge [THEN subsetD] create_graph_def create_child_graph_def get_or_create_notifier_def Let_def
      split: option.splits sum.splits)

lemma run_steps_reachable: "run_step\<^sup>*\<^sup>* db db' \<Longrightarrow> run_reachable fk db \<Longrightarrow> run_reachable fk db'"
  by (induction rule: rtranclp_induct) (auto intro: run_more)

lemma run_steps_edges: "run_step\<^sup>*\<^sup>* db db' \<Longrightarrow> set (db_edges db) \<subseteq> set (db_edges db')"
  by (induction rule: rtranclp_induct) (auto dest: run_step_edges)

end
