(* ===== verification/Lattice_Outcome.thy ===== *)
theory Lattice_Outcome
  imports Lattice_Run
begin

text \<open>
  How a graph ends. \<open>GraphDone\<close> is logged only when every node of the graph is \<open>Complete\<close>; a node that
  failed stays \<open>Failed\<close>, whether an edge handled its error token or not; reports for a node that has
  finished route nothing.
\<close>

subsection \<open>Completion events\<close>

fun is_done :: "lattice_event \<Rightarrow> bool" where
  "is_done (GraphDone _) = True"
| "is_done _ = False"

definition done_rows :: "lattice_db \<Rightarrow> event_row list" where
  "done_rows db = filter (\<lambda>r. is_done (ev_event r)) (db_events db)"

lemma done_rows_writes [simp]:
  "done_rows (set_node_status n st out err db) = done_rows db"
  "done_rows (update_graph_status g gst db) = done_rows db"
  "done_rows (notify_graph g db) = done_rows db"
  "done_rows (make_ready g n spec db) = done_rows db"
  "done_rows (record_outcome g n out err db) = done_rows db"
  "done_rows (fail_graph g n msg db) = done_rows db"
  by (auto simp: done_rows_def set_node_status_def update_graph_status_def notify_graph_def make_ready_def
      record_outcome_def fail_graph_def persist_event_def Let_def split: option.splits)

lemma done_rows_persist:
  "done_rows (persist_event g ev db) = done_rows db @ (if is_done ev then
     [\<lparr>ev_seq = db_next_seq db, ev_graph = g, ev_event = ev, ev_created_at = db_clock db\<rparr>] else [])"
  by (simp add: done_rows_def persist_event_def)

lemma done_rows_deliver:
  "deliver_token e g tok seq db = (Inr (), db') \<Longrightarrow> done_rows db' = done_rows db"
  by (auto dest!: deliver_token_cases simp: done_rows_def)

lemma done_rows_step: "done_rows (outcome_db (advance_step g w queue db)) = done_rows db"
proof -
  obtain n out err where w: "w = (n, out, err)" by (cases w)
  let ?db1 = "record_outcome g n out err db"
  have "done_rows (snd (route_tokens g (produce_tokens out err)
     (get_outbound_edges_with_conditions ?db1 n) (queue, False) ?db1)) = done_rows db"
    by (rule route_tokens_keeps) (auto simp: done_rows_deliver)
  then show ?thesis
    by (auto simp: w advance_step_def Let_def split: sum.splits prod.splits)
qed

definition all_complete :: "lattice_db \<Rightarrow> graph_id \<Rightarrow> bool" where
  "all_complete db g \<longleftrightarrow> (\<forall>n. graph_of db n = Some g \<longrightarrow> status_of db n = Some N_Complete)"

lemma all_complete_nodes:
  assumes "wf_db db"
  shows "list_all (\<lambda>n. ln_status n = N_Complete) (get_nodes db g) \<longleftrightarrow> all_complete db g"
proof -
  have d: "distinct (map nr_id (db_nodes db))" using assms by (simp add: wf_db_def keys_distinct_def)
  have "list_all (\<lambda>n. ln_status n = N_Complete) (get_nodes db g) \<longleftrightarrow>
    (\<forall>r \<in> set (db_nodes db). nr_graph r = g \<longrightarrow> nr_status r = N_Complete)"
    by (auto simp: get_nodes_def list_all_iff)
  also have "\<dots> \<longleftrightarrow> (\<forall>n. graph_of db n = Some g \<longrightarrow> status_of db n = Some N_Complete)"
  proof
    assume *: "\<forall>r \<in> set (db_nodes db). nr_graph r = g \<longrightarrow> nr_status r = N_Complete"
    show "\<forall>n. graph_of db n = Some g \<longrightarrow> status_of db n = Some N_Complete"
    proof (intro allI impI)
      fix n assume "graph_of db n = Some g"
      then obtain r where "row_by nr_id n (db_nodes db) = Some r" "nr_graph r = g" by (auto simp: graph_of_def)
      then show "status_of db n = Some N_Complete"
        using * row_by_Some_in [of nr_id n "db_nodes db" r] by (simp add: status_of_def)
    qed
  next
    assume *: "\<forall>n. graph_of db n = Some g \<longrightarrow> status_of db n = Some N_Complete"
    show "\<forall>r \<in> set (db_nodes db). nr_graph r = g \<longrightarrow> nr_status r = N_Complete"
    proof (intro ballI impI)
      fix r assume "r \<in> set (db_nodes db)" "nr_graph r = g"
      then show "nr_status r = N_Complete"
        using *[rule_format, of "nr_id r"] row_by_unique [OF d, of r] by (simp add: graph_of_def status_of_def)
    qed
  qed
  finally show ?thesis by (simp add: all_complete_def)
qed

lemma graph_of_write [simp]:
  "graph_of (update_graph_status g st db) n = graph_of db n" "graph_of (persist_event g' ev db) n = graph_of db n"
  "graph_of (notify_graph g db) n = graph_of db n"
  by (simp_all add: graph_of_def update_graph_status_def persist_event_def notify_graph_def split: option.splits)

lemma all_complete_after: "all_complete (complete_if_all_done g db) h = all_complete db h"
  by (simp add: all_complete_def complete_if_all_done_def Let_def status)

lemma complete_done_rows:
  assumes "wf_db db"
  shows "done_rows (complete_if_all_done g db) = done_rows db @ (if all_complete db g then
     [\<lparr>ev_seq = db_next_seq db, ev_graph = g, ev_event = GraphDone g, ev_created_at = db_clock db\<rparr>] else [])"
  using all_complete_nodes [OF assms, of g]
  by (simp add: complete_if_all_done_def Let_def done_rows_persist)
     (simp add: update_graph_status_def)

lemma complete_gstatus:
  assumes "wf_db db" and "all_complete db g" and "gstatus_of db g \<noteq> None"
  shows "gstatus_of (complete_if_all_done g db) g = Some G_Complete"
  using all_complete_nodes [OF assms(1), of g] assms by (simp add: complete_if_all_done_def Let_def views)

lemma frame_gstatus:
  assumes "frame db db'"
  shows "gstatus_of db' g = None \<longleftrightarrow> gstatus_of db g = None"
proof -
  have "set (map gr_id (db_graphs db')) = set (map gr_id (db_graphs db))"
    using assms by (simp only: frame_def)
  then show ?thesis by (simp add: gstatus_of_def row_by_None_iff)
qed

text \<open>A call of \<open>advance_graph\<close> logs at most one completion, and only of a graph all of whose nodes are complete.\<close>

lemma advance_done_rows:
  assumes "advance_graph g n out err db = Some (r, db')" and "wf_db db"
  shows "done_rows db' = done_rows db \<or>
    (\<exists>row. done_rows db' = done_rows db @ [row] \<and> ev_graph row = g \<and> ev_event row = GraphDone g \<and> all_complete db' g \<and>
       (gstatus_of db g \<noteq> None \<longrightarrow> gstatus_of db' g = Some G_Complete))"
proof (rule advance_loop_rule [where
      I = "\<lambda>_ d. wf_db d \<and> done_rows d = done_rows db \<and> (gstatus_of db g \<noteq> None \<longrightarrow> gstatus_of d g \<noteq> None)" and
      Q = "\<lambda>_ d. done_rows d = done_rows db \<or>
    (\<exists>row. done_rows d = done_rows db @ [row] \<and> ev_graph row = g \<and> ev_event row = GraphDone g \<and> all_complete d g \<and>
       (gstatus_of db g \<noteq> None \<longrightarrow> gstatus_of d g = Some G_Complete))"])
  show "advance_loop g [(n, out, err)] db = Some (r, db')" using assms by (simp add: advance_graph_def)
next
  fix w rest d q1 d1
  assume I: "wf_db d \<and> done_rows d = done_rows db \<and> (gstatus_of db g \<noteq> None \<longrightarrow> gstatus_of d g \<noteq> None)"
    and s: "advance_step g w rest d = Continue q1 d1"
  have "frame d d1" using writes_advance_step [of d g w rest] s by (auto intro: engine_writes_frame)
  then show "wf_db d1 \<and> done_rows d1 = done_rows db \<and> (gstatus_of db g \<noteq> None \<longrightarrow> gstatus_of d1 g \<noteq> None)"
    using I s done_rows_step [of g w rest d] outcome_step_wf [of d g w rest] by (simp add: frame_gstatus)
next
  fix w rest d r d1
  assume "wf_db d \<and> done_rows d = done_rows db \<and> (gstatus_of db g \<noteq> None \<longrightarrow> gstatus_of d g \<noteq> None)"
    and "advance_step g w rest d = Return r d1"
  then show "done_rows d1 = done_rows db \<or>
    (\<exists>row. done_rows d1 = done_rows db @ [row] \<and> ev_graph row = g \<and> ev_event row = GraphDone g \<and> all_complete d1 g \<and>
       (gstatus_of db g \<noteq> None \<longrightarrow> gstatus_of d1 g = Some G_Complete))"
    using done_rows_step [of g w rest d] by simp
qed (use assms in \<open>simp_all add: complete_done_rows all_complete_after complete_gstatus\<close>)

text \<open>
  Every operation of the program: the steps of a run, and reports on nodes in any state. Of all of them only
  the completion check of a report and \<open>start_graph\<close> log a completion.
\<close>

inductive any_step :: "lattice_db \<Rightarrow> lattice_db \<Rightarrow> bool" where
  any_run: "run_step db db' \<Longrightarrow> any_step db db'"
| any_report: "advance_graph g n out err db = Some (r, db') \<Longrightarrow> any_step db db'"

lemma done_rows_same: "db_events db' = db_events db \<Longrightarrow> done_rows db' = done_rows db"
  by (simp add: done_rows_def)

lemma done_rows_check: "done_rows (snd (check_and_ready g n db)) = done_rows db"
  by (rule check_and_ready_keeps_at) auto

lemma done_rows_deliver_all: "done_rows (snd (deliver_all e g cond toks db)) = done_rows db"
proof (induction toks arbitrary: db)
  case (Cons tok toks)
  obtain r db1 where d: "deliver_token e g tok (count_tokens_on_edge db e + 1) db = (r, db1)" by fastforce
  then have "done_rows db1 = done_rows db" using deliver_token_cases [OF d] done_rows_deliver d by auto
  then show ?case using Cons d by (cases r) auto
qed simp

lemma done_rows_add_edge: "done_rows (snd (add_edge g from to cond u db)) = done_rows db"
proof -
  let ?db1 = "db\<lparr>db_edges := db_edges db @ [\<lparr>er_id = u, er_graph = g, er_from = from, er_to = to, er_condition = cond\<rparr>]\<rparr>"
  have "done_rows (snd (bind_res (deliver_all u g cond toks ?db1)
      (\<lambda>_ db2. (Inr (), notify_graph g (snd (check_and_ready g to db2)))))) = done_rows db" for toks
    using done_rows_deliver_all [of u g cond toks ?db1]
    by (cases "deliver_all u g cond toks ?db1"; cases "fst (deliver_all u g cond toks ?db1)")
       (auto simp: done_rows_check done_rows_same [of ?db1 db])
  then show ?thesis by (auto simp: add_edge_def Let_def done_rows_same [of ?db1 db] split: sum.splits)
qed

lemma done_rows_emit: "done_rows (emit_ready g ns db) = done_rows db"
  by (induction ns arbitrary: db) (simp_all add: done_rows_persist)

lemma done_rows_seed: "done_rows (seed_roots g roots db) = done_rows db"
  by (induction roots arbitrary: db) simp_all

text \<open>A finite graph whose every node has a predecessor among the nodes has a cycle, unless it has no nodes.\<close>

lemma rootless_cycle:
  assumes "finite E" and "m \<in> N" and "\<And>b. b \<in> N \<Longrightarrow> \<exists>a \<in> N. (a, b) \<in> E"
  shows "\<not> acyclic E"
proof
  assume "acyclic E"
  then have "wf E" by (rule finite_acyclic_wf [OF assms(1)])
  from wfE_min [OF this assms(2)] obtain b where "b \<in> N" "\<And>a. (a, b) \<in> E \<Longrightarrow> a \<notin> N" by blast
  then show False using assms(3) by blast
qed

definition graph_links :: "lattice_db \<Rightarrow> graph_id \<Rightarrow> (node_id \<times> node_id) set" where
  "graph_links db g = {(er_from e, er_to e) | e. e \<in> set (db_edges db) \<and> er_graph e = g \<and> er_from e \<noteq> er_to e}"

lemma graph_links_finite: "finite (graph_links db g)"
proof -
  have "graph_links db g \<subseteq> (\<lambda>e. (er_from e, er_to e)) ` set (db_edges db)" by (auto simp: graph_links_def)
  then show ?thesis by (rule finite_subset) simp
qed

definition rootless :: "lattice_db \<Rightarrow> graph_id \<Rightarrow> bool" where
  "rootless db g \<longleftrightarrow> (\<forall>m. graph_of db m = Some g \<longrightarrow> (\<exists>a. graph_of db a = Some g \<and> (a, m) \<in> graph_links db g))"

lemma no_roots_rootless:
  assumes "wf_db db" and "get_nodes_with_no_predecessors db g = []"
  shows "rootless db g"
  unfolding rootless_def
proof (intro allI impI)
  have "filter (\<lambda>r. nr_graph r = g \<and>
      nr_id r \<notin> set (map er_to (filter (\<lambda>e. er_graph e = g \<and> er_from e \<noteq> er_to e) (db_edges db)))) (db_nodes db) = []"
    using arg_cong [OF assms(2), of length] by (simp add: get_nodes_with_no_predecessors_def)
  then have no_pred: "\<exists>e \<in> set (db_edges db). er_graph e = g \<and> er_from e \<noteq> er_to e \<and> er_to e = nr_id r"
    if "r \<in> set (db_nodes db)" "nr_graph r = g" for r
    using that by (fastforce simp: filter_empty_conv)
  fix m assume "graph_of db m = Some g"
  then obtain r where "r \<in> set (db_nodes db)" "node_row.nr_id r = m" "nr_graph r = g"
    using row_by_Some_in [of node_row.nr_id m "db_nodes db"] by (auto simp: graph_of_def)
  then obtain e where e: "e \<in> set (db_edges db)" "er_graph e = g" "er_from e \<noteq> er_to e" "er_to e = m"
    using no_pred by blast
  then have "node_in_graph db (er_from e) g" using assms(1) by (auto simp: wf_db_def edges_closed_def)
  then have "graph_of db (er_from e) = Some g"
    using assms(1) row_by_unique [of node_row.nr_id "db_nodes db"]
    by (fastforce simp: node_in_graph_def count_where_pos_iff graph_of_def wf_db_def keys_distinct_def)
  then show "\<exists>a. graph_of db a = Some g \<and> (a, m) \<in> graph_links db g" using e by (auto simp: graph_links_def)
qed

lemma rootless_not_acyclic:
  assumes "rootless db g" and "graph_of db m = Some g"
  shows "\<not> acyclic (graph_links db g)"
  using assms rootless_cycle [OF graph_links_finite, of m "{n. graph_of db n = Some g}" db g] by (auto simp: rootless_def)

lemma start_done_rows:
  assumes "wf_db db"
  shows "done_rows (start_graph g db) = done_rows db \<or>
    (\<exists>row. done_rows (start_graph g db) = done_rows db @ [row] \<and> ev_graph row = g \<and> ev_event row = GraphDone g \<and>
       gstatus_of (start_graph g db) g = Some G_Complete \<and> rootless (start_graph g db) g)"
proof (cases "count_where (\<lambda>r. gr_id r = g \<and> gr_status r = G_Pending) (db_graphs db) = 0")
  case False
  let ?db1 = "db\<lparr>db_graphs := update_where (\<lambda>r. gr_id r = g \<and> gr_status r = G_Pending)
                      (\<lambda>r. r\<lparr>gr_status := G_Running\<rparr>) (db_graphs db)\<rparr>"
  let ?roots = "get_nodes_with_no_predecessors ?db1 g"
  let ?db2 = "persist_event g (GraphDone g) (update_graph_status g G_Complete ?db1)"
  have start: "start_graph g db = notify_graph g (if ?roots = [] then ?db2 else seed_roots g ?roots ?db1)"
    using False by (simp add: start_graph_def Let_def)
  have same: "done_rows ?db1 = done_rows db" by (rule done_rows_same) simp
  have edges: "db_edges (notify_graph g ?db2) = db_edges ?db1"
    by (simp add: notify_graph_def persist_event_def update_graph_status_def Let_def split: option.splits)
  show ?thesis
  proof (cases "?roots = []")
    case True
    obtain r where "r \<in> set (db_graphs db)" "gr_id r = g" using False unfolding neq0_conv count_where_pos_iff by blast
    then have "gstatus_of ?db1 g \<noteq> None" by (auto simp: gstatus_of_def row_by_None_iff image_key_update_where)
    moreover have "wf_db ?db1" using assms by (simp add: wf_db_graphs wf_db_distinct_graphs map_key_update_where)
    then have "rootless ?db1 g" using True by (rule no_roots_rootless)
    then have "rootless (notify_graph g ?db2) g" using edges by (simp add: rootless_def graph_links_def views)
    ultimately show ?thesis using True same by (simp add: start done_rows_persist views)
  qed (simp add: start done_rows_seed same)
qed (simp add: start_graph_def)

lemma done_rows_add_node:
  assumes "wf_db db"
  shows "done_rows (snd (add_node g hint spec u db)) = done_rows db"
  using add_node_result [OF assms, of g hint spec u] by (auto simp: done_rows_def)

lemma done_rows_quiet [simp]:
  "done_rows (snd (create_graph m u db)) = done_rows db" "done_rows (snd (create_child_graph p m u db)) = done_rows db"
  "done_rows (start_node g n db) = done_rows db" "done_rows (reemit_ready_nodes g db) = done_rows db"
  "done_rows (cancel g db) = done_rows db" "done_rows (get_or_create_notifier g db) = done_rows db"
  "done_rows (db\<lparr>db_clock := t\<rparr>) = done_rows db"
  by (auto simp: create_graph_def create_child_graph_def Let_def start_node_def done_rows_persist reemit_ready_nodes_def
      done_rows_emit cancel_def get_or_create_notifier_def done_rows_def [of "db\<lparr>db_graphs := gs\<rparr>" for gs]
      done_rows_def [of "db\<lparr>db_clock := t\<rparr>"] done_rows_def [of "db\<lparr>db_notifiers := ns\<rparr>" for ns]
      done_rows_def [of db] split: option.splits)

lemma done_rows_reset: "done_rows (snd (reset_running_to_ready g n db)) = done_rows db"
  by (simp add: reset_running_to_ready_def split: sum.splits)

definition completed_row :: "lattice_db \<Rightarrow> lattice_db \<Rightarrow> event_row \<Rightarrow> bool" where
  "completed_row db db' row \<longleftrightarrow> ev_event row = GraphDone (ev_graph row) \<and>
     (all_complete db' (ev_graph row) \<or> db' = start_graph (ev_graph row) db \<and> rootless db' (ev_graph row)) \<and>
     (gstatus_of db (ev_graph row) \<noteq> None \<longrightarrow> gstatus_of db' (ev_graph row) = Some G_Complete)"

lemma any_step_done_rows:
  assumes "any_step db db'" and "wf_db db"
  shows "done_rows db' = done_rows db \<or>
    (\<exists>row. done_rows db' = done_rows db @ [row] \<and> completed_row db db' row)"
  using assms
proof (induction rule: any_step.induct)
  case (any_report g n out err db r db')
  then show ?case using advance_done_rows [OF any_report(1,2)] by (auto simp: completed_row_def)
next
  case (any_run db db')
  then show ?case
  proof (induction rule: run_step.induct)
    case (run_start db g)
    then show ?case using start_done_rows [of db g] by (auto simp: completed_row_def)
  next
    case (run_outcome db n g out err r db')
    then show ?case using advance_done_rows [OF run_outcome(2)] by (auto simp: completed_row_def)
  qed (simp_all add: done_rows_add_node done_rows_add_edge done_rows_reset)
qed

subsection \<open>Failed nodes stay failed\<close>

lemma unsettled_status: "unsettled db n \<longleftrightarrow> status_of db n \<in> {Some N_Pending, Some N_Complete}"
  by (auto simp: unsettled_def get_node_def status_of_def split: option.splits)

lemma advance_step_db:
  fixes db :: lattice_db and g :: graph_id and n :: node_id and out :: "node_output option" and err :: "string option"
    and queue :: "work list"
  defines "db1 \<equiv> record_outcome g n out err db"
  defines "db2 \<equiv> snd (route_tokens g (produce_tokens out err) (get_outbound_edges_with_conditions db1 n) (queue, False) db1)"
  shows "advance_step g (n, out, err) queue db = Continue queue db \<or>
    (\<not> finished db n \<and> node_exists db n \<and> outcome_db (advance_step g (n, out, err) queue db) \<in>
       {db2, fail_graph g n (error_text (produce_tokens out err)) db2})"
  by (auto simp: advance_step_def Let_def get_node_def finished_def status_of_def terminal_status_def node_exists_def
      db1_def db2_def split: sum.splits prod.splits option.splits)

lemma failed_step:
  assumes "status_of db m = Some N_Failed"
  shows "status_of (outcome_db (advance_step g w queue db)) m = Some N_Failed"
proof -
  obtain n out err where w: "w = (n, out, err)" by (cases w)
  let ?db1 = "record_outcome g n out err db"
  have 1: "status_of ?db1 m = Some N_Failed" if "\<not> finished db n"
    using assms that by (auto simp: status finished_def)
  have 2: "status_of (snd (route_tokens g (produce_tokens out err)
     (get_outbound_edges_with_conditions ?db1 n) (queue, False) ?db1)) m = Some N_Failed" if "\<not> finished db n"
    by (rule route_tokens_keeps) (use 1 [OF that] in \<open>auto simp: status status_deliver unsettled_status\<close>)
  show ?thesis
    using advance_step_db [of g n out err queue db] 2 assms by (auto simp: w status)
qed

lemma advance_failed:
  assumes "advance_graph g n out err db = Some (r, db')" and "status_of db m = Some N_Failed"
  shows "status_of db' m = Some N_Failed"
proof (rule advance_loop_rule [where I = "\<lambda>_ d. status_of d m = Some N_Failed" and Q = "\<lambda>_ d. status_of d m = Some N_Failed"])
  show "advance_loop g [(n, out, err)] db = Some (r, db')" using assms by (simp add: advance_graph_def)
next
  fix w rest d q1 d1
  assume "status_of d m = Some N_Failed" "advance_step g w rest d = Continue q1 d1"
  then show "status_of d1 m = Some N_Failed" using failed_step [of d m g w rest] by simp
next
  fix w rest d r d1
  assume "status_of d m = Some N_Failed" "advance_step g w rest d = Return r d1"
  then show "status_of d1 m = Some N_Failed" using failed_step [of d m g w rest] by simp
qed (use assms in \<open>simp_all add: status\<close>)

subsection \<open>Reports for finished nodes, failures nobody handles\<close>

lemma advance_finished:
  assumes "status_of db n = Some N_Complete \<or> status_of db n = Some N_Failed"
  shows "advance_graph g n out err db = Some (Inr (), complete_if_all_done g db)"
proof -
  have "advance_step g (n, out, err) [] db = Continue [] db"
    using assms by (auto simp: advance_step_def get_node_def status_of_def)
  then show ?thesis by (simp add: advance_graph_def advance_loop.simps)
qed

lemma error_text_error [simp]: "error_text [token_error msg] = msg"
  by (simp add: error_text_def token_error_def)

lemma route_edges_refused:
  "\<forall>(e, to, cond) \<in> set es. \<not> edge_accepts cond tok \<Longrightarrow> route_edges g tok es acc db = (Inr acc, db)"
  by (induction es) (auto simp: split_paired_all, (cases acc; simp)+)

lemma outbound_record [simp]:
  "get_outbound_edges_with_conditions (record_outcome g n out err db) m = get_outbound_edges_with_conditions db m"
  using frame_edges [OF engine_writes_frame [OF writes_record_outcome], of g n out err db]
  by (simp add: get_outbound_edges_with_conditions_def)

lemma advance_unhandled:
  assumes st: "handed_out db n"
    and refused: "\<forall>(e, to, cond) \<in> set (get_outbound_edges_with_conditions db n). \<not> edge_accepts cond (token_error msg)"
  shows "node_failed g n msg db = Some (Inr (), fail_graph g n msg (record_outcome g n None (Some msg) db))"
proof -
  obtain r where "row_by nr_id n (db_nodes db) = Some r" "nr_status r \<noteq> N_Complete" "nr_status r \<noteq> N_Failed"
    using st by (auto simp: handed_out_def status_of_def)
  then have "advance_step g (n, None, Some msg) [] db =
      Return (Inr ()) (fail_graph g n msg (record_outcome g n None (Some msg) db))"
    using route_edges_refused [OF refused] by (simp add: advance_step_def get_node_def Let_def produce_tokens_def)
  then show ?thesis by (simp add: node_failed_def advance_graph_def advance_loop.simps)
qed

lemma events_writes [simp]:
  "db_events (set_node_status n st out err db) = db_events db"
  "db_events (update_graph_status g gst db) = db_events db"
  "db_events (notify_graph g db) = db_events db"
  "db_next_seq (set_node_status n st out err db) = db_next_seq db"
  "db_next_seq (update_graph_status g gst db) = db_next_seq db"
  "db_next_seq (notify_graph g db) = db_next_seq db"
  "db_events (persist_event g ev db) = db_events db @
     [\<lparr>ev_seq = db_next_seq db, ev_graph = g, ev_event = ev, ev_created_at = db_clock db\<rparr>]"
  "db_next_seq (persist_event g ev db) = db_next_seq db + 1"
  by (simp_all add: set_node_status_def update_graph_status_def notify_graph_def persist_event_def Let_def split: option.splits)

subsection \<open>Starting a graph\<close>

lemma seed_roots_graphs [simp]: "db_graphs (seed_roots g roots db) = db_graphs db"
  by (induction roots arbitrary: db) (simp_all add: make_ready_def)

lemma count_pending_0: "count_where (\<lambda>r. gr_id r = g \<and> gr_status r = G_Pending) rows = 0 \<longleftrightarrow>
    (\<forall>r \<in> set rows. gr_id r = g \<longrightarrow> gr_status r \<noteq> G_Pending)"
  by (auto simp: count_where_def filter_empty_conv)

lemma start_graph_idem: "start_graph g (start_graph g db) = start_graph g db"
proof -
  have "\<forall>r \<in> set (db_graphs (start_graph g db)). gr_id r = g \<longrightarrow> gr_status r \<noteq> G_Pending"
    by (auto simp: start_graph_def Let_def count_pending_0 set_update_where update_graph_status_def)
  then have "count_where (\<lambda>r. gr_id r = g \<and> gr_status r = G_Pending) (db_graphs (start_graph g db)) = 0"
    by (simp only: count_pending_0)
  then show ?thesis by (simp add: start_graph_def [of g "start_graph g db"])
qed

lemma status_seed_roots:
  assumes "\<forall>nd \<in> set roots. node_exists db (ln_id nd)"
  shows "status_of (seed_roots g roots db) n =
    (if \<exists>nd \<in> set roots. ln_id nd = n \<and> \<not> is_gather (ln_spec nd) then Some N_Ready else status_of db n)"
  using assms
proof (induction roots arbitrary: db)
  case (Cons nd roots)
  have "node_exists (make_ready g (ln_id nd) (ln_spec nd) db) m = node_exists db m" for m
    by (intro frame_node_exists engine_writes_frame writes_make_ready) simp
  then show ?case using Cons by (auto simp: status)
qed simp

lemma start_graph_status:
  assumes wf: "wf_db db" and pend: "gstatus_of db g = Some G_Pending" and roots: "get_nodes_with_no_predecessors db g = rs"
  shows "status_of (start_graph g db) n =
      (if \<exists>nd \<in> set rs. ln_id nd = n \<and> \<not> is_gather (ln_spec nd) then Some N_Ready else status_of db n)"
    and "gstatus_of (start_graph g db) g = Some (if rs = [] then G_Complete else G_Running)"
proof -
  let ?db1 = "db\<lparr>db_graphs := update_where (\<lambda>r. gr_id r = g \<and> gr_status r = G_Pending)
                      (\<lambda>r. r\<lparr>gr_status := G_Running\<rparr>) (db_graphs db)\<rparr>"
  obtain r where r: "row_by gr_id g (db_graphs db) = Some r" "gr_status r = G_Pending"
    using pend by (auto simp: gstatus_of_def)
  then have c: "count_where (\<lambda>r. gr_id r = g \<and> gr_status r = G_Pending) (db_graphs db) \<noteq> 0"
    using row_by_Some_in [OF r(1)] by (auto simp: count_pending_0)
  have roots1: "get_nodes_with_no_predecessors ?db1 g = rs" using roots by (simp add: get_nodes_with_no_predecessors_def)
  have g1: "gstatus_of ?db1 g = Some G_Running"
    using r row_by_Some_in [OF r(1)] by (simp add: gstatus_of_def row_by_update_where_gen)
  have "row_by nr_id (nr_id r) (db_nodes db) \<noteq> None" if "r \<in> set (db_nodes db)" for r
    using that by (simp add: row_by_None_iff)
  then have ex: "\<forall>nd \<in> set rs. node_exists ?db1 (ln_id nd)"
    using roots by (auto simp: get_nodes_with_no_predecessors_def node_exists_def)
  have st1: "status_of ?db1 n = status_of db n" by (simp add: status_of_def)
  show "status_of (start_graph g db) n =
      (if \<exists>nd \<in> set rs. ln_id nd = n \<and> \<not> is_gather (ln_spec nd) then Some N_Ready else status_of db n)"
    using c status_seed_roots [OF ex, of g n] st1
    by (auto simp: start_graph_def Let_def roots1 status simp del: update_where_simps)
  have "gstatus_of (seed_roots g rs ?db1) g = gstatus_of ?db1 g" by (simp add: gstatus_of_def)
  then show "gstatus_of (start_graph g db) g = Some (if rs = [] then G_Complete else G_Running)"
    using c g1 by (simp add: start_graph_def Let_def roots1 views)
qed

subsection \<open>A Gather behind a fan-out\<close>

lemma deliver_next:
  assumes "wf_db db"
  obtains db' where "deliver_token e g tok (count_tokens_on_edge db e + 1) db = (Inr (), db')"
    and "db' = db\<lparr>db_tokens := db_tokens db @
        [\<lparr>tr_edge = e, tr_graph = g, tr_token = tok, tr_seq = count_tokens_on_edge db e + 1\<rparr>]\<rparr>"
  using deliver_token_next [of db e g tok] assms by (auto simp: wf_db_def)

lemma status_same_nodes: "db_nodes db' = db_nodes db \<Longrightarrow> status_of db' n = status_of db n"
  by (simp add: status_of_def)

lemma spec_same_nodes: "db_nodes db' = db_nodes db \<Longrightarrow> spec_of db' n = spec_of db n"
  by (simp add: spec_of_def)

text \<open>Tokens that arrive at a node that is already running are stored and enable nothing.\<close>

lemma route_tokens_running:
  assumes "wf_db db" and "status_of db n = Some N_Running"
  shows "\<exists>db'. route_tokens g ts [(e, n, None)] (queue, True) db = (Inr (queue, True), db') \<and>
     count_tokens_on_edge db' e = count_tokens_on_edge db e + int (length ts)"
  using assms
proof (induction ts arbitrary: db)
  case (Cons t ts)
  obtain db1 where d: "deliver_token e g t (count_tokens_on_edge db e + 1) db = (Inr (), db1)"
    and db1: "db1 = db\<lparr>db_tokens := db_tokens db @
        [\<lparr>tr_edge = e, tr_graph = g, tr_token = t, tr_seq = count_tokens_on_edge db e + 1\<rparr>]\<rparr>"
    using deliver_next [OF Cons.prems(1)] .
  have wf1: "wf_db db1" using engine_write_wf [OF write_token [OF d] Cons.prems(1)] .
  have st1: "status_of db1 n = Some N_Running" using Cons.prems(2) by (simp add: db1 status_of_def)
  then have "check_and_ready g n db1 = (Inr None, db1)"
    by (auto simp: check_and_ready_def get_node_def status_of_def split: option.splits)
  moreover have "count_tokens_on_edge db1 e = count_tokens_on_edge db e + 1" by (simp add: db1 count_tokens_on_edge_def)
  ultimately show ?case using Cons.IH [OF wf1 st1] d by (auto simp: edge_accepts_def)
qed simp

lemma gather_first_token:
  assumes wf: "wf_db db" and src: "handed_out db q" and out: "get_outbound_edges_with_conditions db q = [(e, n, None)]"
    and inb: "filter (\<lambda>x. er_to x = n) (db_edges db) = [x]" "er_id x = e" "er_from x \<noteq> n" and nq: "n \<noteq> q"
    and spec: "spec_of db n = Some (Spec_Gather s)" and pend: "status_of db n = Some N_Pending"
    and empty: "count_tokens_on_edge db e = 0"
  shows "\<exists>db'. advance_step g (q, Some (Many (t # ts)), None) [] db = Continue [(n, Some (gather_output s [t]), None)] db' \<and>
     count_tokens_on_edge db' e = 1 + int (length ts)"
proof -
  let ?db1 = "record_outcome g q (Some (Many (t # ts))) None db"
  have fr: "frame db ?db1" by (intro engine_writes_frame writes_record_outcome)
  have wf1: "wf_db ?db1" using engine_writes_wf [OF writes_record_outcome wf] .
  have tok1: "db_tokens ?db1 = db_tokens db" by (simp add: record_outcome_def)
  have none: "filter (\<lambda>t. tr_edge t = e) (db_tokens db) = []"
    using empty by (simp add: count_tokens_on_edge_def count_where_def)
  obtain db2 where d: "deliver_token e g t (count_tokens_on_edge ?db1 e + 1) ?db1 = (Inr (), db2)"
    and db2: "db2 = ?db1\<lparr>db_tokens := db_tokens ?db1 @
        [\<lparr>tr_edge = e, tr_graph = g, tr_token = t, tr_seq = count_tokens_on_edge ?db1 e + 1\<rparr>]\<rparr>"
    using deliver_next [OF wf1] .
  have wf2: "wf_db db2" using engine_write_wf [OF write_token [OF d] wf1] .
  have st2: "status_of db2 n = Some N_Pending"
    using pend nq by (simp add: db2 status_same_nodes [of "?db1\<lparr>db_tokens := y\<rparr>" ?db1 for y] status)
  have sp2: "spec_of db2 n = Some (Spec_Gather s)"
    using spec by (simp add: db2 spec_same_nodes [of "?db1\<lparr>db_tokens := y\<rparr>" ?db1 for y] frame_spec [OF fr])
  have ed2: "db_edges db2 = db_edges db" by (simp add: db2 frame_edges [OF fr])
  have ids: "inbound_edge_ids db2 n = [e]"
  proof -
    have "filter (\<lambda>y. er_to y = n \<and> er_from y \<noteq> n) (db_edges db) =
      filter (\<lambda>y. er_from y \<noteq> n) (filter (\<lambda>y. er_to y = n) (db_edges db))"
      by (simp add: conj_commute)
    then show ?thesis using inb by (simp add: inbound_edge_ids_def ed2)
  qed
  then have join: "join_satisfied db2 n" by (simp add: join_satisfied_def db2)
  have same: "filter (\<lambda>y. er_id y = i \<and> er_to y = n) (db_edges db2) = (if i = e then [x] else [])" for i
  proof -
    have "filter (\<lambda>y. er_id y = i \<and> er_to y = n) (db_edges db) =
      filter (\<lambda>y. er_id y = i) (filter (\<lambda>y. er_to y = n) (db_edges db))"
      by (simp add: conj_commute)
    then show ?thesis using inb by (simp add: ed2)
  qed
  have flat: "concat (map (\<lambda>t. map (\<lambda>_. t) (filter (\<lambda>y. er_id y = tr_edge t \<and> er_to y = n) (db_edges db2))) rows) =
    filter (\<lambda>t. tr_edge t = e) rows" for rows
    unfolding same by (induction rows) auto
  have "filter (\<lambda>t. tr_edge t = e) (db_tokens db2) =
      [\<lparr>tr_edge = e, tr_graph = g, tr_token = t, tr_seq = count_tokens_on_edge ?db1 e + 1\<rparr>]"
    using none by (simp add: db2 tok1)
  then have inputs: "get_node_inputs db2 n = [t]"
    unfolding get_node_inputs_def flat by simp
  let ?db3 = "set_node_status n N_Running None None db2"
  have c: "check_and_ready g n db2 = (Inr (Some (gather_output s [t])), ?db3)"
    using join by (simp add: check_and_ready_eq [OF wf2 st2 sp2] inputs)
  have ex: "node_exists db2 n" using st2 status_of_None [of db2 n] by auto
  have st3: "status_of ?db3 n = Some N_Running" using ex by (simp add: status)
  have wf3: "wf_db ?db3" using engine_write_wf [OF write_node wf2] .
  have cnt: "count_tokens_on_edge ?db3 e = 1"
    using empty by (simp add: count_tokens_on_edge_def db2 tok1)
  obtain db' where r: "route_tokens g ts [(e, n, None)] ([(n, Some (gather_output s [t]), None)], True) ?db3 =
      (Inr ([(n, Some (gather_output s [t]), None)], True), db')" "count_tokens_on_edge db' e = 1 + int (length ts)"
    using route_tokens_running [OF wf3 st3, of g ts e "[(n, Some (gather_output s [t]), None)]"] cnt by auto
  obtain row where "row_by nr_id q (db_nodes db) = Some row" "nr_status row \<noteq> N_Complete" "nr_status row \<noteq> N_Failed"
    using src by (auto simp: handed_out_def status_of_def)
  then show ?thesis
    using d c r by (simp add: advance_step_def get_node_def Let_def produce_tokens_def out edge_accepts_def)
qed

subsection \<open>A Gather reached by a late edge\<close>

lemma deliver_all_next:
  assumes "wf_db db"
  shows "\<exists>db2 new. deliver_all e g None toks db = (Inr (), db2) \<and> wf_db db2 \<and>
    db2 = db\<lparr>db_tokens := db_tokens db @ new\<rparr> \<and> map tr_token new = toks \<and> (\<forall>t \<in> set new. tr_edge t = e)"
  using assms
proof (induction toks arbitrary: db)
  case Nil
  have "db = db\<lparr>db_tokens := db_tokens db @ []\<rparr>" by simp
  with Nil show ?case by auto
next
  case (Cons tok toks)
  let ?row = "\<lparr>tr_edge = e, tr_graph = g, tr_token = tok, tr_seq = count_tokens_on_edge db e + 1\<rparr>"
  obtain db1 where d: "deliver_token e g tok (count_tokens_on_edge db e + 1) db = (Inr (), db1)"
    and db1: "db1 = db\<lparr>db_tokens := db_tokens db @ [?row]\<rparr>"
    using deliver_next [OF Cons.prems] .
  have "wf_db db1" using engine_write_wf [OF write_token [OF d] Cons.prems] .
  then obtain db2 new where "deliver_all e g None toks db1 = (Inr (), db2)" "wf_db db2"
    "db2 = db1\<lparr>db_tokens := db_tokens db1 @ new\<rparr>" "map tr_token new = toks" "\<forall>t \<in> set new. tr_edge t = e"
    using Cons.IH by blast
  then have "deliver_all e g None (tok # toks) db = (Inr (), db2) \<and> wf_db db2 \<and>
    db2 = db\<lparr>db_tokens := db_tokens db @ (?row # new)\<rparr> \<and> map tr_token (?row # new) = tok # toks \<and>
    (\<forall>t \<in> set (?row # new). tr_edge t = e)"
    using d by (simp add: edge_accepts_def db1)
  then show ?case by (rule exI [where x = db2, OF exI [where x = "?row # new"]])
qed

lemma add_edge_running_gather:
  assumes wf: "wf_db db" and run: "gstatus_of db g = Some G_Running" and nodes: "node_in_graph db from g" "node_in_graph db to g"
    and fresh: "row_by er_id u (db_edges db) = None" and src: "get_node db from = Inr nd" "ln_status nd = N_Complete"
    and toks: "produce_tokens (ln_output nd) None \<noteq> []" and loop: "from \<noteq> to"
    and pend: "status_of db to = Some N_Pending" and spec: "spec_of db to = Some (Spec_Gather s)"
    and inb: "get_inbound_edges db to = []" and db': "add_edge g from to None u db = (r, db')"
  shows "r = Inr () \<and> status_of db' to = Some N_Running \<and> db_events db' = db_events db"
proof -
  let ?e = "\<lparr>er_id = u, er_graph = g, er_from = from, er_to = to, er_condition = None\<rparr>"
  let ?db1 = "db\<lparr>db_edges := db_edges db @ [?e]\<rparr>"
  let ?toks = "produce_tokens (ln_output nd) None"
  have wf1: "wf_db ?db1" using wf nodes fresh by (intro wf_append_edge) simp_all
  obtain db2 new where d: "deliver_all u g None ?toks ?db1 = (Inr (), db2)" and wf2: "wf_db db2"
    and db2: "db2 = ?db1\<lparr>db_tokens := db_tokens ?db1 @ new\<rparr>" and new: "map tr_token new = ?toks" "\<forall>t \<in> set new. tr_edge t = u"
    using deliver_all_next [OF wf1] by blast
  have st2: "status_of db2 to = Some N_Pending" and sp2: "spec_of db2 to = Some (Spec_Gather s)"
    using pend spec by (simp_all add: db2 status_of_def spec_of_def)
  have "filter (\<lambda>e. er_to e = to \<and> er_from e \<noteq> to) (db_edges db) = []"
    using inb by (auto simp: get_inbound_edges_def filter_empty_conv)
  then have "inbound_edge_ids db2 to = [u]" using loop by (simp add: inbound_edge_ids_def db2)
  moreover obtain t new' where "new = t # new'" using new(1) toks by (cases new) auto
  ultimately have "join_satisfied db2 to" using new(2) by (simp add: join_satisfied_def db2)
  then have c: "check_and_ready g to db2 =
      (Inr (Some (gather_output s (get_node_inputs db2 to))), set_node_status to N_Running None None db2)"
    by (simp add: check_and_ready_eq [OF wf2 st2 sp2])
  have ex: "node_exists db2 to" using st2 status_of_None [of db2 to] by auto
  have gs: "row_by gr_id g (db_graphs db) \<noteq> None" "get_graph_status ?db1 g = Inr G_Running"
    using run by (auto simp: gstatus_of_def get_graph_status_def split: option.splits)
  have "get_node ?db1 from = Inr nd" using src(1) by (simp add: get_node_def)
  then have "add_edge g from to None u db =
      (Inr (), notify_graph g (set_node_status to N_Running None None db2))"
    using nodes fresh gs src d c by (simp add: add_edge_def Let_def)
  then have "r = Inr ()" "db' = notify_graph g (set_node_status to N_Running None None db2)" using db' by simp_all
  then show ?thesis using ex by (simp add: status) (simp add: db2)
qed

end
