(* ===== verification/Log_Interface.thy ===== *)
theory Log_Interface
  imports Substrate_Prelude
begin

text \<open>
  The interface of an append-only log that is read through a cursor, as the execution stream of
  Lattice and the polling of buffered ClaudeCode streams rely on it: what the provider promises, and
  what a consumer that keeps the last number it has seen gets from it.
\<close>

subsection \<open>Reading up to a terminal entry\<close>

fun upto_end :: "('e \<Rightarrow> bool) \<Rightarrow> 'e list \<Rightarrow> 'e list" where
  "upto_end p [] = []"
| "upto_end p (x # xs) = x # (if p x then [] else upto_end p xs)"

lemma upto_end_append:
  "upto_end p (xs @ ys) = (if \<exists>x \<in> set xs. p x then upto_end p xs else xs @ upto_end p ys)"
  by (induction xs) auto

lemma upto_end_none: "\<forall>x \<in> set xs. \<not> p x \<Longrightarrow> upto_end p xs = xs"
  by (induction xs) auto

lemma upto_end_has: "(\<exists>x \<in> set (upto_end p xs). p x) \<longleftrightarrow> (\<exists>x \<in> set xs. p x)"
  by (induction xs) auto

lemma upto_end_Nil [simp]: "upto_end p xs = [] \<longleftrightarrow> xs = []"
  by (cases xs) auto

lemma upto_end_prefix: "\<exists>ys. xs = upto_end p xs @ ys"
  by (induction xs) auto

subsection \<open>A polling consumer\<close>

text \<open>
  The consumer's state: its cursor, whether it still listens, what it has taken. A poll reads behind
  the cursor, takes the entries up to the first terminal one, and stops at that.
\<close>

type_synonym ('c, 'e) consumer = "'c \<times> bool \<times> ('c \<times> 'e) list"

definition poll_log :: "('l \<Rightarrow> 'c \<Rightarrow> ('c \<times> 'e) list) \<Rightarrow> ('e \<Rightarrow> bool) \<Rightarrow> 'l \<Rightarrow> ('c, 'e) consumer \<Rightarrow> ('c, 'e) consumer" where
  "poll_log read p l s =
     (case s of (c, listening, got) \<Rightarrow>
        if \<not> listening then s
        else let batch = upto_end (p \<circ> snd) (read l c)
             in (if batch = [] then c else fst (last batch), \<not> (\<exists>x \<in> set batch. p (snd x)), got @ batch))"

definition consumed :: "('l \<Rightarrow> 'c \<Rightarrow> ('c \<times> 'e) list) \<Rightarrow> ('e \<Rightarrow> bool) \<Rightarrow> 'c \<Rightarrow> 'l \<Rightarrow> ('c, 'e) consumer \<Rightarrow> bool" where
  "consumed read p c0 l s \<longleftrightarrow>
     (case s of (c, listening, got) \<Rightarrow>
        got = upto_end (p \<circ> snd) (read l c0) \<and> listening = (\<forall>x \<in> set got. \<not> p (snd x)) \<and>
        c = (if got = [] then c0 else fst (last got)))"

text \<open>The same for a consumer that takes at most \<open>n\<close> entries and does not stop.\<close>

definition poll_batch :: "('l \<Rightarrow> 'c \<Rightarrow> ('c \<times> 'e) list) \<Rightarrow> nat \<Rightarrow> 'l \<Rightarrow> 'c \<times> ('c \<times> 'e) list \<Rightarrow> 'c \<times> ('c \<times> 'e) list" where
  "poll_batch read n l s =
     (case s of (c, got) \<Rightarrow> let batch = take n (read l c) in (if batch = [] then c else fst (last batch), got @ batch))"

definition fetched :: "('l \<Rightarrow> 'c \<Rightarrow> ('c \<times> 'e) list) \<Rightarrow> 'c \<Rightarrow> 'l \<Rightarrow> 'c \<times> ('c \<times> 'e) list \<Rightarrow> bool" where
  "fetched read c0 l s \<longleftrightarrow>
     (case s of (c, got) \<Rightarrow> (\<exists>rest. read l c0 = got @ rest) \<and> c = (if got = [] then c0 else fst (last got)))"

subsection \<open>The contract\<close>

text \<open>
  \<open>read_after l c\<close> are the numbered entries of log \<open>l\<close> behind cursor \<open>c\<close>; \<open>zero\<close> is the cursor before
  all entries, \<open>valid\<close> the cursors that the contract speaks of, \<open>extends\<close> the growth of the log.
\<close>

locale cursor_log =
  fixes read_after :: "'l \<Rightarrow> 'c::linorder \<Rightarrow> ('c \<times> 'e) list"
    and zero :: 'c and valid :: "'c \<Rightarrow> bool" and ok :: "'l \<Rightarrow> bool" and extends :: "'l \<Rightarrow> 'l \<Rightarrow> bool"
  assumes valid_zero: "valid zero"
    and behind: "ok l \<Longrightarrow> valid c \<Longrightarrow> read_after l c = filter (\<lambda>x. c < fst x) (read_after l zero)"
    and ascending: "ok l \<Longrightarrow> sorted_wrt (<) (map fst (read_after l zero))"
    and numbers_valid: "ok l \<Longrightarrow> x \<in> set (read_after l zero) \<Longrightarrow> valid (fst x)"
    and grows: "ok l \<Longrightarrow> ok l' \<Longrightarrow> extends l l' \<Longrightarrow> \<exists>new. read_after l' zero = read_after l zero @ new"
    and extends_trans: "extends l l' \<Longrightarrow> extends l' l'' \<Longrightarrow> extends l l''"
begin

lemma sorted_behind: "ok l \<Longrightarrow> valid c \<Longrightarrow> sorted_wrt (<) (map fst (read_after l c))"
  using ascending [of l] by (simp add: behind sorted_wrt_map sorted_wrt_filter)

lemma behind_valid: "ok l \<Longrightarrow> valid c \<Longrightarrow> x \<in> set (read_after l c) \<Longrightarrow> c < fst x \<and> valid (fst x)"
  using numbers_valid by (auto simp: behind)

text \<open>Behind the last entry of a batch lies what the batch left out.\<close>

lemma filter_behind:
  fixes xs ys :: "('c \<times> 'e) list"
  assumes "sorted_wrt (<) (map fst (xs @ ys))" and "xs \<noteq> []"
  shows "filter (\<lambda>x. fst (last xs) < fst x) (xs @ ys) = ys"
proof -
  have "\<not> fst (last xs) < fst x" if "x \<in> set xs" for x
  proof -
    have s: "sorted_wrt (<) (map fst xs)" using assms(1) by (simp add: sorted_wrt_append)
    obtain zs where xs: "xs = zs @ [last xs]" using assms(2) by (metis append_butlast_last_id)
    have "x \<in> set zs \<or> x = last xs" using that by (subst (asm) xs) auto
    moreover have "fst y < fst (last xs)" if "y \<in> set zs" for y
      using s that by (subst (asm) xs) (auto simp: sorted_wrt_append)
    ultimately show ?thesis by (metis less_asym less_irrefl)
  qed
  moreover have "fst (last xs) < fst y" if "y \<in> set ys" for y
    using assms that last_in_set [of xs] by (auto simp: sorted_wrt_append)
  ultimately show ?thesis by (simp add: filter_False)
qed

text \<open>A later reader finds the earlier entries first.\<close>

lemma grows_behind:
  assumes "ok l" and "ok l'" and "extends l l'" and "valid c"
  shows "\<exists>new. read_after l' c = read_after l c @ new"
proof -
  obtain new where "read_after l' zero = read_after l zero @ new" using grows assms by blast
  then show ?thesis using assms by (simp add: behind [OF assms(2,4)] behind [OF assms(1,4)])
qed

lemma read_on:
  assumes l: "ok l" "ok l'" "extends l l'" and c: "valid c" and ne: "read_after l c \<noteq> []"
  shows "read_after l' c = read_after l c @ read_after l' (fst (last (read_after l c)))"
proof -
  let ?c = "fst (last (read_after l c))"
  obtain new where new: "read_after l' c = read_after l c @ new" using grows_behind assms by blast
  have "last (read_after l c) \<in> set (read_after l c)" using ne by simp
  then have c': "valid ?c" "c < ?c" using behind_valid [OF l(1) c] by blast+
  have "read_after l' ?c = filter (\<lambda>x. ?c < fst x) (read_after l' c)"
    using c' unfolding behind [OF l(2) c] behind [OF l(2) c'(1)] filter_filter by (intro filter_cong) auto
  also have "\<dots> = new"
    using sorted_behind [OF l(2) c] ne unfolding new by (rule filter_behind)
  finally show ?thesis using new by simp
qed

subsection \<open>What the consumer gets\<close>

lemma poll_first: "consumed read_after p c l (poll_log read_after p l (c, True, []))"
  by (auto simp: consumed_def poll_log_def Let_def)

lemma poll_next:
  assumes l: "ok l" "ok l'" "extends l l'" and c: "valid c" and s: "consumed read_after p c l s"
  shows "consumed read_after p c l' (poll_log read_after p l' s)"
proof -
  obtain cur listening got where st: "s = (cur, listening, got)" by (cases s)
  have got: "got = upto_end (p \<circ> snd) (read_after l c)" and li: "listening = (\<forall>x \<in> set got. \<not> p (snd x))"
    and cur: "cur = (if got = [] then c else fst (last got))"
    using s by (auto simp: consumed_def st)
  obtain new where new: "read_after l' c = read_after l c @ new" using grows_behind [OF l c] by blast
  have fin: "(\<exists>x \<in> set got. p (snd x)) \<longleftrightarrow> (\<exists>x \<in> set (read_after l c). p (snd x))"
    using upto_end_has [of "p \<circ> snd"] by (simp add: got)
  show ?thesis
  proof (cases listening)
    case False
    then have "\<exists>x \<in> set (read_after l c). (p \<circ> snd) x" using li fin by auto
    then have "upto_end (p \<circ> snd) (read_after l' c) = got" by (simp add: new upto_end_append got)
    then show ?thesis using False li cur by (simp add: consumed_def poll_log_def st)
  next
    case True
    then have all: "got = read_after l c" using li fin got upto_end_none [of "read_after l c" "p \<circ> snd"] by auto
    have "read_after l' c = got @ read_after l' cur"
      using read_on [OF l c] cur all by (cases "got = []") auto
    moreover have "\<not> (\<exists>x \<in> set got. (p \<circ> snd) x)" using True li by auto
    ultimately have "upto_end (p \<circ> snd) (read_after l' c) = got @ upto_end (p \<circ> snd) (read_after l' cur)"
      by (simp add: upto_end_append)
    moreover define b where "b = upto_end (p \<circ> snd) (read_after l' cur)"
    moreover have "poll_log read_after p l' s = (if b = [] then cur else fst (last b), \<not> (\<exists>x \<in> set b. p (snd x)), got @ b)"
      using True by (simp add: poll_log_def st b_def Let_def)
    moreover have "\<forall>x \<in> set got. \<not> p (snd x)" using True li by blast
    ultimately show ?thesis using cur by (cases "b = []") (simp_all add: consumed_def ball_Un)
  qed
qed

text \<open>Polling along a growing log delivers every entry behind the first cursor once, in order, up to the first terminal one.\<close>

lemma polls:
  assumes "ls \<noteq> []" and "\<forall>l \<in> set ls. ok l" and "successively extends ls" and "valid c"
  shows "consumed read_after p c (last ls) (fold (poll_log read_after p) ls (c, True, []))"
  using assms(1-3)
proof (induction ls rule: rev_induct)
  case (snoc l ls)
  show ?case
  proof (cases "ls = []")
    case True
    then show ?thesis by (simp add: poll_first)
  next
    case False
    then have "consumed read_after p c (last ls) (fold (poll_log read_after p) ls (c, True, []))"
      using snoc by (simp add: successively_append_iff)
    moreover have "extends (last ls) l" "ok (last ls)" "ok l"
      using False snoc.prems by (auto simp: successively_append_iff)
    ultimately show ?thesis using poll_next assms(4) by simp
  qed
qed simp

subsection \<open>Batches\<close>

text \<open>
  A consumer that takes at most \<open>n\<close> entries at a time has, at any moment, a prefix of the log, and its
  cursor is the number of the last entry of it.
\<close>

lemma read_rest:
  assumes "ok l" and "read_after l zero = got @ rest"
  shows "read_after l (if got = [] then zero else fst (last got)) = rest"
proof (cases "got = []")
  case False
  then have "last got \<in> set (read_after l zero)" using assms(2) by simp
  then have "valid (fst (last got))" using numbers_valid [OF assms(1)] by blast
  then have "read_after l (fst (last got)) = filter (\<lambda>x. fst (last got) < fst x) (got @ rest)"
    using behind [OF assms(1)] assms(2) by simp
  also have "\<dots> = rest" using ascending [OF assms(1)] False unfolding assms(2) by (rule filter_behind)
  finally show ?thesis using False by simp
qed (use assms in simp)

lemma batch_next:
  assumes l: "ok l" "ok l'" "extends l l'" and s: "fetched read_after zero l s"
  shows "fetched read_after zero l' (poll_batch read_after n l' s)"
proof -
  obtain c got where st: "s = (c, got)" by (cases s)
  obtain rest new where "read_after l zero = got @ rest" "read_after l' zero = read_after l zero @ new"
    using s grows [OF l] by (auto simp: fetched_def st)
  then have all: "read_after l' zero = got @ (rest @ new)" by simp
  have "c = (if got = [] then zero else fst (last got))" using s by (simp add: fetched_def st)
  then have "read_after l' c = rest @ new" using read_rest [OF l(2) all] by simp
  then have poll: "poll_batch read_after n l' s =
      (if take n (rest @ new) = [] then c else fst (last (take n (rest @ new))), got @ take n (rest @ new))"
    by (simp add: poll_batch_def st Let_def del: take_append)
  have "read_after l' zero = (got @ take n (rest @ new)) @ drop n (rest @ new)"
    using all by (simp only: append_assoc append_take_drop_id)
  then show ?thesis
    using s unfolding poll by (auto simp: fetched_def st simp del: take_append)
qed

end

end
