(* ===== verification/Lattice_Stream.thy ===== *)
theory Lattice_Stream
  imports Lattice_Outcome Log_Interface
begin

text \<open>
  \<open>execute_stream\<close> of \<^verbatim>\<open>src/src/activations/lattice/storage.rs\<close>: how a subscriber opens the event stream of a
  graph, what each pass of its loop sends, the wake-up permit and the timeout. The event log is an
  instance of the cursor log contract as long as sequence numbers stay below \<open>2^63\<close>.
\<close>

subsection \<open>The subscriber\<close>

record lattice_stream =
  st_cursor :: "64 word"
  st_open :: bool
  st_sent :: "(64 word \<times> lattice_event) list"

fun lattice_error_text :: "lattice_error \<Rightarrow> string" where
  "lattice_error_text (Sql_Error msg) = msg"
| "lattice_error_text (Graph_Not_Found g) = ''Graph not found: '' @ g"
| "lattice_error_text (Node_Not_Found n) = ''Node not found: '' @ n"
| "lattice_error_text (Node_Not_In_Graph n g) = ''Node '' @ n @ '' not found in graph '' @ g"

text \<open>The code before the loop; \<open>start_graph\<close> cannot fail here (it only fails on database errors).\<close>

definition open_stream :: "graph_id \<Rightarrow> 64 word option \<Rightarrow> lattice_db \<Rightarrow> lattice_stream \<times> lattice_db" where
  "open_stream g after_seq db =
     (case get_graph db g of
        Inl e \<Rightarrow> (\<lparr>st_cursor = 0, st_open = False,
             st_sent = [(0, GraphFailed g [] (''Graph not found: '' @ lattice_error_text e))]\<rparr>, db)
      | Inr gr \<Rightarrow>
          let db1 = (if after_seq = None \<and> lg_status gr = G_Pending then start_graph g db else db)
          in (\<lparr>st_cursor = (case after_seq of None \<Rightarrow> 0 | Some c \<Rightarrow> c), st_open = True, st_sent = []\<rparr>,
              get_or_create_notifier g db1))"

fun send_events :: "(64 word \<times> lattice_event) list \<Rightarrow> lattice_stream \<Rightarrow> lattice_stream" where
  "send_events [] s = s"
| "send_events ((seq, ev) # evs) s =
     (let s1 = s\<lparr>st_cursor := seq, st_sent := st_sent s @ [(seq, ev)]\<rparr>
      in if ends_stream ev then s1\<lparr>st_open := False\<rparr> else send_events evs s1)"

definition stream_pass :: "graph_id \<Rightarrow> lattice_db \<Rightarrow> lattice_stream \<Rightarrow> lattice_stream" where
  "stream_pass g db s = (if st_open s then send_events (get_events_after db g (st_cursor s)) s else s)"

text \<open>
  \<open>notifier.notified()\<close> returns when a permit is there, and takes it; otherwise only the timeout is left.
\<close>

definition take_permit :: "graph_id \<Rightarrow> lattice_db \<Rightarrow> lattice_db option" where
  "take_permit g db =
     (if db_notifiers db g = Some True then Some (db\<lparr>db_notifiers := (db_notifiers db)(g := Some False)\<rparr>) else None)"

definition stream_timeout :: "graph_id \<Rightarrow> lattice_db \<Rightarrow> lattice_stream \<Rightarrow> lattice_stream \<times> lattice_db" where
  "stream_timeout g db s =
     (let ev = GraphFailed g ''timeout'' ''Execution timed out''
      in (s\<lparr>st_open := False, st_sent := st_sent s @ [(persist_event_seq db, ev)]\<rparr>, persist_event g ev db))"

subsection \<open>One pass is a poll\<close>

definition consumer_of :: "lattice_stream \<Rightarrow> (64 word, lattice_event) consumer" where
  "consumer_of s = (st_cursor s, st_open s, st_sent s)"

lemma send_events_batch:
  assumes "st_open s"
  shows "consumer_of (send_events evs s) =
    (let batch = upto_end (ends_stream \<circ> snd) evs
     in (if batch = [] then st_cursor s else fst (last batch), \<not> (\<exists>x \<in> set batch. ends_stream (snd x)), st_sent s @ batch))"
  using assms
proof (induction evs s rule: send_events.induct)
  case (2 seq ev evs s)
  then show ?case by (cases "ends_stream ev") (simp_all add: consumer_of_def Let_def)
qed (simp add: consumer_of_def)

lemma stream_pass_poll:
  "consumer_of (stream_pass g db s) = poll_log (\<lambda>db. get_events_after db g) ends_stream db (consumer_of s)"
  by (simp add: stream_pass_def poll_log_def send_events_batch) (simp add: consumer_of_def)

subsection \<open>The event log is a cursor log\<close>

definition log_ok :: "lattice_db \<Rightarrow> bool" where
  "log_ok db \<longleftrightarrow> wf_db db \<and> int (length (db_events db)) < 2 ^ 63"

definition cursor_ok :: "64 word \<Rightarrow> bool" where
  "cursor_ok c \<longleftrightarrow> uint c < 2 ^ 63"

lemma sint_small: "cursor_ok c \<Longrightarrow> sint c = uint c"
  unfolding cursor_ok_def sint_uint by (rule signed_take_bit_int_eq_self) (simp_all add: order_trans [OF _ uint_ge_0])

lemma uint_seq: "0 \<le> i \<Longrightarrow> i < 2 ^ 63 \<Longrightarrow> uint (word_of_int i :: 64 word) = i"
  by (simp add: unsigned_of_int take_bit_int_eq_self)

lemma log_seqs:
  assumes "log_ok db" and "r \<in> set (db_events db)"
  shows "1 \<le> ev_seq r" "ev_seq r < 2 ^ 63"
proof -
  have "ev_seq r \<in> set (map int [1..<Suc (length (db_events db))])"
    using events_seq [of db] assms by (metis imageI log_ok_def set_map)
  then show "1 \<le> ev_seq r" "ev_seq r < 2 ^ 63" using assms(1) by (auto simp: log_ok_def)
qed

lemma events_sorted:
  assumes "wf_db db"
  shows "sorted_wrt (<) (map ev_seq (db_events db))"
proof -
  have "sorted_wrt (<) (map int [1..<Suc (length (db_events db))])"
    unfolding sorted_wrt_map by (rule sorted_wrt_mono_rel [OF _ sorted_wrt_upt]) simp
  then show ?thesis by (simp only: events_seq [OF assms])
qed

lemma events_after_filter:
  assumes "log_ok db" and "cursor_ok c"
  shows "get_events_after db g c =
    map (\<lambda>r. (word_of_int (ev_seq r), ev_event r)) (filter (\<lambda>r. ev_graph r = g \<and> uint c < ev_seq r) (db_events db))"
proof -
  have "sorted (map ev_seq (db_events db))"
    using events_sorted assms(1) strict_sorted_imp_sorted by (auto simp: log_ok_def)
  then have "sorted (map ev_seq (filter P (db_events db)))" for P by (rule sorted_filter)
  then show ?thesis by (simp add: get_events_after_def sint_small [OF assms(2)] sort_key_id_if_sorted)
qed

lemma log_extends_rows:
  "log_extends db db' \<Longrightarrow> \<exists>evs. db_events db' = db_events db @ evs"
  by (simp add: log_extends_def)

interpretation elog: cursor_log "\<lambda>db. get_events_after db g" 0 cursor_ok log_ok log_extends for g
proof (unfold_locales, goal_cases)
  case 1
  show ?case by (simp add: cursor_ok_def)
next
  case (2 db c)
  have z: "cursor_ok 0" by (simp add: cursor_ok_def)
  have "c < word_of_int (ev_seq r) \<longleftrightarrow> uint c < ev_seq r" and "0 < ev_seq r" if "r \<in> set (db_events db)" for r
    using log_seqs [OF 2(1) that] by (simp_all add: word_less_def uint_seq)
  then have "filter (\<lambda>r. ev_graph r = g \<and> uint c < ev_seq r) (db_events db) =
    filter (\<lambda>r. ev_graph r = g \<and> 0 < ev_seq r \<and> c < word_of_int (ev_seq r)) (db_events db)"
    by (intro filter_cong) auto
  then show ?case
    by (simp add: events_after_filter [OF 2] events_after_filter [OF 2(1) z] filter_map comp_def conj_ac)
next
  case (3 db)
  have z: "cursor_ok 0" by (simp add: cursor_ok_def)
  have lt: "word_of_int (ev_seq r) < (word_of_int (ev_seq r') :: 64 word)"
    if "r \<in> set (db_events db)" "r' \<in> set (db_events db)" "ev_seq r < ev_seq r'" for r r'
    using log_seqs [OF 3 that(1)] log_seqs [OF 3 that(2)] that(3) by (simp add: word_less_def uint_seq)
  have "sorted_wrt (\<lambda>r r'. ev_seq r < ev_seq r') (db_events db)"
    using events_sorted 3 by (simp add: log_ok_def sorted_wrt_map)
  then have "sorted_wrt (\<lambda>r r'. word_of_int (ev_seq r) < (word_of_int (ev_seq r') :: 64 word)) (db_events db)"
    by (rule sorted_wrt_mono_rel [rotated]) (rule lt)
  then show ?case by (simp add: events_after_filter [OF 3 z] sorted_wrt_map comp_def sorted_wrt_filter)
next
  case (4 db x)
  have z: "cursor_ok 0" by (simp add: cursor_ok_def)
  from 4 obtain r where "r \<in> set (db_events db)" "fst x = word_of_int (ev_seq r)"
    by (auto simp: events_after_filter [OF 4(1) z])
  then show ?case using log_seqs [OF 4(1), of r] by (simp add: cursor_ok_def uint_seq)
next
  case (5 db db')
  have z: "cursor_ok 0" by (simp add: cursor_ok_def)
  obtain evs where "db_events db' = db_events db @ evs" using log_extends_rows 5(3) by blast
  then show ?case by (simp add: events_after_filter [OF 5(1) z] events_after_filter [OF 5(2) z])
next
  case (6 db db' db'')
  then show ?case by (rule log_extends_trans)
qed

subsection \<open>What a subscriber has been sent\<close>

definition stream_passes :: "graph_id \<Rightarrow> lattice_db list \<Rightarrow> lattice_stream \<Rightarrow> lattice_stream" where
  "stream_passes g dbs s = fold (stream_pass g) dbs s"

lemma stream_passes_poll:
  "consumer_of (stream_passes g dbs s) = fold (poll_log (\<lambda>db. get_events_after db g) ends_stream) dbs (consumer_of s)"
  unfolding stream_passes_def by (induction dbs arbitrary: s) (simp_all add: stream_pass_poll)

subsection \<open>No event without a wake-up\<close>

text \<open>Between two states an operation has logged only events of graph \<open>h\<close> and not touched a notifier.\<close>

definition own_log :: "graph_id \<Rightarrow> lattice_db \<Rightarrow> lattice_db \<Rightarrow> bool" where
  "own_log h db d \<longleftrightarrow> db_notifiers d = db_notifiers db \<and>
     (\<exists>evs. db_events d = db_events db @ evs \<and> (\<forall>r \<in> set evs. ev_graph r = h))"

definition woken :: "lattice_db \<Rightarrow> lattice_db \<Rightarrow> bool" where
  "woken db d \<longleftrightarrow> (\<forall>g. db_notifiers db g \<noteq> None \<longrightarrow>
     (\<exists>r \<in> set (drop (length (db_events db)) (db_events d)). ev_graph r = g) \<longrightarrow> db_notifiers d g = Some True)"

named_theorems own

lemma own_log_refl [own]: "own_log h db db"
  by (simp add: own_log_def)

lemma own_log_node [own]: "own_log h db d \<Longrightarrow> own_log h db (set_node_status n st out err d)"
  by (simp add: own_log_def) (simp add: set_node_status_def Let_def)

lemma own_log_graph [own]: "own_log h db d \<Longrightarrow> own_log h db (update_graph_status g st d)"
  by (simp add: own_log_def) (simp add: update_graph_status_def)

lemma own_log_event [own]: "own_log h db d \<Longrightarrow> own_log h db (persist_event h ev d)"
  by (auto simp: own_log_def) (simp add: persist_event_def)

lemma own_log_ready [own]: "own_log h db d \<Longrightarrow> own_log h db (make_ready h n spec d)"
  by (simp add: make_ready_def own)

lemma own_log_record [own]: "own_log h db d \<Longrightarrow> own_log h db (record_outcome h n out err d)"
  by (simp add: record_outcome_def own split: option.split)

lemma own_log_deliver [own]:
  "own_log h db d \<Longrightarrow> deliver_token e g tok seq d = (r, d') \<Longrightarrow> own_log h db d'"
  by (auto dest!: deliver_token_cases simp: own_log_def)

lemma own_log_fields: "db_events a = db_events b \<Longrightarrow> db_notifiers a = db_notifiers b \<Longrightarrow> own_log h db a = own_log h db b"
  by (simp add: own_log_def)

lemma own_log_seed [own]: "own_log h db d \<Longrightarrow> own_log h db (seed_roots h roots d)"
  by (induction roots arbitrary: d) (simp_all add: own)

lemma own_log_emit [own]: "own_log h db d \<Longrightarrow> own_log h db (emit_ready h ns d)"
  by (induction ns arbitrary: d) (simp_all add: own)

lemma own_log_check [own]: "own_log h db d \<Longrightarrow> own_log h db (snd (check_and_ready h n d))"
  by (rule check_and_ready_keeps) (auto intro: own)

lemma own_log_deliver_all [own]: "own_log h db d \<Longrightarrow> own_log h db (snd (deliver_all e g cond toks d))"
proof (induction toks arbitrary: d)
  case (Cons tok toks)
  obtain r d' where "deliver_token e g tok (count_tokens_on_edge d e + 1) d = (r, d')" by fastforce
  then show ?case using Cons own_log_deliver [OF Cons.prems] by (cases r) auto
qed simp

lemma deliver_all_events: "db_events (snd (deliver_all e g cond toks db)) = db_events db"
proof (induction toks arbitrary: db)
  case (Cons tok toks)
  obtain r d' where d: "deliver_token e g tok (count_tokens_on_edge db e + 1) db = (r, d')" by fastforce
  then have "db_events d' = db_events db" by (auto dest!: deliver_token_cases)
  then show ?case using Cons d by (cases r) auto
qed simp

lemma woken_notify: "own_log h db d \<Longrightarrow> woken db (notify_graph h d)"
  by (auto simp: own_log_def woken_def notify_graph_def split: option.splits)

lemma woken_same: "db_events d = db_events db \<Longrightarrow> woken db d"
  by (simp add: woken_def)

lemma own_log_step:
  assumes "own_log h db d" and "wf_db d"
  shows "(\<forall>q1 d1. advance_step h w q d = Continue q1 d1 \<longrightarrow> own_log h db d1) \<and>
    (\<forall>r d1. advance_step h w q d = Return r d1 \<longrightarrow> woken db d1)"
proof -
  obtain n out err where w: "w = (n, out, err)" by (cases w)
  let ?db1 = "record_outcome h n out err d"
  let ?db2 = "snd (route_tokens h (produce_tokens out err) (get_outbound_edges_with_conditions ?db1 n) (q, False) ?db1)"
  have o: "own_log h db ?db2"
    by (rule route_tokens_keeps) (use assms in \<open>auto intro: own\<close>)
  show ?thesis
  proof (intro conjI allI impI)
    fix q1 d1 assume s: "advance_step h w q d = Continue q1 d1"
    show "own_log h db d1" using advance_step_db [of h n out err q d] s o assms(1) by (auto simp: w fail_graph_def woken_def
          advance_step_def Let_def split: sum.splits prod.splits if_splits)
  next
    fix r d1 assume s: "advance_step h w q d = Return r d1"
    then have "r = Inr ()" by (rule advance_step_ok [OF assms(2)])
    then have "d1 = fail_graph h n (error_text (produce_tokens out err)) ?db2"
      using s by (auto simp: w advance_step_def Let_def split: sum.splits prod.splits if_splits)
    then show "woken db d1" using o by (auto simp: fail_graph_def intro!: woken_notify own)
  qed
qed

lemma woken_advance:
  assumes "advance_graph h n out err db = Some (r, db')" and "wf_db db"
  shows "woken db db'"
proof (rule advance_loop_rule [where I = "\<lambda>_ d. wf_db d \<and> own_log h db d" and Q = "\<lambda>_ d. woken db d"])
  show "advance_loop h [(n, out, err)] db = Some (r, db')" using assms by (simp add: advance_graph_def)
next
  fix w rest d q1 d1
  assume "wf_db d \<and> own_log h db d" "advance_step h w rest d = Continue q1 d1"
  then show "wf_db d1 \<and> own_log h db d1" using own_log_step [of h db d w rest] outcome_step_wf [of d h w rest] by auto
next
  fix w rest d r d1
  assume "wf_db d \<and> own_log h db d" "advance_step h w rest d = Return r d1"
  then show "woken db d1" using own_log_step by blast
next
  fix d assume "wf_db d \<and> own_log h db d"
  then show "woken db (complete_if_all_done h d)"
    by (auto simp: complete_if_all_done_def Let_def intro!: woken_notify own)
qed (use assms in \<open>auto intro: own\<close>)

lemma run_step_woken: "run_step db db' \<Longrightarrow> wf_db db \<Longrightarrow> woken db db'"
proof (induction rule: run_step.induct)
  case (run_add_node db g hint spec u)
  then show ?case using add_node_result [of db g hint spec u] by (auto intro: woken_same)
next
  case (run_add_edge "from" "to" db g cond u)
  let ?db1 = "db\<lparr>db_edges := db_edges db @
    [\<lparr>er_id = u, er_graph = g, er_from = from, er_to = to, er_condition = cond\<rparr>]\<rparr>"
  have 1: "own_log g db ?db1" by (simp add: own_log_def)
  have "woken db (snd (bind_res (deliver_all u g cond toks ?db1)
      (\<lambda>_ db2. (Inr (), notify_graph g (snd (check_and_ready g to db2))))))" for toks
  proof -
    have "own_log g db (snd (deliver_all u g cond toks ?db1))" using 1 by (rule own_log_deliver_all)
    moreover obtain r d where d: "deliver_all u g cond toks ?db1 = (r, d)" by fastforce
    ultimately have o: "own_log g db d" by simp
    show ?thesis
    proof (cases r)
      case (Inl e)
      have "db_events d = db_events ?db1" using deliver_all_events d by (metis snd_conv)
      then show ?thesis using Inl d by (simp add: woken_same)
    next
      case (Inr x)
      then show ?thesis using o d by (auto intro!: woken_notify own)
    qed
  qed
  then show ?case by (auto simp: add_edge_def Let_def woken_same split: sum.splits)
next
  case (run_start db g)
  let ?db1 = "db\<lparr>db_graphs := update_where (\<lambda>r. gr_id r = g \<and> gr_status r = G_Pending)
                      (\<lambda>r. r\<lparr>gr_status := G_Running\<rparr>) (db_graphs db)\<rparr>"
  have 1: "own_log g db ?db1" by (simp add: own_log_def)
  have "woken db (notify_graph g (seed_roots g roots ?db1))" for roots
    using 1 by (intro woken_notify own_log_seed)
  moreover have "woken db (notify_graph g (persist_event g ev (update_graph_status g st ?db1)))" for ev st
    using 1 by (intro woken_notify own_log_event own_log_graph)
  ultimately show ?case by (simp add: start_graph_def Let_def woken_same)
next
  case (run_start_node db n g)
  then show ?case by (auto simp: start_node_def intro!: woken_notify own)
next
  case (run_outcome db n g out err r db')
  then show ?case by (blast intro: woken_advance)
next
  case (run_reset db g n)
  then show ?case by (auto simp: reset_running_to_ready_def woken_same intro!: woken_notify own split: sum.splits)
next
  case (run_reemit db g)
  then show ?case by (auto simp: reemit_ready_nodes_def intro!: woken_notify own)
qed (auto simp: cancel_def create_graph_def create_child_graph_def get_or_create_notifier_def Let_def woken_same
    split: option.splits)

end
