(* ===== verification/Lattice_Props.thy ===== *)
theory Lattice_Props
  imports Lattice_Stream
begin

text \<open>
  The properties of the Lattice engine, and the small runs on which they are exercised: a graph of two
  tasks \<open>a \<rightarrow> b\<close>, driven to different points.
\<close>

subsection \<open>Small runs\<close>

definition pair_graph :: graph_id where
  "pair_graph = ''lattice-g''"

definition pair_nodes :: lattice_db where
  "pair_nodes = snd (add_node pair_graph (Some ''b'') (Spec_Task JNull None) []
     (snd (add_node pair_graph (Some ''a'') (Spec_Task JNull None) []
        (snd (create_graph JNull ''g'' (empty_db True))))))"

definition pair_built :: lattice_db where
  "pair_built = snd (add_edge pair_graph ''a'' ''b'' None ''e'' pair_nodes)"

definition pair_started :: lattice_db where
  "pair_started = start_node pair_graph ''a'' (start_graph pair_graph pair_built)"

definition pair_done :: lattice_db where
  "pair_done = (case complete_node pair_graph ''a'' None pair_started of None \<Rightarrow> pair_started | Some (_, db) \<Rightarrow> db)"

lemma pair_step: "complete_node pair_graph ''a'' None pair_started = Some (Inr (), pair_done)"
proof -
  have "case complete_node pair_graph ''a'' None pair_started of None \<Rightarrow> False | Some (r, _) \<Rightarrow> r = Inr ()"
    by code_simp
  then show ?thesis
    by (auto simp: pair_done_def split: option.splits)
qed

lemma pair_started_reachable: "run_reachable True pair_started"
proof -
  have "run_reachable True pair_nodes"
    unfolding pair_nodes_def by (intro run_more [OF _ run_add_node] run_more [OF _ run_create_graph] run_init)
  moreover have "status_of pair_nodes ''b'' = Some N_Pending" by code_simp
  ultimately have "run_reachable True pair_built"
    unfolding pair_built_def by (intro run_more [OF _ run_add_edge]) simp_all
  then have "run_reachable True (start_graph pair_graph pair_built)" by (rule run_more [OF _ run_start])
  moreover have "status_of (start_graph pair_graph pair_built) ''a'' = Some N_Ready" by code_simp
  ultimately show ?thesis unfolding pair_started_def by (rule run_more [OF _ run_start_node])
qed

lemma pair_done_reachable: "run_reachable True pair_done"
proof -
  have "handed_out pair_started ''a''" by code_simp
  then show ?thesis
    using pair_step by (auto simp: complete_node_def intro: run_more [OF pair_started_reachable run_outcome])
qed

subsection \<open>Dependency order\<close>

text \<open>
  C1. Dependency order: in every state that a run can reach, if the target of an edge has left
  \<open>Pending\<close> then its source has finished (\<open>Complete\<close> or \<open>Failed\<close>) and a token lies on the edge.
\<close>

theorem dependency_order:
  assumes "run_reachable fk db" and "e \<in> set (db_edges db)" and "status_of db (er_to e) \<noteq> Some N_Pending"
  shows "status_of db (er_from e) \<in> {Some N_Complete, Some N_Failed} \<and> (\<exists>t \<in> set (db_tokens db). tr_edge t = er_id e)"
  using run_edge_order [OF assms] by (auto simp: marked_def finished_def terminal_status_def split: option.splits)

theorem dependency_order_witness:
  "status_of pair_done ''a'' \<in> {Some N_Complete, Some N_Failed} \<and> (\<exists>t \<in> set (db_tokens pair_done). tr_edge t = ''e'')"
proof -
  let ?e = "\<lparr>er_id = ''e'', er_graph = pair_graph, er_from = ''a'', er_to = ''b'', er_condition = None\<rparr>"
  have "?e \<in> set (db_edges pair_done)" and "status_of pair_done ''b'' \<noteq> Some N_Pending" by code_simp+
  then show ?thesis using dependency_order [OF pair_done_reachable, of ?e] by simp
qed


lemmas pair_started_wf = run_reachable_wf [OF pair_started_reachable]
  and pair_done_wf = run_reachable_wf [OF pair_done_reachable]

lemmas pair_started_lattice = run_reachable_lattice [OF pair_started_reachable]

subsection \<open>Tables and termination\<close>

text \<open>
  C2. Whatever operations run, in whatever order, the tables stay well formed: keys are unique, edges
  join nodes of their own graph, the tokens of an edge are numbered \<open>1..k\<close>, the events \<open>1..n\<close>.
\<close>

theorem tables_well_formed:
  assumes "lattice_reachable fk db"
  shows "wf_db db"
  using assms by (rule lattice_reachable_wf)

theorem tables_well_formed_witness: "wf_db pair_started \<and> length (db_events pair_started) = 2"
proof
  show "wf_db pair_started" by (rule tables_well_formed [OF pair_started_lattice])
  show "length (db_events pair_started) = 2" by code_simp
qed

text \<open>
  C3. On tables that operations have produced, and as long as the edges into Gather nodes form no
  cycle, \<open>advance_graph\<close> returns, without an error.
\<close>

theorem advance_returns_ok:
  assumes "lattice_reachable fk db" and "acyclic (gather_edges db)"
  shows "\<exists>db'. advance_graph g n out err db = Some (Inr (), db') \<and> wf_db db'"
proof -
  have wf: "wf_db db" by (rule lattice_reachable_wf [OF assms(1)])
  obtain r db' where ret: "advance_graph g n out err db = Some (r, db')"
    using advance_graph_returns [OF assms(2)] by blast
  then have "r = Inr ()" using advance_loop_ok wf by (simp add: advance_graph_def)
  then show ?thesis using ret engine_writes_wf [OF writes_advance_graph [OF ret] wf] by blast
qed

theorem advance_returns_ok_witness:
  "\<exists>db'. advance_graph pair_graph ''b'' None (Some ''boom'') pair_started = Some (Inr (), db') \<and> wf_db db'"
proof -
  have "gather_edges pair_started = {}" by code_simp
  then have "acyclic (gather_edges pair_started)" by (simp add: acyclic_def)
  then show ?thesis by (rule advance_returns_ok [OF pair_started_lattice])
qed

text \<open>The graph \<open>a \<rightarrow> n\<close> with a Gather \<open>n\<close> that has an edge to itself; \<open>a\<close> is running.\<close>

definition loop_started :: lattice_db where
  "loop_started =
     (let g = pair_graph;
          db1 = snd (create_graph JNull ''g'' (empty_db True));
          db2 = snd (add_node g (Some ''a'') (Spec_Task JNull None) [] db1);
          db3 = snd (add_node g (Some ''n'') (Spec_Gather Gather_All) [] db2);
          db4 = snd (add_edge g ''a'' ''n'' None ''e1'' db3);
          db5 = snd (add_edge g ''n'' ''n'' None ''e2'' db4)
      in start_node g ''a'' (start_graph g db5))"

lemma loop_started_wf: "wf_db loop_started"
  unfolding loop_started_def Let_def start_node_def
  by (intro wf_notify engine_write_wf [OF write_event] engine_write_wf [OF write_node] wf_start_graph wf_add_edge
      wf_add_node wf_create_graph wf_empty_db)

text \<open>
  A Gather node with an unconditional edge to itself, once its other inbound edges carry tokens,
  feeds itself for ever: the call of \<open>advance_graph\<close> that enables it does not return.
\<close>

theorem self_feeding_gather_hangs:
  assumes "wf_db db" and "advance_step g (q, out, None) [] db = Continue queue db1"
    and "feeds_itself db1 n" and "self_running db1 n queue" and "entries_ok n queue"
    and "\<forall>w \<in> set queue. snd (snd w) = None"
  shows "advance_graph g q out None db = None"
proof -
  have "wf_db db1" using outcome_step_wf [OF assms(1), of g "(q, out, None)" "[]"] assms(2) by simp
  then have "advance_loop g queue db1 = None" using assms(3-6) by (rule advance_loop_diverges)
  then show ?thesis using assms(2) by (simp add: advance_graph_def advance_loop.simps)
qed

theorem self_feeding_gather_hangs_witness: "advance_graph pair_graph ''a'' None None loop_started = None"
proof -
  define st where "st = advance_step pair_graph (''a'', None, None) [] loop_started"
  have "case st of Continue queue db1 \<Rightarrow>
      feeds_itself db1 ''n'' \<and> self_running db1 ''n'' queue \<and> entries_ok ''n'' queue \<and> list_all (\<lambda>w. snd (snd w) = None) queue
    | Return _ _ \<Rightarrow> False"
    unfolding st_def by code_simp
  then obtain queue db1 where "advance_step pair_graph (''a'', None, None) [] loop_started = Continue queue db1"
    "feeds_itself db1 ''n''" "self_running db1 ''n'' queue" "entries_ok ''n'' queue" "\<forall>w \<in> set queue. snd (snd w) = None"
    by (auto simp: st_def list_all_iff split: step_outcome.splits)
  then show ?thesis using self_feeding_gather_hangs [OF loop_started_wf] by blast
qed

subsection \<open>Enabling and ending\<close>

text \<open>
  The AND-join: on well-formed tables \<open>check_and_ready\<close> acts on a node exactly when the node is
  \<open>Pending\<close> (or \<open>Complete\<close>) and every inbound edge other than a self-loop holds a token and there is
  one; a Gather node then starts running and yields the tokens of its inbound edges, any other node
  becomes \<open>Ready\<close> with a \<open>NodeReady\<close> event. In all other cases nothing changes.
\<close>

theorem and_join:
  assumes "wf_db db" and "status_of db n = Some st" and "spec_of db n = Some spec"
  shows "check_and_ready g n db =
    (if st \<in> {N_Pending, N_Complete} \<and> inbound_edge_ids db n \<noteq> [] \<and>
        (\<forall>e \<in> set (inbound_edge_ids db n). 0 < count_tokens_on_edge db e) then
       (case spec of
          Spec_Gather s \<Rightarrow> (Inr (Some (gather_output s (get_node_inputs db n))), set_node_status n N_Running None None db)
        | _ \<Rightarrow> (Inr None, persist_event g (NodeReady n spec) (set_node_status n N_Ready None None db)))
     else (Inr None, db))"
proof -
  have "(0 < count_tokens_on_edge db e) = (\<exists>t \<in> set (db_tokens db). tr_edge t = e)" for e
    by (simp add: count_tokens_on_edge_def count_where_pos_iff)
  then have "join_satisfied db n \<longleftrightarrow> inbound_edge_ids db n \<noteq> [] \<and>
      (\<forall>e \<in> set (inbound_edge_ids db n). 0 < count_tokens_on_edge db e)"
    by (simp add: join_satisfied_def)
  then show ?thesis by (cases spec) (simp_all add: check_and_ready_eq [OF assms] make_ready_def)
qed

theorem and_join_witness: "check_and_ready pair_graph ''b'' pair_started = (Inr None, pair_started)"
proof -
  have "status_of pair_started ''b'' = Some N_Pending" "spec_of pair_started ''b'' = Some (Spec_Task JNull None)"
    and no: "\<not> (\<forall>e \<in> set (inbound_edge_ids pair_started ''b''). 0 < count_tokens_on_edge pair_started e)"
    by code_simp+
  then have "check_and_ready pair_graph ''b'' pair_started =
      (if N_Pending \<in> {N_Pending, N_Complete} \<and> inbound_edge_ids pair_started ''b'' \<noteq> [] \<and>
        (\<forall>e \<in> set (inbound_edge_ids pair_started ''b''). 0 < count_tokens_on_edge pair_started e) then
       (case Spec_Task JNull None of
          Spec_Gather s \<Rightarrow> (Inr (Some (gather_output s (get_node_inputs pair_started ''b''))),
            set_node_status ''b'' N_Running None None pair_started)
        | _ \<Rightarrow> (Inr None, persist_event pair_graph (NodeReady ''b'' (Spec_Task JNull None))
            (set_node_status ''b'' N_Ready None None pair_started)))
     else (Inr None, pair_started))"
    by (intro and_join pair_started_wf)
  then show ?thesis using no by (simp only: if_False simp_thms)
qed

text \<open>
  C4. \<open>GraphDone\<close> is honest, with one exception. Whatever the program does next (grow, start, report on, cancel
  or recover a graph), a completion event that is newly logged for a graph is written into the log of this very
  graph, the graph is then \<open>Complete\<close>, and all its nodes are \<open>Complete\<close>. The exception is \<open>start_graph\<close>, which
  takes a graph without roots for an empty one: it completes it although its nodes are pending, but only if the
  edges of the graph form a cycle.
\<close>

theorem graph_done_only_when_complete:
  assumes "any_step db db'" and "wf_db db"
    and "row \<in> set (db_events db')" and "row \<notin> set (db_events db)" and "ev_event row = GraphDone h"
  shows "ev_graph row = h \<and> (gstatus_of db h \<noteq> None \<longrightarrow> gstatus_of db' h = Some G_Complete) \<and>
    ((\<forall>m. graph_of db' m = Some h \<longrightarrow> status_of db' m = Some N_Complete) \<or>
     db' = start_graph h db \<and> \<not> acyclic (graph_links db' h))"
proof -
  have "row \<in> set (done_rows db')" "row \<notin> set (done_rows db)"
    using assms(3-5) by (auto simp: done_rows_def)
  then have "completed_row db db' row" using any_step_done_rows [OF assms(1,2)] by auto
  then show ?thesis using assms(5) rootless_not_acyclic [of db' h] by (auto simp: completed_row_def all_complete_def)
qed

definition pair_finished :: lattice_db where
  "pair_finished = (case complete_node pair_graph ''b'' None (start_node pair_graph ''b'' pair_done) of
     None \<Rightarrow> pair_done | Some (_, db) \<Rightarrow> db)"

lemma pair_finish: "advance_graph pair_graph ''b'' None None (start_node pair_graph ''b'' pair_done) = Some (Inr (), pair_finished)"
proof -
  have "case complete_node pair_graph ''b'' None (start_node pair_graph ''b'' pair_done) of None \<Rightarrow> False | Some (r, _) \<Rightarrow> r = Inr ()"
    by code_simp
  then show ?thesis
    by (auto simp: pair_finished_def complete_node_def split: option.splits)
qed

theorem graph_done_only_when_complete_witness:
  "status_of pair_finished ''a'' = Some N_Complete \<and> status_of pair_finished ''b'' = Some N_Complete \<and>
   gstatus_of pair_finished pair_graph = Some G_Complete"
proof -
  let ?row = "\<lparr>ev_seq = 7, ev_graph = pair_graph, ev_event = GraphDone pair_graph, ev_created_at = 0\<rparr>"
  let ?db = "start_node pair_graph ''b'' pair_done"
  have "wf_db ?db" unfolding start_node_def
    by (intro wf_notify engine_write_wf [OF write_event] engine_write_wf [OF write_node] pair_done_wf)
  moreover have "?row \<in> set (db_events pair_finished)" and "?row \<notin> set (db_events ?db)"
    and "gstatus_of ?db pair_graph \<noteq> None"
    and "graph_of pair_finished ''a'' = Some pair_graph" and "graph_of pair_finished ''b'' = Some pair_graph"
    by code_simp+
  moreover have "?row \<notin> set (db_events (start_graph pair_graph ?db))" by code_simp
  ultimately show ?thesis
    using graph_done_only_when_complete [OF any_report [OF pair_finish], of ?row pair_graph] by fastforce
qed

text \<open>The exception happens: two pending nodes that wait for each other are completed by \<open>start_graph\<close>.\<close>

definition ring_started :: lattice_db where
  "ring_started = start_graph pair_graph (snd (add_edge pair_graph ''b'' ''a'' None ''f'' pair_built))"

lemma ring_completed_unrun:
  "gstatus_of ring_started pair_graph = Some G_Complete \<and> status_of ring_started ''a'' = Some N_Pending \<and>
   status_of ring_started ''b'' = Some N_Pending \<and> map ev_event (db_events ring_started) = [GraphDone pair_graph]"
  by code_simp

text \<open>
  A failure that an edge handles still keeps its graph from ever completing: a \<open>Failed\<close> node stays
  \<open>Failed\<close> through every later report, and no report then logs \<open>GraphDone\<close>.
\<close>

theorem failed_node_blocks_completion:
  assumes "advance_graph g n out err db = Some (r, db')" and "wf_db db"
    and "status_of db m = Some N_Failed" and "graph_of db m = Some g"
  shows "status_of db' m = Some N_Failed \<and>
    (\<forall>row h. row \<in> set (db_events db') \<longrightarrow> ev_event row = GraphDone h \<longrightarrow> row \<in> set (db_events db))"
proof -
  have f: "status_of db' m = Some N_Failed" by (rule advance_failed [OF assms(1,3)])
  have "graph_of db' m = Some g"
    using assms(4) frame_graph_of [OF engine_writes_frame [OF writes_advance_graph [OF assms(1)]]] by simp
  then have "\<not> all_complete db' g" using f by (auto simp: all_complete_def)
  then have "done_rows db' = done_rows db" using advance_done_rows [OF assms(1,2)] by blast
  moreover have "row \<in> set (done_rows db')" if "row \<in> set (db_events db')" "ev_event row = GraphDone h" for row h
    using that by (simp add: done_rows_def)
  ultimately show ?thesis using f by (auto simp: done_rows_def)
qed

text \<open>The run in which \<open>a\<close> fails and its unconditional edge takes the error token to \<open>b\<close>.\<close>

definition pair_failed :: lattice_db where
  "pair_failed = (case fail_node pair_graph ''a'' ''boom'' pair_started of None \<Rightarrow> pair_started | Some (_, db) \<Rightarrow> db)"

definition pair_recovered :: lattice_db where
  "pair_recovered = (case complete_node pair_graph ''b'' None pair_failed of None \<Rightarrow> pair_failed | Some (_, db) \<Rightarrow> db)"

lemma pair_fail: "advance_graph pair_graph ''a'' None (Some ''boom'') pair_started = Some (Inr (), pair_failed)"
  and pair_recover: "advance_graph pair_graph ''b'' None None pair_failed = Some (Inr (), pair_recovered)"
proof -
  have "case fail_node pair_graph ''a'' ''boom'' pair_started of None \<Rightarrow> False | Some (r, _) \<Rightarrow> r = Inr ()"
    and "case complete_node pair_graph ''b'' None pair_failed of None \<Rightarrow> False | Some (r, _) \<Rightarrow> r = Inr ()"
    by code_simp+
  then show "advance_graph pair_graph ''a'' None (Some ''boom'') pair_started = Some (Inr (), pair_failed)"
    and "advance_graph pair_graph ''b'' None None pair_failed = Some (Inr (), pair_recovered)"
    by (auto simp: pair_failed_def pair_recovered_def complete_node_def fail_node_def split: option.splits)
qed

theorem failed_node_blocks_completion_witness:
  "status_of pair_recovered ''b'' = Some N_Complete \<and> status_of pair_recovered ''a'' = Some N_Failed \<and>
   gstatus_of pair_recovered pair_graph = Some G_Running"
proof -
  have "wf_db pair_failed" using engine_writes_wf [OF writes_advance_graph [OF pair_fail] pair_started_wf] .
  moreover have "status_of pair_failed ''a'' = Some N_Failed" "graph_of pair_failed ''a'' = Some pair_graph" by code_simp+
  ultimately have "status_of pair_recovered ''a'' = Some N_Failed"
    using failed_node_blocks_completion [OF pair_recover] by blast
  moreover have "status_of pair_recovered ''b'' = Some N_Complete" "gstatus_of pair_recovered pair_graph = Some G_Running"
    by code_simp+
  ultimately show ?thesis by simp
qed

text \<open>
  A report for a node that has finished routes nothing: it is \<open>Ok\<close>, and all it does is the
  completion check of its graph (which may log \<open>GraphDone\<close> a second time).
\<close>

theorem late_report_routes_nothing:
  assumes "status_of db n = Some N_Complete \<or> status_of db n = Some N_Failed"
  shows "advance_graph g n out err db = Some (Inr (), complete_if_all_done g db)"
  using assms by (rule advance_finished)

theorem late_report_routes_nothing_witness:
  "advance_graph pair_graph ''a'' None (Some ''late'') pair_done = Some (Inr (), complete_if_all_done pair_graph pair_done)"
proof -
  have "status_of pair_done ''a'' = Some N_Complete" by code_simp
  then show ?thesis by (intro late_report_routes_nothing) simp
qed

text \<open>
  C5. A failure that no outbound edge accepts fails the graph: the node is \<open>Failed\<close> with its message,
  the events \<open>NodeFailed\<close> and \<open>GraphFailed\<close> follow each other in the log with that message, no token moves.
\<close>

theorem unhandled_failure_fails_graph:
  assumes "handed_out db n"
    and "\<forall>(e, to, cond) \<in> set (get_outbound_edges_with_conditions db n). \<not> edge_accepts cond (token_error msg)"
  shows "\<exists>db'. node_failed g n msg db = Some (Inr (), db') \<and> status_of db' n = Some N_Failed \<and>
    (gstatus_of db g \<noteq> None \<longrightarrow> gstatus_of db' g = Some G_Failed) \<and> db_tokens db' = db_tokens db \<and>
    map ev_event (db_events db') = map ev_event (db_events db) @ [NodeFailed n msg, GraphFailed g n msg]"
proof -
  have ex: "node_exists db n" using assms(1) status_of_None [of db n] by (auto simp: handed_out_def)
  let ?db' = "fail_graph g n msg (record_outcome g n None (Some msg) db)"
  have "node_failed g n msg db = Some (Inr (), ?db')" by (rule advance_unhandled [OF assms])
  moreover have "status_of ?db' n = Some N_Failed" using ex by (simp add: status)
  moreover have "gstatus_of db g \<noteq> None \<longrightarrow> gstatus_of ?db' g = Some G_Failed" by (simp add: fail_graph_def views)
  moreover have "db_tokens ?db' = db_tokens db" by (simp add: fail_graph_def record_outcome_def)
  moreover have "map ev_event (db_events ?db') = map ev_event (db_events db) @ [NodeFailed n msg, GraphFailed g n msg]"
    by (simp add: fail_graph_def record_outcome_def)
  ultimately show ?thesis by blast
qed

theorem unhandled_failure_fails_graph_witness:
  "\<exists>db'. node_failed pair_graph ''b'' ''boom'' pair_done = Some (Inr (), db') \<and> status_of db' ''b'' = Some N_Failed \<and>
    gstatus_of db' pair_graph = Some G_Failed \<and> db_tokens db' = db_tokens pair_done \<and>
    map ev_event (db_events db') = map ev_event (db_events pair_done) @ [NodeFailed ''b'' ''boom'', GraphFailed pair_graph ''b'' ''boom'']"
proof -
  have "handed_out pair_done ''b''" "get_outbound_edges_with_conditions pair_done ''b'' = []"
    "gstatus_of pair_done pair_graph \<noteq> None"
    by code_simp+
  then show ?thesis using unhandled_failure_fails_graph [of pair_done "''b''" "''boom''" pair_graph] by auto
qed

text \<open>
  Starting a pending graph readies exactly its roots that are not Gather nodes and moves the graph
  to \<open>Running\<close>, or straight to \<open>Complete\<close> when it has no root (an empty graph, but also one whose nodes
  all lie behind a cycle). Starting again changes nothing.
\<close>

theorem start_seeds_roots:
  assumes "wf_db db" and "gstatus_of db g = Some G_Pending" and "get_nodes_with_no_predecessors db g = rs"
  shows "status_of (start_graph g db) n =
      (if \<exists>nd \<in> set rs. ln_id nd = n \<and> \<not> is_gather (ln_spec nd) then Some N_Ready else status_of db n) \<and>
    gstatus_of (start_graph g db) g = Some (if rs = [] then G_Complete else G_Running) \<and>
    start_graph g (start_graph g db) = start_graph g db"
  using start_graph_status [OF assms] start_graph_idem by blast

definition cycle_built :: lattice_db where
  "cycle_built = snd (add_edge pair_graph ''b'' ''a'' None ''e2'' pair_built)"

theorem start_seeds_roots_witness:
  "gstatus_of (start_graph pair_graph cycle_built) pair_graph = Some G_Complete \<and>
   status_of (start_graph pair_graph cycle_built) ''a'' = Some N_Pending"
proof -
  have "wf_db cycle_built"
    unfolding cycle_built_def pair_built_def pair_nodes_def
    by (intro wf_add_edge wf_add_node wf_create_graph wf_empty_db)
  moreover have "gstatus_of cycle_built pair_graph = Some G_Pending" "get_nodes_with_no_predecessors cycle_built pair_graph = []"
    "status_of cycle_built ''a'' = Some N_Pending"
    by code_simp+
  ultimately show ?thesis using start_seeds_roots [of cycle_built pair_graph "[]" "''a''"] by simp
qed

subsection \<open>Gather\<close>

text \<open>The graph \<open>q \<rightarrow> n\<close> with a Gather \<open>n\<close>; \<open>q\<close> is running.\<close>

definition fan_started :: lattice_db where
  "fan_started =
     (let g = pair_graph;
          db1 = snd (create_graph JNull ''g'' (empty_db True));
          db2 = snd (add_node g (Some ''q'') (Spec_Scatter JNull None) [] db1);
          db3 = snd (add_node g (Some ''n'') (Spec_Gather Gather_All) [] db2);
          db4 = snd (add_edge g ''q'' ''n'' None ''e1'' db3)
      in start_node g ''q'' (start_graph g db4))"

lemma fan_started_wf: "wf_db fan_started"
  unfolding fan_started_def Let_def start_node_def
  by (intro wf_notify engine_write_wf [OF write_event] engine_write_wf [OF write_node] wf_start_graph wf_add_edge
      wf_add_node wf_create_graph wf_empty_db)

text \<open>
  A Gather node directly behind a node that produces several tokens on its edge is enabled by the
  first of them: it is queued with the output made of that token alone, while all the tokens end up on
  its edge.
\<close>

theorem gather_takes_first_token:
  assumes "wf_db db" and "handed_out db q" and "get_outbound_edges_with_conditions db q = [(e, n, None)]"
    and "filter (\<lambda>x. er_to x = n) (db_edges db) = [x]" and "er_id x = e" and "er_from x \<noteq> n" and "n \<noteq> q"
    and "spec_of db n = Some (Spec_Gather s)" and "status_of db n = Some N_Pending"
    and "count_tokens_on_edge db e = 0"
  shows "\<exists>db'. advance_step g (q, Some (Many (t # ts)), None) [] db =
      Continue [(n, Some (gather_output s [t]), None)] db' \<and> count_tokens_on_edge db' e = 1 + int (length ts)"
  using assms by (rule gather_first_token)

theorem gather_takes_first_token_witness:
  "\<exists>db'. advance_step pair_graph (''q'', Some (Many [token_ok, token_ok, token_ok]), None) [] fan_started =
      Continue [(''n'', Some (Many [token_ok]), None)] db' \<and> count_tokens_on_edge db' ''e1'' = 3"
proof -
  let ?x = "\<lparr>er_id = ''e1'', er_graph = pair_graph, er_from = ''q'', er_to = ''n'', er_condition = None\<rparr>"
  have "handed_out fan_started ''q''" "get_outbound_edges_with_conditions fan_started ''q'' = [(''e1'', ''n'', None)]"
    "filter (\<lambda>x. er_to x = ''n'') (db_edges fan_started) = [?x]"
    "spec_of fan_started ''n'' = Some (Spec_Gather Gather_All)" "status_of fan_started ''n'' = Some N_Pending"
    "count_tokens_on_edge fan_started ''e1'' = 0"
    by code_simp+
  then show ?thesis
    using gather_takes_first_token [OF fan_started_wf, of "''q''" "''e1''" "''n''" ?x Gather_All pair_graph token_ok
        "[token_ok, token_ok]"] by simp
qed

text \<open>
  An edge added on a running graph from a finished node to a waiting Gather node enables the node
  but drops what it gathered: the node is \<open>Running\<close>, no event tells anyone, and nothing is queued.
\<close>

theorem late_edge_strands_gather:
  assumes "wf_db db" and "gstatus_of db g = Some G_Running" and "node_in_graph db from g" and "node_in_graph db to g"
    and "row_by er_id u (db_edges db) = None" and "get_node db from = Inr nd" and "ln_status nd = N_Complete"
    and "produce_tokens (ln_output nd) None \<noteq> []" and "from \<noteq> to"
    and "status_of db to = Some N_Pending" and "spec_of db to = Some (Spec_Gather s)"
    and "get_inbound_edges db to = []" and "add_edge g from to None u db = (r, db')"
  shows "r = Inr () \<and> status_of db' to = Some N_Running \<and> db_events db' = db_events db"
  using assms by (rule add_edge_running_gather)

definition pair_grown :: lattice_db where
  "pair_grown = snd (add_node pair_graph (Some ''n'') (Spec_Gather Gather_All) [] pair_done)"

theorem late_edge_strands_gather_witness:
  "status_of (snd (add_edge pair_graph ''a'' ''n'' None ''e9'' pair_grown)) ''n'' = Some N_Running \<and>
   db_events (snd (add_edge pair_graph ''a'' ''n'' None ''e9'' pair_grown)) = db_events pair_grown"
proof -
  have wf: "wf_db pair_grown" unfolding pair_grown_def by (rule wf_add_node [OF pair_done_wf])
  have "gstatus_of pair_grown pair_graph = Some G_Running" "node_in_graph pair_grown ''a'' pair_graph"
    "node_in_graph pair_grown ''n'' pair_graph" "row_by er_id ''e9'' (db_edges pair_grown) = None"
    "case get_node pair_grown ''a'' of Inl _ \<Rightarrow> False | Inr nd \<Rightarrow> ln_status nd = N_Complete \<and> ln_output nd = None"
    "status_of pair_grown ''n'' = Some N_Pending" "spec_of pair_grown ''n'' = Some (Spec_Gather Gather_All)"
    "get_inbound_edges pair_grown ''n'' = []"
    by code_simp+
  moreover from this obtain nd where "get_node pair_grown ''a'' = Inr nd" "ln_status nd = N_Complete" "ln_output nd = None"
    by (auto split: sum.splits)
  moreover obtain r db' where "add_edge pair_graph ''a'' ''n'' None ''e9'' pair_grown = (r, db')" by fastforce
  ultimately show ?thesis
    using late_edge_strands_gather [OF wf, of pair_graph "''a''" "''n''" "''e9''" nd Gather_All r db']
    by (simp add: produce_tokens_def)
qed

subsection \<open>The event log and its subscribers\<close>

text \<open>
  No operation rewrites the event log: every step appends, and the sequence numbers of a log that
  operations have produced are \<open>1, 2, ..\<close> in order.
\<close>

theorem event_log_append_only:
  assumes "lattice_reachable fk db" and "lattice_step db db'"
  shows "\<exists>evs. db_events db' = db_events db @ evs \<and>
    map ev_seq (db_events db') = map int [1..<Suc (length (db_events db) + length evs)]"
proof -
  have "wf_db db'" using lattice_step_wf [OF assms(2) lattice_reachable_wf [OF assms(1)]] .
  then have seqs: "map ev_seq (db_events db') = map int [1..<Suc (length (db_events db'))]" by (rule events_seq)
  obtain evs where evs: "db_events db' = db_events db @ evs"
    using lattice_step_log [OF assms(2)] by (auto simp: log_extends_def)
  then have "length (db_events db') = length (db_events db) + length evs" by simp
  then show ?thesis using seqs evs by metis
qed

theorem event_log_append_only_witness:
  "\<exists>evs. db_events (cancel pair_graph pair_started) = db_events pair_started @ evs \<and>
    map ev_seq (db_events (cancel pair_graph pair_started)) = map int [1..<Suc (length (db_events pair_started) + length evs)]"
  by (rule event_log_append_only [OF pair_started_lattice ls_cancel])

text \<open>
  C6. A subscriber that opens at cursor \<open>c\<close> and passes over the log again and again while it grows has
  been sent exactly the events of its graph behind \<open>c\<close>, each once and in order, up to and including the
  first \<open>GraphDone\<close> or \<open>GraphFailed\<close>; it has closed exactly if there was one. This needs sequence
  numbers and cursor below \<open>2^63\<close>.
\<close>

theorem stream_exactly_once:
  assumes "dbs \<noteq> []" and "\<forall>db \<in> set dbs. log_ok db" and "successively log_extends dbs" and "cursor_ok c"
  shows "st_sent (stream_passes g dbs \<lparr>st_cursor = c, st_open = True, st_sent = []\<rparr>) =
      upto_end (ends_stream \<circ> snd) (map (\<lambda>r. (word_of_int (ev_seq r), ev_event r))
        (filter (\<lambda>r. ev_graph r = g \<and> uint c < ev_seq r) (db_events (last dbs)))) \<and>
    (st_open (stream_passes g dbs \<lparr>st_cursor = c, st_open = True, st_sent = []\<rparr>) \<longleftrightarrow>
      \<not> (\<exists>r \<in> set (db_events (last dbs)). ev_graph r = g \<and> uint c < ev_seq r \<and> ends_stream (ev_event r)))"
proof -
  let ?s = "\<lparr>st_cursor = c, st_open = True, st_sent = []\<rparr>"
  let ?evs = "get_events_after (last dbs) g c"
  have "consumed (\<lambda>db. get_events_after db g) ends_stream c (last dbs) (consumer_of (stream_passes g dbs ?s))"
    using elog.polls [OF assms, of g ends_stream] by (simp add: stream_passes_poll) (simp add: consumer_of_def)
  then have sent: "st_sent (stream_passes g dbs ?s) = upto_end (ends_stream \<circ> snd) ?evs"
    and opn: "st_open (stream_passes g dbs ?s) = (\<forall>x \<in> set (upto_end (ends_stream \<circ> snd) ?evs). \<not> ends_stream (snd x))"
    by (auto simp: consumed_def consumer_of_def)
  have evs: "?evs = map (\<lambda>r. (word_of_int (ev_seq r), ev_event r))
        (filter (\<lambda>r. ev_graph r = g \<and> uint c < ev_seq r) (db_events (last dbs)))"
    using assms by (intro events_after_filter) simp_all
  have "(\<exists>x \<in> set (upto_end (ends_stream \<circ> snd) ?evs). ends_stream (snd x)) \<longleftrightarrow>
      (\<exists>r \<in> set (db_events (last dbs)). ev_graph r = g \<and> uint c < ev_seq r \<and> ends_stream (ev_event r))"
    using upto_end_has [of "ends_stream \<circ> snd" ?evs] by (auto simp: evs)
  then show ?thesis using sent opn evs by auto
qed

lemma pair_log_ok: "log_ok pair_started" "log_ok pair_done"
proof -
  have "length (db_events pair_started) = 2" "length (db_events pair_done) = 4" by code_simp+
  then show "log_ok pair_started" "log_ok pair_done"
    using pair_started_wf pair_done_wf by (simp_all add: log_ok_def)
qed

theorem stream_exactly_once_witness:
  "st_sent (stream_passes pair_graph [pair_started, pair_done] \<lparr>st_cursor = 1, st_open = True, st_sent = []\<rparr>) =
     [(2, NodeStarted ''a''), (3, NodeDone ''a'' None), (4, NodeReady ''b'' (Spec_Task JNull None))]"
proof -
  have "log_extends pair_started pair_done"
    using pair_step by (auto simp: complete_node_def intro: writes_log_extends writes_advance_graph)
  then have "st_sent (stream_passes pair_graph [pair_started, pair_done] \<lparr>st_cursor = 1, st_open = True, st_sent = []\<rparr>) =
      upto_end (ends_stream \<circ> snd) (map (\<lambda>r. (word_of_int (ev_seq r), ev_event r))
        (filter (\<lambda>r. ev_graph r = pair_graph \<and> uint (1 :: 64 word) < ev_seq r) (db_events pair_done)))"
    using stream_exactly_once [of "[pair_started, pair_done]" 1 pair_graph] pair_log_ok
    by (simp add: cursor_ok_def)
  moreover have "upto_end (ends_stream \<circ> snd) (map (\<lambda>r. (word_of_int (ev_seq r), ev_event r))
        (filter (\<lambda>r. ev_graph r = pair_graph \<and> uint (1 :: 64 word) < ev_seq r) (db_events pair_done))) =
     [(2, NodeStarted ''a''), (3, NodeDone ''a'' None), (4, NodeReady ''b'' (Spec_Task JNull None))]"
    by code_simp
  ultimately show ?thesis by simp
qed

text \<open>
  No lost wake-up: whenever a step of a run logs an event of a graph that has a notifier, that
  graph's wake-up permit is there when the step ends.
\<close>

theorem every_event_wakes:
  assumes "run_reachable fk db" and "run_step db db'" and "db_notifiers db g \<noteq> None"
    and "r \<in> set (drop (length (db_events db)) (db_events db'))" and "ev_graph r = g"
  shows "db_notifiers db' g = Some True"
  using run_step_woken [OF assms(2) run_reachable_wf [OF assms(1)]] assms(3-5) by (auto simp: woken_def)

theorem every_event_wakes_witness:
  "db_notifiers (start_graph pair_graph (get_or_create_notifier pair_graph pair_built)) pair_graph = Some True"
proof -
  have "status_of pair_nodes ''b'' = Some N_Pending" by code_simp
  then have "run_reachable True pair_built"
    unfolding pair_built_def
    by (intro run_more [OF _ run_add_edge]) (simp_all add: pair_nodes_def run_more [OF _ run_add_node]
        run_more [OF _ run_create_graph] run_init)
  then have "run_reachable True (get_or_create_notifier pair_graph pair_built)" by (rule run_more [OF _ run_notifier])
  moreover have "db_notifiers (get_or_create_notifier pair_graph pair_built) pair_graph \<noteq> None"
    "\<lparr>ev_seq = 1, ev_graph = pair_graph, ev_event = NodeReady ''a'' (Spec_Task JNull None), ev_created_at = 0\<rparr> \<in>
      set (drop (length (db_events (get_or_create_notifier pair_graph pair_built)))
        (db_events (start_graph pair_graph (get_or_create_notifier pair_graph pair_built))))"
    by code_simp+
  ultimately show ?thesis using every_event_wakes [OF _ run_start] by fastforce
qed

end
