(* ===== verification/Orcha_Build.thy ===== *)
theory Orcha_Build
  imports Lattice_Stream
begin

text \<open>
  What \<open>build_child_graph\<close> builds. A graph that has not been started takes nodes and edges without
  consulting the engine, so the result is described completely: the rows that are appended, in order,
  and the map from the caller's labels to node ids.
\<close>

subsection \<open>One node, one edge\<close>

fun def_spec :: "orcha_node_spec \<Rightarrow> node_spec" where
  "def_spec (Def_Task task retries) = Spec_Task (kind_to_json (Kind_Task task retries)) None"
| "def_spec (Def_Synthesize task retries) = Spec_Task (kind_to_json (Kind_Synthesize task retries)) None"
| "def_spec (Def_Validate command cwd retries) = Spec_Task (kind_to_json (Kind_Validate command cwd retries)) None"
| "def_spec (Def_Gather strategy) = Spec_Gather strategy"
| "def_spec (Def_Review prompt) = Spec_Task (kind_to_json (Kind_Review prompt)) None"
| "def_spec (Def_Plan task) = Spec_Task (kind_to_json (Kind_Plan task)) None"

lemma add_def_eq: "add_def g s uuid db = add_node g None (def_spec s) uuid db"
  by (cases s) (simp_all add: add_task_def add_synthesize_def add_validate_def add_gather_def add_review_def
      add_plan_def add_spec_def)

lemma gstatus_status: "gstatus_of db g = Some st \<Longrightarrow> get_graph_status db g = Inr st \<and> row_by gr_id g (db_graphs db) \<noteq> None"
  by (auto simp: gstatus_of_def get_graph_status_def)

lemma get_graph_status_fields [simp]:
  "get_graph_status (db\<lparr>db_nodes := ns\<rparr>) g = get_graph_status db g"
  "get_graph_status (db\<lparr>db_edges := es\<rparr>) g = get_graph_status db g"
  by (simp_all add: get_graph_status_def)

lemma add_node_pending:
  assumes "gstatus_of db g = Some G_Pending" and "row_by nr_id u (db_nodes db) = None"
  shows "add_node g None spec u db = (Inr u, db\<lparr>db_nodes := db_nodes db @ [fresh_node u g spec db]\<rparr>)"
  using assms gstatus_status [OF assms(1)] by (simp add: add_node_def Let_def fresh_node_def)

lemma add_edge_pending:
  assumes "gstatus_of db g = Some G_Pending" and "node_in_graph db from g" and "node_in_graph db to g"
    and "row_by er_id u (db_edges db) = None"
  shows "add_edge g from to c u db = (Inr (), db\<lparr>db_edges := db_edges db @
    [\<lparr>er_id = u, er_graph = g, er_from = from, er_to = to, er_condition = c\<rparr>]\<rparr>)"
  using assms gstatus_status [OF assms(1)] by (simp add: add_edge_def Let_def)

subsection \<open>The two loops\<close>

definition label_map :: "orcha_node_def list \<Rightarrow> (nat \<Rightarrow> node_id) \<Rightarrow> (string \<rightharpoonup> node_id)" where
  "label_map ds uuids = map_of (rev (zip (map nd_id ds) (map uuids [0..<length ds])))"

definition def_rows :: "graph_id \<Rightarrow> orcha_node_def list \<Rightarrow> (nat \<Rightarrow> node_id) \<Rightarrow> lattice_db \<Rightarrow> node_row list" where
  "def_rows g ds uuids db = map2 (\<lambda>d u. fresh_node u g (def_spec (nd_spec d)) db) ds (map uuids [0..<length ds])"

definition edge_rows :: "graph_id \<Rightarrow> orcha_edge_def list \<Rightarrow> (nat \<Rightarrow> string) \<Rightarrow> (string \<rightharpoonup> node_id) \<Rightarrow> edge_row list" where
  "edge_rows g ds uuids ids = map2 (\<lambda>d u. \<lparr>er_id = u, er_graph = g, er_from = the (ids (ed_from d)),
     er_to = the (ids (ed_to d)), er_condition = None\<rparr>) ds (map uuids [0..<length ds])"

lemma map_upt_shift: "map f [0..<Suc n] = f 0 # map (\<lambda>i. f (Suc i)) [0..<n]"
  by (simp add: upt_conv_Cons map_Suc_upt [symmetric] del: upt_Suc)

lemma label_map_Cons: "ids ++ label_map (d # ds) uuids = ids(nd_id d \<mapsto> uuids 0) ++ label_map ds (\<lambda>i. uuids (Suc i))"
  by (simp add: label_map_def map_upt_shift del: upt_Suc)

lemma def_rows_Cons: "def_rows g (d # ds) uuids db =
    fresh_node (uuids 0) g (def_spec (nd_spec d)) db # def_rows g ds (\<lambda>i. uuids (Suc i)) db"
  by (simp add: def_rows_def map_upt_shift del: upt_Suc)

lemma def_rows_fields [simp]: "def_rows g ds uuids (db\<lparr>db_nodes := ns\<rparr>) = def_rows g ds uuids db"
  by (simp add: def_rows_def fresh_node_def)

lemma build_nodes_ok:
  assumes "gstatus_of db g = Some G_Pending" and "\<forall>i < length ds. row_by nr_id (uuids i) (db_nodes db) = None"
    and "inj_on uuids {..<length ds}"
  shows "build_nodes g ds uuids ids db =
    (Inr (ids ++ label_map ds uuids), db\<lparr>db_nodes := db_nodes db @ def_rows g ds uuids db\<rparr>)"
  using assms
proof (induction ds arbitrary: uuids ids db)
  case Nil
  then show ?case by (simp add: label_map_def def_rows_def)
next
  case (Cons d ds)
  let ?r = "fresh_node (uuids 0) g (def_spec (nd_spec d)) db"
  let ?db1 = "db\<lparr>db_nodes := db_nodes db @ [?r]\<rparr>"
  have a: "add_def g (nd_spec d) (uuids 0) db = (Inr (uuids 0), ?db1)"
    using Cons.prems by (simp add: add_def_eq add_node_pending)
  have "row_by nr_id (uuids (Suc i)) (db_nodes ?db1) = None" if "i < length ds" for i
  proof -
    have "uuids (Suc i) \<noteq> uuids 0" using Cons.prems(3) that by (auto dest: inj_onD)
    moreover have "row_by nr_id (uuids (Suc i)) (db_nodes db) = None" using Cons.prems(2) that by simp
    ultimately show ?thesis by (simp add: row_by_append fresh_node_def)
  qed
  moreover have "inj_on (\<lambda>i. uuids (Suc i)) {..<length ds}"
    using Cons.prems(3) by (auto simp: inj_on_def)
  moreover have "gstatus_of ?db1 g = Some G_Pending" using Cons.prems(1) by (simp add: gstatus_of_def)
  ultimately have "build_nodes g ds (\<lambda>i. uuids (Suc i)) (ids(nd_id d \<mapsto> uuids 0)) ?db1 =
      (Inr (ids(nd_id d \<mapsto> uuids 0) ++ label_map ds (\<lambda>i. uuids (Suc i))),
       ?db1\<lparr>db_nodes := db_nodes ?db1 @ def_rows g ds (\<lambda>i. uuids (Suc i)) ?db1\<rparr>)"
    by (intro Cons.IH) simp_all
  then show ?case using a by (simp add: label_map_Cons [of ids] def_rows_Cons)
qed

lemma edge_rows_Cons: "edge_rows g (d # ds) uuids ids =
    \<lparr>er_id = uuids 0, er_graph = g, er_from = the (ids (ed_from d)), er_to = the (ids (ed_to d)), er_condition = None\<rparr>
      # edge_rows g ds (\<lambda>i. uuids (Suc i)) ids"
  by (simp add: edge_rows_def map_upt_shift del: upt_Suc)

definition labels_known :: "lattice_db \<Rightarrow> graph_id \<Rightarrow> (string \<rightharpoonup> node_id) \<Rightarrow> bool" where
  "labels_known db g ids \<longleftrightarrow> (\<forall>l n. ids l = Some n \<longrightarrow> node_in_graph db n g)"

lemma build_edges_ok:
  assumes "gstatus_of db g = Some G_Pending" and "\<forall>i < length ds. row_by er_id (uuids i) (db_edges db) = None"
    and "inj_on uuids {..<length ds}" and "labels_known db g ids"
    and "\<forall>d \<in> set ds. ed_from d \<in> dom ids \<and> ed_to d \<in> dom ids"
  shows "build_edges g ds uuids ids db = (Inr (), db\<lparr>db_edges := db_edges db @ edge_rows g ds uuids ids\<rparr>)"
  using assms
proof (induction ds arbitrary: uuids db)
  case Nil
  then show ?case by (simp add: edge_rows_def)
next
  case (Cons d ds)
  obtain dep n where ids: "ids (ed_from d) = Some dep" "ids (ed_to d) = Some n" using Cons.prems(5) by auto
  let ?r = "\<lparr>er_id = uuids 0, er_graph = g, er_from = dep, er_to = n, er_condition = None\<rparr>"
  let ?db1 = "db\<lparr>db_edges := db_edges db @ [?r]\<rparr>"
  have a: "depends_on g n dep (uuids 0) db = (Inr (), ?db1)"
    using Cons.prems ids by (simp add: depends_on_def add_edge_pending labels_known_def)
  have "row_by er_id (uuids (Suc i)) (db_edges ?db1) = None" if "i < length ds" for i
  proof -
    have "uuids (Suc i) \<noteq> uuids 0" using Cons.prems(3) that by (auto dest: inj_onD)
    moreover have "row_by er_id (uuids (Suc i)) (db_edges db) = None" using Cons.prems(2) that by simp
    ultimately show ?thesis by (simp add: row_by_append)
  qed
  moreover have "inj_on (\<lambda>i. uuids (Suc i)) {..<length ds}"
    using Cons.prems(3) by (auto simp: inj_on_def)
  moreover have "gstatus_of ?db1 g = Some G_Pending" "labels_known ?db1 g ids"
    using Cons.prems(1,4) by (simp_all add: gstatus_of_def labels_known_def node_in_graph_def)
  ultimately have "build_edges g ds (\<lambda>i. uuids (Suc i)) ids ?db1 =
      (Inr (), ?db1\<lparr>db_edges := db_edges ?db1 @ edge_rows g ds (\<lambda>i. uuids (Suc i)) ids\<rparr>)"
    using Cons.prems(5) by (intro Cons.IH) simp_all
  then show ?case using a ids by (simp add: edge_rows_Cons)
qed

lemma unknown_edge:
  assumes "gstatus_of db g = Some G_Pending" and "labels_known db g ids"
    and "\<forall>i < length ds. row_by er_id (uuids i) (db_edges db) = None" and "inj_on uuids {..<length ds}"
    and "\<forall>d \<in> set ds. ed_from d \<in> dom ids \<and> ed_to d \<in> dom ids" and "ids (ed_from bad) = None"
  shows "build_edges g (ds @ bad # rest) uuids ids db =
    (Inl (Unknown_From (ed_from bad)), db\<lparr>db_edges := db_edges db @ edge_rows g ds uuids ids\<rparr>)"
  using assms
proof (induction ds arbitrary: uuids db)
  case (Cons d ds)
  obtain dep n where ids: "ids (ed_from d) = Some dep" "ids (ed_to d) = Some n" using Cons.prems(5) by auto
  let ?r = "\<lparr>er_id = uuids 0, er_graph = g, er_from = dep, er_to = n, er_condition = None\<rparr>"
  let ?db1 = "db\<lparr>db_edges := db_edges db @ [?r]\<rparr>"
  have a: "depends_on g n dep (uuids 0) db = (Inr (), ?db1)"
    using Cons.prems ids by (simp add: depends_on_def add_edge_pending labels_known_def)
  have "row_by er_id (uuids (Suc i)) (db_edges ?db1) = None" if "i < length ds" for i
  proof -
    have "uuids (Suc i) \<noteq> uuids 0" using Cons.prems(4) that by (auto dest: inj_onD)
    moreover have "row_by er_id (uuids (Suc i)) (db_edges db) = None" using Cons.prems(3) that by simp
    ultimately show ?thesis by (simp add: row_by_append)
  qed
  moreover have "inj_on (\<lambda>i. uuids (Suc i)) {..<length ds}" using Cons.prems(4) by (auto simp: inj_on_def)
  moreover have "gstatus_of ?db1 g = Some G_Pending" "labels_known ?db1 g ids"
    using Cons.prems(1,2) by (simp_all add: gstatus_of_def labels_known_def node_in_graph_def)
  ultimately have "build_edges g (ds @ bad # rest) (\<lambda>i. uuids (Suc i)) ids ?db1 =
      (Inl (Unknown_From (ed_from bad)), ?db1\<lparr>db_edges := db_edges ?db1 @ edge_rows g ds (\<lambda>i. uuids (Suc i)) ids\<rparr>)"
    using Cons.prems(5,6) by (intro Cons.IH) simp_all
  then show ?case using a ids by (simp add: edge_rows_Cons)
qed (simp add: edge_rows_def)

subsection \<open>The whole call\<close>

lemma label_map_dom: "dom (label_map ds uuids) = nd_id ` set ds"
proof -
  let ?zs = "zip (map nd_id ds) (map uuids [0..<length ds])"
  have "fst ` set ?zs = set (map fst ?zs)" by (rule set_map [symmetric])
  also have "map fst ?zs = map nd_id ds" by (rule map_fst_zip) simp
  finally show ?thesis by (simp add: label_map_def dom_map_of_conv_image_fst)
qed

lemma label_map_range: "label_map ds uuids l = Some n \<Longrightarrow> n \<in> uuids ` {..<length ds}"
  by (auto simp: label_map_def dest!: map_of_SomeD set_zip_rightD)

lemma labels_known_rows: "labels_known (db\<lparr>db_nodes := db_nodes db @ def_rows g ds uuids db\<rparr>) g (label_map ds uuids)"
proof -
  have ids: "nr_id ` set (def_rows g ds uuids db) = uuids ` {..<length ds}"
    and gs: "\<forall>r \<in> set (def_rows g ds uuids db). nr_graph r = g"
  proof -
    have "map nr_id (def_rows g ds uuids db) = map uuids [0..<length ds]"
      by (simp add: def_rows_def comp_def fresh_node_def case_prod_unfold)
    then show "nr_id ` set (def_rows g ds uuids db) = uuids ` {..<length ds}"
      by (metis atLeast_upt set_map)
    show "\<forall>r \<in> set (def_rows g ds uuids db). nr_graph r = g" by (auto simp: def_rows_def fresh_node_def)
  qed
  show ?thesis
    unfolding labels_known_def node_in_graph_def count_where_pos_iff
  proof (intro allI impI)
    fix l n assume "label_map ds uuids l = Some n"
    then have "n \<in> nr_id ` set (def_rows g ds uuids db)" using label_map_range ids by simp
    then obtain r where "r \<in> set (def_rows g ds uuids db)" "nr_id r = n" by auto
    then show "\<exists>r \<in> set (db_nodes (db\<lparr>db_nodes := db_nodes db @ def_rows g ds uuids db\<rparr>)). nr_id r = n \<and> nr_graph r = g"
      using gs by auto
  qed
qed

text \<open>The database with a new child graph and its nodes.\<close>

definition with_child :: "graph_id \<Rightarrow> graph_id \<Rightarrow> json \<Rightarrow> orcha_node_def list \<Rightarrow> (nat \<Rightarrow> node_id) \<Rightarrow> lattice_db \<Rightarrow> lattice_db" where
  "with_child g parent m ns nu db =
     db\<lparr>db_graphs := db_graphs db @ [\<lparr>gr_id = g, gr_metadata = m, gr_status = G_Pending, gr_created_at = db_clock db,
          gr_parent = Some parent\<rparr>],
        db_nodes := db_nodes db @ def_rows g ns nu db\<rparr>"

lemma build_nodes_child:
  fixes gu :: string and db :: lattice_db
  defines "g \<equiv> ''lattice-'' @ gu"
  assumes graph: "row_by gr_id g (db_graphs db) = None" "row_by gr_id parent (db_graphs db) \<noteq> None"
    and nodes: "\<forall>i < length ns. row_by nr_id (nu i) (db_nodes db) = None" "inj_on nu {..<length ns}"
  shows "build_child_graph parent m ns es gu nu eu db =
      bind_res (build_edges g es eu (label_map ns nu) (with_child g parent m ns nu db)) (\<lambda>_ db3. (Inr (g, label_map ns nu), db3))"
    and "gstatus_of (with_child g parent m ns nu db) g = Some G_Pending"
    and "labels_known (with_child g parent m ns nu db) g (label_map ns nu)"
proof -
  let ?db1 = "db\<lparr>db_graphs := db_graphs db @ [\<lparr>gr_id = g, gr_metadata = m, gr_status = G_Pending,
      gr_created_at = db_clock db, gr_parent = Some parent\<rparr>]\<rparr>"
  have c: "create_child_graph parent m gu db = (Inr g, ?db1)"
    using graph by (simp add: create_child_graph_def Let_def g_def)
  have p1: "gstatus_of ?db1 g = Some G_Pending" using graph by (simp add: gstatus_of_def row_by_append)
  have d: "def_rows g ns nu ?db1 = def_rows g ns nu db" by (simp add: def_rows_def fresh_node_def)
  have b1: "build_nodes g ns nu Map.empty ?db1 = (Inr (label_map ns nu), with_child g parent m ns nu db)"
    using build_nodes_ok [of ?db1 g ns nu Map.empty] p1 nodes by (simp add: d with_child_def)
  show "build_child_graph parent m ns es gu nu eu db =
      bind_res (build_edges g es eu (label_map ns nu) (with_child g parent m ns nu db)) (\<lambda>_ db3. (Inr (g, label_map ns nu), db3))"
    using c b1 by (simp add: build_child_graph_def)
  show "gstatus_of (with_child g parent m ns nu db) g = Some G_Pending"
    using p1 by (simp add: gstatus_of_def with_child_def)
  show "labels_known (with_child g parent m ns nu db) g (label_map ns nu)"
    using labels_known_rows [of ?db1 g ns nu] by (simp add: d with_child_def)
qed

subsection \<open>Properties\<close>

text \<open>
  C7. \<open>build_child_graph\<close> builds what it is given: with fresh identifiers and edges whose endpoints are
  labels of the definition it returns the map from labels to nodes (the last one wins when labels
  repeat) and has appended one pending node per definition, in order, and one unconditional edge per
  edge definition, between the nodes its labels stand for. Nothing else changes.
\<close>

theorem build_child_graph_complete:
  assumes "row_by gr_id (''lattice-'' @ gu) (db_graphs db) = None" and "row_by gr_id parent (db_graphs db) \<noteq> None"
    and "\<forall>i < length ns. row_by nr_id (nu i) (db_nodes db) = None" and "inj_on nu {..<length ns}"
    and "\<forall>i < length es. row_by er_id (eu i) (db_edges db) = None" and "inj_on eu {..<length es}"
    and "\<forall>d \<in> set es. ed_from d \<in> nd_id ` set ns \<and> ed_to d \<in> nd_id ` set ns"
  shows "build_child_graph parent m ns es gu nu eu db =
    (Inr (''lattice-'' @ gu, label_map ns nu),
     db\<lparr>db_graphs := db_graphs db @ [\<lparr>gr_id = ''lattice-'' @ gu, gr_metadata = m, gr_status = G_Pending,
          gr_created_at = db_clock db, gr_parent = Some parent\<rparr>],
        db_nodes := db_nodes db @ map2 (\<lambda>d u. \<lparr>nr_id = u, nr_graph = ''lattice-'' @ gu, nr_spec = def_spec (nd_spec d),
          nr_status = N_Pending, nr_output = None, nr_error = None, nr_created_at = db_clock db,
          nr_completed_at = None, nr_join = ''all''\<rparr>) ns (map nu [0..<length ns]),
        db_edges := db_edges db @ map2 (\<lambda>d u. \<lparr>er_id = u, er_graph = ''lattice-'' @ gu,
          er_from = the (label_map ns nu (ed_from d)), er_to = the (label_map ns nu (ed_to d)), er_condition = None\<rparr>)
          es (map eu [0..<length es])\<rparr>)"
proof -
  define g where "g = ''lattice-'' @ gu"
  note child = build_nodes_child [OF assms(1-4), where m = m, folded g_def]
  have e: "db_edges (with_child g parent m ns nu db) = db_edges db" by (simp add: with_child_def)
  have "build_edges g es eu (label_map ns nu) (with_child g parent m ns nu db) =
      (Inr (), with_child g parent m ns nu db
        \<lparr>db_edges := db_edges db @ edge_rows g es eu (label_map ns nu)\<rparr>)"
    using build_edges_ok [OF child(2) _ assms(6) child(3)] assms(5,7) by (simp add: e label_map_dom)
  then show ?thesis
    unfolding g_def [symmetric] by (simp add: child(1) with_child_def def_rows_def edge_rows_def fresh_node_def)
qed

text \<open>
  An edge from a label that is not in the definition is refused with that label, after the graph,
  all its nodes and the edges before it have been written: they stay behind in the tables.
\<close>

theorem build_child_graph_unknown_label:
  assumes "row_by gr_id (''lattice-'' @ gu) (db_graphs db) = None" and "row_by gr_id parent (db_graphs db) \<noteq> None"
    and "\<forall>i < length ns. row_by nr_id (nu i) (db_nodes db) = None" and "inj_on nu {..<length ns}"
    and "\<forall>i < length es. row_by er_id (eu i) (db_edges db) = None" and "inj_on eu {..<length es}"
    and "\<forall>d \<in> set es. ed_from d \<in> nd_id ` set ns \<and> ed_to d \<in> nd_id ` set ns"
    and "ed_from bad \<notin> nd_id ` set ns"
  shows "\<exists>db'. build_child_graph parent m ns (es @ bad # rest) gu nu eu db = (Inl (Unknown_From (ed_from bad)), db') \<and>
    length (db_nodes db') = length (db_nodes db) + length ns \<and> length (db_edges db') = length (db_edges db) + length es \<and>
    gstatus_of db' (''lattice-'' @ gu) = Some G_Pending"
proof -
  define g where "g = ''lattice-'' @ gu"
  note child = build_nodes_child [OF assms(1-4), where m = m, folded g_def]
  let ?db2 = "with_child g parent m ns nu db"
  have e: "db_edges ?db2 = db_edges db" by (simp add: with_child_def)
  have bad: "label_map ns nu (ed_from bad) = None" using assms(8) label_map_dom [of ns nu] by (auto simp: domIff)
  have "build_edges g (es @ bad # rest) eu (label_map ns nu) ?db2 =
      (Inl (Unknown_From (ed_from bad)), ?db2\<lparr>db_edges := db_edges db @ edge_rows g es eu (label_map ns nu)\<rparr>)"
    using unknown_edge [OF child(2,3) _ assms(6) _ bad] assms(5,7) by (simp add: e label_map_dom)
  then show ?thesis
    unfolding g_def [symmetric] using child(2) by (simp add: child(1)) (simp add: with_child_def def_rows_def edge_rows_def gstatus_of_def)
qed

text \<open>A parent graph, two labelled tasks and an edge between them.\<close>

definition demo_parent :: lattice_db where
  "demo_parent = snd (create_graph JNull ''p'' (empty_db True))"

definition demo_nodes :: "orcha_node_def list" where
  "demo_nodes = [\<lparr>nd_id = ''x'', nd_spec = Def_Task ''build'' None\<rparr>, \<lparr>nd_id = ''y'', nd_spec = Def_Gather Gather_All\<rparr>]"

definition demo_uuid :: "nat \<Rightarrow> string" where
  "demo_uuid i = replicate (Suc i) CHR ''u''"

lemma demo_uuid_inj: "inj_on demo_uuid A"
  by (rule inj_onI) (auto simp: demo_uuid_def dest: arg_cong [where f = length])

theorem build_child_graph_complete_witness:
  "fst (build_child_graph ''lattice-p'' JNull demo_nodes [\<lparr>ed_from = ''x'', ed_to = ''y''\<rparr>] ''c'' demo_uuid demo_uuid demo_parent)
   = Inr (''lattice-c'', label_map demo_nodes demo_uuid) \<and> label_map demo_nodes demo_uuid ''y'' = Some ''uu''"
proof -
  have "row_by gr_id (''lattice-'' @ ''c'') (db_graphs demo_parent) = None"
    "row_by gr_id ''lattice-p'' (db_graphs demo_parent) \<noteq> None"
    "db_nodes demo_parent = []" "db_edges demo_parent = []" "label_map demo_nodes demo_uuid ''y'' = Some ''uu''"
    "''x'' \<in> nd_id ` set demo_nodes \<and> ''y'' \<in> nd_id ` set demo_nodes"
    by code_simp+
  then show ?thesis
    using build_child_graph_complete [of "''c''" demo_parent "''lattice-p''" demo_nodes demo_uuid
        "[\<lparr>ed_from = ''x'', ed_to = ''y''\<rparr>]" demo_uuid JNull] demo_uuid_inj by simp
qed

theorem build_child_graph_unknown_label_witness:
  "\<exists>db'. build_child_graph ''lattice-p'' JNull demo_nodes [\<lparr>ed_from = ''z'', ed_to = ''y''\<rparr>] ''c'' demo_uuid demo_uuid demo_parent =
     (Inl (Unknown_From ''z''), db') \<and> length (db_nodes db') = 2"
proof -
  have "row_by gr_id (''lattice-'' @ ''c'') (db_graphs demo_parent) = None"
    "row_by gr_id ''lattice-p'' (db_graphs demo_parent) \<noteq> None"
    "db_nodes demo_parent = []" "db_edges demo_parent = []" "''z'' \<notin> nd_id ` set demo_nodes" "length demo_nodes = 2"
    by code_simp+
  then show ?thesis
    using build_child_graph_unknown_label [of "''c''" demo_parent "''lattice-p''" demo_nodes demo_uuid
        "[]" demo_uuid "\<lparr>ed_from = ''z'', ed_to = ''y''\<rparr>" JNull "[]"] demo_uuid_inj by auto
qed

end
