(* ===== verification/Orcha_Upstream.thy ===== *)
theory Orcha_Upstream
  imports Orcha_Build
begin

text \<open>
  The backward search of the graph runner (\<open>find_upstream_tasks\<close> in
  \<^verbatim>\<open>src/src/activations/orcha/graph_runner.rs\<close>): the task and synthesize nodes that feed a node, through
  gather, validate, review and other intermediate nodes.
\<close>

subsection \<open>The search\<close>

text \<open>What the search does with a node it meets.\<close>

datatype upstream_action = Skip_Node | Collect_Node | Traverse_Node

definition upstream_action :: "lattice_db \<Rightarrow> node_id \<Rightarrow> upstream_action" where
  "upstream_action db n =
     (case get_node_spec db n of
        Inl _ \<Rightarrow> Skip_Node
      | Inr (Spec_Task data _) \<Rightarrow>
          (case kind_of_json data of
             None \<Rightarrow> Skip_Node
           | Some (Kind_Task _ _) \<Rightarrow> Collect_Node
           | Some (Kind_Synthesize _ _) \<Rightarrow> Collect_Node
           | Some _ \<Rightarrow> Traverse_Node)
      | Inr _ \<Rightarrow> Traverse_Node)"

function upstream_loop :: "lattice_db \<Rightarrow> node_id list \<Rightarrow> node_id list \<Rightarrow> node_id list \<Rightarrow> node_id list" where
  "upstream_loop db visited [] tasks = tasks"
| "upstream_loop db visited (n # queue) tasks =
     (if n \<in> set visited then upstream_loop db visited queue tasks
      else
        case upstream_action db n of
          Skip_Node \<Rightarrow> upstream_loop db (n # visited) queue tasks
        | Collect_Node \<Rightarrow> upstream_loop db (n # visited) queue (tasks @ [n])
        | Traverse_Node \<Rightarrow> upstream_loop db (n # visited) (queue @ get_inbound_node_ids db n) tasks)"
  by pat_completeness auto

text \<open>Node ids not yet visited that the search can still meet.\<close>

definition frontier :: "lattice_db \<Rightarrow> node_id list \<Rightarrow> node_id list \<Rightarrow> node_id set" where
  "frontier db visited queue = (er_from ` set (db_edges db) \<union> set queue) - set visited"

lemma finite_frontier: "finite (frontier db visited queue)"
  by (simp add: frontier_def)

lemma inbound_sources: "set (get_inbound_node_ids db n) \<subseteq> er_from ` set (db_edges db)"
  by (auto simp: get_inbound_node_ids_def get_inbound_edges_def)

lemma frontier_visit:
  assumes "n \<notin> set visited" and "set ps \<subseteq> er_from ` set (db_edges db)"
  shows "card (frontier db (n # visited) (queue @ ps)) < card (frontier db visited (n # queue))"
  using assms by (intro psubset_card_mono finite_frontier) (auto simp: frontier_def)

lemma frontier_drop: "n \<in> set visited \<Longrightarrow> frontier db visited queue = frontier db visited (n # queue)"
  by (auto simp: frontier_def)

termination upstream_loop
proof (relation "measures [\<lambda>(db, visited, queue, tasks). card (frontier db visited queue),
    \<lambda>(db, visited, queue, tasks). length queue]", goal_cases)
  case (2 db visited n queue tasks)
  then show ?case by (simp flip: frontier_drop)
next
  case (3 db visited n queue tasks)
  then show ?case using frontier_visit [of n visited "[]" db queue] by simp
next
  case (4 db visited n queue tasks)
  then show ?case using frontier_visit [of n visited "[]" db queue] by simp
next
  case (5 db visited n queue tasks)
  then show ?case using frontier_visit [of n visited "get_inbound_node_ids db n" db queue] inbound_sources by simp
qed simp

definition find_upstream_tasks :: "lattice_db \<Rightarrow> node_id \<Rightarrow> node_id list" where
  "find_upstream_tasks db start = upstream_loop db [] (get_inbound_node_ids db start) []"

subsection \<open>What it finds\<close>

text \<open>The nodes from which an edge path leads to \<open>start\<close> whose intermediate nodes are all traversed.\<close>

inductive feeds :: "lattice_db \<Rightarrow> node_id \<Rightarrow> node_id \<Rightarrow> bool" for db start where
  feeds_direct: "n \<in> set (get_inbound_node_ids db start) \<Longrightarrow> feeds db start n"
| feeds_through: "feeds db start m \<Longrightarrow> upstream_action db m = Traverse_Node \<Longrightarrow> n \<in> set (get_inbound_node_ids db m) \<Longrightarrow>
    feeds db start n"

definition search_inv :: "lattice_db \<Rightarrow> node_id \<Rightarrow> node_id list \<Rightarrow> node_id list \<Rightarrow> node_id list \<Rightarrow> bool" where
  "search_inv db start visited queue tasks \<longleftrightarrow>
     (\<forall>n \<in> set visited \<union> set queue. feeds db start n) \<and>
     set (get_inbound_node_ids db start) \<subseteq> set visited \<union> set queue \<and>
     (\<forall>m \<in> set visited. upstream_action db m = Traverse_Node \<longrightarrow>
        set (get_inbound_node_ids db m) \<subseteq> set visited \<union> set queue) \<and>
     set tasks = {n \<in> set visited. upstream_action db n = Collect_Node} \<and> distinct tasks"

lemma search_inv_done:
  assumes "search_inv db start visited [] tasks"
  shows "set tasks = {n. feeds db start n \<and> upstream_action db n = Collect_Node} \<and> distinct tasks"
proof -
  have "n \<in> set visited" if "feeds db start n" for n
    using that assms by induction (auto simp: search_inv_def)
  then show ?thesis using assms by (auto simp: search_inv_def)
qed

lemma upstream_loop_correct:
  assumes "search_inv db start visited queue tasks"
  shows "set (upstream_loop db visited queue tasks) = {n. feeds db start n \<and> upstream_action db n = Collect_Node} \<and>
    distinct (upstream_loop db visited queue tasks)"
  using assms
proof (induction db visited queue tasks rule: upstream_loop.induct)
  case (1 db visited tasks)
  then show ?case using search_inv_done by simp
next
  case (2 db visited n queue tasks)
  show ?case
  proof (cases "n \<in> set visited")
    case True
    then have "search_inv db start visited queue tasks" using "2.prems" by (auto simp: search_inv_def)
    then show ?thesis using "2.IH"(1) True by simp
  next
    case False
    have f: "feeds db start n" using "2.prems" by (simp add: search_inv_def)
    show ?thesis
    proof (cases "upstream_action db n")
      case Skip_Node
      then have "search_inv db start (n # visited) queue tasks" using "2.prems" by (auto simp: search_inv_def)
      then show ?thesis using "2.IH"(2) False Skip_Node by simp
    next
      case Collect_Node
      then have "search_inv db start (n # visited) queue (tasks @ [n])"
        using "2.prems" False by (auto simp: search_inv_def)
      then show ?thesis using "2.IH"(3) False Collect_Node by simp
    next
      case Traverse_Node
      then have "search_inv db start (n # visited) (queue @ get_inbound_node_ids db n) tasks"
        using "2.prems" feeds_through [OF f] by (auto simp: search_inv_def)
      then show ?thesis using "2.IH"(4) False Traverse_Node by simp
    qed
  qed
qed

text \<open>
  C8. The search terminates on every graph, cycles included, and returns exactly the task and
  synthesize nodes from which a path leads to the start whose intermediate nodes are neither tasks nor
  synthesize nodes (nor unreadable), each once.
\<close>

theorem upstream_tasks_exact:
  "set (find_upstream_tasks db start) = {n. feeds db start n \<and> upstream_action db n = Collect_Node} \<and>
   distinct (find_upstream_tasks db start)"
  unfolding find_upstream_tasks_def
  by (rule upstream_loop_correct) (auto simp: search_inv_def intro: feeds_direct)

end
