(* ===== verification/Loopback.thy ===== *)
theory Loopback
  imports Substrate_Prelude
begin

text \<open>
  The loopback activation: tool permissions that a parent session answers
  (\<^verbatim>\<open>src/src/activations/claudecode_loopback/storage.rs\<close>, \<^verbatim>\<open>activation.rs\<close> and \<^verbatim>\<open>types.rs\<close>). The storage is the
  approval table with the four in-memory maps; identifiers drawn from \<open>Uuid::new_v4\<close> are arguments.
  Waiting is explicit: one pass of a polling loop is one call, with the elapsed seconds as an argument.
\<close>

subsection \<open>Data\<close>

datatype approval_status = Approval_Pending | Approval_Approved | Approval_Denied | Approval_TimedOut

definition approval_status_of_str :: "string \<Rightarrow> approval_status" where
  "approval_status_of_str s =
     (if s = ''pending'' then Approval_Pending
      else if s = ''approved'' then Approval_Approved
      else if s = ''denied'' then Approval_Denied
      else if s = ''timed_out'' then Approval_TimedOut
      else Approval_Pending)"

record approval_row =
  aw_id :: string
  aw_session :: string
  aw_tool :: string
  aw_tool_use :: string
  aw_input :: json
  aw_status :: string
  aw_message :: "string option"
  aw_created :: int
  aw_resolved :: "int option"

record approval_request =
  ap_id :: string
  ap_session :: string
  ap_tool :: string
  ap_tool_use :: string
  ap_input :: json
  ap_status :: approval_status
  ap_message :: "string option"
  ap_created :: int
  ap_resolved :: "int option"

datatype loopback_error = Storage_Error string string | Approval_Not_Found string

record loopback =
  lb_rows :: "approval_row list"
  lb_tool_sessions :: "string \<rightharpoonup> string"
  lb_notifiers :: "string \<Rightarrow> bool option"
  lb_parents :: "string \<rightharpoonup> string"
  lb_children :: "string \<rightharpoonup> string list"
  lb_clock :: int

definition empty_loopback :: loopback where
  "empty_loopback = \<lparr>lb_rows = [], lb_tool_sessions = Map.empty, lb_notifiers = Map.empty, lb_parents = Map.empty,
     lb_children = Map.empty, lb_clock = 0\<rparr>"

text \<open>The ids in the table were written by \<open>Uuid::to_string\<close>, so they parse back.\<close>

definition row_to_approval :: "approval_row \<Rightarrow> approval_request" where
  "row_to_approval r =
     \<lparr>ap_id = aw_id r, ap_session = aw_session r, ap_tool = aw_tool r, ap_tool_use = aw_tool_use r,
      ap_input = aw_input r, ap_status = approval_status_of_str (aw_status r), ap_message = aw_message r,
      ap_created = aw_created r, ap_resolved = aw_resolved r\<rparr>"

subsection \<open>Correlation maps and notifiers\<close>

definition register_tool_session :: "string \<Rightarrow> string \<Rightarrow> loopback \<Rightarrow> loopback" where
  "register_tool_session tool_use session lb = lb\<lparr>lb_tool_sessions := (lb_tool_sessions lb)(tool_use \<mapsto> session)\<rparr>"

definition lookup_session_by_tool :: "loopback \<Rightarrow> string \<Rightarrow> string option" where
  "lookup_session_by_tool lb tool_use = lb_tool_sessions lb tool_use"

definition remove_tool_mapping :: "string \<Rightarrow> loopback \<Rightarrow> loopback" where
  "remove_tool_mapping tool_use lb = lb\<lparr>lb_tool_sessions := (lb_tool_sessions lb)(tool_use := None)\<rparr>"

definition session_notifier :: "string \<Rightarrow> loopback \<Rightarrow> loopback" where
  "session_notifier session lb =
     (case lb_notifiers lb session of
        None \<Rightarrow> lb\<lparr>lb_notifiers := (lb_notifiers lb)(session := Some False)\<rparr>
      | Some _ \<Rightarrow> lb)"

definition notify_one :: "string \<Rightarrow> loopback \<Rightarrow> loopback" where
  "notify_one session lb =
     (case lb_notifiers lb session of
        None \<Rightarrow> lb
      | Some _ \<Rightarrow> lb\<lparr>lb_notifiers := (lb_notifiers lb)(session := Some True)\<rparr>)"

definition notify_session :: "string \<Rightarrow> loopback \<Rightarrow> loopback" where
  "notify_session session lb =
     (let lb1 = notify_one session lb in
      case lb_parents lb1 session of None \<Rightarrow> lb1 | Some parent \<Rightarrow> notify_one parent lb1)"

definition remove_notifier :: "string \<Rightarrow> loopback \<Rightarrow> loopback" where
  "remove_notifier session lb = lb\<lparr>lb_notifiers := (lb_notifiers lb)(session := None)\<rparr>"

definition register_session_parent :: "string \<Rightarrow> string \<Rightarrow> loopback \<Rightarrow> loopback" where
  "register_session_parent child parent lb =
     lb\<lparr>lb_parents := (lb_parents lb)(child \<mapsto> parent),
        lb_children := (lb_children lb)(parent \<mapsto>
          (case lb_children lb parent of None \<Rightarrow> [] | Some cs \<Rightarrow> cs) @ [child])\<rparr>"

subsection \<open>Approvals\<close>

definition create_approval ::
  "string \<Rightarrow> string \<Rightarrow> string \<Rightarrow> json \<Rightarrow> string \<Rightarrow> loopback \<Rightarrow> (loopback_error, approval_request, loopback) outcome" where
  "create_approval session tool tool_use input uuid lb =
     (if row_by aw_id uuid (lb_rows lb) \<noteq> None then (Inl (Storage_Error ''create_approval'' ''UNIQUE constraint failed''), lb)
      else
        let row = \<lparr>aw_id = uuid, aw_session = session, aw_tool = tool, aw_tool_use = tool_use, aw_input = input,
                   aw_status = ''pending'', aw_message = None, aw_created = lb_clock lb, aw_resolved = None\<rparr>
        in (Inr \<lparr>ap_id = uuid, ap_session = session, ap_tool = tool, ap_tool_use = tool_use, ap_input = input,
                  ap_status = Approval_Pending, ap_message = None, ap_created = lb_clock lb, ap_resolved = None\<rparr>,
            notify_session session (lb\<lparr>lb_rows := lb_rows lb @ [row]\<rparr>)))"

definition get_approval :: "loopback \<Rightarrow> string \<Rightarrow> loopback_error + approval_request" where
  "get_approval lb aid =
     (case row_by aw_id aid (lb_rows lb) of
        None \<Rightarrow> Inl (Approval_Not_Found aid)
      | Some r \<Rightarrow> Inr (row_to_approval r))"

definition resolve_approval ::
  "string \<Rightarrow> bool \<Rightarrow> string option \<Rightarrow> loopback \<Rightarrow> (loopback_error, unit, loopback) outcome" where
  "resolve_approval aid approved message lb =
     (let status = (if approved then ''approved'' else ''denied'') in
      if count_where (\<lambda>r. aw_id r = aid) (lb_rows lb) = 0 then (Inl (Approval_Not_Found aid), lb)
      else (Inr (), lb\<lparr>lb_rows := update_where (\<lambda>r. aw_id r = aid)
        (\<lambda>r. r\<lparr>aw_status := status, aw_message := message, aw_resolved := Some (lb_clock lb)\<rparr>) (lb_rows lb)\<rparr>))"

definition get_pending_approvals :: "loopback \<Rightarrow> string \<Rightarrow> approval_request list" where
  "get_pending_approvals lb session =
     map row_to_approval (filter (\<lambda>r. aw_session r = session \<and> aw_status r = ''pending'') (lb_rows lb))"

definition list_pending :: "loopback \<Rightarrow> string option \<Rightarrow> approval_request list" where
  "list_pending lb session =
     (case session of
        None \<Rightarrow> map row_to_approval (sort_key aw_created (filter (\<lambda>r. aw_status r = ''pending'') (lb_rows lb)))
      | Some sid \<Rightarrow>
          let ids = sid # (case lb_children lb sid of None \<Rightarrow> [] | Some cs \<Rightarrow> cs)
          in map row_to_approval (sort_key aw_created
               (filter (\<lambda>r. aw_session r \<in> set ids \<and> aw_status r = ''pending'') (lb_rows lb))))"

subsection \<open>The permission prompt\<close>

text \<open>Which session a permission request belongs to: connection metadata, environment, tool map, \<open>unknown\<close>.\<close>

definition permit_session :: "json option \<Rightarrow> string option \<Rightarrow> string \<Rightarrow> loopback \<Rightarrow> string" where
  "permit_session connection env tool_use lb =
     (case Option.bind (Option.bind connection (json_get ''query.session_id'')) json_as_str of
        Some s \<Rightarrow> s
      | None \<Rightarrow> (case env of
          Some s \<Rightarrow> s
        | None \<Rightarrow> (case lookup_session_by_tool lb tool_use of Some s \<Rightarrow> s | None \<Rightarrow> ''unknown'')))"

definition allow_response :: "json \<Rightarrow> json" where
  "allow_response input = JObj [(''behavior'', JStr ''allow''), (''updatedInput'', input)]"

definition deny_response :: "string \<Rightarrow> json" where
  "deny_response msg = JObj [(''behavior'', JStr ''deny''), (''message'', JStr msg)]"

fun loopback_error_text :: "loopback_error \<Rightarrow> string" where
  "loopback_error_text (Storage_Error operation detail) = operation @ '': '' @ detail"
| "loopback_error_text (Approval_Not_Found aid) = ''Approval not found: '' @ aid"

text \<open>One pass of the loop of \<open>permit\<close>; \<open>None\<close> is: sleep a second and look again.\<close>

definition permit_pass :: "string \<Rightarrow> json \<Rightarrow> nat \<Rightarrow> loopback \<Rightarrow> json option \<times> loopback" where
  "permit_pass aid input elapsed lb =
     (if 300 < elapsed then
        (Some (deny_response ''Approval request timed out''), snd (resolve_approval aid False (Some ''Timed out'') lb))
      else
        (case get_approval lb aid of
           Inl e \<Rightarrow> Some (deny_response (''Failed to check approval: '' @ loopback_error_text e))
         | Inr r \<Rightarrow>
             (case ap_status r of
                Approval_Approved \<Rightarrow> Some (allow_response input)
              | Approval_Denied \<Rightarrow>
                  Some (deny_response (case ap_message r of None \<Rightarrow> ''Denied by parent'' | Some m \<Rightarrow> m))
              | Approval_TimedOut \<Rightarrow> Some (deny_response ''Approval timed out'')
              | Approval_Pending \<Rightarrow> None), lb))"

definition permit_open ::
  "string \<Rightarrow> string \<Rightarrow> json \<Rightarrow> json option \<Rightarrow> string option \<Rightarrow> string \<Rightarrow> loopback \<Rightarrow> json option \<times> loopback" where
  "permit_open tool tool_use input connection env uuid lb =
     (case create_approval (permit_session connection env tool_use lb) tool tool_use input uuid lb of
        (Inl e, lb1) \<Rightarrow> (Some (deny_response (''Failed to create approval: '' @ loopback_error_text e)), lb1)
      | (Inr r, lb1) \<Rightarrow> (None, lb1))"

text \<open>The handlers \<open>respond\<close> and \<open>pending\<close>, and one pass of \<open>wait_for_approval\<close>.\<close>

definition respond :: "string \<Rightarrow> bool \<Rightarrow> string option \<Rightarrow> loopback \<Rightarrow> (string, string, loopback) outcome" where
  "respond aid approve message lb =
     (case resolve_approval aid approve message lb of
        (Inl e, lb1) \<Rightarrow> (Inl (loopback_error_text e), lb1)
      | (Inr _, lb1) \<Rightarrow> (Inr aid, lb1))"

datatype wait_result = Wait_Ok "approval_request list" | Wait_Timeout | Wait_Again

definition wait_pass :: "string \<Rightarrow> nat \<Rightarrow> nat \<Rightarrow> loopback \<Rightarrow> wait_result" where
  "wait_pass session timeout elapsed lb =
     (let approvals = list_pending lb (Some session) in
      if approvals \<noteq> [] then Wait_Ok approvals
      else if timeout \<le> elapsed then Wait_Timeout
      else Wait_Again)"

definition wait_timeout :: "nat option \<Rightarrow> nat" where
  "wait_timeout secs = (case secs of None \<Rightarrow> 300 | Some s \<Rightarrow> s)"

definition configure :: "string \<Rightarrow> string \<Rightarrow> json" where
  "configure mcp_url session =
     JObj [(''mcpServers'', JObj [(''plexus'', JObj [(''type'', JStr ''http''), (''url'', JStr mcp_url)])]),
           (''env'', JObj [(''LOOPBACK_SESSION_ID'', JStr session)])]"

end
