(* ===== verification/Approval_Interface.thy ===== *)
theory Approval_Interface
  imports Loopback
begin

text \<open>
  The contract between the approval store and those who wait on it (\<open>permit\<close> of the loopback activation,
  the review gate of Orcha): what a reader of one approval sees is decided by the last answer given to
  that approval.
\<close>

subsection \<open>The contract\<close>

datatype ('r, 'i) store_op = Open 'r 'i | Answer 'i bool "string option"

fun opens :: "'i \<Rightarrow> ('r, 'i) store_op \<Rightarrow> bool" where
  "opens i (Open r j) = (i = j)"
| "opens i (Answer _ _ _) = False"

fun decide :: "'i \<Rightarrow> ('r, 'i) store_op \<Rightarrow> approval_status \<times> string option \<Rightarrow> approval_status \<times> string option" where
  "decide i (Open r j) st = st"
| "decide i (Answer j b m) st = (if i = j then (if b then Approval_Approved else Approval_Denied, m) else st)"

definition decision :: "'i \<Rightarrow> ('r, 'i) store_op list \<Rightarrow> approval_status \<times> string option" where
  "decision i ops = fold (decide i) ops (Approval_Pending, None)"

locale approval_store =
  fixes create :: "'r \<Rightarrow> 'i \<Rightarrow> 's \<Rightarrow> 's" and answer :: "'i \<Rightarrow> bool \<Rightarrow> string option \<Rightarrow> 's \<Rightarrow> 's"
    and state_of :: "'i \<Rightarrow> 's \<Rightarrow> (approval_status \<times> string option) option"
  assumes create_own: "state_of i s = None \<Longrightarrow> state_of i (create r i s) = Some (Approval_Pending, None)"
    and create_other: "i \<noteq> j \<Longrightarrow> state_of i (create r j s) = state_of i s"
    and answer_own: "state_of i s \<noteq> None \<Longrightarrow>
      state_of i (answer i b m s) = Some (if b then Approval_Approved else Approval_Denied, m)"
    and answer_other: "i \<noteq> j \<Longrightarrow> state_of i (answer j b m s) = state_of i s"
begin

fun apply_op :: "('r, 'i) store_op \<Rightarrow> 's \<Rightarrow> 's" where
  "apply_op (Open r i) s = create r i s"
| "apply_op (Answer i b m) s = answer i b m s"

lemma state_after:
  assumes "state_of i s = Some st" and "\<forall>op \<in> set ops. \<not> opens i op"
  shows "state_of i (fold apply_op ops s) = Some (fold (decide i) ops st)"
  using assms
proof (induction ops arbitrary: s st)
  case (Cons op ops)
  have "state_of i (apply_op op s) = Some (decide i op st)"
    using Cons.prems create_other answer_own answer_other by (cases op) auto
  then show ?case using Cons by simp
qed simp

lemma decided_by_answers:
  assumes "state_of i s = None" and "\<forall>op \<in> set ops. \<not> opens i op"
  shows "state_of i (fold apply_op ops (create r i s)) = Some (decision i ops)"
  using state_after [OF create_own [OF assms(1)] assms(2)] by (simp add: decision_def)

end

subsection \<open>The loopback storage keeps the contract\<close>

definition approval_state :: "string \<Rightarrow> loopback \<Rightarrow> (approval_status \<times> string option) option" where
  "approval_state aid lb = map_option (\<lambda>r. (approval_status_of_str (aw_status r), aw_message r)) (row_by aw_id aid (lb_rows lb))"

lemma rows_notify [simp]: "lb_rows (notify_session s lb) = lb_rows lb"
  by (simp add: notify_session_def notify_one_def Let_def split: option.splits)

lemma rows_create:
  "lb_rows (snd (create_approval session tool tool_use input uuid lb)) =
    (if row_by aw_id uuid (lb_rows lb) = None then lb_rows lb @
       [\<lparr>aw_id = uuid, aw_session = session, aw_tool = tool, aw_tool_use = tool_use, aw_input = input,
         aw_status = ''pending'', aw_message = None, aw_created = lb_clock lb, aw_resolved = None\<rparr>]
     else lb_rows lb)"
  by (auto simp: create_approval_def Let_def)

lemma no_rows: "count_where (\<lambda>r. aw_id r = aid) rows = 0 \<longleftrightarrow> row_by aw_id aid rows = None"
  by (auto simp: row_by_None_iff count_where_def filter_empty_conv)

lemma update_other: "row_by aw_id aid rows = None \<Longrightarrow> update_where (\<lambda>r. aw_id r = aid) f rows = rows"
  by (rule update_where_id) (auto simp: row_by_None_iff)

lemma rows_resolve:
  "lb_rows (snd (resolve_approval aid approved message lb)) = update_where (\<lambda>r. aw_id r = aid)
     (\<lambda>r. r\<lparr>aw_status := (if approved then ''approved'' else ''denied''), aw_message := message,
            aw_resolved := Some (lb_clock lb)\<rparr>) (lb_rows lb)"
  by (simp add: resolve_approval_def Let_def no_rows update_other)

text \<open>A request carries its session, tool, tool use id and input.\<close>

type_synonym approval_params = "string \<times> string \<times> string \<times> json"

definition open_approval :: "approval_params \<Rightarrow> string \<Rightarrow> loopback \<Rightarrow> loopback" where
  "open_approval r aid lb = (case r of (session, tool, tool_use, input) \<Rightarrow>
     snd (create_approval session tool tool_use input aid lb))"

definition answer_approval :: "string \<Rightarrow> bool \<Rightarrow> string option \<Rightarrow> loopback \<Rightarrow> loopback" where
  "answer_approval aid b m lb = snd (resolve_approval aid b m lb)"

interpretation lstore: approval_store open_approval answer_approval approval_state
proof (unfold_locales, goal_cases)
  case (1 i s r)
  then show ?case by (simp add: open_approval_def case_prod_unfold approval_state_def rows_create row_by_append approval_status_of_str_def)
next
  case (2 i j r s)
  then show ?case by (auto simp: open_approval_def case_prod_unfold approval_state_def rows_create row_by_append split: option.splits)
next
  case (3 i s b m)
  then obtain r where "row_by aw_id i (lb_rows s) = Some r" by (auto simp: approval_state_def)
  then show ?case by (simp add: answer_approval_def approval_state_def rows_resolve row_by_update_where approval_status_of_str_def)
next
  case (4 i j b m s)
  then show ?case by (simp add: answer_approval_def approval_state_def rows_resolve row_by_update_where)
qed

lemma get_approval_state:
  "approval_state aid lb = (case get_approval lb aid of Inl _ \<Rightarrow> None | Inr r \<Rightarrow> Some (ap_status r, ap_message r))"
  by (simp add: approval_state_def get_approval_def row_to_approval_def split: option.splits)

text \<open>A history of requests and answers.\<close>

fun loopback_op :: "(approval_params, string) store_op \<Rightarrow> loopback \<Rightarrow> loopback" where
  "loopback_op (Open r aid) lb = open_approval r aid lb"
| "loopback_op (Answer aid b m) lb = answer_approval aid b m lb"

definition loopback_history :: "(approval_params, string) store_op list \<Rightarrow> loopback \<Rightarrow> loopback" where
  "loopback_history ops lb = fold loopback_op ops lb"

lemma loopback_history_store: "loopback_history ops lb = fold lstore.apply_op ops lb"
proof -
  have "loopback_op = lstore.apply_op"
  proof (intro ext)
    fix op lb show "loopback_op op lb = lstore.apply_op op lb" by (cases op) simp_all
  qed
  then show ?thesis by (simp add: loopback_history_def)
qed

lemma history_decides:
  assumes "row_by aw_id aid (lb_rows lb) = None" and "\<forall>op \<in> set ops. \<not> opens aid op"
  shows "approval_state aid (loopback_history ops (open_approval r aid lb)) = Some (decision aid ops)"
  unfolding loopback_history_store
  by (rule lstore.decided_by_answers) (use assms in \<open>simp_all add: approval_state_def\<close>)

end
