(* ===== verification/Substrate_Text.thy ===== *)
theory Substrate_Text
  imports Substrate_Prelude
begin

text \<open>
  Operations of Rust's standard library on texts, over the bytes of their UTF-8 encoding:
  \<open>join\<close>, \<open>chars().take(n)\<close>, and the whitespace operations of the line-based parsers.
\<close>

subsection \<open>Joining\<close>

fun join_with :: "string \<Rightarrow> string list \<Rightarrow> string" where
  "join_with sep [] = []"
| "join_with sep [x] = x"
| "join_with sep (x # y # xs) = x @ sep @ join_with sep (y # xs)"

lemma join_with_Cons: "xs \<noteq> [] \<Longrightarrow> join_with sep (x # xs) = x @ sep @ join_with sep xs"
  by (cases xs) simp_all

lemma join_with_append:
  "xs \<noteq> [] \<Longrightarrow> ys \<noteq> [] \<Longrightarrow> join_with sep (xs @ ys) = join_with sep xs @ sep @ join_with sep ys"
  by (induction sep xs rule: join_with.induct) (simp_all add: join_with_Cons)

definition newline :: string where
  "newline = [CHR 0x0A]"

subsection \<open>Characters\<close>

text \<open>A byte that continues a character: \<open>10xxxxxx\<close>.\<close>

definition continuation :: "char \<Rightarrow> bool" where
  "continuation c \<longleftrightarrow> 128 \<le> (of_char c :: nat) \<and> (of_char c :: nat) < 192"

text \<open>The bytes of the first \<open>n\<close> characters.\<close>

fun take_chars :: "nat \<Rightarrow> string \<Rightarrow> string" where
  "take_chars n [] = []"
| "take_chars n (c # cs) =
     (if continuation c then c # take_chars n cs
      else (case n of 0 \<Rightarrow> [] | Suc m \<Rightarrow> c # take_chars m cs))"

definition char_count :: "string \<Rightarrow> nat" where
  "char_count s = length (filter (\<lambda>c. \<not> continuation c) s)"

lemma char_count_take: "char_count (take_chars n s) = min n (char_count s)"
  by (induction n s rule: take_chars.induct) (auto simp: char_count_def split: nat.splits)

lemma take_chars_prefix: "\<exists>rest. s = take_chars n s @ rest"
  by (induction n s rule: take_chars.induct) (auto split: nat.splits)

lemma take_chars_all: "char_count s \<le> n \<Longrightarrow> take_chars n s = s"
  by (induction n s rule: take_chars.induct) (auto simp: char_count_def split: nat.splits if_splits)

subsection \<open>Decimal numbers\<close>

fun nat_text :: "nat \<Rightarrow> string" where
  "nat_text n = (if n < 10 then [char_of (48 + n)] else nat_text (n div 10) @ [char_of (48 + n mod 10)])"

declare nat_text.simps [simp del]

subsection \<open>White space\<close>

definition byte :: "char \<Rightarrow> nat" where
  "byte c = of_char c"

text \<open>
  The length in bytes of the white space character (Unicode \<open>White_Space\<close>) at the head of a text, 0 if
  there is none: U+0009..U+000D, U+0020; U+0085, U+00A0; U+1680, U+2000..U+200A, U+2028, U+2029, U+202F,
  U+205F, U+3000.
\<close>

definition space1 :: "nat \<Rightarrow> bool" where
  "space1 b \<longleftrightarrow> (9 \<le> b \<and> b \<le> 13) \<or> b = 32"

definition space2 :: "nat \<Rightarrow> nat \<Rightarrow> bool" where
  "space2 b c \<longleftrightarrow> b = 0xC2 \<and> (c = 0x85 \<or> c = 0xA0)"

definition space3 :: "nat \<Rightarrow> nat \<Rightarrow> nat \<Rightarrow> bool" where
  "space3 b c d \<longleftrightarrow> (b = 0xE1 \<and> c = 0x9A \<and> d = 0x80) \<or>
     (b = 0xE2 \<and> c = 0x80 \<and> ((0x80 \<le> d \<and> d \<le> 0x8A) \<or> d = 0xA8 \<or> d = 0xA9 \<or> d = 0xAF)) \<or>
     (b = 0xE2 \<and> c = 0x81 \<and> d = 0x9F) \<or> (b = 0xE3 \<and> c = 0x80 \<and> d = 0x80)"

fun space_len :: "string \<Rightarrow> nat" where
  "space_len [] = 0"
| "space_len [b] = (if space1 (byte b) then 1 else 0)"
| "space_len [b, c] = (if space1 (byte b) then 1 else if space2 (byte b) (byte c) then 2 else 0)"
| "space_len (b # c # d # s) =
     (if space1 (byte b) then 1 else if space2 (byte b) (byte c) then 2
      else if space3 (byte b) (byte c) (byte d) then 3 else 0)"

text \<open>The same at the end, on the reversed text.\<close>

fun space_len_rev :: "string \<Rightarrow> nat" where
  "space_len_rev [] = 0"
| "space_len_rev [b] = (if space1 (byte b) then 1 else 0)"
| "space_len_rev [c, b] = (if space1 (byte c) then 1 else if space2 (byte b) (byte c) then 2 else 0)"
| "space_len_rev (d # c # b # s) =
     (if space1 (byte d) then 1 else if space2 (byte c) (byte d) then 2
      else if space3 (byte b) (byte c) (byte d) then 3 else 0)"

lemma space_len_le: "space_len s \<le> length s"
  by (induction s rule: space_len.induct) auto

lemma space_len_rev_le: "space_len_rev s \<le> length s"
  by (induction s rule: space_len_rev.induct) auto

function trim_start :: "string \<Rightarrow> string" where
  "trim_start s = (if space_len s = 0 then s else trim_start (drop (space_len s) s))"
  by pat_completeness auto
termination
  by (relation "measure length") (use space_len_le in \<open>auto intro: diff_less order_less_le_trans\<close>)

function trim_rev :: "string \<Rightarrow> string" where
  "trim_rev s = (if space_len_rev s = 0 then s else trim_rev (drop (space_len_rev s) s))"
  by pat_completeness auto
termination
  by (relation "measure length") (use space_len_rev_le in \<open>auto intro: diff_less order_less_le_trans\<close>)

declare trim_start.simps [simp del] trim_rev.simps [simp del]

definition trim_end :: "string \<Rightarrow> string" where
  "trim_end s = rev (trim_rev (rev s))"

definition trim :: "string \<Rightarrow> string" where
  "trim s = trim_end (trim_start s)"

lemma trim_start_done: "space_len (trim_start s) = 0"
  by (induction s rule: trim_start.induct) (subst trim_start.simps, simp)

lemma trim_start_idem [simp]: "trim_start (trim_start s) = trim_start s"
  by (subst trim_start.simps) (simp add: trim_start_done)

subsection \<open>Lines and prefixes\<close>

text \<open>\<open>str::lines\<close>: split at \<open>\n\<close>, drop one \<open>\r\<close> before it, no empty line after a final \<open>\n\<close>.\<close>

definition strip_cr :: "string \<Rightarrow> string" where
  "strip_cr s = (if s \<noteq> [] \<and> last s = CHR 0x0D then butlast s else s)"

function text_lines :: "string \<Rightarrow> string list" where
  "text_lines s =
     (if s = [] then []
      else let line = takeWhile (\<lambda>c. c \<noteq> CHR 0x0A) s; rest = dropWhile (\<lambda>c. c \<noteq> CHR 0x0A) s
           in if rest = [] then [line] else strip_cr line # text_lines (tl rest))"
  by pat_completeness auto
termination
proof (relation "measure length", goal_cases)
  case (2 s line rest)
  then have "length rest \<le> length s" "rest \<noteq> []" by (simp_all add: length_dropWhile_le)
  then show ?case by (cases rest) simp_all
qed simp

declare text_lines.simps [simp del]

fun strip_prefix :: "string \<Rightarrow> string \<Rightarrow> string option" where
  "strip_prefix [] s = Some s"
| "strip_prefix (p # ps) [] = None"
| "strip_prefix (p # ps) (c # cs) = (if p = c then strip_prefix ps cs else None)"

lemma strip_prefix_iff: "strip_prefix p s = Some r \<longleftrightarrow> s = p @ r"
  by (induction p s rule: strip_prefix.induct) auto

definition starts_with :: "string \<Rightarrow> string \<Rightarrow> bool" where
  "starts_with p s \<longleftrightarrow> strip_prefix p s \<noteq> None"

end
