(* ===== verification/Orcha_Runner.thy ===== *)
theory Orcha_Runner
  imports Orcha_Upstream Approval_Interface Substrate_Text
begin

text \<open>
  Orcha's node dispatcher (\<^verbatim>\<open>src/src/activations/orcha/graph_runner.rs\<close>): the event loop that hands out
  ready nodes, the choice of executor, the drain of a chat stream, the retry loops, the review gate.
  Claude sessions, shell commands and Arbor are code outside the program or other components: what they
  return is an argument (the outcome of each attempt, the events of the stream).
\<close>

subsection \<open>Outputs\<close>

definition text_of_token :: "token \<Rightarrow> string option" where
  "text_of_token t =
     (case tk_payload t of
        Some (Payload_Data v) \<Rightarrow> Option.bind (json_get ''text'' v) json_as_str
      | _ \<Rightarrow> None)"

fun output_text :: "node_output \<Rightarrow> string option" where
  "output_text (Single t) = text_of_token t"
| "output_text (Many _) = None"

definition is_empty_output :: "node_output \<Rightarrow> bool" where
  "is_empty_output out = (case output_text out of None \<Rightarrow> True | Some t \<Rightarrow> t = [])"

definition text_output :: "string \<Rightarrow> node_output" where
  "text_output t = Single (token_ok_data (JObj [(''text'', JStr t)]))"

lemma output_text_text [simp]: "output_text (text_output t) = Some t"
  by (simp add: text_output_def text_of_token_def token_ok_data_def)

subsection \<open>The event loop\<close>

text \<open>
  The percentage is computed in 32-bit floats; \<open>pct\<close> stands for that expression.
\<close>

definition calc_percentage :: "(nat \<Rightarrow> nat \<Rightarrow> nat) \<Rightarrow> nat \<Rightarrow> nat \<Rightarrow> nat option" where
  "calc_percentage pct complete tot = (if tot = 0 then None else Some (pct complete tot))"

datatype orcha_event =
    OE_NodeStarted node_id "string option" "nat option"
  | OE_NodeComplete node_id "string option" "string option" "nat option"
  | OE_NodeFailed node_id "string option" string "nat option"
  | OE_Complete graph_id
  | OE_Failed graph_id string

record runner =
  rn_dispatched :: "node_id list"
  rn_total :: nat
  rn_complete :: nat
  rn_running :: bool

definition runner_start :: "lattice_db \<Rightarrow> graph_id \<Rightarrow> runner" where
  "runner_start db g = \<lparr>rn_dispatched = get_terminal_node_ids db g, rn_total = count_nodes db g, rn_complete = 0,
     rn_running = True\<rparr>"

text \<open>
  One lattice event: the events sent to the monitor, the node that is handed to a task of its own, and
  the new state. \<open>db\<close> is the storage at that moment (the node count is read again).
\<close>

fun runner_event :: "(nat \<Rightarrow> nat \<Rightarrow> nat) \<Rightarrow> (node_id \<rightharpoonup> string) \<Rightarrow> lattice_db \<Rightarrow> graph_id \<Rightarrow> lattice_event \<Rightarrow> runner \<Rightarrow>
    orcha_event list \<times> node_id option \<times> runner" where
  "runner_event pct tickets db g (NodeReady n spec) r =
     (if n \<in> set (rn_dispatched r) then ([], None, r)
      else ([OE_NodeStarted n (tickets n) (calc_percentage pct (rn_complete r) (rn_total r))], Some n,
            r\<lparr>rn_dispatched := n # rn_dispatched r\<rparr>))"
| "runner_event pct tickets db g (NodeDone n out) r =
     (let r1 = r\<lparr>rn_complete := rn_complete r + 1, rn_total := count_nodes db g\<rparr>;
          summary = map_option (take_chars 200) (Option.bind out output_text)
      in ([OE_NodeComplete n (tickets n) summary (calc_percentage pct (rn_complete r1) (rn_total r1))], None, r1))"
| "runner_event pct tickets db g (NodeFailed n err) r =
     (let r1 = r\<lparr>rn_complete := rn_complete r + 1, rn_total := count_nodes db g\<rparr>
      in ([OE_NodeFailed n (tickets n) err (calc_percentage pct (rn_complete r1) (rn_total r1))], None, r1))"
| "runner_event pct tickets db g (GraphDone h) r = ([OE_Complete h], None, r\<lparr>rn_running := False\<rparr>)"
| "runner_event pct tickets db g (GraphFailed h n err) r =
     ([OE_Failed h (''Node '' @ n @ '' failed: '' @ err)], None, r\<lparr>rn_running := False\<rparr>)"
| "runner_event pct tickets db g (NodeStarted n) r = ([], None, r)"

text \<open>The loop over the event stream, each event with the storage it finds.\<close>

fun runner_loop :: "(nat \<Rightarrow> nat \<Rightarrow> nat) \<Rightarrow> (node_id \<rightharpoonup> string) \<Rightarrow> graph_id \<Rightarrow> (lattice_db \<times> lattice_event) list \<Rightarrow> runner \<Rightarrow>
    orcha_event list \<times> node_id list \<times> runner" where
  "runner_loop pct tickets g [] r = ([], [], r)"
| "runner_loop pct tickets g ((db, ev) # evs) r =
     (case runner_event pct tickets db g ev r of
        (sent, handed, r1) \<Rightarrow>
          if \<not> rn_running r1 then (sent, [], r1)
          else (case runner_loop pct tickets g evs r1 of
                  (sent2, nodes, r2) \<Rightarrow> (sent @ sent2, (case handed of None \<Rightarrow> nodes | Some n \<Rightarrow> n # nodes), r2)))"

subsection \<open>Choosing the executor\<close>

datatype dispatch =
    Run_SubGraph graph_id
  | Run_Task string nat
  | Run_Synthesize string nat
  | Run_Validate string "string option" nat
  | Run_Review string
  | Run_Plan string

definition retries_or :: "nat \<Rightarrow> nat option \<Rightarrow> nat" where
  "retries_or d r = (case r of None \<Rightarrow> d | Some n \<Rightarrow> n)"

fun dispatch_kind :: "orcha_node_kind \<Rightarrow> dispatch" where
  "dispatch_kind (Kind_Task task r) = Run_Task task (retries_or 0 r)"
| "dispatch_kind (Kind_Synthesize task r) = Run_Synthesize task (retries_or 0 r)"
| "dispatch_kind (Kind_Validate command cwd r) = Run_Validate command cwd (retries_or 3 r)"
| "dispatch_kind (Kind_Review prompt) = Run_Review prompt"
| "dispatch_kind (Kind_Plan task) = Run_Plan task"

text \<open>\<open>serde_error\<close> is the message of serde for data that is no node kind.\<close>

definition dispatch_data :: "(json \<Rightarrow> string) \<Rightarrow> json \<Rightarrow> string + dispatch" where
  "dispatch_data serde_error data =
     (case kind_of_json data of
        None \<Rightarrow> Inl (''Node data is not a valid OrchaNodeKind: '' @ serde_error data)
      | Some k \<Rightarrow> Inr (dispatch_kind k))"

fun dispatch_node :: "(json \<Rightarrow> string) \<Rightarrow> node_spec \<Rightarrow> string + dispatch" where
  "dispatch_node serde_error (Spec_SubGraph g) = Inr (Run_SubGraph g)"
| "dispatch_node serde_error (Spec_Task data _) = dispatch_data serde_error data"
| "dispatch_node serde_error (Spec_Scatter data _) = dispatch_data serde_error data"
| "dispatch_node serde_error (Spec_Gather _) = Inl ''Engine-internal node type reached Orcha dispatcher''"

subsection \<open>Prompts\<close>

definition prior_work :: "resolved_token list \<Rightarrow> string list" where
  "prior_work inputs = List.map_filter (\<lambda>t. Option.bind (rt_data t) (\<lambda>v. Option.bind (json_get ''text'' v) json_as_str)) inputs"

definition task_prompt :: "string \<Rightarrow> resolved_token list \<Rightarrow> string" where
  "task_prompt task inputs =
     (let work = prior_work inputs in
      if work = [] then task
      else ''<prior_work>'' @ newline @ join_with (newline @ newline) work @ newline @ ''</prior_work>'' @ newline @ newline @ task)"

definition upstream_text :: "lattice_db \<Rightarrow> node_id \<Rightarrow> string option" where
  "upstream_text db n =
     (case get_node_spec db n of
        Inr (Spec_Task data _) \<Rightarrow>
          (case kind_of_json data of
             Some (Kind_Task task _) \<Rightarrow> Some (take_chars 200 task)
           | Some (Kind_Synthesize task _) \<Rightarrow> Some (take_chars 200 task)
           | _ \<Rightarrow> None)
      | _ \<Rightarrow> None)"

definition synthesize_prompt :: "lattice_db \<Rightarrow> node_id \<Rightarrow> string \<Rightarrow> string" where
  "synthesize_prompt db n task =
     (let lines = map (\<lambda>t. ''- '' @ t) (List.map_filter (upstream_text db) (find_upstream_tasks db n)) in
      (if lines = [] then []
       else ''<join_context>'' @ newline @ ''You are synthesizing the outputs of these upstream tasks:'' @ newline
              @ join_with newline lines @ newline @ ''</join_context>'' @ newline @ newline) @ task)"

subsection \<open>Draining a chat stream\<close>

datatype chat_event =
    Chat_Start string json
  | Chat_Content string
  | Chat_Tool_Use string string json
  | Chat_Tool_Result string string bool
  | Chat_Complete json json
  | Chat_Err string
  | Chat_Passthrough string json
  | Chat_Other

text \<open>
  What the \<open>select!\<close> of \<open>dispatch_task\<close> wakes up for: a change of the cancel flag (the boolean says that
  the flag was readable and set) or the next item of the stream (\<open>None\<close>: the stream ended).
\<close>

datatype chat_input = Cancel_Changed bool | Chat_Next "chat_event option"

datatype chat_end = Chat_Cancelled | Chat_Ended | Chat_Waiting

text \<open>An entry of the node log: sequence number, kind, payload.\<close>

type_synonym log_entry = "nat \<times> string \<times> json"

record chat_state =
  ct_text :: string
  ct_error :: "string option"
  ct_seq :: nat
  ct_logs :: "log_entry list"
  ct_chunks :: "string list"

definition log_event :: "string \<Rightarrow> json \<Rightarrow> chat_state \<Rightarrow> chat_state" where
  "log_event kind payload c = c\<lparr>ct_logs := ct_logs c @ [(ct_seq c, kind, payload)], ct_seq := ct_seq c + 1\<rparr>"

definition json_nat :: "nat \<Rightarrow> json" where
  "json_nat n = JNum (Int_Number (int n))"

fun chat_loop :: "chat_input list \<Rightarrow> chat_state \<Rightarrow> chat_end \<times> chat_state" where
  "chat_loop [] c = (Chat_Waiting, c)"
| "chat_loop (Cancel_Changed b # rest) c = (if b then (Chat_Cancelled, c) else chat_loop rest c)"
| "chat_loop (Chat_Next None # rest) c = (Chat_Ended, c)"
| "chat_loop (Chat_Next (Some ev) # rest) c =
     (case ev of
        Chat_Content text \<Rightarrow> chat_loop rest (c\<lparr>ct_text := ct_text c @ text, ct_chunks := ct_chunks c @ [text]\<rparr>)
      | Chat_Start sid pos \<Rightarrow>
          chat_loop rest (log_event ''start'' (JObj [(''session_id'', JStr sid), (''user_position'', pos)]) c)
      | Chat_Tool_Use tool tid input \<Rightarrow>
          chat_loop rest (log_event ''tool_use'' (JObj [(''tool_name'', JStr tool), (''tool_use_id'', JStr tid), (''input'', input)]) c)
      | Chat_Tool_Result tid out err \<Rightarrow>
          chat_loop rest (log_event ''tool_result'' (JObj [(''tool_use_id'', JStr tid), (''is_error'', JBool err),
            (''output_preview'', JStr (take_chars 500 out)), (''output_length'', json_nat (length out))]) c)
      | Chat_Complete sid usage \<Rightarrow>
          (Chat_Ended, log_event ''complete'' (JObj [(''claude_session_id'', sid),
            (''output_length'', json_nat (length (ct_text c))), (''usage'', usage)]) c)
      | Chat_Err msg \<Rightarrow> (Chat_Ended, (log_event ''error'' (JObj [(''message'', JStr msg)]) c)\<lparr>ct_error := Some msg\<rparr>)
      | Chat_Passthrough ty data \<Rightarrow>
          chat_loop rest (log_event ''passthrough'' (JObj [(''event_type'', JStr ty), (''data'', data)]) c)
      | Chat_Other \<Rightarrow> chat_loop rest c)"

definition no_output :: string where
  "no_output = ''Task produced no output '' @ [CHR 0xE2, CHR 0x80, CHR 0x94] @ '' Claude session returned empty text''"

definition finish_task :: "chat_state \<Rightarrow> (string + node_output option) \<times> log_entry list" where
  "finish_task c =
     (case ct_error c of
        Some e \<Rightarrow> (Inl e, ct_logs (log_event ''outcome'' (JObj [(''status'', JStr ''error''), (''error'', JStr e)]) c))
      | None \<Rightarrow>
          if ct_text c = [] then
            (Inl no_output, ct_logs (log_event ''outcome'' (JObj [(''status'', JStr ''error''), (''error'', JStr no_output)]) c))
          else
            (Inr (Some (text_output (ct_text c))), ct_logs (log_event ''outcome'' (JObj [(''status'', JStr ''ok''),
               (''output_length'', json_nat (length (ct_text c))), (''output_preview'', JStr (take_chars 500 (ct_text c)))]) c)))"

text \<open>
  The whole of \<open>dispatch_task\<close>. Arguments from outside: whether the working directory exists, whether the
  graph is cancelled already, the first answer of \<open>create\<close> (\<open>None\<close>: the stream was empty), the inputs of
  the drain loop. \<open>None\<close> as result: the loop still waits.
\<close>

definition dispatch_task ::
  "string \<Rightarrow> resolved_token list \<Rightarrow> string \<Rightarrow> string \<Rightarrow> bool \<Rightarrow> bool \<Rightarrow> (string + unit) option \<Rightarrow> chat_input list \<Rightarrow>
   (string + node_output option) option \<times> log_entry list" where
  "dispatch_task task inputs model working_directory is_dir cancelled created chat =
     (if \<not> is_dir then
        (Some (Inl (''Working directory does not exist: '' @ [CHR 0x27] @ working_directory @ [CHR 0x27] @
           ''. Create it before running tickets or pass an existing path.'')), [])
      else if cancelled then (Some (Inl ''Graph cancelled''), [])
      else
        let c0 = log_event ''prompt'' (JObj [(''task'', JStr (task_prompt task inputs)), (''model'', JStr model),
                   (''working_directory'', JStr working_directory), (''prior_work_count'', json_nat (length (prior_work inputs)))])
                   \<lparr>ct_text = [], ct_error = None, ct_seq = 0, ct_logs = [], ct_chunks = []\<rparr>
        in case created of
             Some (Inl msg) \<Rightarrow> (Some (Inl (''Failed to create claudecode session: '' @ msg)), ct_logs c0)
           | _ \<Rightarrow>
               (case chat_loop chat c0 of
                  (Chat_Waiting, c) \<Rightarrow> (None, ct_logs c)
                | (Chat_Cancelled, c) \<Rightarrow> (Some (Inl ''Graph cancelled''), ct_logs c)
                | (Chat_Ended, c) \<Rightarrow> (case finish_task c of (res, logs) \<Rightarrow> (Some res, logs))))"

subsection \<open>Retrying\<close>

text \<open>The delay before attempt \<open>n\<close> in seconds: \<open>1u64 << (n - 1).min(3)\<close>.\<close>

definition backoff :: "nat \<Rightarrow> nat" where
  "backoff attempt = push_bit (min (attempt - 1) 3) 1"

datatype retry_event = Slept nat | Retrying nat nat string | Attempted nat

text \<open>
  The loop of \<open>dispatch_task_with_retry\<close> over the attempts that are left; \<open>run n\<close> is what attempt \<open>n\<close>
  returns, \<open>what\<close> is \<open>Task\<close> or \<open>Synthesize\<close>. The trace records sleeps, notifications and attempts.
\<close>

fun retry_attempts :: "string \<Rightarrow> (nat \<Rightarrow> string + node_output option) \<Rightarrow> nat \<Rightarrow> nat list \<Rightarrow> string option \<Rightarrow>
    (string + node_output option) \<times> retry_event list" where
  "retry_attempts what run max_retries [] last_error =
     (Inl (case last_error of Some e \<Rightarrow> e | None \<Rightarrow> what @ '' failed after all retries''), [])"
| "retry_attempts what run max_retries (attempt # rest) last_error =
     (let before = (if 0 < attempt then
            [Slept (backoff attempt), Retrying attempt max_retries (case last_error of None \<Rightarrow> [] | Some e \<Rightarrow> e)] else [])
      in case run attempt of
           Inr out \<Rightarrow>
             if (case out of None \<Rightarrow> True | Some o1 \<Rightarrow> is_empty_output o1) then
               (case retry_attempts what run max_retries rest (Some (what @ '' produced no output'')) of
                  (res, tr) \<Rightarrow> (res, before @ Attempted attempt # tr))
             else (Inr out, before @ [Attempted attempt])
         | Inl e \<Rightarrow>
             if max_retries \<le> attempt then (Inl e, before @ [Attempted attempt])
             else (case retry_attempts what run max_retries rest (Some e) of
                     (res, tr) \<Rightarrow> (res, before @ Attempted attempt # tr)))"

definition dispatch_task_with_retry :: "(nat \<Rightarrow> string + node_output option) \<Rightarrow> nat \<Rightarrow> (string + node_output option) \<times> retry_event list" where
  "dispatch_task_with_retry run max_retries = retry_attempts ''Task'' run max_retries [0..<Suc max_retries] None"

definition dispatch_synthesize_with_retry :: "(nat \<Rightarrow> string + node_output option) \<Rightarrow> nat \<Rightarrow> (string + node_output option) \<times> retry_event list" where
  "dispatch_synthesize_with_retry run max_retries = retry_attempts ''Synthesize'' run max_retries [0..<Suc max_retries] None"

subsection \<open>Validation\<close>

text \<open>What the shell did: it could not be started, or an exit code (none after a signal) and its two outputs.\<close>

datatype shell_result = Shell_Error string | Shell_Exit "int option" string string

definition int_text :: "int \<Rightarrow> string" where
  "int_text i = (if i < 0 then CHR 0x2D # nat_text (nat (- i)) else nat_text (nat i))"

fun dispatch_validate :: "shell_result \<Rightarrow> string + node_output option" where
  "dispatch_validate (Shell_Error e) = Inl (''Failed to run validate command: '' @ e)"
| "dispatch_validate (Shell_Exit code out err) =
     (if code = Some 0 then Inr (Some (Single token_ok))
      else Inl (''Validation failed (exit '' @ int_text (case code of None \<Rightarrow> - 1 | Some c \<Rightarrow> c) @ ''): '' @ trim (out @ err)))"

definition task_text :: "lattice_db \<Rightarrow> node_id \<Rightarrow> string option" where
  "task_text db n =
     (case get_node_spec db n of
        Inr (Spec_Task data _) \<Rightarrow>
          (case kind_of_json data of
             Some (Kind_Task task _) \<Rightarrow> Some task
           | Some (Kind_Synthesize task _) \<Rightarrow> Some task
           | _ \<Rightarrow> None)
      | _ \<Rightarrow> None)"

definition retry_prompt :: "string \<Rightarrow> nat \<Rightarrow> string \<Rightarrow> string \<Rightarrow> string" where
  "retry_prompt task attempt command err =
     task @ newline @ newline @ ''<validation_error attempt='' @ [CHR 0x22] @ nat_text attempt @ [CHR 0x22] @ ''>'' @ newline
     @ ''The validation command `'' @ command @ ''` failed:'' @ newline @ err @ newline
     @ ''Please fix the issue and try again.'' @ newline @ ''</validation_error>''"

datatype validate_event = V_Retrying nat nat string | V_Rerun node_id string | V_Validate nat

type_synonym outputs = "node_id \<rightharpoonup> string"

text \<open>The outputs stored in the lattice when validation begins.\<close>

fun seed_outputs :: "lattice_db \<Rightarrow> node_id list \<Rightarrow> outputs \<Rightarrow> outputs" where
  "seed_outputs db [] outs = outs"
| "seed_outputs db (n # ns) outs =
     seed_outputs db ns
       (case get_node_output db n of
          Inr (Some out) \<Rightarrow> (case output_text out of None \<Rightarrow> outs | Some t \<Rightarrow> outs(n \<mapsto> t))
        | _ \<Rightarrow> outs)"

text \<open>Re-running the upstream tasks one after the other; \<open>run n prompt\<close> is what the session returns.\<close>

fun rerun_tasks :: "lattice_db \<Rightarrow> (node_id \<Rightarrow> string \<Rightarrow> string + node_output option) \<Rightarrow> nat \<Rightarrow> string \<Rightarrow> string \<Rightarrow>
    node_id list \<Rightarrow> outputs \<Rightarrow> outputs \<times> validate_event list" where
  "rerun_tasks db run attempt command err [] outs = (outs, [])"
| "rerun_tasks db run attempt command err (n # ns) outs =
     (case task_text db n of
        None \<Rightarrow> rerun_tasks db run attempt command err ns outs
      | Some task \<Rightarrow>
          let prompt = retry_prompt task attempt command err;
              outs1 = (case run n prompt of
                         Inr (Some out) \<Rightarrow> (case output_text out of None \<Rightarrow> outs | Some t \<Rightarrow> outs(n \<mapsto> t))
                       | _ \<Rightarrow> outs)
          in (case rerun_tasks db run attempt command err ns outs1 of (outs2, tr) \<Rightarrow> (outs2, V_Rerun n prompt # tr)))"

text \<open>
  \<open>hash_values\<close> is the iteration order of the \<open>HashMap\<close> of outputs: some list of its values.
\<close>

definition validated_output :: "(outputs \<Rightarrow> string list) \<Rightarrow> outputs \<Rightarrow> node_output" where
  "validated_output hash_values outs =
     (let combined = join_with (newline @ newline) (filter (\<lambda>t. t \<noteq> []) (hash_values outs))
      in if combined = [] then Single token_ok else text_output combined)"

fun validate_attempts ::
  "lattice_db \<Rightarrow> (outputs \<Rightarrow> string list) \<Rightarrow> (nat \<Rightarrow> node_id \<Rightarrow> string \<Rightarrow> string + node_output option) \<Rightarrow> (nat \<Rightarrow> shell_result) \<Rightarrow>
   string \<Rightarrow> nat \<Rightarrow> node_id list \<Rightarrow> nat list \<Rightarrow> outputs \<Rightarrow> string option \<Rightarrow> (string + node_output option) option \<times> validate_event list" where
  "validate_attempts db hash_values run shell command max_retries tasks [] outs err = (None, [])"
| "validate_attempts db hash_values run shell command max_retries tasks (attempt # rest) outs err =
     (case err of
        Some e \<Rightarrow>
          if tasks = [] then
            (Some (Inl (''Validation failed with no upstream task to retry: '' @ e)), [V_Retrying attempt max_retries e])
          else
            (case rerun_tasks db (run attempt) attempt command e tasks outs of
               (outs1, tr1) \<Rightarrow>
                 (case dispatch_validate (shell attempt) of
                    Inr _ \<Rightarrow> (Some (Inr (Some (validated_output hash_values outs1))),
                              V_Retrying attempt max_retries e # tr1 @ [V_Validate attempt])
                  | Inl e1 \<Rightarrow>
                      if max_retries \<le> attempt then
                        (Some (Inl (''Validation failed after '' @ nat_text max_retries @ '' retries. Last error: '' @ e1)),
                         V_Retrying attempt max_retries e # tr1 @ [V_Validate attempt])
                      else
                        (case validate_attempts db hash_values run shell command max_retries tasks rest outs1 (Some e1) of
                           (res, tr) \<Rightarrow> (res, V_Retrying attempt max_retries e # tr1 @ V_Validate attempt # tr))))
      | None \<Rightarrow>
          (case dispatch_validate (shell attempt) of
             Inr _ \<Rightarrow> (Some (Inr (Some (validated_output hash_values outs))), [V_Validate attempt])
           | Inl e1 \<Rightarrow>
               if max_retries \<le> attempt then
                 (Some (Inl (''Validation failed after '' @ nat_text max_retries @ '' retries. Last error: '' @ e1)), [V_Validate attempt])
               else
                 (case validate_attempts db hash_values run shell command max_retries tasks rest outs (Some e1) of
                    (res, tr) \<Rightarrow> (res, V_Validate attempt # tr))))"

text \<open>\<open>None\<close> stands for the \<open>unreachable!()\<close> behind the loop.\<close>

definition dispatch_validate_with_retry ::
  "lattice_db \<Rightarrow> (outputs \<Rightarrow> string list) \<Rightarrow> (nat \<Rightarrow> node_id \<Rightarrow> string \<Rightarrow> string + node_output option) \<Rightarrow> (nat \<Rightarrow> shell_result) \<Rightarrow>
   node_id \<Rightarrow> string \<Rightarrow> nat \<Rightarrow> (string + node_output option) option \<times> validate_event list" where
  "dispatch_validate_with_retry db hash_values run shell n command max_retries =
     (let tasks = find_upstream_tasks db n
      in validate_attempts db hash_values run shell command max_retries tasks [0..<Suc max_retries]
           (seed_outputs db tasks Map.empty) None)"

subsection \<open>The review gate\<close>

text \<open>What wakes the gate: the cancel flag, or a second has passed (with the loopback storage of that moment).\<close>

datatype review_input = Review_Cancel bool | Review_Tick loopback

fun review_loop :: "string \<Rightarrow> review_input list \<Rightarrow> (string + node_output option) option" where
  "review_loop aid [] = None"
| "review_loop aid (Review_Cancel b # rest) = (if b then Some (Inl ''Graph cancelled'') else review_loop aid rest)"
| "review_loop aid (Review_Tick lb # rest) =
     (case get_approval lb aid of
        Inl _ \<Rightarrow> review_loop aid rest
      | Inr r \<Rightarrow>
          (case ap_status r of
             Approval_Approved \<Rightarrow> Some (Inr (Some (Single token_ok)))
           | Approval_Denied \<Rightarrow> Some (Inl (''Review denied: '' @ (case ap_message r of None \<Rightarrow> [] | Some m \<Rightarrow> m)))
           | _ \<Rightarrow> review_loop aid rest))"

definition dispatch_review ::
  "graph_id \<Rightarrow> string \<Rightarrow> string \<Rightarrow> string \<Rightarrow> loopback \<Rightarrow> review_input list \<Rightarrow> (string + node_output option) option \<times> loopback" where
  "dispatch_review g prompt tool_use uuid lb inputs =
     (case create_approval g ''review'' tool_use (JObj [(''prompt'', JStr prompt)]) uuid lb of
        (Inl e, lb1) \<Rightarrow> (Some (Inl (''Failed to create review approval: '' @ loopback_error_text e)), lb1)
      | (Inr r, lb1) \<Rightarrow> (review_loop (ap_id r) inputs, lb1))"

subsection \<open>Child graphs\<close>

text \<open>Following the monitor events of a child graph; \<open>what\<close> is \<open>Child\<close> or \<open>Plan child\<close>.\<close>

fun follow_child :: "string \<Rightarrow> graph_id \<Rightarrow> orcha_event list \<Rightarrow> string + node_output option" where
  "follow_child what child [] = Inl (what @ '' graph stream ended without completion'')"
| "follow_child what child (ev # evs) =
     (case ev of
        OE_Complete _ \<Rightarrow> Inr (Some (Single (token_ok_data (JObj [(''child_graph_id'', JStr child)]))))
      | OE_Failed _ err \<Rightarrow> Inl (what @ '' graph failed: '' @ err)
      | _ \<Rightarrow> follow_child what child evs)"

definition dispatch_subgraph :: "graph_id \<Rightarrow> orcha_event list \<Rightarrow> string + node_output option" where
  "dispatch_subgraph child events = follow_child ''Child'' child events"

text \<open>The text of a plan task's output, the source of the tickets.\<close>

definition plan_source :: "node_output option \<Rightarrow> string + string" where
  "plan_source out =
     (case out of
        Some (Single t) \<Rightarrow> (case text_of_token t of None \<Rightarrow> Inl ''Plan task produced no text output'' | Some s \<Rightarrow> Inr s)
      | _ \<Rightarrow> Inl ''Plan task produced no output'')"

end
