(* ===== verification/Orcha_Runner_Props.thy ===== *)
theory Orcha_Runner_Props
  imports Orcha_Runner
begin

text \<open>Properties of Orcha's dispatcher.\<close>

subsection \<open>Each node is handed out once\<close>

definition ready_ids :: "lattice_event list \<Rightarrow> node_id set" where
  "ready_ids evs = {n. \<exists>spec. NodeReady n spec \<in> set evs}"

lemma ready_ids_simps [simp]:
  "ready_ids [] = {}"
  "ready_ids (ev # evs) = (case ev of NodeReady n _ \<Rightarrow> {n} | _ \<Rightarrow> {}) \<union> ready_ids evs"
proof -
  show "ready_ids [] = {}" by (simp add: ready_ids_def)
  show "ready_ids (ev # evs) = (case ev of NodeReady n _ \<Rightarrow> {n} | _ \<Rightarrow> {}) \<union> ready_ids evs"
    by (cases ev) (auto simp: ready_ids_def)
qed

lemma runner_event_parts:
  "rn_running r \<Longrightarrow> rn_running (snd (snd (runner_event pct tickets db g ev r))) = (\<not> ends_stream ev)"
  "set (rn_dispatched (snd (snd (runner_event pct tickets db g ev r)))) =
     set (rn_dispatched r) \<union> (case ev of NodeReady n _ \<Rightarrow> {n} | _ \<Rightarrow> {})"
  "fst (snd (runner_event pct tickets db g ev r)) =
     (case ev of NodeReady n _ \<Rightarrow> if n \<in> set (rn_dispatched r) then None else Some n | _ \<Rightarrow> None)"
proof -
  show "rn_running r \<Longrightarrow> rn_running (snd (snd (runner_event pct tickets db g ev r))) = (\<not> ends_stream ev)"
    by (cases ev) (simp_all add: Let_def)
  show "set (rn_dispatched (snd (snd (runner_event pct tickets db g ev r)))) =
     set (rn_dispatched r) \<union> (case ev of NodeReady n _ \<Rightarrow> {n} | _ \<Rightarrow> {})"
    by (cases ev) (auto simp: Let_def)
  show "fst (snd (runner_event pct tickets db g ev r)) =
     (case ev of NodeReady n _ \<Rightarrow> if n \<in> set (rn_dispatched r) then None else Some n | _ \<Rightarrow> None)"
    by (cases ev) (simp_all add: Let_def)
qed

lemma runner_event_running:
  assumes "runner_event pct tickets db g ev r = (sent, handed, r1)" and "rn_running r"
  shows "rn_running r1 = (\<not> ends_stream ev)"
    and "set (rn_dispatched r1) = set (rn_dispatched r) \<union> (case ev of NodeReady n _ \<Rightarrow> {n} | _ \<Rightarrow> {})"
    and "handed = (case ev of NodeReady n _ \<Rightarrow> if n \<in> set (rn_dispatched r) then None else Some n | _ \<Rightarrow> None)"
  using runner_event_parts(1) [OF assms(2), of pct tickets db g ev] runner_event_parts(2,3) [of pct tickets db g ev r] assms(1)
  by simp_all

lemma runner_loop_dispatch:
  assumes "runner_loop pct tickets g evs r = (sent, nodes, r')" and "rn_running r"
  shows "distinct nodes \<and> set nodes = ready_ids (upto_end ends_stream (map snd evs)) - set (rn_dispatched r) \<and>
    rn_running r' = (\<not> (\<exists>ev \<in> set (map snd evs). ends_stream ev))"
  using assms
proof (induction evs arbitrary: r sent nodes r')
  case (Cons x evs)
  obtain db ev where x: "x = (db, ev)" by (cases x)
  obtain s1 handed r1 where e: "runner_event pct tickets db g ev r = (s1, handed, r1)" by (metis prod_cases3)
  note ev = runner_event_running [OF e Cons.prems(2)]
  show ?case
  proof (cases "ends_stream ev")
    case True
    then show ?thesis using Cons.prems(1) ev e by (cases ev) (auto simp: x)
  next
    case False
    obtain s2 ns r2 where l: "runner_loop pct tickets g evs r1 = (s2, ns, r2)" by (metis prod_cases3)
    have IH: "distinct ns \<and> set ns = ready_ids (upto_end ends_stream (map snd evs)) - set (rn_dispatched r1) \<and>
      rn_running r2 = (\<not> (\<exists>ev \<in> set (map snd evs). ends_stream ev))"
      using Cons.IH [OF l] ev(1) False by simp
    have res: "nodes = (case handed of None \<Rightarrow> ns | Some n \<Rightarrow> n # ns)" "r' = r2"
      using Cons.prems(1) e l ev(1) False by (auto simp: x)
    show ?thesis using IH ev False unfolding res by (cases ev) (auto simp: x split: if_splits)
  qed
qed simp

text \<open>
  C10. However often \<open>NodeReady\<close> events are repeated (a reconnect replays the whole log), the runner
  hands out every node at most once, never one that had finished when it started, and hands out every
  other node that becomes ready before the graph ends; it stops at the first \<open>GraphDone\<close> or \<open>GraphFailed\<close>.
\<close>

theorem runner_dispatches_once:
  assumes "runner_loop pct tickets g evs (runner_start db g) = (sent, nodes, r')"
  shows "distinct nodes \<and>
    set nodes = {n. \<exists>spec. NodeReady n spec \<in> set (upto_end ends_stream (map snd evs))} - set (get_terminal_node_ids db g) \<and>
    rn_running r' = (\<not> (\<exists>ev \<in> set (map snd evs). ends_stream ev))"
  using runner_loop_dispatch [OF assms] by (simp add: runner_start_def ready_ids_def)

theorem runner_dispatches_once_witness:
  "\<exists>sent r'. runner_loop (\<lambda>_ _. 0) Map.empty [] [(empty_db True, NodeReady ''a'' (Spec_Task JNull None)),
      (empty_db True, NodeReady ''b'' (Spec_Task JNull None)), (empty_db True, NodeReady ''a'' (Spec_Task JNull None)),
      (empty_db True, GraphDone [])] (runner_start (empty_db True) []) = (sent, [''a'', ''b''], r') \<and> \<not> rn_running r'"
proof -
  let ?evs = "[(empty_db True, NodeReady ''a'' (Spec_Task JNull None)),
      (empty_db True, NodeReady ''b'' (Spec_Task JNull None)), (empty_db True, NodeReady ''a'' (Spec_Task JNull None)),
      (empty_db True, GraphDone [])]"
  obtain sent nodes r' where r: "runner_loop (\<lambda>_ _. 0) Map.empty [] ?evs (runner_start (empty_db True) []) = (sent, nodes, r')"
    by (metis prod_cases3)
  have "fst (snd (runner_loop (\<lambda>_ _. 0) Map.empty [] ?evs (runner_start (empty_db True) []))) = [''a'', ''b'']" by code_simp
  then show ?thesis using r runner_dispatches_once [OF r] by auto
qed

subsection \<open>The chat drain\<close>

text \<open>The content of a stream up to where the loop stops.\<close>

fun chat_content :: "chat_input list \<Rightarrow> string" where
  "chat_content [] = []"
| "chat_content (Cancel_Changed b # rest) = (if b then [] else chat_content rest)"
| "chat_content (Chat_Next None # rest) = []"
| "chat_content (Chat_Next (Some (Chat_Content t)) # rest) = t @ chat_content rest"
| "chat_content (Chat_Next (Some (Chat_Complete _ _)) # rest) = []"
| "chat_content (Chat_Next (Some (Chat_Err _)) # rest) = []"
| "chat_content (Chat_Next (Some _) # rest) = chat_content rest"

definition logs_numbered :: "chat_state \<Rightarrow> bool" where
  "logs_numbered c \<longleftrightarrow> map fst (ct_logs c) = [0..<ct_seq c]"

lemma logs_numbered_event [simp]: "logs_numbered c \<Longrightarrow> logs_numbered (log_event kind payload c)"
  by (simp add: logs_numbered_def log_event_def)

lemma logs_numbered_fields [simp]:
  "logs_numbered (c\<lparr>ct_text := t\<rparr>) = logs_numbered c" "logs_numbered (c\<lparr>ct_chunks := ts\<rparr>) = logs_numbered c"
  "logs_numbered (c\<lparr>ct_error := t'\<rparr>) = logs_numbered c"
  by (simp_all add: logs_numbered_def)

lemma log_event_fields [simp]:
  "ct_text (log_event kind payload c) = ct_text c" "ct_error (log_event kind payload c) = ct_error c"
  by (simp_all add: log_event_def)

lemma chat_loop_text:
  "ct_text (snd (chat_loop ins c)) = ct_text c @ chat_content ins"
proof (induction ins c rule: chat_loop.induct)
  case (4 ev rest c)
  then show ?case by (cases ev) simp_all
qed simp_all

lemma chat_loop_logs:
  "logs_numbered c \<Longrightarrow> logs_numbered (snd (chat_loop ins c))"
proof (induction ins c rule: chat_loop.induct)
  case (4 ev rest c)
  then show ?case by (cases ev) simp_all
qed simp_all

lemma chat_loop_spec:
  assumes "chat_loop ins c = (e, c')" and "logs_numbered c"
  shows "ct_text c' = ct_text c @ chat_content ins \<and> logs_numbered c'"
  using chat_loop_text [of ins c] chat_loop_logs [OF assms(2), of ins] assms(1) by simp

lemma numbered_logs: "logs_numbered c \<Longrightarrow> map fst (ct_logs c) = [0..<length (ct_logs c)]"
proof -
  assume n: "logs_numbered c"
  then have "length (ct_logs c) = ct_seq c" unfolding logs_numbered_def by (metis diff_zero length_map length_upt)
  then show ?thesis using n by (simp add: logs_numbered_def)
qed

lemma finish_task_spec:
  assumes "finish_task c = (res, logs)" and "logs_numbered c"
  shows "map fst logs = [0..<length logs] \<and>
    (res = (case ct_error c of Some e \<Rightarrow> Inl e | None \<Rightarrow> if ct_text c = [] then Inl no_output else Inr (Some (text_output (ct_text c)))))"
  using assms numbered_logs [OF logs_numbered_event [OF assms(2)]]
  by (auto simp: finish_task_def split: option.splits if_splits)

lemma dispatch_task_spec:
  assumes "dispatch_task task inputs model wd is_dir cancelled created chat = (res, logs)"
  shows "map fst logs = [0..<length logs] \<and>
    (\<forall>out. res = Some (Inr out) \<longrightarrow> out = Some (text_output (chat_content chat)) \<and> chat_content chat \<noteq> [])"
proof -
  let ?c0 = "log_event ''prompt'' (JObj [(''task'', JStr (task_prompt task inputs)), (''model'', JStr model),
                   (''working_directory'', JStr wd), (''prior_work_count'', json_nat (length (prior_work inputs)))])
                   \<lparr>ct_text = [], ct_error = None, ct_seq = 0, ct_logs = [], ct_chunks = []\<rparr>"
  have n0: "logs_numbered ?c0" by (rule logs_numbered_event) (simp add: logs_numbered_def)
  obtain e c where l: "chat_loop chat ?c0 = (e, c)" by fastforce
  have c: "ct_text c = chat_content chat" "logs_numbered c" using chat_loop_spec [OF l n0] by simp_all
  obtain r ls where f: "finish_task c = (r, ls)" by fastforce
  note fin = finish_task_spec [OF f c(2)]
  show ?thesis
    using assms l f fin c numbered_logs [OF n0] numbered_logs [OF c(2)]
    by (cases e; cases created) (auto simp: dispatch_task_def Let_def split: if_splits sum.splits option.splits)
qed

text \<open>
  C11. A task node that reports success carries exactly what Claude said: its output is the text of all
  content events up to the end of the stream, in order, and it is not empty. Whatever happens, the log
  entries of the task are numbered \<open>0, 1, 2, ..\<close> without gaps.
\<close>

theorem task_output_is_content:
  assumes "dispatch_task task inputs model wd is_dir cancelled created chat = (res, logs)"
  shows "map fst logs = [0..<length logs] \<and>
    (\<forall>out. res = Some (Inr out) \<longrightarrow> out = Some (text_output (chat_content chat)) \<and> chat_content chat \<noteq> [])"
  using assms by (rule dispatch_task_spec)

theorem task_output_is_content_witness:
  "\<exists>logs. dispatch_task ''t'' [] ''opus'' ''/w'' True False None
      [Chat_Next (Some (Chat_Start ''s'' JNull)), Chat_Next (Some (Chat_Content ''he'')), Cancel_Changed False,
       Chat_Next (Some (Chat_Content ''y'')), Chat_Next (Some (Chat_Complete JNull JNull))] = (Some (Inr (Some (text_output ''hey''))), logs) \<and>
     length logs = 4"
proof -
  let ?chat = "[Chat_Next (Some (Chat_Start ''s'' JNull)), Chat_Next (Some (Chat_Content ''he'')), Cancel_Changed False,
       Chat_Next (Some (Chat_Content ''y'')), Chat_Next (Some (Chat_Complete JNull JNull))]"
  obtain res logs where d: "dispatch_task ''t'' [] ''opus'' ''/w'' True False None ?chat = (res, logs)" by fastforce
  have "(case fst (dispatch_task ''t'' [] ''opus'' ''/w'' True False None ?chat) of Some (Inr _) \<Rightarrow> True | _ \<Rightarrow> False)"
    "length (snd (dispatch_task ''t'' [] ''opus'' ''/w'' True False None ?chat)) = 4"
    by code_simp+
  then obtain out where "res = Some (Inr out)" "length logs = 4" using d by (auto split: option.splits sum.splits)
  then show ?thesis using task_output_is_content [OF d] d by simp
qed

end
