(* ===== verification/Orcha_Retry_Props.thy ===== *)
theory Orcha_Retry_Props
  imports Orcha_Runner
begin

text \<open>The retry loops and the review gate: how often they try, what they return, when they stop.\<close>

subsection \<open>Retrying a task\<close>

definition good_attempt :: "string + node_output option \<Rightarrow> bool" where
  "good_attempt r = (case r of Inl _ \<Rightarrow> False | Inr None \<Rightarrow> False | Inr (Some out) \<Rightarrow> \<not> is_empty_output out)"

definition attempts_of :: "retry_event list \<Rightarrow> nat list" where
  "attempts_of tr = List.map_filter (\<lambda>ev. case ev of Attempted n \<Rightarrow> Some n | _ \<Rightarrow> None) tr"

definition delays_of :: "retry_event list \<Rightarrow> nat list" where
  "delays_of tr = List.map_filter (\<lambda>ev. case ev of Slept n \<Rightarrow> Some n | _ \<Rightarrow> None) tr"

lemma trace_simps [simp]:
  "attempts_of [] = []" "attempts_of (Slept n # tr) = attempts_of tr" "attempts_of (Retrying a b c # tr) = attempts_of tr"
  "attempts_of (Attempted n # tr) = n # attempts_of tr"
  "delays_of [] = []" "delays_of (Slept n # tr) = n # delays_of tr" "delays_of (Retrying a b c # tr) = delays_of tr"
  "delays_of (Attempted n # tr) = delays_of tr"
  by (simp_all add: attempts_of_def delays_of_def List.map_filter_def)

text \<open>The reference: the prefix of the attempts up to the first good one, and the result of the last of them.\<close>

definition failed_with :: "string \<Rightarrow> string + node_output option \<Rightarrow> string" where
  "failed_with what r = (case r of Inl e \<Rightarrow> e | Inr _ \<Rightarrow> what @ '' produced no output'')"

lemma retry_attempts_spec:
  assumes "attempts = [k..<Suc max_retries]" and "k \<le> max_retries"
  shows "attempts_of (snd (retry_attempts what run max_retries attempts le0)) = upto_end (\<lambda>n. good_attempt (run n)) attempts \<and>
    delays_of (snd (retry_attempts what run max_retries attempts le0)) =
      map backoff (filter (\<lambda>n. 0 < n) (upto_end (\<lambda>n. good_attempt (run n)) attempts)) \<and>
    fst (retry_attempts what run max_retries attempts le0) =
      (if \<exists>n \<in> set attempts. good_attempt (run n) then run (List.last (upto_end (\<lambda>n. good_attempt (run n)) attempts))
       else Inl (failed_with what (run max_retries)))"
  using assms
proof (induction attempts arbitrary: k le0)
  case Nil
  then show ?case by simp
next
  case (Cons n ns)
  have "[k..<Suc max_retries] = k # [Suc k..<Suc max_retries]" using Cons.prems(2) by (intro upt_conv_Cons) simp
  then have n: "n = k" and ns: "ns = [Suc k..<Suc max_retries]" using Cons.prems(1) by simp_all
  show ?case
  proof (cases "good_attempt (run n)")
    case True
    then obtain out where out: "run n = Inr (Some out)" "\<not> is_empty_output out"
      by (auto simp: good_attempt_def split: sum.splits option.splits)
    then show ?thesis using True by (simp add: Let_def)
  next
    case bad: False
    show ?thesis
    proof (cases "k = max_retries")
      case True
      then have e: "ns = []" using ns by simp
      show ?thesis
      proof (cases "run n")
        case (Inl err)
        then show ?thesis using bad True n e by (simp add: Let_def failed_with_def)
      next
        case (Inr out)
        then show ?thesis using bad True n e
          by (auto simp: Let_def failed_with_def good_attempt_def split: option.splits)
      qed
    next
      case False
      then have le: "Suc k \<le> max_retries" using Cons.prems(2) by simp
      note IH = Cons.IH [OF ns le]
      have ne: "ns \<noteq> []" using ns le by simp
      then have u: "upto_end (\<lambda>n. good_attempt (run n)) ns \<noteq> []" by simp
      have lt: "\<not> max_retries \<le> n" using n False Cons.prems(2) by simp
      obtain lst where step: "snd (retry_attempts what run max_retries (n # ns) le0) =
          (if 0 < n then [Slept (backoff n), Retrying n max_retries (case le0 of None \<Rightarrow> [] | Some e \<Rightarrow> e)] else [])
            @ Attempted n # snd (retry_attempts what run max_retries ns (Some lst))"
        and res: "fst (retry_attempts what run max_retries (n # ns) le0) = fst (retry_attempts what run max_retries ns (Some lst))"
      proof (cases "run n")
        case (Inl err)
        then show ?thesis using that [of err] lt by (simp add: Let_def case_prod_unfold)
      next
        case (Inr out)
        then have "case out of None \<Rightarrow> True | Some o1 \<Rightarrow> is_empty_output o1"
          using bad by (auto simp: good_attempt_def split: option.splits)
        then show ?thesis using that [of "what @ '' produced no output''"] Inr by (simp add: Let_def case_prod_unfold)
      qed
      show ?thesis using IH bad u by (auto simp: step res simp del: retry_attempts.simps)
    qed
  qed
qed

text \<open>
  C12. A task (and likewise a synthesize node) is attempted \<open>0, 1, .., max_retries\<close> up to the first
  attempt with a non-empty output, whose result it returns; if there is none it returns the error of the
  last attempt. The delays before the retries are \<open>2\<^sup>0, 2\<^sup>1, 2\<^sup>2, 2\<^sup>3, 2\<^sup>3, ..\<close> seconds.
\<close>

theorem task_retry_spec:
  fixes run :: "nat \<Rightarrow> string + node_output option" and max_retries :: nat
  defines "made \<equiv> upto_end (\<lambda>n. good_attempt (run n)) [0..<Suc max_retries]"
  shows "attempts_of (snd (dispatch_task_with_retry run max_retries)) = made \<and>
    delays_of (snd (dispatch_task_with_retry run max_retries)) = map (\<lambda>n. 2 ^ min (n - 1) 3) (filter (\<lambda>n. 0 < n) made) \<and>
    fst (dispatch_task_with_retry run max_retries) =
      (if \<exists>n \<in> {0..max_retries}. good_attempt (run n) then run (last made) else Inl (failed_with ''Task'' (run max_retries)))"
proof -
  have b: "backoff = (\<lambda>n. 2 ^ min (n - 1) 3)" by (intro ext) (simp add: backoff_def push_bit_eq_mult)
  have s: "set [0..<Suc max_retries] = {0..max_retries}" by auto
  show ?thesis
    using retry_attempts_spec [of "[0..<Suc max_retries]" 0 max_retries "''Task''" run None]
    unfolding dispatch_task_with_retry_def made_def b s by simp
qed

subsection \<open>Retrying a validation\<close>

definition validations_of :: "validate_event list \<Rightarrow> nat list" where
  "validations_of tr = List.map_filter (\<lambda>ev. case ev of V_Validate n \<Rightarrow> Some n | _ \<Rightarrow> None) tr"

lemma validations_simps [simp]:
  "validations_of [] = []" "validations_of (V_Validate n # tr) = n # validations_of tr"
  "validations_of (V_Retrying a b c # tr) = validations_of tr" "validations_of (V_Rerun n1 d # tr) = validations_of tr"
  "validations_of (xs @ ys) = validations_of xs @ validations_of ys"
  by (simp_all add: validations_of_def List.map_filter_def)

lemma rerun_no_validation: "validations_of (snd (rerun_tasks db run attempt command err ns outs)) = []"
  by (induction ns arbitrary: outs) (auto simp: Let_def case_prod_unfold split: option.splits)

definition passes :: "shell_result \<Rightarrow> bool" where
  "passes sh = is_ok (dispatch_validate sh)"

lemma passes_iff: "passes sh \<longleftrightarrow> (\<exists>out err. sh = Shell_Exit (Some 0) out err)"
  by (cases sh) (auto simp: passes_def)

lemma validate_result: "\<not> passes sh \<Longrightarrow> \<exists>e. dispatch_validate sh = Inl e"
  by (cases "dispatch_validate sh") (auto simp: passes_def)

lemma validate_ok: "passes sh \<Longrightarrow> dispatch_validate sh = Inr (Some (Single token_ok))"
  by (auto simp: passes_iff)

definition result_of :: "(string + node_output option) option \<times> validate_event list \<Rightarrow> bool option" where
  "result_of r = map_option is_ok (fst r)"

lemma validate_attempts_spec:
  assumes "attempts = [k..<Suc max_retries]" and "k \<le> max_retries" and "err = None \<or> tasks \<noteq> []"
    and "tasks \<noteq> []"
  shows "validations_of (snd (validate_attempts db hv run shell command max_retries tasks attempts outs err)) =
      upto_end (\<lambda>n. passes (shell n)) attempts \<and>
    result_of (validate_attempts db hv run shell command max_retries tasks attempts outs err) =
      Some (\<exists>n \<in> set attempts. passes (shell n))"
  using assms
proof (induction attempts arbitrary: k outs err)
  case Nil
  then show ?case by simp
next
  case (Cons n ns)
  have "[k..<Suc max_retries] = k # [Suc k..<Suc max_retries]" using Cons.prems(2) by (intro upt_conv_Cons) simp
  then have n: "n = k" and ns: "ns = [Suc k..<Suc max_retries]" using Cons.prems(1) by simp_all
  define outs1 where "outs1 = (case err of None \<Rightarrow> outs | Some e \<Rightarrow> fst (rerun_tasks db (run n) n command e tasks outs))"
  define pre where "pre = (case err of None \<Rightarrow> [] | Some e \<Rightarrow> V_Retrying n max_retries e # snd (rerun_tasks db (run n) n command e tasks outs))"
  have pre: "validations_of pre = []" by (simp add: pre_def rerun_no_validation split: option.split)
  show ?case
  proof (cases "passes (shell n)")
    case True
    then have "validate_attempts db hv run shell command max_retries tasks (n # ns) outs err =
        (Some (Inr (Some (validated_output hv outs1))), pre @ [V_Validate n])"
      using Cons.prems(4) by (simp add: validate_ok pre_def outs1_def case_prod_unfold split: option.split)
    then show ?thesis using True pre by (simp add: result_of_def)
  next
    case False
    then obtain e1 where e1: "dispatch_validate (shell n) = Inl e1" using validate_result by blast
    show ?thesis
    proof (cases "k = max_retries")
      case True
      have "validate_attempts db hv run shell command max_retries tasks (n # ns) outs err =
        (Some (Inl (''Validation failed after '' @ nat_text max_retries @ '' retries. Last error: '' @ e1)), pre @ [V_Validate n])"
        using Cons.prems(4) e1 True n by (simp add: pre_def case_prod_unfold split: option.split)
      then show ?thesis using False True pre ns by (simp add: result_of_def)
    next
      case less: False
      then have le: "Suc k \<le> max_retries" and nle: "\<not> max_retries \<le> n" using Cons.prems(2) n by simp_all
      note IH = Cons.IH [OF ns le, of "Some e1" outs1]
      have "validate_attempts db hv run shell command max_retries tasks (n # ns) outs err =
        (fst (validate_attempts db hv run shell command max_retries tasks ns outs1 (Some e1)),
         pre @ V_Validate n # snd (validate_attempts db hv run shell command max_retries tasks ns outs1 (Some e1)))"
        using Cons.prems(4) e1 nle by (simp add: pre_def outs1_def case_prod_unfold split: option.split)
      then show ?thesis using IH False pre Cons.prems(4) by (auto simp: result_of_def)
    qed
  qed
qed

text \<open>
  Validation never runs past its retries (the \<open>unreachable!()\<close> behind the loop is unreachable): the
  command is run for the attempts \<open>0, .., max_retries\<close> up to the first that exits with 0, and the node
  succeeds exactly if there is one. Without an upstream task to re-run a failed first validation is
  final, unless there are no retries at all the error says so.
\<close>

theorem validate_retry_spec:
  fixes db hv run shell n command max_retries
  defines "res \<equiv> dispatch_validate_with_retry db hv run shell n command max_retries"
  shows "(if find_upstream_tasks db n = [] then
      validations_of (snd res) = [0] \<and> result_of res = Some (passes (shell 0))
    else
      validations_of (snd res) = upto_end (\<lambda>k. passes (shell k)) [0..<Suc max_retries] \<and>
      result_of res = Some (\<exists>k \<in> {0..max_retries}. passes (shell k)))"
proof (cases "find_upstream_tasks db n = []")
  case True
  have u: "[0..<Suc max_retries] = 0 # [Suc 0..<Suc max_retries]" by (rule upt_conv_Cons) simp
  show ?thesis
  proof (cases "passes (shell 0)")
    case ok: True
    then show ?thesis
      by (simp add: True res_def dispatch_validate_with_retry_def u validate_ok result_of_def del: upt_Suc)
  next
    case False
    then obtain e1 where e1: "dispatch_validate (shell 0) = Inl e1" using validate_result by blast
    show ?thesis
    proof (cases "max_retries = 0")
      case zero: True
      then show ?thesis using e1 False by (simp add: True res_def dispatch_validate_with_retry_def result_of_def)
    next
      case pos: False
      then have u2: "[Suc 0..<Suc max_retries] = Suc 0 # [Suc (Suc 0)..<Suc max_retries]" by (intro upt_conv_Cons) simp
      show ?thesis using e1 False pos
        by (simp add: True res_def dispatch_validate_with_retry_def u u2 result_of_def del: upt_Suc)
    qed
  qed
next
  case False
  have s: "set [0..<Suc max_retries] = {0..max_retries}" by auto
  show ?thesis
    using validate_attempts_spec [of "[0..<Suc max_retries]" 0 max_retries None "find_upstream_tasks db n" db hv run shell command
        "seed_outputs db (find_upstream_tasks db n) Map.empty"] False s
    by (simp add: res_def dispatch_validate_with_retry_def Let_def del: upt_Suc)
qed

subsection \<open>The review gate\<close>

text \<open>
  The gate opens on the last answer: at a tick whose storage is the one in which the gate recorded
  its request, changed by any history of other requests and answers, the gate passes exactly if the
  last answer to its request was an approval, fails with the reason of the denial if it was a denial,
  and otherwise waits for the next input.
\<close>

theorem review_follows_last_answer:
  assumes "row_by aw_id uuid (lb_rows lb) = None" and "\<forall>op \<in> set ops. \<not> opens uuid op"
    and "dispatch_review g prompt tool_use uuid lb [] = (None, lb1)"
  shows "fst (dispatch_review g prompt tool_use uuid lb (Review_Tick (loopback_history ops lb1) # rest)) =
    (case decision uuid ops of
       (Approval_Approved, _) \<Rightarrow> Some (Inr (Some (Single token_ok)))
     | (Approval_Denied, m) \<Rightarrow> Some (Inl (''Review denied: '' @ (case m of None \<Rightarrow> [] | Some reason \<Rightarrow> reason)))
     | _ \<Rightarrow> fst (dispatch_review g prompt tool_use uuid lb rest))"
proof -
  let ?params = "(g, ''review'', tool_use, JObj [(''prompt'', JStr prompt)])"
  have lb1: "lb1 = open_approval ?params uuid lb"
    using assms(3) by (auto simp: dispatch_review_def open_approval_def split: prod.splits sum.splits)
  obtain r where c: "create_approval g ''review'' tool_use (JObj [(''prompt'', JStr prompt)]) uuid lb = (Inr r, lb1)" "ap_id r = uuid"
    using assms(1,3) by (auto simp: dispatch_review_def create_approval_def Let_def)
  obtain row where "get_approval (loopback_history ops lb1) uuid = Inr row" "decision uuid ops = (ap_status row, ap_message row)"
    using history_decides [OF assms(1,2), of ?params] get_approval_state [of uuid "loopback_history ops lb1"]
    by (auto simp: lb1 split: sum.splits)
  then show ?thesis using c by (simp add: dispatch_review_def split: approval_status.split)
qed

theorem review_follows_last_answer_witness:
  "fst (dispatch_review ''g'' ''ok?'' ''t'' ''r1'' empty_loopback
     [Review_Tick (loopback_history [Answer ''r1'' False (Some ''later''), Answer ''r1'' True None]
        (snd (dispatch_review ''g'' ''ok?'' ''t'' ''r1'' empty_loopback [])))]) = Some (Inr (Some (Single token_ok)))"
proof -
  have "row_by aw_id ''r1'' (lb_rows empty_loopback) = None" "fst (dispatch_review ''g'' ''ok?'' ''t'' ''r1'' empty_loopback []) = None"
    by code_simp+
  then show ?thesis
    using review_follows_last_answer [of "''r1''" empty_loopback "[Answer ''r1'' False (Some ''later''), Answer ''r1'' True None]"
        "''g''" "''ok?''" "''t''" "snd (dispatch_review ''g'' ''ok?'' ''t'' ''r1'' empty_loopback [])" "[]"]
    by (simp add: decision_def prod_eq_iff)
qed

end
