(* ===== verification/Loopback_Props.thy ===== *)
theory Loopback_Props
  imports Approval_Interface
begin

text \<open>Properties of the loopback activation.\<close>

subsection \<open>Which statuses are ever stored\<close>

inductive loopback_step :: "loopback \<Rightarrow> loopback \<Rightarrow> bool" where
  lb_create: "loopback_step lb (snd (create_approval session tool tool_use input uuid lb))"
| lb_resolve: "loopback_step lb (snd (resolve_approval aid b m lb))"
| lb_permit: "loopback_step lb (snd (permit_pass aid input elapsed lb))"
| lb_register: "loopback_step lb (register_tool_session tool_use session lb)"
| lb_remove: "loopback_step lb (remove_tool_mapping tool_use lb)"
| lb_notifier: "loopback_step lb (session_notifier session lb)"
| lb_drop_notifier: "loopback_step lb (remove_notifier session lb)"
| lb_parent: "loopback_step lb (register_session_parent child parent lb)"
| lb_time: "loopback_step lb (lb\<lparr>lb_clock := t\<rparr>)"

inductive loopback_reachable :: "loopback \<Rightarrow> bool" where
  lb_start: "loopback_reachable empty_loopback"
| lb_more: "loopback_reachable lb \<Longrightarrow> loopback_step lb lb' \<Longrightarrow> loopback_reachable lb'"

definition loopback_wf :: "loopback \<Rightarrow> bool" where
  "loopback_wf lb \<longleftrightarrow> distinct (map aw_id (lb_rows lb)) \<and>
     (\<forall>r \<in> set (lb_rows lb). (aw_status r = ''pending'' \<and> aw_resolved r = None \<and> aw_message r = None) \<or>
        (aw_status r \<in> {''approved'', ''denied''} \<and> aw_resolved r \<noteq> None))"

lemma wf_resolve:
  assumes "loopback_wf lb"
  shows "loopback_wf (snd (resolve_approval aid b m lb))"
proof -
  have "map aw_id (lb_rows (snd (resolve_approval aid b m lb))) = map aw_id (lb_rows lb)"
    unfolding rows_resolve by (rule map_key_update_where) simp
  then show ?thesis
    using assms by (auto simp: loopback_wf_def) (auto simp: rows_resolve set_update_where split: if_splits)
qed

lemma permit_pass_rows:
  "snd (permit_pass aid input elapsed lb) = (if 300 < elapsed then snd (resolve_approval aid False (Some ''Timed out'') lb) else lb)"
  by (simp add: permit_pass_def)

lemma loopback_step_wf: "loopback_step lb lb' \<Longrightarrow> loopback_wf lb \<Longrightarrow> loopback_wf lb'"
proof (induction rule: loopback_step.induct)
  case (lb_create lb session tool tool_use input uuid)
  then show ?case by (auto simp: loopback_wf_def rows_create row_by_None_iff)
next
  case (lb_permit lb aid input elapsed)
  then show ?case by (simp add: permit_pass_rows wf_resolve)
next
  case (lb_resolve lb aid b m)
  then show ?case by (simp add: wf_resolve)
qed (auto simp: loopback_wf_def register_tool_session_def remove_tool_mapping_def session_notifier_def
    remove_notifier_def register_session_parent_def split: option.splits)

text \<open>
  Approval records stay well formed: ids are unique, a record is pending without resolution time and
  message or approved/denied with one. No operation ever stores \<open>timed_out\<close>.
\<close>

theorem approvals_well_formed:
  assumes "loopback_reachable lb"
  shows "loopback_wf lb"
  using assms
proof induction
  case lb_start
  show ?case by (simp add: loopback_wf_def empty_loopback_def)
next
  case (lb_more lb lb')
  then show ?case by (blast intro: loopback_step_wf)
qed

definition demo_loopback :: loopback where
  "demo_loopback = snd (create_approval ''s'' ''bash'' ''t1'' JNull ''a1'' (session_notifier ''s'' empty_loopback))"

lemma demo_loopback_reachable: "loopback_reachable demo_loopback"
  unfolding demo_loopback_def by (intro lb_more [OF _ lb_create] lb_more [OF _ lb_notifier] lb_start)

theorem approvals_well_formed_witness: "loopback_wf demo_loopback \<and> length (lb_rows demo_loopback) = 1"
proof
  show "loopback_wf demo_loopback" by (rule approvals_well_formed [OF demo_loopback_reachable])
  show "length (lb_rows demo_loopback) = 1" by code_simp
qed

subsection \<open>The permission prompt\<close>

text \<open>
  C9. The prompt answers what the last responder said: after a permission request has been recorded
  under a new id, and after any history of further requests and answers, a pass of \<open>permit\<close> within its
  300 seconds allows exactly if the last answer to that id was an approval, denies with the responder's
  message if it was a denial, and keeps waiting if there was none.
\<close>

theorem permit_follows_last_answer:
  assumes "row_by aw_id aid (lb_rows lb) = None" and "\<forall>op \<in> set ops. \<not> opens aid op" and "elapsed \<le> 300"
  shows "fst (permit_pass aid input elapsed (loopback_history ops (open_approval r aid lb))) =
    (case decision aid ops of
       (Approval_Approved, _) \<Rightarrow> Some (allow_response input)
     | (Approval_Denied, m) \<Rightarrow> Some (deny_response (case m of None \<Rightarrow> ''Denied by parent'' | Some msg \<Rightarrow> msg))
     | (Approval_TimedOut, _) \<Rightarrow> Some (deny_response ''Approval timed out'')
     | (Approval_Pending, _) \<Rightarrow> None)"
proof -
  let ?lb = "loopback_history ops (open_approval r aid lb)"
  obtain row where "get_approval ?lb aid = Inr row" "decision aid ops = (ap_status row, ap_message row)"
    using history_decides [OF assms(1,2), of r] get_approval_state [of aid ?lb] by (auto split: sum.splits)
  then show ?thesis using assms(3) by (simp add: permit_pass_def split: approval_status.split)
qed

theorem permit_follows_last_answer_witness:
  "fst (permit_pass ''a2'' JNull 17 (loopback_history [Answer ''a1'' False None, Answer ''a2'' False (Some ''no''), Answer ''a2'' True None]
     (open_approval (''s'', ''bash'', ''t2'', JNull) ''a2'' demo_loopback))) = Some (allow_response JNull)"
proof -
  have "row_by aw_id ''a2'' (lb_rows demo_loopback) = None" by code_simp
  then show ?thesis
    using permit_follows_last_answer [of "''a2''" demo_loopback
        "[Answer ''a1'' False None, Answer ''a2'' False (Some ''no''), Answer ''a2'' True None]" 17 JNull] by (simp add: decision_def)
qed

text \<open>
  The timeout wins over an answer: a pass of \<open>permit\<close> after 300 seconds denies and overwrites the
  record as denied, also when the responder has been told that the request is approved.
\<close>

theorem permit_timeout_overrides:
  assumes "approval_state aid lb = Some st" and "300 < elapsed"
  shows "permit_pass aid input elapsed lb = (Some (deny_response ''Approval request timed out''), snd (permit_pass aid input elapsed lb)) \<and>
    approval_state aid (snd (permit_pass aid input elapsed lb)) = Some (Approval_Denied, Some ''Timed out'')"
  using lstore.answer_own [of aid lb False "Some ''Timed out''"] assms
  by (simp add: permit_pass_def answer_approval_def)

theorem permit_timeout_overrides_witness:
  "approval_state ''a1'' (answer_approval ''a1'' True None demo_loopback) = Some (Approval_Approved, None) \<and>
   fst (permit_pass ''a1'' JNull 301 (answer_approval ''a1'' True None demo_loopback)) = Some (deny_response ''Approval request timed out'')"
proof -
  have "approval_state ''a1'' (answer_approval ''a1'' True None demo_loopback) = Some (Approval_Approved, None)" by code_simp
  then show ?thesis
    using permit_timeout_overrides [of "''a1''" "answer_approval ''a1'' True None demo_loopback" _ 301 JNull]
    by (metis fst_conv less_add_one nat_1_add_1 numeral_plus_one semiring_norm(5))
qed

subsection \<open>Waiting for requests\<close>

definition child_of :: "loopback \<Rightarrow> string \<Rightarrow> string \<Rightarrow> bool" where
  "child_of lb child parent \<longleftrightarrow> lb_parents lb child = Some parent \<and>
     (case lb_children lb parent of None \<Rightarrow> False | Some cs \<Rightarrow> child \<in> set cs)"

text \<open>
  A recorded request is not missed: it is in the pending list of its session and of the session's
  registered parent, and the wake-up permits of both are set if they have a notifier.
\<close>

theorem request_reaches_waiters:
  assumes "create_approval session tool tool_use input uuid lb = (Inr a, lb')" and "child_of lb session parent"
  shows "a \<in> set (list_pending lb' (Some session)) \<and> a \<in> set (list_pending lb' (Some parent)) \<and>
    (lb_notifiers lb session \<noteq> None \<longrightarrow> lb_notifiers lb' session = Some True) \<and>
    (lb_notifiers lb parent \<noteq> None \<longrightarrow> lb_notifiers lb' parent = Some True)"
proof -
  let ?row = "\<lparr>aw_id = uuid, aw_session = session, aw_tool = tool, aw_tool_use = tool_use, aw_input = input,
                   aw_status = ''pending'', aw_message = None, aw_created = lb_clock lb, aw_resolved = None\<rparr>"
  let ?lb = "lb\<lparr>lb_rows := lb_rows lb @ [?row]\<rparr>"
  have lb': "lb' = notify_session session ?lb" and a: "a = row_to_approval ?row"
    using assms(1) by (auto simp: create_approval_def Let_def row_to_approval_def approval_status_of_str_def split: if_splits)
  have rows: "?row \<in> set (lb_rows lb')" by (simp add: lb')
  have ch: "lb_children lb' = lb_children lb"
    by (simp add: lb' notify_session_def notify_one_def Let_def split: option.split)
  obtain cs where "lb_children lb parent = Some cs" "session \<in> set cs"
    using assms(2) by (auto simp: child_of_def split: option.splits)
  then have "a \<in> set (list_pending lb' (Some session)) \<and> a \<in> set (list_pending lb' (Some parent))"
    using rows by (auto simp: a list_pending_def Let_def ch)
  moreover have "(lb_notifiers lb session \<noteq> None \<longrightarrow> lb_notifiers lb' session = Some True) \<and>
    (lb_notifiers lb parent \<noteq> None \<longrightarrow> lb_notifiers lb' parent = Some True)"
    using assms(2) by (auto simp: lb' child_of_def notify_session_def notify_one_def Let_def split: option.split)
  ultimately show ?thesis by blast
qed

definition family_loopback :: loopback where
  "family_loopback = register_session_parent ''c'' ''p'' (session_notifier ''p'' empty_loopback)"

theorem request_reaches_waiters_witness:
  "lb_notifiers (snd (create_approval ''c'' ''bash'' ''t'' JNull ''a'' family_loopback)) ''p'' = Some True"
proof -
  obtain r lb' where c: "create_approval ''c'' ''bash'' ''t'' JNull ''a'' family_loopback = (r, lb')" by fastforce
  have "is_ok (fst (create_approval ''c'' ''bash'' ''t'' JNull ''a'' family_loopback))"
    "child_of family_loopback ''c'' ''p''" "lb_notifiers family_loopback ''p'' \<noteq> None"
    by code_simp+
  then show ?thesis using request_reaches_waiters [of "''c''" "''bash''" "''t''" JNull "''a''" family_loopback _ lb' "''p''"] c
    by (cases r) auto
qed

end
