(* ===== verification/Arbor_Types.thy ===== *)
theory Arbor_Types
  imports Substrate_Text
begin

text \<open>
  The data of Arbor, the store of conversation trees: \<^verbatim>\<open>src/src/activations/arbor/types.rs\<close>. An
  \<open>ArborId\<close> is a UUID; the model keeps its text form, which is what every id column holds. A
  \<open>HashMap\<close> is the association list of its entries in iteration order. \<open>Tree::render\<close> slices texts at
  a byte offset, which panics inside a character, and recurses over children; its result is a \<open>comp\<close>:
  a value, a panic, or the use of more stack than the fuel allows.
\<close>

type_synonym arbor_id = string

subsection \<open>Nodes and trees\<close>

datatype arbor_node_type = Text_Node string | External_Node handle

datatype resource_state = Active | Scheduled_Delete | Archived

fun resource_state_str :: "resource_state \<Rightarrow> string" where
  "resource_state_str Active = ''active''"
| "resource_state_str Scheduled_Delete = ''scheduled_delete''"
| "resource_state_str Archived = ''archived''"

definition resource_state_of_str :: "string \<Rightarrow> resource_state option" where
  "resource_state_of_str s =
     (if s = ''active'' then Some Active
      else if s = ''scheduled_delete'' then Some Scheduled_Delete
      else if s = ''archived'' then Some Archived
      else None)"

lemma resource_state_of_str_str [simp]: "resource_state_of_str (resource_state_str s) = Some s"
  by (cases s) (simp_all add: resource_state_of_str_def)

text \<open>\<open>ResourceState::from_str(..).unwrap_or(ResourceState::Active)\<close>\<close>

definition read_state :: "string \<Rightarrow> resource_state" where
  "read_state s = (case resource_state_of_str s of Some st \<Rightarrow> st | None \<Rightarrow> Active)"

record resource_refs =
  rr_ref_count :: int
  rr_owners :: "(string \<times> int) list"

record arbor_node =
  an_id :: arbor_id
  an_parent :: "arbor_id option"
  an_children :: "arbor_id list"
  an_data :: arbor_node_type
  an_state :: "resource_state option"
  an_refs :: "resource_refs option"
  an_scheduled_at :: "int option"
  an_archived_at :: "int option"
  an_created_at :: int
  an_metadata :: "json option"

record arbor_tree =
  at_id :: arbor_id
  at_root :: arbor_id
  at_nodes :: "(arbor_id \<times> arbor_node) list"
  at_state :: "resource_state option"
  at_refs :: "resource_refs option"
  at_scheduled_at :: "int option"
  at_archived_at :: "int option"
  at_created_at :: int
  at_updated_at :: int
  at_metadata :: "json option"

definition tree_node :: "arbor_tree \<Rightarrow> arbor_id \<Rightarrow> arbor_node option" where
  "tree_node t i = map_of (at_nodes t) i"

subsection \<open>Skeletons\<close>

record node_skeleton =
  ns_id :: arbor_id
  ns_parent :: "arbor_id option"
  ns_children :: "arbor_id list"
  ns_node_type :: string

record tree_skeleton =
  ts_id :: arbor_id
  ts_root :: arbor_id
  ts_nodes :: "(arbor_id \<times> node_skeleton) list"
  ts_state :: "resource_state option"

definition node_skeleton_of :: "arbor_node \<Rightarrow> node_skeleton" where
  "node_skeleton_of n =
     \<lparr>ns_id = an_id n, ns_parent = an_parent n, ns_children = an_children n,
      ns_node_type = (case an_data n of Text_Node _ \<Rightarrow> ''text'' | External_Node _ \<Rightarrow> ''external'')\<rparr>"

definition tree_skeleton_of :: "arbor_tree \<Rightarrow> tree_skeleton" where
  "tree_skeleton_of t =
     \<lparr>ts_id = at_id t, ts_root = at_root t,
      ts_nodes = map (\<lambda>(i, n). (i, node_skeleton_of n)) (at_nodes t), ts_state = at_state t\<rparr>"

subsection \<open>Errors\<close>

datatype arbor_error =
    Tree_Not_Found arbor_id
  | Arbor_Node_Not_Found arbor_id arbor_id
  | Storage_Error string string
  | Invalid_State string
  | Init_Error string

text \<open>\<open>Display\<close>, and \<open>From<String>\<close>.\<close>

fun arbor_error_text :: "arbor_error \<Rightarrow> string" where
  "arbor_error_text (Tree_Not_Found t) = ''Tree not found: '' @ t"
| "arbor_error_text (Arbor_Node_Not_Found n t) = ''Node not found: '' @ n @ '' in tree '' @ t"
| "arbor_error_text (Storage_Error op d) = ''Storage error during '' @ op @ '': '' @ d"
| "arbor_error_text (Invalid_State m) = ''Invalid state: '' @ m"
| "arbor_error_text (Init_Error d) = ''Initialization error: '' @ d"

definition error_of_text :: "string \<Rightarrow> arbor_error" where
  "error_of_text m = Storage_Error ''unknown'' m"

subsection \<open>Computations that may panic or run out of stack\<close>

datatype 'a comp = Ret 'a | Panic | Out_Of_Fuel

fun bind_comp :: "'a comp \<Rightarrow> ('a \<Rightarrow> 'b comp) \<Rightarrow> 'b comp" where
  "bind_comp (Ret x) f = f x"
| "bind_comp Panic f = Panic"
| "bind_comp Out_Of_Fuel f = Out_Of_Fuel"

lemma bind_comp_cong [fundef_cong]:
  "m = m' \<Longrightarrow> (\<And>x. m' = Ret x \<Longrightarrow> f x = f' x) \<Longrightarrow> bind_comp m f = bind_comp m' f'"
  by (cases m') auto

lemma bind_comp_fuel: "bind_comp m f = Out_Of_Fuel \<longleftrightarrow> m = Out_Of_Fuel \<or> (\<exists>x. m = Ret x \<and> f x = Out_Of_Fuel)"
  by (cases m) auto

lemma bind_comp_panic: "bind_comp m f = Panic \<longleftrightarrow> m = Panic \<or> (\<exists>x. m = Ret x \<and> f x = Panic)"
  by (cases m) auto

lemma bind_comp_ret: "bind_comp m f = Ret y \<longleftrightarrow> (\<exists>x. m = Ret x \<and> f x = Ret y)"
  by (cases m) auto

subsection \<open>Rendering\<close>

text \<open>
  The drawing strings in UTF-8. \<open>last_connector\<close> and \<open>mid_connector\<close> are the two tree branches,
  \<open>mid_indent\<close> the vertical bar with three spaces, \<open>return_mark\<close> the sign that stands for a newline.
\<close>

definition last_connector :: string where
  "last_connector = [CHR 0xE2, CHR 0x94, CHR 0x94, CHR 0xE2, CHR 0x94, CHR 0x80, CHR 0xE2, CHR 0x94, CHR 0x80, CHR '' '']"

definition mid_connector :: string where
  "mid_connector = [CHR 0xE2, CHR 0x94, CHR 0x9C, CHR 0xE2, CHR 0x94, CHR 0x80, CHR 0xE2, CHR 0x94, CHR 0x80, CHR '' '']"

definition mid_indent :: string where
  "mid_indent = [CHR 0xE2, CHR 0x94, CHR 0x82] @ ''   ''"

definition return_mark :: string where
  "return_mark = [CHR 0xE2, CHR 0x86, CHR 0xB5]"

definition replace_newlines :: "string \<Rightarrow> string" where
  "replace_newlines s = concat (map (\<lambda>c. if c = CHR 0x0A then return_mark else [c]) s)"

text \<open>\<open>&s[..n]\<close> for \<open>n\<close> below the length of \<open>s\<close>: a panic when byte \<open>n\<close> continues a character.\<close>

definition slice_to :: "nat \<Rightarrow> string \<Rightarrow> string comp" where
  "slice_to n s = (if n < length s \<and> continuation (s ! n) then Panic else Ret (take n s))"

definition truncate_text :: "string \<Rightarrow> string comp" where
  "truncate_text s = (if 60 < length s then bind_comp (slice_to 57 s) (\<lambda>t. Ret (t @ ''...'')) else Ret s)"

definition node_content :: "(handle \<Rightarrow> string) \<Rightarrow> arbor_node \<Rightarrow> string comp" where
  "node_content show_handle n =
     (case an_data n of
        Text_Node s \<Rightarrow> bind_comp (truncate_text s) (\<lambda>t. Ret (replace_newlines t))
      | External_Node h \<Rightarrow> Ret (''['' @ show_handle h @ '']''))"

text \<open>
  \<open>show_handle\<close> is the \<open>Display\<close> of the foreign type \<open>Handle\<close>. \<open>fuel\<close> bounds the depth of the
  recursion.
\<close>

fun render_node :: "(handle \<Rightarrow> string) \<Rightarrow> arbor_tree \<Rightarrow> nat \<Rightarrow> arbor_id \<Rightarrow> string \<Rightarrow> bool \<Rightarrow> string comp"
  and render_children :: "(handle \<Rightarrow> string) \<Rightarrow> arbor_tree \<Rightarrow> nat \<Rightarrow> arbor_id list \<Rightarrow> string \<Rightarrow> string comp"
where
  "render_node sh t 0 i pre final = Out_Of_Fuel"
| "render_node sh t (Suc fuel) i pre final =
     (case tree_node t i of
        None \<Rightarrow> Ret []
      | Some n \<Rightarrow>
          bind_comp (node_content sh n) (\<lambda>content.
          bind_comp (render_children sh t fuel (an_children n) (pre @ (if final then ''    '' else mid_indent)))
            (\<lambda>below. Ret (pre @ (if final then last_connector else mid_connector) @ content @ newline @ below))))"
| "render_children sh t fuel [] pre = Ret []"
| "render_children sh t fuel (c # cs) pre =
     bind_comp (render_node sh t fuel c pre (cs = [])) (\<lambda>x.
     bind_comp (render_children sh t fuel cs pre) (\<lambda>y. Ret (x @ y)))"

definition tree_render :: "(handle \<Rightarrow> string) \<Rightarrow> nat \<Rightarrow> arbor_tree \<Rightarrow> string comp" where
  "tree_render sh fuel t = render_node sh t fuel (at_root t) [] True"

text \<open>The variant that shows resolved contents of external nodes.\<close>

definition resolved_content ::
  "(handle \<Rightarrow> string) \<Rightarrow> (arbor_id \<Rightarrow> string option) \<Rightarrow> arbor_id \<Rightarrow> arbor_node \<Rightarrow> string comp" where
  "resolved_content sh resolved i n =
     (case an_data n of
        Text_Node s \<Rightarrow> bind_comp (truncate_text s) (\<lambda>t. Ret (replace_newlines t))
      | External_Node h \<Rightarrow> Ret (case resolved i of Some s \<Rightarrow> s | None \<Rightarrow> ''['' @ sh h @ '']''))"

fun render_node_resolved ::
    "(handle \<Rightarrow> string) \<Rightarrow> (arbor_id \<Rightarrow> string option) \<Rightarrow> arbor_tree \<Rightarrow> nat \<Rightarrow> arbor_id \<Rightarrow> string \<Rightarrow> bool \<Rightarrow> string comp"
  and render_children_resolved ::
    "(handle \<Rightarrow> string) \<Rightarrow> (arbor_id \<Rightarrow> string option) \<Rightarrow> arbor_tree \<Rightarrow> nat \<Rightarrow> arbor_id list \<Rightarrow> string \<Rightarrow> string comp"
where
  "render_node_resolved sh res t 0 i pre final = Out_Of_Fuel"
| "render_node_resolved sh res t (Suc fuel) i pre final =
     (case tree_node t i of
        None \<Rightarrow> Ret []
      | Some n \<Rightarrow>
          bind_comp (resolved_content sh res i n) (\<lambda>content.
          bind_comp (render_children_resolved sh res t fuel (an_children n) (pre @ (if final then ''    '' else mid_indent)))
            (\<lambda>below. Ret (pre @ (if final then last_connector else mid_connector) @ content @ newline @ below))))"
| "render_children_resolved sh res t fuel [] pre = Ret []"
| "render_children_resolved sh res t fuel (c # cs) pre =
     bind_comp (render_node_resolved sh res t fuel c pre (cs = [])) (\<lambda>x.
     bind_comp (render_children_resolved sh res t fuel cs pre) (\<lambda>y. Ret (x @ y)))"

definition resolve_all :: "(handle \<Rightarrow> string) \<Rightarrow> arbor_tree \<Rightarrow> arbor_id \<Rightarrow> string option" where
  "resolve_all resolver t =
     map_of (concat (map (\<lambda>(i, n). case an_data n of External_Node h \<Rightarrow> [(i, resolver h)] | Text_Node _ \<Rightarrow> []) (at_nodes t)))"

definition tree_render_resolved :: "(handle \<Rightarrow> string) \<Rightarrow> (handle \<Rightarrow> string) \<Rightarrow> nat \<Rightarrow> arbor_tree \<Rightarrow> string comp" where
  "tree_render_resolved sh resolver fuel t =
     render_node_resolved sh (resolve_all resolver t) t fuel (at_root t) [] True"

end
