(* ===== verification/Arbor_Store.thy ===== *)
theory Arbor_Store
  imports Arbor_Types
begin

text \<open>
  The tables and operations of \<open>ArborStorage\<close>: \<^verbatim>\<open>src/src/activations/arbor/storage.rs\<close>.

  Every \<open>i64\<close> counter is an integer: the model does not speak of counts beyond 64 bits. A text column
  that holds JSON keeps the value that the text stands for. A new UUID and the time (\<open>ar_clock\<close>) come
  from outside. The queries that fail are those that a key of the schema refuses (foreign keys are on
  in \<open>sqlx\<close>); the text of such an error is the code's own prefix, the driver's message after it is
  not modelled. \<open>tree_create\<close>, \<open>tree_claim\<close> and \<open>tree_release\<close> run in a transaction: an error leaves
  the tables unchanged. The creation of a node does not.
\<close>

subsection \<open>Tables\<close>

record arbor_tree_row =
  tr_id :: arbor_id
  tr_root :: arbor_id
  tr_ref_count :: int
  tr_state :: string
  tr_scheduled_at :: "int option"
  tr_archived_at :: "int option"
  tr_created_at :: int
  tr_updated_at :: int
  tr_metadata :: "json option"

record arbor_ref_row =
  rf_resource :: arbor_id
  rf_owner :: string
  rf_count :: int
  rf_claimed_at :: int

record arbor_node_row =
  nr_id :: arbor_id
  nr_tree :: arbor_id
  nr_parent :: "arbor_id option"
  nr_ref_count :: int
  nr_state :: string
  nr_scheduled_at :: "int option"
  nr_archived_at :: "int option"
  nr_data :: arbor_node_type
  nr_created_at :: int
  nr_metadata :: "json option"

record arbor_child_row =
  nc_parent :: arbor_id
  nc_child :: arbor_id
  nc_position :: int

record arbor_db =
  ar_trees :: "arbor_tree_row list"
  ar_tree_refs :: "arbor_ref_row list"
  ar_nodes :: "arbor_node_row list"
  ar_node_refs :: "arbor_ref_row list"
  ar_children :: "arbor_child_row list"
  ar_clock :: int

definition empty_arbor :: "int \<Rightarrow> arbor_db" where
  "empty_arbor now = \<lparr>ar_trees = [], ar_tree_refs = [], ar_nodes = [], ar_node_refs = [], ar_children = [], ar_clock = now\<rparr>"

type_synonym 'a arbor_op = "arbor_db \<Rightarrow> (arbor_error, 'a, arbor_db) outcome"

definition tree_row :: "arbor_db \<Rightarrow> arbor_id \<Rightarrow> arbor_tree_row option" where
  "tree_row db t = row_by tr_id t (ar_trees db)"

definition node_row :: "arbor_db \<Rightarrow> arbor_id \<Rightarrow> arbor_node_row option" where
  "node_row db i = row_by nr_id i (ar_nodes db)"

definition ref_row :: "arbor_db \<Rightarrow> arbor_id \<Rightarrow> string \<Rightarrow> arbor_ref_row option" where
  "ref_row db t owner = row_by (\<lambda>r. (rf_resource r, rf_owner r)) (t, owner) (ar_tree_refs db)"

subsection \<open>Creating trees\<close>

definition tree_create_with_id :: "arbor_id option \<Rightarrow> json option \<Rightarrow> string \<Rightarrow> arbor_id \<Rightarrow> arbor_id \<Rightarrow> arbor_id arbor_op" where
  "tree_create_with_id tree_id metadata owner new_tree new_root db =
     (let t = (case tree_id of Some i \<Rightarrow> i | None \<Rightarrow> new_tree); now = ar_clock db in
      if tree_row db t \<noteq> None then (Inl (error_of_text ''Failed to create tree: ''), db)
      else if ref_row db t owner \<noteq> None then (Inl (error_of_text ''Failed to create tree ref: ''), db)
      else if node_row db new_root \<noteq> None then (Inl (error_of_text ''Failed to create root node: ''), db)
      else (Inr t,
        db\<lparr>ar_trees := ar_trees db @
              [\<lparr>tr_id = t, tr_root = new_root, tr_ref_count = 1, tr_state = ''active'', tr_scheduled_at = None,
                tr_archived_at = None, tr_created_at = now, tr_updated_at = now, tr_metadata = metadata\<rparr>],
           ar_tree_refs := ar_tree_refs db @
              [\<lparr>rf_resource = t, rf_owner = owner, rf_count = 1, rf_claimed_at = now\<rparr>],
           ar_nodes := ar_nodes db @
              [\<lparr>nr_id = new_root, nr_tree = t, nr_parent = None, nr_ref_count = 1, nr_state = ''active'',
                nr_scheduled_at = None, nr_archived_at = None, nr_data = Text_Node [], nr_created_at = now,
                nr_metadata = None\<rparr>]\<rparr>))"

definition tree_create :: "json option \<Rightarrow> string \<Rightarrow> arbor_id \<Rightarrow> arbor_id \<Rightarrow> arbor_id arbor_op" where
  "tree_create metadata owner = tree_create_with_id None metadata owner"

subsection \<open>Reading trees\<close>

definition refs_of :: "arbor_ref_row list \<Rightarrow> arbor_id \<Rightarrow> resource_refs" where
  "refs_of rows i =
     (let own = filter (\<lambda>r. rf_resource r = i) rows
      in \<lparr>rr_ref_count = sum_list (map rf_count own), rr_owners = map (\<lambda>r. (rf_owner r, rf_count r)) own\<rparr>)"

definition get_tree_refs :: "arbor_db \<Rightarrow> arbor_id \<Rightarrow> resource_refs" where
  "get_tree_refs db t = refs_of (ar_tree_refs db) t"

definition get_node_refs :: "arbor_db \<Rightarrow> arbor_id \<Rightarrow> resource_refs" where
  "get_node_refs db i = refs_of (ar_node_refs db) i"

definition get_node_children_internal :: "arbor_db \<Rightarrow> arbor_id \<Rightarrow> arbor_id list" where
  "get_node_children_internal db i =
     map nc_child (sort_key nc_position (filter (\<lambda>r. nc_parent r = i) (ar_children db)))"

definition node_of_row :: "arbor_db \<Rightarrow> arbor_node_row \<Rightarrow> arbor_node" where
  "node_of_row db r =
     \<lparr>an_id = nr_id r, an_parent = nr_parent r, an_children = get_node_children_internal db (nr_id r),
      an_data = nr_data r, an_state = Some (read_state (nr_state r)), an_refs = Some (get_node_refs db (nr_id r)),
      an_scheduled_at = nr_scheduled_at r, an_archived_at = nr_archived_at r, an_created_at = nr_created_at r,
      an_metadata = nr_metadata r\<rparr>"

definition get_nodes_for_tree :: "arbor_db \<Rightarrow> arbor_id \<Rightarrow> (arbor_id \<times> arbor_node) list" where
  "get_nodes_for_tree db t =
     map (\<lambda>r. (nr_id r, node_of_row db r)) (filter (\<lambda>r. nr_tree r = t) (ar_nodes db))"

definition tree_get_internal :: "arbor_db \<Rightarrow> arbor_id \<Rightarrow> bool \<Rightarrow> arbor_error + arbor_tree" where
  "tree_get_internal db t allow_archived =
     (case tree_row db t of
        None \<Rightarrow> Inl (Tree_Not_Found t)
      | Some r \<Rightarrow>
          let state = read_state (tr_state r) in
          if \<not> allow_archived \<and> state = Archived
          then Inl (Invalid_State (''Tree '' @ t @ '' is archived, use tree_get_archived()''))
          else Inr \<lparr>at_id = t, at_root = tr_root r, at_nodes = get_nodes_for_tree db t, at_state = Some state,
                    at_refs = Some (get_tree_refs db t), at_scheduled_at = tr_scheduled_at r,
                    at_archived_at = tr_archived_at r, at_created_at = tr_created_at r,
                    at_updated_at = tr_updated_at r, at_metadata = tr_metadata r\<rparr>)"

definition tree_get :: "arbor_db \<Rightarrow> arbor_id \<Rightarrow> arbor_error + arbor_tree" where
  "tree_get db t = tree_get_internal db t False"

definition tree_get_archived :: "arbor_db \<Rightarrow> arbor_id \<Rightarrow> arbor_error + arbor_tree" where
  "tree_get_archived db t = tree_get_internal db t True"

definition trees_in :: "arbor_db \<Rightarrow> string list \<Rightarrow> arbor_id list" where
  "trees_in db states = map tr_id (filter (\<lambda>r. tr_state r \<in> set states) (ar_trees db))"

definition tree_list :: "arbor_db \<Rightarrow> bool \<Rightarrow> arbor_id list" where
  "tree_list db include_scheduled =
     (if include_scheduled then trees_in db [''active'', ''scheduled_delete''] else trees_in db [''active''])"

definition tree_list_scheduled :: "arbor_db \<Rightarrow> arbor_id list" where
  "tree_list_scheduled db = trees_in db [''scheduled_delete'']"

definition tree_list_archived :: "arbor_db \<Rightarrow> arbor_id list" where
  "tree_list_archived db = trees_in db [''archived'']"

subsection \<open>The life of a tree\<close>

definition update_tree :: "arbor_id \<Rightarrow> (arbor_tree_row \<Rightarrow> arbor_tree_row) \<Rightarrow> arbor_db \<Rightarrow> arbor_db" where
  "update_tree t f db = db\<lparr>ar_trees := update_where (\<lambda>r. tr_id r = t) f (ar_trees db)\<rparr>"

definition tree_update_metadata :: "arbor_id \<Rightarrow> json \<Rightarrow> unit arbor_op" where
  "tree_update_metadata t metadata db =
     (Inr (), db\<lparr>ar_trees := update_where (\<lambda>r. tr_id r = t \<and> tr_state r = ''active'')
        (\<lambda>r. r\<lparr>tr_metadata := Some metadata, tr_updated_at := ar_clock db\<rparr>) (ar_trees db)\<rparr>)"

text \<open>\<open>INSERT .. ON CONFLICT(tree_id, owner_id) DO UPDATE SET count = count + excluded.count\<close>\<close>

definition upsert_ref :: "arbor_id \<Rightarrow> string \<Rightarrow> int \<Rightarrow> arbor_db \<Rightarrow> arbor_db" where
  "upsert_ref t owner count db =
     db\<lparr>ar_tree_refs :=
        (if ref_row db t owner = None
         then ar_tree_refs db @ [\<lparr>rf_resource = t, rf_owner = owner, rf_count = count, rf_claimed_at = ar_clock db\<rparr>]
         else update_where (\<lambda>r. rf_resource r = t \<and> rf_owner r = owner)
                (\<lambda>r. r\<lparr>rf_count := rf_count r + count, rf_claimed_at := ar_clock db\<rparr>) (ar_tree_refs db))\<rparr>"

definition read_ref_count :: "arbor_db \<Rightarrow> arbor_id \<Rightarrow> int" where
  "read_ref_count db t = (case tree_row db t of Some r \<Rightarrow> tr_ref_count r | None \<Rightarrow> 0)"

text \<open>The updates of the table of trees; a release adds the negated count.\<close>

definition reactivate :: "arbor_id \<Rightarrow> arbor_db \<Rightarrow> arbor_db" where
  "reactivate t db =
     update_tree t (\<lambda>r. r\<lparr>tr_state := ''active'', tr_scheduled_at := None, tr_updated_at := ar_clock db\<rparr>) db"

definition add_ref_count :: "arbor_id \<Rightarrow> int \<Rightarrow> arbor_db \<Rightarrow> arbor_db" where
  "add_ref_count t n db =
     update_tree t (\<lambda>r. r\<lparr>tr_ref_count := tr_ref_count r + n, tr_updated_at := ar_clock db\<rparr>) db"

definition schedule_deletion :: "arbor_id \<Rightarrow> arbor_db \<Rightarrow> arbor_db" where
  "schedule_deletion t db =
     update_tree t (\<lambda>r. r\<lparr>tr_state := ''scheduled_delete'', tr_scheduled_at := Some (ar_clock db), tr_updated_at := ar_clock db\<rparr>) db"

definition tree_claim :: "arbor_id \<Rightarrow> string \<Rightarrow> int \<Rightarrow> int arbor_op" where
  "tree_claim t owner count db =
     (case tree_row db t of
        None \<Rightarrow> (Inl (Tree_Not_Found t), db)
      | Some r \<Rightarrow>
          if read_state (tr_state r) = Archived
          then (Inl (Invalid_State (''Cannot claim archived tree '' @ t)), db)
          else let db1 = (if read_state (tr_state r) = Scheduled_Delete then reactivate t db else db);
                   db3 = add_ref_count t count (upsert_ref t owner count db1)
               in (Inr (read_ref_count db3 t), db3))"

definition int_text :: "int \<Rightarrow> string" where
  "int_text i = (if i < 0 then ''-'' @ nat_text (nat (- i)) else nat_text (nat i))"

text \<open>Update the row of an owner, or delete it when nothing is left.\<close>

definition write_ref :: "arbor_id \<Rightarrow> string \<Rightarrow> int \<Rightarrow> arbor_db \<Rightarrow> arbor_db" where
  "write_ref t owner new_count db =
     (let mine = (\<lambda>r. rf_resource r = t \<and> rf_owner r = owner)
      in db\<lparr>ar_tree_refs :=
              (if new_count = 0 then filter (\<lambda>r. \<not> mine r) (ar_tree_refs db)
               else update_where mine (\<lambda>r. r\<lparr>rf_count := new_count, rf_claimed_at := ar_clock db\<rparr>) (ar_tree_refs db))\<rparr>)"

definition tree_release :: "arbor_id \<Rightarrow> string \<Rightarrow> int \<Rightarrow> int arbor_op" where
  "tree_release t owner count db =
     (case ref_row db t owner of
        None \<Rightarrow> (Inl (error_of_text (''No reference found for owner '' @ owner)), db)
      | Some own \<Rightarrow>
          let current = rf_count own in
          if current < count
          then (Inl (error_of_text (''Cannot release '' @ int_text count @ '' references, owner only has '' @ int_text current)), db)
          else let db2 = add_ref_count t (- count) (write_ref t owner (current - count) db)
               in case tree_row db2 t of
                    None \<Rightarrow> (Inl (error_of_text ''Failed to fetch tree: ''), db)
                  | Some r \<Rightarrow> (Inr (tr_ref_count r), if tr_ref_count r = 0 then schedule_deletion t db2 else db2))"

definition cleanup_scheduled_trees :: "nat arbor_op" where
  "cleanup_scheduled_trees db =
     (let now = ar_clock db;
          due = (\<lambda>r. tr_state r = ''scheduled_delete'' \<and>
                      (case tr_scheduled_at r of Some at \<Rightarrow> at < now - 7 * 24 * 60 * 60 | None \<Rightarrow> False))
      in (Inr (count_where due (ar_trees db)),
          db\<lparr>ar_trees := update_where due
               (\<lambda>r. r\<lparr>tr_state := ''archived'', tr_archived_at := Some now, tr_updated_at := now\<rparr>) (ar_trees db)\<rparr>))"

subsection \<open>Creating nodes\<close>

definition next_position :: "arbor_db \<Rightarrow> arbor_id \<Rightarrow> int" where
  "next_position db p =
     (let ps = map nc_position (filter (\<lambda>r. nc_parent r = p) (ar_children db))
      in (if ps = [] then -1 else Max (set ps)) + 1)"

definition add_child_to_parent :: "arbor_id \<Rightarrow> arbor_id \<Rightarrow> unit arbor_op" where
  "add_child_to_parent p c db =
     (if node_row db p = None \<or> node_row db c = None \<or> (\<exists>r \<in> set (ar_children db). nc_parent r = p \<and> nc_child r = c)
      then (Inl (error_of_text ''Failed to add child to parent: ''), db)
      else (Inr (), db\<lparr>ar_children := ar_children db @ [\<lparr>nc_parent = p, nc_child = c, nc_position = next_position db p\<rparr>]\<rparr>))"

text \<open>The \<open>INSERT INTO nodes\<close> that the three constructors share; \<open>what\<close> is the prefix of their error.\<close>

definition insert_node :: "string \<Rightarrow> arbor_node_row \<Rightarrow> unit arbor_op" where
  "insert_node what row db =
     (if node_row db (nr_id row) \<noteq> None \<or> tree_row db (nr_tree row) = None then (Inl (error_of_text what), db)
      else (Inr (), db\<lparr>ar_nodes := ar_nodes db @ [row]\<rparr>))"

definition link_parent :: "arbor_id option \<Rightarrow> arbor_id \<Rightarrow> arbor_id arbor_op" where
  "link_parent parent i db =
     (case parent of
        None \<Rightarrow> (Inr i, db)
      | Some p \<Rightarrow> bind_res (add_child_to_parent p i db) (\<lambda>_ db. (Inr i, db)))"

definition node_create_text :: "arbor_id \<Rightarrow> arbor_id option \<Rightarrow> string \<Rightarrow> json option \<Rightarrow> arbor_id \<Rightarrow> arbor_id arbor_op" where
  "node_create_text t parent content metadata uuid db =
     bind_res (insert_node ''Failed to create text node: ''
       \<lparr>nr_id = uuid, nr_tree = t, nr_parent = parent, nr_ref_count = 1, nr_state = ''active'', nr_scheduled_at = None,
        nr_archived_at = None, nr_data = Text_Node content, nr_created_at = ar_clock db, nr_metadata = metadata\<rparr> db)
     (\<lambda>_ db. link_parent parent uuid db)"

definition node_create_external :: "arbor_id \<Rightarrow> arbor_id option \<Rightarrow> handle \<Rightarrow> json option \<Rightarrow> arbor_id \<Rightarrow> arbor_id arbor_op" where
  "node_create_external t parent h metadata uuid db =
     bind_res (insert_node ''Failed to create external node: ''
       \<lparr>nr_id = uuid, nr_tree = t, nr_parent = parent, nr_ref_count = 1, nr_state = ''active'', nr_scheduled_at = None,
        nr_archived_at = None, nr_data = External_Node h, nr_created_at = ar_clock db, nr_metadata = metadata\<rparr> db)
     (\<lambda>_ db. link_parent parent uuid db)"

definition node_create_external_ephemeral :: "arbor_id \<Rightarrow> arbor_id option \<Rightarrow> handle \<Rightarrow> json option \<Rightarrow> arbor_id \<Rightarrow> arbor_id arbor_op" where
  "node_create_external_ephemeral t parent h metadata uuid db =
     bind_res (insert_node ''Failed to create ephemeral external node: ''
       \<lparr>nr_id = uuid, nr_tree = t, nr_parent = parent, nr_ref_count = 0, nr_state = ''scheduled_delete'',
        nr_scheduled_at = Some (ar_clock db), nr_archived_at = None, nr_data = External_Node h,
        nr_created_at = ar_clock db, nr_metadata = metadata\<rparr> db)
     (\<lambda>_ db. link_parent parent uuid db)"

subsection \<open>Reading nodes\<close>

definition node_get :: "arbor_db \<Rightarrow> arbor_id \<Rightarrow> arbor_id \<Rightarrow> arbor_error + arbor_node" where
  "node_get db t i =
     (case map_of (get_nodes_for_tree db t) i of Some n \<Rightarrow> Inr n | None \<Rightarrow> Inl (Arbor_Node_Not_Found i t))"

definition node_get_children :: "arbor_db \<Rightarrow> arbor_id \<Rightarrow> arbor_id \<Rightarrow> arbor_id list" where
  "node_get_children db t i =
     map nr_id (filter (\<lambda>r. nr_tree r = t \<and> nr_parent r = Some i \<and> nr_state r = ''active'') (ar_nodes db))"

definition parent_in :: "arbor_db \<Rightarrow> arbor_id \<Rightarrow> arbor_id \<Rightarrow> arbor_id option option" where
  "parent_in db t i = map_option nr_parent (find (\<lambda>r. nr_tree r = t \<and> nr_id r = i) (ar_nodes db))"

definition node_get_parent :: "arbor_db \<Rightarrow> arbor_id \<Rightarrow> arbor_id \<Rightarrow> arbor_error + arbor_id option" where
  "node_get_parent db t i =
     (case parent_in db t i of None \<Rightarrow> Inl (Arbor_Node_Not_Found i t) | Some p \<Rightarrow> Inr p)"

text \<open>The loop of \<open>node_get_path\<close>; it need not end, \<open>None\<close> is a call that does not return.\<close>

partial_function (option) path_loop ::
  "arbor_db \<Rightarrow> arbor_id \<Rightarrow> arbor_id list \<Rightarrow> arbor_id option \<Rightarrow> (arbor_error + arbor_id list) option" where
  "path_loop db t path current =
     (if current = None then Some (Inr (rev path))
      else if isl (node_get_parent db t (the current)) then Some (Inl (projl (node_get_parent db t (the current))))
      else path_loop db t (path @ [the current]) (projr (node_get_parent db t (the current))))"

declare path_loop.simps [code]

lemma path_loop_cases:
  "path_loop db t path None = Some (Inr (rev path))"
  "path_loop db t path (Some i) =
     (case node_get_parent db t i of Inl e \<Rightarrow> Some (Inl e) | Inr p \<Rightarrow> path_loop db t (path @ [i]) p)"
  by (simp_all add: path_loop.simps [of db t path] split: sum.splits)

definition node_get_path :: "arbor_db \<Rightarrow> arbor_id \<Rightarrow> arbor_id \<Rightarrow> (arbor_error + arbor_id list) option" where
  "node_get_path db t i = path_loop db t [] (Some i)"

definition context_list_leaves :: "arbor_db \<Rightarrow> arbor_id \<Rightarrow> arbor_id list" where
  "context_list_leaves db t =
     (let parents = concat (map (\<lambda>r. if nr_tree r = t then (case nr_parent r of Some p \<Rightarrow> [p] | None \<Rightarrow> []) else []) (ar_nodes db))
      in map nr_id (filter (\<lambda>r. nr_tree r = t \<and> nr_state r = ''active'' \<and> nr_id r \<notin> set parents) (ar_nodes db)))"

text \<open>\<open>collect\<close> into a \<open>Result<Vec<_>, _>\<close>: the first error wins.\<close>

fun collect_nodes :: "arbor_id \<Rightarrow> (arbor_id \<times> arbor_node) list \<Rightarrow> arbor_id list \<Rightarrow> arbor_error + arbor_node list" where
  "collect_nodes t nodes [] = Inr []"
| "collect_nodes t nodes (i # ids) =
     (case map_of nodes i of
        None \<Rightarrow> Inl (Arbor_Node_Not_Found i t)
      | Some n \<Rightarrow> (case collect_nodes t nodes ids of Inl e \<Rightarrow> Inl e | Inr ns \<Rightarrow> Inr (n # ns)))"

definition context_get_path :: "arbor_db \<Rightarrow> arbor_id \<Rightarrow> arbor_id \<Rightarrow> (arbor_error + arbor_node list) option" where
  "context_get_path db t i =
     map_option (\<lambda>r. case r of Inl e \<Rightarrow> Inl e | Inr ids \<Rightarrow> collect_nodes t (get_nodes_for_tree db t) ids)
       (node_get_path db t i)"

definition handles_of :: "arbor_node list \<Rightarrow> handle list" where
  "handles_of ns = concat (map (\<lambda>n. case an_data n of External_Node h \<Rightarrow> [h] | Text_Node _ \<Rightarrow> []) ns)"

definition context_get_handles :: "arbor_db \<Rightarrow> arbor_id \<Rightarrow> arbor_id \<Rightarrow> (arbor_error + handle list) option" where
  "context_get_handles db t i =
     map_option (\<lambda>r. case r of Inl e \<Rightarrow> Inl e | Inr ns \<Rightarrow> Inr (handles_of ns)) (context_get_path db t i)"

subsection \<open>Queries by metadata\<close>

text \<open>
  Equality of \<open>serde_json\<close> values: objects as maps, doubles with the two zeros equal.
\<close>

fun number_eq :: "json_number \<Rightarrow> json_number \<Rightarrow> bool" where
  "number_eq (Int_Number i) (Int_Number j) = (i = j)"
| "number_eq (Float_Bits a) (Float_Bits b) = (a = b \<or> a \<in> {0, 2 ^ 63} \<and> b \<in> {0, 2 ^ 63})"
| "number_eq _ _ = False"

fun json_eq :: "json \<Rightarrow> json \<Rightarrow> bool" where
  "json_eq JNull JNull = True"
| "json_eq (JBool a) (JBool b) = (a = b)"
| "json_eq (JNum a) (JNum b) = number_eq a b"
| "json_eq (JStr a) (JStr b) = (a = b)"
| "json_eq (JArr xs) (JArr ys) = list_all2 json_eq xs ys"
| "json_eq (JObj f) (JObj g) =
     (length f = length g \<and>
      list_all (\<lambda>e. case map_of g (fst e) of None \<Rightarrow> False | Some v \<Rightarrow> json_eq (snd e) v) f)"
| "json_eq _ _ = False"

fun metadata_matches :: "json \<Rightarrow> json \<Rightarrow> bool" where
  "metadata_matches (JObj f) (JObj m) =
     list_all (\<lambda>e. case map_of m (fst e) of None \<Rightarrow> False | Some v \<Rightarrow> metadata_matches (snd e) v) f"
| "metadata_matches f m = json_eq f m"

definition tree_query_by_metadata :: "arbor_db \<Rightarrow> json \<Rightarrow> arbor_id list" where
  "tree_query_by_metadata db pattern =
     map tr_id (filter (\<lambda>r. tr_state r = ''active'' \<and>
       (case tr_metadata r of None \<Rightarrow> False | Some m \<Rightarrow> metadata_matches pattern m)) (ar_trees db))"

end
