(* ===== verification/Arbor_Invariant.thy ===== *)
theory Arbor_Invariant
  imports Arbor_Store
begin

text \<open>
  The reachable states of Arbor's tables. \<open>arbor_step\<close> is one call of a storage operation or a new
  reading of the clock; a fresh UUID is one that no row mentions. \<open>arbor_ok\<close> is kept by every step:
  keys are unique and references closed, the counter of a tree is the sum of what its owners hold,
  a node's parent is older than the node, and the children of a node are numbered in the order in
  which they came.
\<close>

subsection \<open>Steps\<close>

definition mentioned :: "arbor_db \<Rightarrow> arbor_id \<Rightarrow> bool" where
  "mentioned db u \<longleftrightarrow> (\<exists>r \<in> set (ar_nodes db). nr_id r = u \<or> nr_parent r = Some u)"

definition set_clock :: "int \<Rightarrow> arbor_db \<Rightarrow> arbor_db" where
  "set_clock now db = db\<lparr>ar_clock := now\<rparr>"

text \<open>\<open>sane\<close> says which counts the clients pass to \<open>tree_claim\<close> and \<open>tree_release\<close>.\<close>

inductive arbor_step :: "(int \<Rightarrow> bool) \<Rightarrow> arbor_db \<Rightarrow> arbor_db \<Rightarrow> bool" for sane where
  clock: "arbor_step sane db (set_clock now db)"
| create: "\<not> mentioned db u \<Longrightarrow> arbor_step sane db (snd (tree_create_with_id tree_id metadata owner new_tree u db))"
| metadata: "arbor_step sane db (snd (tree_update_metadata t m db))"
| claim: "sane n \<Longrightarrow> arbor_step sane db (snd (tree_claim t owner n db))"
| release: "sane n \<Longrightarrow> arbor_step sane db (snd (tree_release t owner n db))"
| cleanup: "arbor_step sane db (snd (cleanup_scheduled_trees db))"
| text_node: "\<not> mentioned db u \<Longrightarrow> parent \<noteq> Some u \<Longrightarrow>
    arbor_step sane db (snd (node_create_text t parent content m u db))"
| external_node: "\<not> mentioned db u \<Longrightarrow> parent \<noteq> Some u \<Longrightarrow>
    arbor_step sane db (snd (node_create_external t parent h m u db))"
| ephemeral_node: "\<not> mentioned db u \<Longrightarrow> parent \<noteq> Some u \<Longrightarrow>
    arbor_step sane db (snd (node_create_external_ephemeral t parent h m u db))"

definition arbor_reachable :: "(int \<Rightarrow> bool) \<Rightarrow> arbor_db \<Rightarrow> bool" where
  "arbor_reachable sane db \<longleftrightarrow> (\<exists>now. (arbor_step sane)\<^sup>*\<^sup>* (empty_arbor now) db)"

lemma arbor_reachable_induct:
  assumes "arbor_reachable sane db" and "\<And>now. P (empty_arbor now)"
    and "\<And>db db'. P db \<Longrightarrow> arbor_step sane db db' \<Longrightarrow> P db'"
  shows "P db"
proof -
  obtain now where "(arbor_step sane)\<^sup>*\<^sup>* (empty_arbor now) db"
    using assms(1) by (auto simp: arbor_reachable_def)
  then show ?thesis by (induction rule: rtranclp_induct) (use assms(2,3) in blast)+
qed

subsection \<open>Tables of trees and references\<close>

abbreviation ref_key :: "arbor_ref_row \<Rightarrow> arbor_id \<times> string" where
  "ref_key r \<equiv> (rf_resource r, rf_owner r)"

definition held :: "arbor_ref_row list \<Rightarrow> arbor_id \<Rightarrow> int" where
  "held rows t = sum_list (map rf_count (filter (\<lambda>r. rf_resource r = t) rows))"

lemma held_simps [simp]:
  "held [] t = 0"
  "held (r # rows) t = (if rf_resource r = t then rf_count r else 0) + held rows t"
  "held (xs @ ys) t = held xs t + held ys t"
  by (simp_all add: held_def)

lemma refs_of_count: "rr_ref_count (refs_of rows t) = held rows t"
  by (simp add: refs_of_def held_def Let_def)

lemma held_none: "\<forall>r \<in> set rows. rf_resource r \<noteq> t \<Longrightarrow> held rows t = 0"
  by (induction rows) auto

lemma held_update:
  assumes "distinct (map ref_key rows)" and "row_by ref_key (t, owner) rows = Some r"
    and "\<And>r. rf_resource (f r) = rf_resource r" and "rf_count (f r) = rf_count r + d"
  shows "held (update_where (\<lambda>r. rf_resource r = t \<and> rf_owner r = owner) f rows) t' =
    held rows t' + (if t = t' then d else 0)"
  using assms
proof (induction rows)
  case (Cons x rows)
  show ?case
  proof (cases "ref_key x = (t, owner)")
    case True
    then have "update_where (\<lambda>r. rf_resource r = t \<and> rf_owner r = owner) f rows = rows"
      using Cons.prems(1) by (intro update_where_id) (auto simp: rev_image_eqI)
    then show ?thesis using True Cons.prems by auto
  qed (use Cons in auto)
qed simp

lemma held_delete:
  assumes "distinct (map ref_key rows)" and "row_by ref_key (t, owner) rows = Some r"
  shows "held (filter (\<lambda>r. \<not> (rf_resource r = t \<and> rf_owner r = owner)) rows) t' =
    held rows t' - (if t = t' then rf_count r else 0)"
  using assms
proof (induction rows)
  case (Cons x rows)
  show ?case
  proof (cases "ref_key x = (t, owner)")
    case True
    then have "filter (\<lambda>r. \<not> (rf_resource r = t \<and> rf_owner r = owner)) rows = rows"
      using Cons.prems(1) by (intro filter_True) (auto simp: rev_image_eqI)
    then show ?thesis using True Cons.prems by auto
  qed (use Cons in auto)
qed simp

definition resource_states :: "string set" where
  "resource_states = {''active'', ''scheduled_delete'', ''archived''}"

definition ledger_ok :: "arbor_tree_row list \<Rightarrow> arbor_ref_row list \<Rightarrow> bool" where
  "ledger_ok trees refs \<longleftrightarrow>
     distinct (map tr_id trees) \<and> distinct (map ref_key refs) \<and>
     (\<forall>r \<in> set refs. rf_resource r \<in> tr_id ` set trees) \<and>
     (\<forall>r \<in> set trees. tr_state r \<in> resource_states \<and> tr_ref_count r = held refs (tr_id r))"

lemma ledger_update_trees:
  assumes "ledger_ok trees refs"
    and "\<And>r. tr_id (f r) = tr_id r" "\<And>r. tr_ref_count (f r) = tr_ref_count r"
    and "\<And>r. tr_state r \<in> resource_states \<Longrightarrow> tr_state (f r) \<in> resource_states"
  shows "ledger_ok (update_where p f trees) refs"
  using assms by (simp add: ledger_ok_def map_key_update_where image_key_update_where ball_update_where)

lemma ledger_count:
  assumes "ledger_ok trees refs"
    and "distinct (map ref_key refs')" and "\<forall>r \<in> set refs'. rf_resource r \<in> tr_id ` set trees"
    and "\<And>t'. held refs' t' = held refs t' + (if t = t' then d else 0)"
    and "\<And>r. tr_id (f r) = tr_id r" "\<And>r. tr_ref_count (f r) = tr_ref_count r + d" "\<And>r. tr_state (f r) = tr_state r"
  shows "ledger_ok (update_where (\<lambda>r. tr_id r = t) f trees) refs'"
  using assms by (simp add: ledger_ok_def map_key_update_where image_key_update_where ball_update_where)

lemma ledger_append:
  assumes "ledger_ok trees refs" and "tr_id row \<notin> tr_id ` set trees" and "rf_resource ref = tr_id row"
    and "tr_ref_count row = rf_count ref" and "tr_state row \<in> resource_states"
  shows "ledger_ok (trees @ [row]) (refs @ [ref])"
proof -
  have "\<forall>r \<in> set refs. rf_resource r \<noteq> tr_id row" using assms(1,2) unfolding ledger_ok_def by metis
  moreover from this have "held refs (tr_id row) = 0" by (rule held_none)
  ultimately show ?thesis using assms unfolding ledger_ok_def by auto
qed

subsection \<open>The node tables\<close>

text \<open>No row's parent is the row itself or a younger one.\<close>

fun parents_first :: "arbor_node_row list \<Rightarrow> bool" where
  "parents_first [] = True"
| "parents_first (r # rs) =
     ((\<forall>p. nr_parent r = Some p \<longrightarrow> p \<noteq> nr_id r \<and> p \<notin> nr_id ` set rs) \<and> parents_first rs)"

lemma parents_first_append:
  "parents_first (xs @ [r]) \<longleftrightarrow> parents_first xs \<and> (\<forall>x \<in> set xs. nr_parent x \<noteq> Some (nr_id r)) \<and> nr_parent r \<noteq> Some (nr_id r)"
  by (induction xs) auto

definition nodes_ok :: "arbor_tree_row list \<Rightarrow> arbor_node_row list \<Rightarrow> bool" where
  "nodes_ok trees nodes \<longleftrightarrow>
     distinct (map nr_id nodes) \<and> parents_first nodes \<and> (\<forall>r \<in> set nodes. nr_tree r \<in> tr_id ` set trees) \<and>
     (\<forall>t \<in> set trees. \<exists>r \<in> set nodes. nr_id r = tr_root t \<and> nr_tree r = tr_id t \<and> nr_parent r = None)"

definition children_ok :: "arbor_node_row list \<Rightarrow> arbor_child_row list \<Rightarrow> bool" where
  "children_ok nodes rows \<longleftrightarrow>
     distinct (map nc_child rows) \<and>
     (\<forall>c \<in> set rows. nc_parent c \<in> nr_id ` set nodes \<and> (\<exists>r \<in> set nodes. nr_id r = nc_child c \<and> nr_parent r = Some (nc_parent c))) \<and>
     (\<forall>p. map nc_position (filter (\<lambda>r. nc_parent r = p) rows) = map int [0..<count_where (\<lambda>r. nc_parent r = p) rows])"

definition arbor_ok :: "arbor_db \<Rightarrow> bool" where
  "arbor_ok db \<longleftrightarrow>
     ledger_ok (ar_trees db) (ar_tree_refs db) \<and> nodes_ok (ar_trees db) (ar_nodes db) \<and>
     children_ok (ar_nodes db) (ar_children db)"

lemma nodes_ok_trees:
  assumes "nodes_ok trees nodes"
    and "\<And>r. tr_id (f r) = tr_id r" "\<And>r. tr_root (f r) = tr_root r"
  shows "nodes_ok (update_where p f trees) nodes"
  using assms by (simp add: nodes_ok_def image_key_update_where ball_update_where)

lemma nodes_ok_append:
  assumes "nodes_ok trees nodes" and "\<forall>x \<in> set nodes. nr_id x \<noteq> nr_id r \<and> nr_parent x \<noteq> Some (nr_id r)"
    and "nr_parent r \<noteq> Some (nr_id r)" and "nr_tree r \<in> tr_id ` set trees"
  shows "nodes_ok trees (nodes @ [r])"
  using assms unfolding nodes_ok_def by (auto simp: parents_first_append)

lemma children_ok_nodes: "children_ok nodes rows \<Longrightarrow> children_ok (nodes @ [r]) rows"
  by (auto simp: children_ok_def)

lemma positions_max:
  assumes "children_ok (ar_nodes db) (ar_children db)"
  shows "next_position db p = int (count_where (\<lambda>r. nc_parent r = p) (ar_children db))"
proof -
  have "map nc_position (filter (\<lambda>r. nc_parent r = p) (ar_children db)) =
      map int [0..<count_where (\<lambda>r. nc_parent r = p) (ar_children db)]"
    using assms by (simp add: children_ok_def)
  moreover have "Max (set (map int [0..<Suc n])) = int n" for n
    by (intro Max_eqI) auto
  ultimately show ?thesis
    by (cases "count_where (\<lambda>r. nc_parent r = p) (ar_children db)") (simp_all add: next_position_def Let_def)
qed

lemma children_ok_append:
  assumes "children_ok nodes rows" and "nc_parent c \<in> nr_id ` set nodes" and "nc_child c \<notin> nc_child ` set rows"
    and "\<exists>r \<in> set nodes. nr_id r = nc_child c \<and> nr_parent r = Some (nc_parent c)"
    and "nc_position c = int (count_where (\<lambda>r. nc_parent r = nc_parent c) rows)"
  shows "children_ok nodes (rows @ [c])"
  using assms unfolding children_ok_def by simp

lemma node_row_iff: "node_row db i = None \<longleftrightarrow> i \<notin> nr_id ` set (ar_nodes db)"
  by (simp add: node_row_def row_by_None_iff)

lemma tree_row_iff: "tree_row db t = None \<longleftrightarrow> t \<notin> tr_id ` set (ar_trees db)"
  by (simp add: tree_row_def row_by_None_iff)

text \<open>The shared tail of the three node constructors.\<close>

lemma create_node_ok:
  assumes ok: "arbor_ok db" and fresh: "\<not> mentioned db u" and own: "parent \<noteq> Some u"
    and row: "nr_id row = u" "nr_parent row = parent"
  shows "arbor_ok (snd (bind_res (insert_node what row db) (\<lambda>_ db. link_parent parent u db)))"
proof (cases "tree_row db (nr_tree row) = None")
  case True
  then show ?thesis using ok by (simp add: insert_node_def)
next
  case False
  define db1 where "db1 = db\<lparr>ar_nodes := ar_nodes db @ [row]\<rparr>"
  have new: "\<forall>x \<in> set (ar_nodes db). nr_id x \<noteq> nr_id row \<and> nr_parent x \<noteq> Some (nr_id row)"
    using fresh row by (auto simp: mentioned_def)
  then have ins: "insert_node what row db = (Inr (), db1)"
    using False by (auto simp: insert_node_def db1_def node_row_iff)
  have ok1: "arbor_ok db1"
    using ok nodes_ok_append [of "ar_trees db" "ar_nodes db" row] new own row False
    by (auto simp: arbor_ok_def db1_def children_ok_nodes tree_row_iff)
  have old: "nr_id row \<notin> nc_child ` set (ar_children db1)"
    using ok new unfolding arbor_ok_def children_ok_def db1_def by fastforce
  show ?thesis
  proof (cases parent)
    case None
    then show ?thesis using ins ok1 by (simp add: link_parent_def)
  next
    case (Some p)
    have pos: "next_position db1 p = int (count_where (\<lambda>r. nc_parent r = p) (ar_children db1))"
      using ok1 by (intro positions_max) (simp add: arbor_ok_def)
    have here: "\<exists>r \<in> set (ar_nodes db1). nr_id r = nr_id row \<and> nr_parent r = Some p"
      using Some row by (auto simp: db1_def)
    show ?thesis
      using ok1 old here pos children_ok_append
        [of "ar_nodes db1" "ar_children db1" "\<lparr>nc_parent = p, nc_child = nr_id row, nc_position = next_position db1 p\<rparr>"]
      row by (auto simp: ins Some link_parent_def add_child_to_parent_def arbor_ok_def node_row_iff)
  qed
qed

subsection \<open>Every step keeps the tables in order\<close>

lemma clock_ok: "arbor_ok db \<Longrightarrow> arbor_ok (set_clock now db)"
  by (simp add: arbor_ok_def set_clock_def)

lemma create_ok:
  assumes "arbor_ok db" and "\<not> mentioned db u"
  shows "arbor_ok (snd (tree_create_with_id tree_id metadata owner new_tree u db))"
proof -
  let ?t = "case tree_id of Some i \<Rightarrow> i | None \<Rightarrow> new_tree"
  let ?row = "\<lparr>tr_id = ?t, tr_root = u, tr_ref_count = 1, tr_state = ''active'', tr_scheduled_at = None,
    tr_archived_at = None, tr_created_at = ar_clock db, tr_updated_at = ar_clock db, tr_metadata = metadata\<rparr>"
  let ?ref = "\<lparr>rf_resource = ?t, rf_owner = owner, rf_count = 1, rf_claimed_at = ar_clock db\<rparr>"
  have "tree_row db ?t = None \<Longrightarrow> ledger_ok (ar_trees db @ [?row]) (ar_tree_refs db @ [?ref])"
    using assms(1) by (intro ledger_append) (auto simp: arbor_ok_def tree_row_iff resource_states_def)
  then show ?thesis
    using assms unfolding tree_create_with_id_def Let_def arbor_ok_def
    by (auto simp: children_ok_nodes nodes_ok_def parents_first_append mentioned_def split: if_splits)
qed

lemma metadata_ok: "arbor_ok db \<Longrightarrow> arbor_ok (snd (tree_update_metadata t m db))"
  by (simp add: arbor_ok_def tree_update_metadata_def ledger_update_trees nodes_ok_trees)

lemma cleanup_ok: "arbor_ok db \<Longrightarrow> arbor_ok (snd (cleanup_scheduled_trees db))"
  by (simp add: arbor_ok_def cleanup_scheduled_trees_def Let_def ledger_update_trees nodes_ok_trees resource_states_def)

lemma upsert_key: "map ref_key (update_where p (\<lambda>r. r\<lparr>rf_count := g r, rf_claimed_at := now\<rparr>) rows) = map ref_key rows"
  by (rule map_key_update_where) simp

lemma state_updates_ok:
  "arbor_ok db \<Longrightarrow> arbor_ok (reactivate t db)"
  "arbor_ok db \<Longrightarrow> arbor_ok (schedule_deletion t db)"
  by (simp_all add: arbor_ok_def reactivate_def schedule_deletion_def update_tree_def ledger_update_trees
      nodes_ok_trees resource_states_def)

text \<open>Moving \<open>d\<close> references of one owner, together with the counter of the tree, keeps the ledger.\<close>

lemma move_refs_ok:
  assumes "arbor_ok db" and "distinct (map ref_key refs)" and "\<forall>r \<in> set refs. rf_resource r \<in> tr_id ` set (ar_trees db)"
    and "\<And>t'. held refs t' = held (ar_tree_refs db) t' + (if t = t' then d else 0)"
  shows "arbor_ok (add_ref_count t d (db\<lparr>ar_tree_refs := refs\<rparr>))"
  using assms ledger_count [OF _ assms(2-4)]
  by (simp add: arbor_ok_def add_ref_count_def update_tree_def nodes_ok_trees)

lemma claim_refs_ok:
  assumes "arbor_ok db" and "t \<in> tr_id ` set (ar_trees db)"
  shows "arbor_ok (add_ref_count t n (upsert_ref t owner n db))"
proof -
  let ?refs = "ar_tree_refs (upsert_ref t owner n db)"
  have led: "distinct (map ref_key (ar_tree_refs db))" "\<forall>r \<in> set (ar_tree_refs db). rf_resource r \<in> tr_id ` set (ar_trees db)"
    using assms(1) by (simp_all add: arbor_ok_def ledger_ok_def)
  have "distinct (map ref_key ?refs)"
    using led unfolding upsert_ref_def by (auto simp: upsert_key ref_row_def row_by_None_iff)
  moreover have "\<forall>r \<in> set ?refs. rf_resource r \<in> tr_id ` set (ar_trees db)"
    using led assms(2) unfolding upsert_ref_def by (simp add: ball_update_where)
  moreover have "held ?refs t' = held (ar_tree_refs db) t' + (if t = t' then n else 0)" for t'
    using held_update [OF led(1), of t owner _ "\<lambda>r. r\<lparr>rf_count := rf_count r + n, rf_claimed_at := ar_clock db\<rparr>" n t']
    unfolding upsert_ref_def ref_row_def
    by (cases "row_by ref_key (t, owner) (ar_tree_refs db)") auto
  moreover have "upsert_ref t owner n db = db\<lparr>ar_tree_refs := ?refs\<rparr>" by (simp add: upsert_ref_def)
  ultimately show ?thesis using move_refs_ok [OF assms(1), of ?refs t n] by metis
qed

lemma release_refs_ok:
  assumes "arbor_ok db" and "ref_row db t owner = Some own"
  shows "arbor_ok (add_ref_count t (- n) (write_ref t owner (rf_count own - n) db))"
proof -
  let ?refs = "ar_tree_refs (write_ref t owner (rf_count own - n) db)"
  have led: "distinct (map ref_key (ar_tree_refs db))" "\<forall>r \<in> set (ar_tree_refs db). rf_resource r \<in> tr_id ` set (ar_trees db)"
    using assms(1) by (simp_all add: arbor_ok_def ledger_ok_def)
  have row: "row_by ref_key (t, owner) (ar_tree_refs db) = Some own" using assms(2) by (simp add: ref_row_def)
  have "distinct (map ref_key ?refs)"
    using led by (simp add: write_ref_def Let_def upsert_key distinct_map_filter)
  moreover have "\<forall>r \<in> set ?refs. rf_resource r \<in> tr_id ` set (ar_trees db)"
    using led by (auto simp: write_ref_def Let_def ball_update_where)
  moreover have "held ?refs t' = held (ar_tree_refs db) t' + (if t = t' then - n else 0)" for t'
    using held_delete [OF led(1) row, of t']
      held_update [OF led(1) row, of "\<lambda>r. r\<lparr>rf_count := rf_count own - n, rf_claimed_at := ar_clock db\<rparr>" "- n" t']
    by (cases "t = t'") (simp_all add: write_ref_def Let_def)
  moreover have "write_ref t owner (rf_count own - n) db = db\<lparr>ar_tree_refs := ?refs\<rparr>" by (simp add: write_ref_def Let_def)
  ultimately show ?thesis using move_refs_ok [OF assms(1), of ?refs t "- n"] by metis
qed

lemma claim_ok:
  assumes "arbor_ok db"
  shows "arbor_ok (snd (tree_claim t owner n db))"
proof (cases "tree_row db t")
  case (Some r)
  then have "t \<in> tr_id ` set (ar_trees db)" using tree_row_iff [of db t] by auto
  moreover from this have "t \<in> tr_id ` set (ar_trees (reactivate t db))"
    by (simp add: reactivate_def update_tree_def image_key_update_where)
  ultimately show ?thesis
    using assms claim_refs_ok state_updates_ok(1) [OF assms] Some by (simp add: tree_claim_def Let_def)
qed (use assms in \<open>simp add: tree_claim_def\<close>)

lemma release_ok:
  assumes "arbor_ok db"
  shows "arbor_ok (snd (tree_release t owner n db))"
proof (cases "ref_row db t owner")
  case (Some own)
  have "arbor_ok (add_ref_count t (- n) (write_ref t owner (rf_count own - n) db))" (is "arbor_ok ?db2")
    by (rule release_refs_ok [OF assms Some])
  then show ?thesis
    using assms state_updates_ok(2) Some by (cases "tree_row ?db2 t") (simp_all add: tree_release_def Let_def)
qed (use assms in \<open>simp add: tree_release_def\<close>)

lemma arbor_step_ok: "arbor_step sane db db' \<Longrightarrow> arbor_ok db \<Longrightarrow> arbor_ok db'"
proof (induction rule: arbor_step.induct)
  case (text_node db u parent t content m)
  then show ?case unfolding node_create_text_def by (intro create_node_ok) simp_all
next
  case (external_node db u parent t h m)
  then show ?case unfolding node_create_external_def by (intro create_node_ok) simp_all
next
  case (ephemeral_node db u parent t h m)
  then show ?case unfolding node_create_external_ephemeral_def by (intro create_node_ok) simp_all
qed (simp_all add: clock_ok create_ok metadata_ok claim_ok release_ok cleanup_ok)

lemma empty_ok: "arbor_ok (empty_arbor now)"
  by (simp add: arbor_ok_def empty_arbor_def ledger_ok_def nodes_ok_def children_ok_def count_where_def)

lemma arbor_reachable_ok: "arbor_reachable sane db \<Longrightarrow> arbor_ok db"
  using arbor_reachable_induct [of sane db arbor_ok] empty_ok arbor_step_ok by blast

end
