(* ===== verification/Arbor_Life.thy ===== *)
theory Arbor_Life
  imports Arbor_Invariant
begin

text \<open>
  The life of a tree when clients claim and release positive counts only: active exactly while someone
  holds a reference, else scheduled for deletion or archived.
\<close>

subsection \<open>The life of a tree\<close>

definition life :: "arbor_tree_row \<Rightarrow> bool" where
  "life r \<longleftrightarrow>
     (tr_state r = ''active'' \<longrightarrow> 0 < tr_ref_count r \<and> tr_scheduled_at r = None) \<and>
     (tr_state r \<noteq> ''active'' \<longrightarrow> tr_ref_count r = 0 \<and> tr_scheduled_at r \<noteq> None) \<and>
     (tr_state r = ''archived'') = (tr_archived_at r \<noteq> None)"

definition lives_ok :: "arbor_db \<Rightarrow> bool" where
  "lives_ok db \<longleftrightarrow> (\<forall>r \<in> set (ar_tree_refs db). 0 < rf_count r) \<and> (\<forall>r \<in> set (ar_trees db). life r)"

lemma held_nonneg: "\<forall>r \<in> set rows. 0 < rf_count r \<Longrightarrow> 0 \<le> held rows t"
  by (induction rows) auto

lemma held_at_least: "\<forall>r \<in> set rows. 0 < rf_count r \<Longrightarrow> r \<in> set rows \<Longrightarrow> rf_resource r = t \<Longrightarrow> rf_count r \<le> held rows t"
proof (induction rows)
  case (Cons x rows)
  then show ?case using held_nonneg [of rows t] by auto
qed simp

lemma held_none_iff: "\<forall>r \<in> set rows. 0 < rf_count r \<Longrightarrow> held rows t = 0 \<longleftrightarrow> (\<forall>r \<in> set rows. rf_resource r \<noteq> t)"
  using held_at_least [of rows _ t] held_none [of rows t] by fastforce

lemma tree_unique:
  assumes "arbor_ok db" and "x \<in> set (ar_trees db)" and "y \<in> set (ar_trees db)" and "tr_id x = tr_id y"
  shows "x = y"
proof -
  have "distinct (map tr_id (ar_trees db))" using assms(1) unfolding arbor_ok_def ledger_ok_def by blast
  then have "inj_on tr_id (set (ar_trees db))" by (simp add: distinct_map)
  then show ?thesis using inj_onD [of tr_id "set (ar_trees db)" x y] assms(2-4) by blast
qed

lemma tree_row_in: "tree_row db t = Some r \<Longrightarrow> r \<in> set (ar_trees db) \<and> tr_id r = t"
  using row_by_Some_in [of tr_id t] by (simp add: tree_row_def)

lemma life_claim:
  assumes "arbor_ok db" and "lives_ok db" and "0 < n"
  shows "lives_ok (snd (tree_claim t owner n db))"
proof (cases "tree_row db t")
  case (Some r)
  then have r: "r \<in> set (ar_trees db)" "tr_id r = t" by (simp_all add: tree_row_in)
  have only: "x = r" if "x \<in> set (ar_trees db)" "tr_id x = t" for x
    using that r tree_unique [OF assms(1)] by blast
  have states: "tr_state r \<in> resource_states" using assms(1) r by (simp add: arbor_ok_def ledger_ok_def)
  have life_r: "life r" using assms(2) r by (simp add: lives_ok_def)
  show ?thesis
  proof (cases "read_state (tr_state r) = Archived")
    case False
    define db1 where "db1 = (if read_state (tr_state r) = Scheduled_Delete then reactivate t db else db)"
    have trees: "\<forall>x \<in> set (ar_trees (add_ref_count t n (upsert_ref t owner n db1))). life x"
      using only states False life_r assms(2,3)
      by (auto simp: db1_def lives_ok_def add_ref_count_def upsert_ref_def update_tree_def reactivate_def ball_update_where
          life_def read_state_def resource_state_of_str_def resource_states_def split: if_splits)
    have "\<forall>x \<in> set (ar_tree_refs db1). 0 < rf_count x"
      using assms(2) by (simp add: db1_def lives_ok_def reactivate_def update_tree_def)
    then have "\<forall>x \<in> set (ar_tree_refs (upsert_ref t owner n db1)). 0 < rf_count x"
      using assms(3) by (auto simp: upsert_ref_def ball_update_where)
    then have "lives_ok (add_ref_count t n (upsert_ref t owner n db1))"
      using trees by (simp add: lives_ok_def) (simp add: add_ref_count_def update_tree_def)
    then show ?thesis using Some False by (simp add: tree_claim_def Let_def db1_def)
  qed (use assms Some in \<open>simp add: tree_claim_def Let_def\<close>)
qed (use assms in \<open>simp add: tree_claim_def\<close>)

lemma life_release:
  assumes ok: "arbor_ok db" and lives: "lives_ok db" and "0 < n"
  shows "lives_ok (snd (tree_release t owner n db))"
proof (cases "ref_row db t owner")
  case (Some own)
  then have own: "own \<in> set (ar_tree_refs db)" "rf_resource own = t" using row_by_Some_in [of _ "(t, owner)"] by (fastforce simp: ref_row_def)+
  let ?db2 = "add_ref_count t (- n) (write_ref t owner (rf_count own - n) db)"
  show ?thesis
  proof (cases "rf_count own < n")
    case False
    have ok2: "arbor_ok ?db2" by (rule release_refs_ok [OF ok Some])
    have refs2: "\<forall>r \<in> set (ar_tree_refs ?db2). 0 < rf_count r"
      using lives False by (auto simp: lives_ok_def write_ref_def Let_def add_ref_count_def update_tree_def ball_update_where)
    have act: "tr_state r = ''active'' \<and> tr_scheduled_at r = None \<and> tr_archived_at r = None" if "r \<in> set (ar_trees db)" "tr_id r = t" for r
    proof -
      have "tr_ref_count r = held (ar_tree_refs db) t" using ok that by (simp add: arbor_ok_def ledger_ok_def)
      moreover have "rf_count own \<le> held (ar_tree_refs db) t" "0 < rf_count own"
        using held_at_least [of "ar_tree_refs db" own t] lives own by (simp_all add: lives_ok_def)
      ultimately show ?thesis using lives that by (auto simp: lives_ok_def life_def split: if_splits)
    qed
    have nonneg: "\<forall>r \<in> set (ar_trees ?db2). 0 \<le> tr_ref_count r"
      using ok2 held_nonneg [OF refs2] by (simp add: arbor_ok_def ledger_ok_def)
    have rest: "\<forall>r \<in> set (ar_trees ?db2). if tr_id r = t then tr_state r = ''active'' \<and> tr_scheduled_at r = None \<and> tr_archived_at r = None else life r"
      using act lives by (simp add: lives_ok_def write_ref_def Let_def add_ref_count_def update_tree_def ball_update_where)
    show ?thesis
    proof (cases "tree_row ?db2 t")
      case None
      then show ?thesis using Some False lives by (simp add: tree_release_def Let_def)
    next
      case (Some r)
      then have "r \<in> set (ar_trees ?db2)" "tr_id r = t" by (simp_all add: tree_row_in)
      then have only: "x = r" if "x \<in> set (ar_trees ?db2)" "tr_id x = t" for x
        using that tree_unique [OF ok2] by blast
      have "life x" if "x \<in> set (ar_trees ?db2)" "tr_ref_count r \<noteq> 0" for x
        using that rest nonneg only [OF that(1)] by (cases "tr_id x = t") (fastforce simp: life_def)+
      moreover have "\<forall>x \<in> set (ar_trees (schedule_deletion t ?db2)). life x" if "tr_ref_count r = 0"
      proof -
        have "life (if tr_id x = t then x\<lparr>tr_state := ''scheduled_delete'', tr_scheduled_at := Some now, tr_updated_at := now\<rparr> else x)"
          if "x \<in> set (ar_trees ?db2)" for x now
          using that \<open>tr_ref_count r = 0\<close> rest only [OF that] by (cases "tr_id x = t") (auto simp: life_def)
        then show ?thesis by (simp add: schedule_deletion_def update_tree_def ball_update_where del: if_split)
      qed
      ultimately show ?thesis
        using \<open>ref_row db t owner = Some own\<close> False Some refs2
        by (auto simp: tree_release_def Let_def lives_ok_def schedule_deletion_def update_tree_def)
    qed
  qed (use lives Some in \<open>simp add: tree_release_def Let_def\<close>)
qed (use lives in \<open>simp add: tree_release_def\<close>)

lemma lives_create: "lives_ok db \<Longrightarrow> lives_ok (snd (tree_create_with_id tree_id m owner new_tree u db))"
  by (auto simp: tree_create_with_id_def Let_def lives_ok_def life_def)

lemma lives_tables: "ar_trees db' = ar_trees db \<Longrightarrow> ar_tree_refs db' = ar_tree_refs db \<Longrightarrow> lives_ok db' = lives_ok db"
  by (simp add: lives_ok_def)

lemma create_node_trees:
  "ar_trees (snd (bind_res (insert_node what row db) (\<lambda>_ db. link_parent parent u db))) = ar_trees db"
  "ar_tree_refs (snd (bind_res (insert_node what row db) (\<lambda>_ db. link_parent parent u db))) = ar_tree_refs db"
  by (auto simp: insert_node_def link_parent_def add_child_to_parent_def split: option.splits)

lemma lives_clock: "lives_ok (set_clock now db) = lives_ok db"
  by (simp add: lives_ok_def set_clock_def)

lemma lives_node:
  "lives_ok (snd (node_create_text t parent content m u db)) = lives_ok db"
  "lives_ok (snd (node_create_external t parent h m u db)) = lives_ok db"
  "lives_ok (snd (node_create_external_ephemeral t parent h m u db)) = lives_ok db"
  by (simp_all add: node_create_text_def node_create_external_def node_create_external_ephemeral_def
      lives_tables [OF create_node_trees])

lemma lives_step:
  assumes "arbor_step (\<lambda>n. 0 < n) db db'" and "arbor_ok db" and "lives_ok db"
  shows "lives_ok db'"
  using assms
proof (induction rule: arbor_step.induct)
  case (metadata db t m)
  then show ?case by (auto simp: tree_update_metadata_def lives_ok_def ball_update_where life_def)
next
  case (cleanup db)
  then show ?case by (auto simp: cleanup_scheduled_trees_def Let_def lives_ok_def ball_update_where life_def split: option.splits)
qed (simp_all add: life_claim life_release lives_create lives_node lives_clock)

lemma reachable_lives: "arbor_reachable (\<lambda>n. 0 < n) db \<Longrightarrow> arbor_ok db \<and> lives_ok db"
proof (rule arbor_reachable_induct [of _ db "\<lambda>db. arbor_ok db \<and> lives_ok db"])
  fix now show "arbor_ok (empty_arbor now) \<and> lives_ok (empty_arbor now)"
    by (simp add: empty_ok) (simp add: lives_ok_def empty_arbor_def)
qed (auto intro: arbor_step_ok lives_step)

end
