(* ===== verification/Arbor_Views.thy ===== *)
theory Arbor_Views
  imports Arbor_Store
begin

text \<open>
  Views: trees that stand for ranges of other trees, \<^verbatim>\<open>src/src/activations/arbor/views.rs\<close>.
  \<open>parse_json\<close>/\<open>json_text\<close> are \<open>serde_json\<close>'s reader and writer and \<open>parse_uuid\<close> the reader of the
  \<open>uuid\<close> crate, arguments of the definitions that call them. The nodes of a tree are a \<open>HashMap\<close>: the
  helpers below walk the entries in the order of the tree's association list, whichever it is. The
  recursive traversal has fuel; \<open>None\<close> is a recursion that does not end.
\<close>

subsection \<open>Types\<close>

datatype collapse_type = Text_Merge | Structure_Ref | Custom_Collapse string

record range_handle =
  rh_tree :: arbor_id
  rh_start :: arbor_id
  rh_end :: arbor_id
  rh_collapse :: collapse_type

record text_run =
  tx_start :: arbor_id
  tx_end :: arbor_id
  tx_length :: nat
  tx_chars :: nat

datatype range_content =
    Range_Text string nat "arbor_id list"
  | Range_Reference arbor_id arbor_id arbor_id nat
  | Range_Custom string nat json

fun collapse_to_json :: "collapse_type \<Rightarrow> json" where
  "collapse_to_json Text_Merge = JObj [(''type'', JStr ''text_merge'')]"
| "collapse_to_json Structure_Ref = JObj [(''type'', JStr ''structure_ref'')]"
| "collapse_to_json (Custom_Collapse s) = JObj [(''type'', JStr ''custom''), (''strategy'', JStr s)]"

definition collapse_of_json :: "json \<Rightarrow> collapse_type option" where
  "collapse_of_json v =
     (case Option.bind (json_get ''type'' v) json_as_str of
        None \<Rightarrow> None
      | Some tag \<Rightarrow>
          if tag = ''text_merge'' then Some Text_Merge
          else if tag = ''structure_ref'' then Some Structure_Ref
          else if tag = ''custom'' then map_option Custom_Collapse (Option.bind (json_get ''strategy'' v) json_as_str)
          else None)"

definition range_to_json :: "range_handle \<Rightarrow> json" where
  "range_to_json h = JObj [(''tree_id'', JStr (rh_tree h)), (''start_node'', JStr (rh_start h)),
     (''end_node'', JStr (rh_end h)), (''collapse_type'', collapse_to_json (rh_collapse h))]"

definition range_to_metadata :: "range_handle \<Rightarrow> json" where
  "range_to_metadata h = JObj [(''range_handle'', range_to_json h)]"

definition range_from_metadata :: "(string \<Rightarrow> arbor_id option) \<Rightarrow> json \<Rightarrow> range_handle option" where
  "range_from_metadata parse_uuid metadata =
     Option.bind (json_get ''range_handle'' metadata) (\<lambda>obj.
     Option.bind (Option.bind (json_get ''tree_id'' obj) json_as_str) (\<lambda>t.
     Option.bind (Option.bind (json_get ''start_node'' obj) json_as_str) (\<lambda>a.
     Option.bind (Option.bind (json_get ''end_node'' obj) json_as_str) (\<lambda>b.
     Option.bind (parse_uuid t) (\<lambda>tree.
     Option.bind (parse_uuid a) (\<lambda>start.
     Option.bind (parse_uuid b) (\<lambda>end.
     Option.bind (Option.bind (json_get ''collapse_type'' obj) collapse_of_json) (\<lambda>c.
       Some \<lparr>rh_tree = tree, rh_start = start, rh_end = end, rh_collapse = c\<rparr>))))))))"

lemma collapse_json [simp]: "collapse_of_json (collapse_to_json c) = Some c"
  by (cases c) (simp_all add: collapse_of_json_def)

subsection \<open>Ranges\<close>

text \<open>The walk from the end of a range up to its start; \<open>None\<close> is a walk that does not end.\<close>

definition not_descendant :: "arbor_id \<Rightarrow> arbor_id \<Rightarrow> arbor_id \<Rightarrow> arbor_error" where
  "not_descendant b a t = Invalid_State
     (''end_node '' @ b @ '' is not a descendant of start_node '' @ a @ '' in tree '' @ t)"

definition range_parent :: "arbor_tree \<Rightarrow> arbor_id \<Rightarrow> arbor_id \<Rightarrow> arbor_id \<Rightarrow> arbor_error + arbor_id" where
  "range_parent tree a b i =
     (case tree_node tree i of
        None \<Rightarrow> Inl (Arbor_Node_Not_Found i (at_id tree))
      | Some n \<Rightarrow> (case an_parent n of None \<Rightarrow> Inl (not_descendant b a (at_id tree)) | Some p \<Rightarrow> Inr p))"

partial_function (option) range_loop ::
  "arbor_tree \<Rightarrow> arbor_id \<Rightarrow> arbor_id \<Rightarrow> arbor_id list \<Rightarrow> arbor_id \<Rightarrow> (arbor_error + arbor_id list) option" where
  "range_loop tree a b path i =
     (if i = a then Some (Inr (rev (path @ [a])))
      else if isl (range_parent tree a b i) then Some (Inl (projl (range_parent tree a b i)))
      else range_loop tree a b (path @ [i]) (projr (range_parent tree a b i)))"

declare range_loop.simps [code]

lemma range_loop_cases:
  "range_loop tree a b path i =
     (if i = a then Some (Inr (rev (path @ [a])))
      else case range_parent tree a b i of Inl e \<Rightarrow> Some (Inl e) | Inr p \<Rightarrow> range_loop tree a b (path @ [i]) p)"
  by (simp add: range_loop.simps [of tree a b path i] split: sum.splits)

text \<open>What one text node adds to the merged text.\<close>

definition merged_piece :: "(string \<Rightarrow> json option) \<Rightarrow> string \<Rightarrow> string" where
  "merged_piece parse_json content =
     (case parse_json content of
        Some v \<Rightarrow>
          if Option.bind (json_get ''type'' v) json_as_str = Some ''content_text''
          then (case Option.bind (json_get ''text'' v) json_as_str of Some s \<Rightarrow> s | None \<Rightarrow> [])
          else content
      | None \<Rightarrow> content)"

definition merged_text :: "(string \<Rightarrow> json option) \<Rightarrow> arbor_tree \<Rightarrow> arbor_id list \<Rightarrow> string" where
  "merged_text parse_json tree ids =
     concat (map (\<lambda>i. case tree_node tree i of
         Some n \<Rightarrow> (case an_data n of Text_Node s \<Rightarrow> merged_piece parse_json s | External_Node _ \<Rightarrow> [])
       | None \<Rightarrow> []) ids)"

definition range_in ::
  "(string \<Rightarrow> json option) \<Rightarrow> arbor_tree \<Rightarrow> arbor_id \<Rightarrow> arbor_id \<Rightarrow> collapse_type \<Rightarrow> (arbor_error + range_content) option" where
  "range_in parse_json tree a b c =
     map_option (\<lambda>r. case r of
         Inl e \<Rightarrow> Inl e
       | Inr ids \<Rightarrow>
           Inr (case c of
              Text_Merge \<Rightarrow> Range_Text (merged_text parse_json tree ids) (length ids) ids
            | Structure_Ref \<Rightarrow> Range_Reference (at_id tree) a b (length ids)
            | Custom_Collapse s \<Rightarrow> Range_Custom s (length ids)
                (JObj [(''tree_id'', JStr (at_id tree)), (''start'', JStr a), (''end'', JStr b)])))
       (range_loop tree a b [] b)"

definition range_get ::
  "(string \<Rightarrow> json option) \<Rightarrow> arbor_db \<Rightarrow> arbor_id \<Rightarrow> arbor_id \<Rightarrow> arbor_id \<Rightarrow> collapse_type \<Rightarrow> (arbor_error + range_content) option" where
  "range_get parse_json db t a b c =
     (case tree_get db t of Inl e \<Rightarrow> Some (Inl e) | Inr tree \<Rightarrow> range_in parse_json tree a b c)"

subsection \<open>Traversal\<close>

definition build_child_map :: "arbor_tree \<Rightarrow> arbor_id \<Rightarrow> arbor_id list" where
  "build_child_map tree p = map fst (filter (\<lambda>(i, n). an_parent n = Some p) (at_nodes tree))"

fun traverse_dfs_from :: "(arbor_id \<Rightarrow> arbor_id list) \<Rightarrow> nat \<Rightarrow> arbor_id \<Rightarrow> arbor_id list option"
  and traverse_dfs_all :: "(arbor_id \<Rightarrow> arbor_id list) \<Rightarrow> nat \<Rightarrow> arbor_id list \<Rightarrow> arbor_id list option" where
  "traverse_dfs_from children 0 i = None"
| "traverse_dfs_from children (Suc fuel) i = map_option ((#) i) (traverse_dfs_all children fuel (children i))"
| "traverse_dfs_all children fuel [] = Some []"
| "traverse_dfs_all children fuel (c # cs) =
     (case traverse_dfs_from children fuel c of
        None \<Rightarrow> None
      | Some xs \<Rightarrow> map_option (\<lambda>ys. xs @ ys) (traverse_dfs_all children fuel cs))"

definition first_root :: "arbor_tree \<Rightarrow> arbor_id option" where
  "first_root tree = map_option fst (find (\<lambda>(i, n). an_parent n = None) (at_nodes tree))"

definition traverse_tree_dfs :: "nat \<Rightarrow> arbor_tree \<Rightarrow> arbor_id list option" where
  "traverse_tree_dfs fuel tree =
     (case first_root tree of None \<Rightarrow> Some [] | Some r \<Rightarrow> traverse_dfs_from (build_child_map tree) fuel r)"

subsection \<open>Text runs\<close>

text \<open>The length in bytes of a text node, \<open>None\<close> for a node that is not one (the \<open>?\<close> of the closure).\<close>

definition text_length :: "(string \<Rightarrow> json option) \<Rightarrow> string \<Rightarrow> nat option" where
  "text_length parse_json content =
     (let plain = (if content = [] then None else Some (length content)) in
      case parse_json content of
        None \<Rightarrow> plain
      | Some v \<Rightarrow>
          (case Option.bind (json_get ''type'' v) json_as_str of
             None \<Rightarrow> None
           | Some tag \<Rightarrow>
               if tag = ''content_text''
               then map_option length (Option.bind (json_get ''text'' v) json_as_str)
               else plain))"

definition is_text_node :: "(string \<Rightarrow> json option) \<Rightarrow> arbor_tree \<Rightarrow> arbor_id \<Rightarrow> nat option" where
  "is_text_node parse_json tree i =
     (case tree_node tree i of
        None \<Rightarrow> None
      | Some n \<Rightarrow> (case an_data n of Text_Node s \<Rightarrow> text_length parse_json s | External_Node _ \<Rightarrow> None))"

type_synonym open_run = "(arbor_id \<times> arbor_id \<times> nat \<times> nat) option"

definition close_run :: "nat \<Rightarrow> open_run \<Rightarrow> text_run list" where
  "close_run min_length current =
     (case current of
        None \<Rightarrow> []
      | Some (a, b, count, chars) \<Rightarrow>
          if min_length \<le> count then [\<lparr>tx_start = a, tx_end = b, tx_length = count, tx_chars = chars\<rparr>] else [])"

fun run_step :: "(string \<Rightarrow> json option) \<Rightarrow> arbor_tree \<Rightarrow> nat \<Rightarrow> arbor_id \<Rightarrow> text_run list \<times> open_run \<Rightarrow> text_run list \<times> open_run" where
  "run_step parse_json tree m i (runs, current) =
     (case is_text_node parse_json tree i of
        None \<Rightarrow> (runs @ close_run m current, None)
      | Some chars \<Rightarrow>
          (case current of
             None \<Rightarrow> (runs, Some (i, i, 1, chars))
           | Some (a, b, count, sofar) \<Rightarrow>
               if Option.bind (tree_node tree i) an_parent = Some b
               then (runs, Some (a, i, count + 1, sofar + chars))
               else (runs @ close_run m current, Some (i, i, 1, chars))))"

definition runs_of :: "(string \<Rightarrow> json option) \<Rightarrow> arbor_tree \<Rightarrow> nat \<Rightarrow> arbor_id list \<Rightarrow> text_run list" where
  "runs_of parse_json tree m ids =
     (let (runs, current) = fold (run_step parse_json tree m) ids ([], None) in runs @ close_run m current)"

definition view_detect_text_runs ::
  "(string \<Rightarrow> json option) \<Rightarrow> nat \<Rightarrow> arbor_tree \<Rightarrow> nat \<Rightarrow> text_run list option" where
  "view_detect_text_runs parse_json fuel tree min_length =
     map_option (runs_of parse_json tree min_length) (traverse_tree_dfs fuel tree)"

subsection \<open>View trees\<close>

definition view_create :: "arbor_id \<Rightarrow> string \<Rightarrow> arbor_id \<Rightarrow> arbor_id \<Rightarrow> arbor_id arbor_op" where
  "view_create source owner new_tree new_root db =
     tree_create (Some (JObj [(''is_view'', JBool True), (''source_tree'', JStr source),
       (''created_at'', JNum (Int_Number (ar_clock db)))])) owner new_tree new_root db"

definition range_node_text :: "(json \<Rightarrow> string) \<Rightarrow> range_handle \<Rightarrow> range_content \<Rightarrow> string" where
  "range_node_text json_text h c =
     (case c of
        Range_Text content _ _ \<Rightarrow> json_text (JObj [(''type'', JStr ''content_text''), (''text'', JStr content)])
      | Range_Reference _ _ _ _ \<Rightarrow> json_text (range_to_json h)
      | Range_Custom _ _ metadata \<Rightarrow> json_text metadata)"

definition view_add_range ::
  "(string \<Rightarrow> json option) \<Rightarrow> (json \<Rightarrow> string) \<Rightarrow> arbor_id \<Rightarrow> arbor_id \<Rightarrow> range_handle \<Rightarrow> arbor_id \<Rightarrow> arbor_db \<Rightarrow>
     (arbor_error, arbor_id, arbor_db) outcome option" where
  "view_add_range parse_json json_text view parent h uuid db =
     (case range_get parse_json db (rh_tree h) (rh_start h) (rh_end h) (rh_collapse h) of
        None \<Rightarrow> None
      | Some (Inl e) \<Rightarrow> Some (Inl e, db)
      | Some (Inr c) \<Rightarrow>
          Some (node_create_text view (Some parent) (range_node_text json_text h c) (Some (range_to_metadata h)) uuid db))"

text \<open>The nodes of a run: down the first children from its start to its end.\<close>

fun run_nodes :: "(arbor_id \<Rightarrow> arbor_id list) \<Rightarrow> nat \<Rightarrow> arbor_id \<Rightarrow> arbor_id \<Rightarrow> arbor_id list" where
  "run_nodes children 0 b i = [i]"
| "run_nodes children (Suc fuel) b i =
     (if i = b then [i] else case children i of [] \<Rightarrow> [i] | c # _ \<Rightarrow> i # run_nodes children fuel b c)"

text \<open>
  One round of the loop of \<open>view_collapse_text_runs\<close> over the source nodes; \<open>new_id\<close> gives the UUID
  that is drawn in the round, the state carries the storage and the map from source to view nodes.
\<close>

definition collapse_round ::
  "(string \<Rightarrow> json option) \<Rightarrow> (json \<Rightarrow> string) \<Rightarrow> (arbor_id \<Rightarrow> arbor_id) \<Rightarrow> arbor_tree \<Rightarrow> arbor_tree \<Rightarrow> text_run list \<Rightarrow> arbor_id list \<Rightarrow>
     arbor_id \<Rightarrow> arbor_db \<times> (arbor_id \<Rightarrow> arbor_id option) \<Rightarrow> (arbor_db \<times> (arbor_id \<Rightarrow> arbor_id option)) option" where
  "collapse_round parse_json json_text new_id source view runs collapsed i st =
     (case st of (db, mapping) \<Rightarrow>
        let run = map_of (rev (map (\<lambda>r. (tx_start r, r)) runs)) i in
        if i \<in> set collapsed \<and> run = None then Some st
        else case tree_node source i of
          None \<Rightarrow> None
        | Some n \<Rightarrow>
            let parent = Option.bind (an_parent n) mapping;
                keep = (\<lambda>r db. case r of Inr v \<Rightarrow> (db, mapping(i \<mapsto> v)) | Inl _ \<Rightarrow> (db, mapping))
            in case run of
                 Some r \<Rightarrow>
                   map_option (\<lambda>(res, db). keep res db)
                     (view_add_range parse_json json_text (at_id view) (case parent of Some p \<Rightarrow> p | None \<Rightarrow> at_root view)
                        \<lparr>rh_tree = at_id source, rh_start = tx_start r, rh_end = tx_end r, rh_collapse = Text_Merge\<rparr> (new_id i) db)
               | None \<Rightarrow>
                   Some (case an_data n of
                      Text_Node s \<Rightarrow> (case node_create_text (at_id view) parent s (an_metadata n) (new_id i) db of (res, db) \<Rightarrow> keep res db)
                    | External_Node h \<Rightarrow> (case node_create_external (at_id view) parent h (an_metadata n) (new_id i) db of (res, db) \<Rightarrow> keep res db)))"

fun collapse_loop ::
  "(arbor_id \<Rightarrow> arbor_db \<times> (arbor_id \<Rightarrow> arbor_id option) \<Rightarrow> (arbor_db \<times> (arbor_id \<Rightarrow> arbor_id option)) option) \<Rightarrow>
     arbor_id list \<Rightarrow> arbor_db \<times> (arbor_id \<Rightarrow> arbor_id option) \<Rightarrow> (arbor_db \<times> (arbor_id \<Rightarrow> arbor_id option)) option" where
  "collapse_loop round [] st = Some st"
| "collapse_loop round (i # is) st = Option.bind (round i st) (collapse_loop round is)"

definition collapse_into ::
  "(string \<Rightarrow> json option) \<Rightarrow> (json \<Rightarrow> string) \<Rightarrow> (arbor_id \<Rightarrow> arbor_id) \<Rightarrow> nat \<Rightarrow> arbor_tree \<Rightarrow> arbor_tree \<Rightarrow> text_run list \<Rightarrow>
     arbor_db \<Rightarrow> arbor_db option" where
  "collapse_into parse_json json_text new_id fuel source view runs db =
     (let children = build_child_map source;
          collapsed = concat (map (\<lambda>r. run_nodes children fuel (tx_end r) (tx_start r)) runs);
          mapping = (case first_root source of Some r \<Rightarrow> [r \<mapsto> at_root view] | None \<Rightarrow> Map.empty)
      in case traverse_tree_dfs fuel source of
           None \<Rightarrow> None
         | Some order \<Rightarrow>
             map_option fst (collapse_loop (collapse_round parse_json json_text new_id source view runs collapsed) order (db, mapping)))"

text \<open>
  \<open>iter1\<close> and \<open>iter2\<close> are the iteration orders of the two copies of the source tree that the code loads.
\<close>

definition view_collapse_text_runs ::
  "(string \<Rightarrow> json option) \<Rightarrow> (json \<Rightarrow> string) \<Rightarrow> (arbor_tree \<Rightarrow> arbor_tree) \<Rightarrow> (arbor_tree \<Rightarrow> arbor_tree) \<Rightarrow>
     (arbor_id \<Rightarrow> arbor_id) \<Rightarrow> nat \<Rightarrow> arbor_id \<Rightarrow> nat \<Rightarrow> string \<Rightarrow> arbor_id \<Rightarrow> arbor_id \<Rightarrow> arbor_db \<Rightarrow>
     (arbor_error, arbor_id \<times> text_run list, arbor_db) outcome option" where
  "view_collapse_text_runs parse_json json_text iter1 iter2 new_id fuel source_id m owner new_tree new_root db =
     (case tree_get db source_id of
        Inl e \<Rightarrow> Some (Inl e, db)
      | Inr tree \<Rightarrow>
          (case view_detect_text_runs parse_json fuel (iter1 tree) m of
             None \<Rightarrow> None
           | Some runs \<Rightarrow>
               (case view_create source_id owner new_tree new_root db of
                  (Inl e, db1) \<Rightarrow> Some (Inl e, db1)
                | (Inr view_id, db1) \<Rightarrow>
                    (case (tree_get db1 source_id, tree_get db1 view_id) of
                       (Inr source, Inr view) \<Rightarrow>
                         map_option (\<lambda>db2. (Inr (view_id, runs), db2))
                           (collapse_into parse_json json_text new_id fuel (iter2 source) view runs db1)
                     | (Inl e, _) \<Rightarrow> Some (Inl e, db1)
                     | (_, Inl e) \<Rightarrow> Some (Inl e, db1)))))"

end
