(* ===== verification/Parent_Interface.thy ===== *)
theory Parent_Interface
  imports Substrate_Prelude
begin

text \<open>
  Walking up a parent relation, as the path queries of Arbor do it over the node table and the range
  queries over a tree in memory. \<open>par k\<close> is \<open>None\<close> for an unknown node, \<open>Some None\<close> for a root,
  \<open>Some (Some p)\<close> for a child of \<open>p\<close>.
\<close>

subsection \<open>Lineages\<close>

text \<open>
  The walk from \<open>k\<close> visits \<open>ks\<close>, \<open>k\<close> first, and ends at a root (\<open>None\<close>) or on an unknown node.
\<close>

inductive lineage :: "('k \<Rightarrow> 'k option option) \<Rightarrow> 'k \<Rightarrow> 'k list \<Rightarrow> 'k option \<Rightarrow> bool" for par where
  unknown: "par k = None \<Longrightarrow> lineage par k [] (Some k)"
| root: "par k = Some None \<Longrightarrow> lineage par k [k] None"
| child: "par k = Some (Some p) \<Longrightarrow> lineage par p ks m \<Longrightarrow> lineage par k (k # ks) m"

inductive_cases lineage_from: "lineage par k ks m"
inductive_simps lineage_unknown: "lineage par k [] m"

lemma lineage_unique: "lineage par k ks m \<Longrightarrow> lineage par k ks' m' \<Longrightarrow> ks = ks' \<and> m = m'"
proof (induction arbitrary: ks' m' rule: lineage.induct)
  case (unknown k)
  from unknown.prems unknown.hyps show ?case by (cases rule: lineage.cases) simp_all
next
  case (root k)
  from root.prems root.hyps show ?case by (cases rule: lineage.cases) simp_all
next
  case (child k p ks m)
  from child.prems child.hyps(1) obtain ks'' where "ks' = k # ks''" "lineage par p ks'' m'"
    by (cases rule: lineage.cases) simp_all
  with child.IH show ?case by blast
qed

lemma lineage_known: "lineage par k ks m \<Longrightarrow> j \<in> set ks \<Longrightarrow> par j \<noteq> None"
  by (induction rule: lineage.induct) auto

lemma lineage_missing: "lineage par k ks (Some j) \<Longrightarrow> par j = None"
  by (induction k ks "Some j" rule: lineage.induct) auto

lemma lineage_hd: "lineage par k ks m \<Longrightarrow> ks \<noteq> [] \<Longrightarrow> hd ks = k"
  by (erule lineage_from) simp_all

lemma lineage_last: "lineage par k ks None \<Longrightarrow> ks \<noteq> [] \<and> par (List.last ks) = Some None"
  by (induction k ks "None :: 'a option" rule: lineage.induct) auto

lemma lineage_step: "lineage par k ks m \<Longrightarrow> Suc i < length ks \<Longrightarrow> par (ks ! i) = Some (Some (ks ! Suc i))"
proof (induction arbitrary: i rule: lineage.induct)
  case (child k p ks m)
  from child.hyps(2) child.prems have "ks \<noteq> []" by auto
  then have "hd ks = p" "ks ! 0 = hd ks" using lineage_hd [OF child.hyps(2)] by (simp_all add: hd_conv_nth)
  then show ?case using child.hyps child.IH child.prems by (cases i) auto
qed auto

text \<open>The part of a lineage from an inner node on is that node's lineage.\<close>

lemma lineage_suffix: "lineage par k (xs @ j # ys) m \<Longrightarrow> lineage par j (j # ys) m"
proof (induction xs arbitrary: k)
  case (Cons x xs)
  from Cons.prems show ?case
    by (cases rule: lineage.cases) (use Cons.IH in auto)
next
  case Nil
  then have prem: "lineage par k (j # ys) m" by simp
  then have "k = j" by cases simp_all
  with prem show ?case by simp
qed

subsection \<open>The contract\<close>

locale parent_walk =
  fixes parent_of :: "'s \<Rightarrow> 'k \<Rightarrow> 'k option option" and inv :: "'s \<Rightarrow> bool" and rank :: "'s \<Rightarrow> 'k \<Rightarrow> nat"
  assumes rank_up: "inv s \<Longrightarrow> parent_of s k = Some (Some p) \<Longrightarrow> parent_of s p \<noteq> None \<Longrightarrow> rank s p < rank s k"
begin

lemma lineage_exists:
  assumes "inv s"
  shows "\<exists>ks m. lineage (parent_of s) k ks m"
proof (induction "rank s k" arbitrary: k rule: less_induct)
  case less
  consider "parent_of s k = None" | "parent_of s k = Some None"
    | p where "parent_of s k = Some (Some p)" by (cases "parent_of s k") auto
  then show ?case
  proof cases
    case (3 p)
    have "\<exists>ks m. lineage (parent_of s) p ks m"
      using less [OF rank_up [OF assms 3]] by (cases "parent_of s p") (auto intro: lineage.intros)
    then show ?thesis using 3 by (blast intro: lineage.intros)
  qed (blast intro: lineage.intros)+
qed

lemma lineage_ranks:
  "lineage (parent_of s) k ks m \<Longrightarrow> inv s \<Longrightarrow> sorted_wrt (\<lambda>i j. rank s j < rank s i) ks"
proof (induction rule: lineage.induct)
  case (child k p ks m)
  show ?case
  proof (cases "ks = []")
    case False
    then have "hd ks = p" "p \<in> set ks" using lineage_hd [OF child.hyps(2)] by auto
    then have "rank s p < rank s k" using rank_up [OF child.prems child.hyps(1)] lineage_known [OF child.hyps(2)] by blast
    moreover have "\<forall>j \<in> set ks. rank s j \<le> rank s p"
      using child.IH [OF child.prems] \<open>hd ks = p\<close> False by (cases ks) auto
    ultimately show ?thesis using child.IH [OF child.prems] by auto
  qed simp
qed simp_all

lemma lineage_distinct: "lineage (parent_of s) k ks m \<Longrightarrow> inv s \<Longrightarrow> distinct ks"
  by (drule (1) lineage_ranks, induction ks) auto

end

end
