(* ===== verification/Arbor_Paths.thy ===== *)
theory Arbor_Paths
  imports Arbor_Invariant Arbor_Views Parent_Interface
begin

text \<open>
  Walking the trees of a reachable store, up (paths and ranges) and down (rendering). The node table
  keeps the contract of \<^theory_text>\<open>parent_walk\<close>: the position of a row falls from a node to its parent.
\<close>

subsection \<open>Positions of rows\<close>

definition row_rank :: "arbor_db \<Rightarrow> arbor_id \<Rightarrow> nat" where
  "row_rank db i = length (takeWhile (\<lambda>r. nr_id r \<noteq> i) (ar_nodes db))"

lemma row_rank_le: "row_rank db i \<le> length (ar_nodes db)"
  by (simp add: row_rank_def length_takeWhile_le)

lemma parents_first_rank:
  assumes "parents_first rows" and "distinct (map nr_id rows)" and "r \<in> set rows" and "nr_parent r = Some p" and "p \<in> nr_id ` set rows"
  shows "length (takeWhile (\<lambda>x. nr_id x \<noteq> p) rows) < length (takeWhile (\<lambda>x. nr_id x \<noteq> nr_id r) rows)"
  using assms
proof (induction rows)
  case (Cons x rows)
  show ?case
  proof (cases "x = r")
    case True
    then show ?thesis using Cons.prems by auto
  next
    case False
    then have "nr_id x \<noteq> nr_id r" "r \<in> set rows" using Cons.prems by (auto simp: rev_image_eqI)
    then show ?thesis using Cons by (cases "nr_id x = p") auto
  qed
qed simp

lemma rank_parent:
  assumes "arbor_ok db" and "r \<in> set (ar_nodes db)" and "nr_parent r = Some p" and "p \<in> nr_id ` set (ar_nodes db)"
  shows "row_rank db p < row_rank db (nr_id r)"
  using assms parents_first_rank [of "ar_nodes db" r p] by (simp add: row_rank_def arbor_ok_def nodes_ok_def)

lemma find_in: "find P xs = Some x \<Longrightarrow> x \<in> set xs \<and> P x"
  by (auto simp: find_Some_iff)

lemma parent_in_row: "parent_in db t i = Some q \<Longrightarrow> \<exists>r \<in> set (ar_nodes db). nr_id r = i \<and> nr_tree r = t \<and> nr_parent r = q"
  by (auto simp: parent_in_def dest!: find_in)

interpretation stored: parent_walk "\<lambda>(db, t). parent_in db t" "\<lambda>(db, t). arbor_ok db" "\<lambda>(db, t). row_rank db"
proof (unfold_locales, clarsimp)
  fix db t i p q
  assume ok: "arbor_ok db" and "parent_in db t i = Some (Some p)" and known: "parent_in db t p = Some q"
  then obtain r where "r \<in> set (ar_nodes db)" "nr_id r = i" "nr_parent r = Some p" using parent_in_row by blast
  then show "row_rank db p < row_rank db i"
    using rank_parent [OF ok] parent_in_row [OF known] by blast
qed

subsection \<open>Paths\<close>

lemma path_loop_lineage:
  "lineage (parent_in db t) i ks m \<Longrightarrow>
     path_loop db t path (Some i) =
       Some (case m of None \<Rightarrow> Inr (rev (path @ ks)) | Some j \<Rightarrow> Inl (Arbor_Node_Not_Found j t))"
proof (induction arbitrary: path rule: lineage.induct)
  case (unknown k)
  then show ?case by (simp add: path_loop_cases node_get_parent_def)
next
  case (root k)
  then show ?case by (simp add: path_loop_cases node_get_parent_def)
next
  case (child k p ks m)
  then show ?case by (cases m) (simp_all add: path_loop_cases(2) [of db t path k] node_get_parent_def)
qed

lemma node_get_path_lineage:
  "lineage (parent_in db t) i ks m \<Longrightarrow>
     node_get_path db t i = Some (case m of None \<Rightarrow> Inr (rev ks) | Some j \<Rightarrow> Inl (Arbor_Node_Not_Found j t))"
  by (cases m) (simp_all add: node_get_path_def path_loop_lineage)

lemma node_get_path_ok:
  assumes "arbor_ok db" and "node_get_path db t i = Some (Inr path)"
  shows "lineage (parent_in db t) i (rev path) None"
proof -
  obtain ks m where "lineage (parent_in db t) i ks m"
    using stored.lineage_exists [of "(db, t)" i] assms(1) by auto
  then show ?thesis using assms(2) node_get_path_lineage [of db t i ks m] by (cases m) auto
qed

subsection \<open>The tree in memory\<close>

lemma tree_get_internal_nodes:
  "tree_get_internal db t b = Inr tree \<Longrightarrow> at_nodes tree = get_nodes_for_tree db t \<and> at_id tree = t"
  by (auto simp: tree_get_internal_def Let_def split: option.splits if_splits)

lemma map_of_rows:
  "map_of (map (\<lambda>r. (nr_id r, node_of_row db r)) (filter (\<lambda>r. nr_tree r = t) rows)) i =
     map_option (node_of_row db) (find (\<lambda>r. nr_tree r = t \<and> nr_id r = i) rows)"
  by (induction rows) auto

lemma tree_node_row:
  "tree_get_internal db t b = Inr tree \<Longrightarrow>
     tree_node tree i = map_option (node_of_row db) (find (\<lambda>r. nr_tree r = t \<and> nr_id r = i) (ar_nodes db))"
  by (simp add: tree_node_def tree_get_internal_nodes get_nodes_for_tree_def map_of_rows)

lemma tree_node_parent:
  "tree_get_internal db t b = Inr tree \<Longrightarrow> map_option an_parent (tree_node tree i) = parent_in db t i"
  by (simp add: tree_node_row parent_in_def node_of_row_def option.map_comp comp_def)

subsection \<open>Ranges\<close>

lemma range_loop_lineage:
  assumes "\<And>i. map_option an_parent (tree_node tree i) = par i"
  shows "lineage par i ks m \<Longrightarrow>
     range_loop tree a b path i =
       (if a \<in> set ks then Some (Inr (rev (path @ takeWhile (\<lambda>k. k \<noteq> a) ks @ [a])))
        else case m of
          None \<Rightarrow> Some (Inl (not_descendant b a (at_id tree)))
        | Some j \<Rightarrow> if j = a then Some (Inr (rev (path @ ks @ [a]))) else Some (Inl (Arbor_Node_Not_Found j (at_id tree))))"
proof (induction arbitrary: path rule: lineage.induct)
  case (unknown k)
  then have "tree_node tree k = None" using assms [of k] by simp
  then show ?case by (simp add: range_loop_cases [of tree a b path k] range_parent_def)
next
  case (root k)
  then obtain n where "tree_node tree k = Some n" "an_parent n = None" using assms [of k] by auto
  then show ?case by (simp add: range_loop_cases [of tree a b path k] range_parent_def)
next
  case (child k p ks m)
  then obtain n where "tree_node tree k = Some n" "an_parent n = Some p" using assms [of k] by auto
  then show ?case using child.IH [of "path @ [k]"]
    by (simp add: range_loop_cases [of tree a b path k] range_parent_def split: option.splits)
qed

subsection \<open>Children\<close>

lemma sort_key_positions:
  "map f xs = map int [0..<length xs] \<Longrightarrow> sort_key f xs = xs"
proof -
  assume f: "map f xs = map int [0..<length xs]"
  have "sorted (map int [0..<n])" for n by (induction n) (auto simp: sorted_append)
  then have "sorted (map f xs)" using f by metis
  then show ?thesis by (rule sort_key_id_if_sorted)
qed

lemma children_arrival:
  "arbor_ok db \<Longrightarrow> get_node_children_internal db p = map nc_child (filter (\<lambda>r. nc_parent r = p) (ar_children db))"
  unfolding get_node_children_internal_def
  by (subst sort_key_positions) (simp_all add: arbor_ok_def children_ok_def count_where_def)

lemma child_rank:
  assumes ok: "arbor_ok db" and "c \<in> set (get_node_children_internal db p)"
  shows "row_rank db p < row_rank db c"
proof -
  obtain e where e: "e \<in> set (ar_children db)" "nc_parent e = p" "nc_child e = c"
    using assms(2) by (auto simp: children_arrival [OF ok])
  then obtain r where "r \<in> set (ar_nodes db)" "nr_id r = c" "nr_parent r = Some p" "p \<in> nr_id ` set (ar_nodes db)"
    using ok unfolding arbor_ok_def children_ok_def by blast
  then show ?thesis using rank_parent [OF ok] by blast
qed

subsection \<open>Rendering\<close>

lemma node_content_fuel: "node_content sh n \<noteq> Out_Of_Fuel"
  by (auto simp: node_content_def truncate_text_def slice_to_def bind_comp_fuel split: arbor_node_type.splits if_splits)

lemma render_children_fuel:
  "(\<And>c pre final. c \<in> set cs \<Longrightarrow> render_node sh tree fuel c pre final \<noteq> Out_Of_Fuel) \<Longrightarrow>
     render_children sh tree fuel cs pre \<noteq> Out_Of_Fuel"
  by (induction cs) (auto simp: bind_comp_fuel)

text \<open>\<open>deep\<close> measures how far below a node the rendering can go.\<close>

lemma render_enough_fuel:
  assumes "\<And>i n c. tree_node tree i = Some n \<Longrightarrow> c \<in> set (an_children n) \<Longrightarrow> deep c < (deep i :: nat)"
  shows "deep i < fuel \<Longrightarrow> render_node sh tree fuel i pre final \<noteq> Out_Of_Fuel"
proof (induction fuel arbitrary: i pre final)
  case (Suc fuel)
  have below: "render_children sh tree fuel (an_children n) pre' \<noteq> Out_Of_Fuel" if "tree_node tree i = Some n" for n pre'
    using assms [OF that] Suc by (intro render_children_fuel) fastforce
  then show ?case by (auto simp: bind_comp_fuel node_content_fuel split: option.splits)
qed simp

text \<open>
  The nodes that a rendering from a node shows, and those among them that it cannot cut: a text of more
  than 60 bytes whose byte 57 continues a character.
\<close>

definition tree_links :: "arbor_tree \<Rightarrow> (arbor_id \<times> arbor_id) set" where
  "tree_links tree = {(i, c). \<exists>n. tree_node tree i = Some n \<and> c \<in> set (an_children n)}"

definition cut_splits_char :: "arbor_tree \<Rightarrow> arbor_id \<Rightarrow> bool" where
  "cut_splits_char tree i \<longleftrightarrow>
     (\<exists>n s. tree_node tree i = Some n \<and> an_data n = Text_Node s \<and> 60 < length s \<and> continuation (s ! 57))"

lemma node_content_panic: "tree_node tree i = Some n \<Longrightarrow> node_content sh n = Panic \<longleftrightarrow> cut_splits_char tree i"
  by (auto simp: node_content_def truncate_text_def slice_to_def cut_splits_char_def split: arbor_node_type.splits)

lemma render_children_panic:
  assumes "\<And>c pre final. c \<in> set cs \<Longrightarrow> render_node sh tree fuel c pre final \<noteq> Out_Of_Fuel"
    and "\<And>c pre final. c \<in> set cs \<Longrightarrow> render_node sh tree fuel c pre final = Panic \<longleftrightarrow> bad c"
  shows "render_children sh tree fuel cs pre = Panic \<longleftrightarrow> (\<exists>c \<in> set cs. bad c)"
  using assms
proof (induction cs)
  case (Cons c cs)
  have "render_node sh tree fuel c pre (cs = []) \<noteq> Out_Of_Fuel"
    and "render_node sh tree fuel c pre (cs = []) = Panic \<longleftrightarrow> bad c"
    and "render_children sh tree fuel cs pre = Panic \<longleftrightarrow> (\<exists>c \<in> set cs. bad c)"
    using Cons by simp_all
  then show ?case
    by (cases "render_node sh tree fuel c pre (cs = [])") (simp_all add: bind_comp_panic)
qed simp

text \<open>With enough fuel a rendering panics exactly when it comes to such a node.\<close>

lemma render_panic_iff:
  assumes "\<And>i n c. tree_node tree i = Some n \<Longrightarrow> c \<in> set (an_children n) \<Longrightarrow> deep c < (deep i :: nat)"
  shows "deep i < fuel \<Longrightarrow>
    render_node sh tree fuel i pre final = Panic \<longleftrightarrow> (\<exists>j. (i, j) \<in> (tree_links tree)\<^sup>* \<and> cut_splits_char tree j)"
proof (induction fuel arbitrary: i pre final)
  case (Suc fuel)
  show ?case
  proof (cases "tree_node tree i")
    case None
    have "j = i" if "(i, j) \<in> (tree_links tree)\<^sup>*" for j
      using that None by (cases rule: converse_rtranclE) (auto simp: tree_links_def)
    then have "\<not> (\<exists>j. (i, j) \<in> (tree_links tree)\<^sup>* \<and> cut_splits_char tree j)"
      using None by (metis cut_splits_char_def option.distinct(1))
    then show ?thesis using None by simp
  next
    case (Some n)
    let ?bad = "\<lambda>c. \<exists>j. (c, j) \<in> (tree_links tree)\<^sup>* \<and> cut_splits_char tree j"
    have deep: "deep c < fuel" if "c \<in> set (an_children n)" for c using assms [OF Some that] Suc.prems by simp
    have below: "render_children sh tree fuel (an_children n) pre' = Panic \<longleftrightarrow> (\<exists>c \<in> set (an_children n). ?bad c)" for pre'
    proof (rule render_children_panic)
      fix c pre final assume c: "c \<in> set (an_children n)"
      show "render_node sh tree fuel c pre final \<noteq> Out_Of_Fuel"
        by (rule render_enough_fuel [of tree deep]) (use assms deep [OF c] in auto)
      show "render_node sh tree fuel c pre final = Panic \<longleftrightarrow> ?bad c" by (rule Suc.IH [OF deep [OF c]])
    qed
    have "?bad i \<longleftrightarrow> cut_splits_char tree i \<or> (\<exists>c \<in> set (an_children n). ?bad c)"
      using Some by (auto simp: tree_links_def elim: converse_rtranclE intro: converse_rtrancl_into_rtrancl)
    then show ?thesis
      using Some node_content_panic [OF Some, of sh] below node_content_fuel [of sh n]
      by (cases "node_content sh n") (auto simp: bind_comp_panic)
  qed
qed simp

lemma render_resolved_brackets:
  assumes "\<And>i n h. tree_node tree i = Some n \<Longrightarrow> an_data n = External_Node h \<Longrightarrow> res i = Some (''['' @ sh h @ '']'')"
  shows "render_node_resolved sh res tree fuel i pre final = render_node sh tree fuel i pre final"
proof (induction fuel arbitrary: i pre final)
  case (Suc fuel)
  have content: "resolved_content sh res i n = node_content sh n" if "tree_node tree i = Some n" for n
    using assms [OF that] by (auto simp: resolved_content_def node_content_def split: arbor_node_type.splits)
  have below: "render_children_resolved sh res tree fuel cs pre' = render_children sh tree fuel cs pre'" for cs pre'
    by (induction cs) (simp_all add: Suc)
  show ?case by (simp add: content below split: option.splits)
qed simp

lemma resolve_all_brackets:
  assumes "distinct (map fst (at_nodes tree))" and "tree_node tree i = Some n" and "an_data n = External_Node h"
  shows "resolve_all resolver tree i = Some (resolver h)"
proof -
  let ?ext = "\<lambda>(i, n). case an_data n of External_Node h \<Rightarrow> [(i, resolver h)] | Text_Node _ \<Rightarrow> []"
  have none: "i \<notin> fst ` set nodes \<Longrightarrow> map_of (concat (map ?ext nodes)) i = None" for nodes
    by (induction nodes) (auto split: arbor_node_type.splits)
  have "distinct (map fst nodes) \<Longrightarrow> map_of nodes i = Some n \<Longrightarrow> map_of (concat (map ?ext nodes)) i = Some (resolver h)" for nodes
  proof (induction nodes)
    case (Cons e nodes)
    then show ?case
      using assms(3) none [of nodes] by (cases e; cases "fst e = i"; cases "an_data (snd e)") (simp_all add: map_add_def)
  qed simp
  then show ?thesis using assms(1,2) by (simp add: resolve_all_def tree_node_def)
qed

subsection \<open>Traversing\<close>

definition child_links :: "(arbor_id \<Rightarrow> arbor_id list) \<Rightarrow> (arbor_id \<times> arbor_id) set" where
  "child_links children = {(p, c). c \<in> set (children p)}"

lemma below_node:
  "{j. (i, j) \<in> (child_links children)\<^sup>*} = insert i (\<Union>c \<in> set (children i). {j. (c, j) \<in> (child_links children)\<^sup>*})"
  by (auto simp: child_links_def elim: converse_rtranclE intro: converse_rtrancl_into_rtrancl)

lemma traverse_siblings:
  assumes "\<And>c. c \<in> set cs \<Longrightarrow> \<exists>xs. traverse_dfs_from children fuel c = Some xs \<and> set xs = B c \<and> distinct xs"
    and "distinct cs" and "\<And>c d. c \<in> set cs \<Longrightarrow> d \<in> set cs \<Longrightarrow> c \<noteq> d \<Longrightarrow> B c \<inter> B d = {}"
  shows "\<exists>ys. traverse_dfs_all children fuel cs = Some ys \<and> set ys = (\<Union>c \<in> set cs. B c) \<and> distinct ys"
  using assms
proof (induction cs)
  case (Cons c cs)
  obtain xs where xs: "traverse_dfs_from children fuel c = Some xs" "set xs = B c" "distinct xs" using Cons.prems(1) by auto
  obtain ys where ys: "traverse_dfs_all children fuel cs = Some ys" "set ys = (\<Union>c \<in> set cs. B c)" "distinct ys"
    using Cons.IH Cons.prems by auto
  have "B c \<inter> B d = {}" if "d \<in> set cs" for d using that Cons.prems(2) Cons.prems(3) [of c d] by auto
  then show ?case using xs ys by auto
qed simp

text \<open>In a forest (one parent each, ranks that grow downwards) siblings have nothing in common below them.\<close>

lemma forest_siblings:
  assumes "\<And>p q c. c \<in> set (children p) \<Longrightarrow> c \<in> set (children q) \<Longrightarrow> p = q"
    and grow: "\<And>p c. p \<in> K \<Longrightarrow> c \<in> set (children p) \<Longrightarrow> c \<in> K \<and> rank p < (rank c :: nat)" and "i \<in> K"
    and c: "c \<in> set (children i)" and d: "d \<in> set (children i)" and "c \<noteq> d"
    and "(c, j) \<in> (child_links children)\<^sup>*" and "(d, j) \<in> (child_links children)\<^sup>*"
  shows False
proof -
  have up: "x \<in> K \<Longrightarrow> (x, y) \<in> (child_links children)\<^sup>* \<Longrightarrow> y \<in> K \<and> rank x \<le> rank y" for x y
    by (rotate_tac, induction rule: rtrancl_induct) (use grow in \<open>force simp: child_links_def\<close>)+
  have no: False if cd: "(c, d) \<in> (child_links children)\<^sup>*" "c \<noteq> d" and kids: "c \<in> set (children i)" "d \<in> set (children i)" for c d
  proof -
    obtain p where "(c, p) \<in> (child_links children)\<^sup>*" "d \<in> set (children p)"
      using cd by (auto simp: child_links_def elim: rtranclE)
    then have "(c, i) \<in> (child_links children)\<^sup>*" using assms(1) kids(2) by blast
    then show False using up [of c i] grow [OF \<open>i \<in> K\<close> kids(1)] by simp
  qed
  have "single_valued ((child_links children)\<inverse>)" using assms(1) by (auto simp: single_valued_def child_links_def)
  moreover have "(j, c) \<in> ((child_links children)\<inverse>)\<^sup>*" "(j, d) \<in> ((child_links children)\<inverse>)\<^sup>*"
    using assms(7,8) by (simp_all add: rtrancl_converse)
  ultimately have "(c, d) \<in> ((child_links children)\<inverse>)\<^sup>* \<or> (d, c) \<in> ((child_links children)\<inverse>)\<^sup>*"
    by (rule single_valued_confluent)
  then show False using no [of c d] no [of d c] c d \<open>c \<noteq> d\<close> by (auto simp: rtrancl_converse)
qed

text \<open>A traversal of a forest returns: it meets every node below its start exactly once.\<close>

lemma traverse_returns:
  assumes one: "\<And>p q c. c \<in> set (children p) \<Longrightarrow> c \<in> set (children q) \<Longrightarrow> p = q"
    and grow: "\<And>p c. p \<in> K \<Longrightarrow> c \<in> set (children p) \<Longrightarrow> c \<in> K \<and> rank p < (rank c :: nat)"
    and bound: "\<And>p. rank p \<le> N" and dist: "\<And>p. distinct (children p)"
  shows "i \<in> K \<Longrightarrow> N - rank i < fuel \<Longrightarrow>
    \<exists>xs. traverse_dfs_from children fuel i = Some xs \<and> set xs = {j. (i, j) \<in> (child_links children)\<^sup>*} \<and> distinct xs"
proof (induction fuel arbitrary: i)
  case (Suc fuel)
  let ?B = "\<lambda>c. {j. (c, j) \<in> (child_links children)\<^sup>*}"
  have "\<exists>xs. traverse_dfs_from children fuel c = Some xs \<and> set xs = ?B c \<and> distinct xs" if "c \<in> set (children i)" for c
    using Suc.IH [of c] grow [OF Suc.prems(1) that] Suc.prems(2) bound [of c] by fastforce
  moreover have "?B c \<inter> ?B d = {}" if "c \<in> set (children i)" "d \<in> set (children i)" "c \<noteq> d" for c d
  proof -
    have False if "x \<in> ?B c" "x \<in> ?B d" for x
      by (rule forest_siblings [of children K rank i c d x])
         (use one grow Suc.prems(1) \<open>c \<in> set (children i)\<close> \<open>d \<in> set (children i)\<close> \<open>c \<noteq> d\<close> that in auto)
    then show ?thesis by blast
  qed
  ultimately obtain ys where ys: "traverse_dfs_all children fuel (children i) = Some ys"
      "set ys = (\<Union>c \<in> set (children i). ?B c)" "distinct ys"
    using traverse_siblings [of "children i" children fuel ?B] dist by blast
  have "i \<notin> set ys"
  proof
    assume "i \<in> set ys"
    then obtain c where c: "c \<in> set (children i)" "(c, i) \<in> (child_links children)\<^sup>*" using ys by auto
    have "c \<in> K \<Longrightarrow> (c, y) \<in> (child_links children)\<^sup>* \<Longrightarrow> y \<in> K \<and> rank c \<le> rank y" for y
      by (rotate_tac, induction rule: rtrancl_induct) (use grow in \<open>force simp: child_links_def\<close>)+
    from this [OF _ c(2)] show False using grow [OF Suc.prems(1) c(1)] by simp
  qed
  then show ?case using ys below_node [of i children] by simp
qed simp

end
