(* ===== verification/Arbor_Runs.thy ===== *)
theory Arbor_Runs
  imports Arbor_Views
begin

text \<open>
  A reference for \<open>view_detect_text_runs\<close>: the text nodes of a traversal, cut into the longest chains in
  which every node is a child of the one before it.
\<close>

subsection \<open>Chains\<close>

text \<open>
  \<open>link i\<close> is \<open>None\<close> when \<open>i\<close> is not a text node, otherwise its parent. \<open>chain_after b ids\<close> splits off the
  longest chain at the head of \<open>ids\<close> that continues from \<open>b\<close>.
\<close>

fun chain_after :: "('k \<Rightarrow> 'k option option) \<Rightarrow> 'k \<Rightarrow> 'k list \<Rightarrow> 'k list \<times> 'k list" where
  "chain_after link b [] = ([], [])"
| "chain_after link b (i # ids) =
     (if link i = Some (Some b) then (case chain_after link i ids of (c, rest) \<Rightarrow> (i # c, rest)) else ([], i # ids))"

lemma chain_after_append: "fst (chain_after link b ids) @ snd (chain_after link b ids) = ids"
  by (induction link b ids rule: chain_after.induct) (auto split: prod.splits)

lemma chain_after_length: "length (snd (chain_after link b ids)) \<le> length ids"
  using arg_cong [OF chain_after_append [of link b ids], of length] by simp

function chains :: "('k \<Rightarrow> 'k option option) \<Rightarrow> 'k list \<Rightarrow> 'k list list" where
  "chains link [] = []"
| "chains link (i # ids) =
     (if link i = None then chains link ids
      else (i # fst (chain_after link i ids)) # chains link (snd (chain_after link i ids)))"
  by pat_completeness auto
termination
  by (relation "measure (length \<circ> snd)") (simp_all add: le_imp_less_Suc chain_after_length)

lemma chain_after_texts: "\<forall>i \<in> set (fst (chain_after link b ids)). link i \<noteq> None"
  by (induction link b ids rule: chain_after.induct) (auto split: prod.splits)

text \<open>Every text node is in exactly one chain, in the order of the traversal.\<close>

lemma chains_concat: "concat (chains link ids) = filter (\<lambda>i. link i \<noteq> None) ids"
proof (induction link ids rule: chains.induct)
  case (2 link i ids)
  have "filter (\<lambda>i. link i \<noteq> None) ids =
      fst (chain_after link i ids) @ filter (\<lambda>i. link i \<noteq> None) (snd (chain_after link i ids))"
    using arg_cong [OF chain_after_append [of link i ids], of "filter (\<lambda>i. link i \<noteq> None)"] chain_after_texts [of link i ids]
    by (simp add: filter_id_conv)
  then show ?case using 2 by simp
qed simp

text \<open>Within a chain each node is a child of the one before it.\<close>

fun linked :: "('k \<Rightarrow> 'k option option) \<Rightarrow> 'k list \<Rightarrow> bool" where
  "linked link (i # j # c) = (link j = Some (Some i) \<and> linked link (j # c))"
| "linked link _ = True"

lemma chain_after_linked: "linked link (b # fst (chain_after link b ids))"
  by (induction link b ids rule: chain_after.induct) (auto split: prod.splits)

lemma chains_linked: "c \<in> set (chains link ids) \<Longrightarrow> linked link c \<and> c \<noteq> []"
  by (induction link ids rule: chains.induct) (auto simp: chain_after_linked split: if_splits)

subsection \<open>The fold computes the chains\<close>

definition text_link :: "(string \<Rightarrow> json option) \<Rightarrow> arbor_tree \<Rightarrow> arbor_id \<Rightarrow> arbor_id option option" where
  "text_link parse_json tree i =
     (if is_text_node parse_json tree i = None then None else Option.bind (tree_node tree i) (\<lambda>n. Some (an_parent n)))"

definition chain_run :: "(string \<Rightarrow> json option) \<Rightarrow> arbor_tree \<Rightarrow> arbor_id list \<Rightarrow> text_run" where
  "chain_run parse_json tree c =
     \<lparr>tx_start = hd c, tx_end = last c, tx_length = length c,
      tx_chars = sum_list (map (\<lambda>i. the (is_text_node parse_json tree i)) c)\<rparr>"

definition long_runs :: "(string \<Rightarrow> json option) \<Rightarrow> arbor_tree \<Rightarrow> nat \<Rightarrow> arbor_id list list \<Rightarrow> text_run list" where
  "long_runs parse_json tree m cs = map (chain_run parse_json tree) (filter (\<lambda>c. m \<le> length c) cs)"

lemma long_runs_Cons [simp]:
  "long_runs p t m [] = []"
  "long_runs p t m (c # cs) = (if m \<le> length c then [chain_run p t c] else []) @ long_runs p t m cs"
  by (simp_all add: long_runs_def)

definition open_chain :: "(string \<Rightarrow> json option) \<Rightarrow> arbor_tree \<Rightarrow> arbor_id list \<Rightarrow> open_run" where
  "open_chain p t c = (let r = chain_run p t c in Some (tx_start r, tx_end r, tx_length r, tx_chars r))"

lemma close_open_chain: "close_run m (open_chain p t c) = long_runs p t m [c]"
  by (simp add: close_run_def open_chain_def Let_def chain_run_def)

definition settle :: "(string \<Rightarrow> json option) \<Rightarrow> arbor_tree \<Rightarrow> nat \<Rightarrow> arbor_id list \<Rightarrow> text_run list \<times> open_run \<Rightarrow> text_run list" where
  "settle p t m ids st = (case fold (run_step p t m) ids st of (runs, current) \<Rightarrow> runs @ close_run m current)"

lemma settle_Cons [simp]: "settle p t m (i # ids) st = settle p t m ids (run_step p t m i st)"
  by (simp add: settle_def)

lemma text_link_None: "text_link p t i = None \<longleftrightarrow> is_text_node p t i = None"
  by (auto simp: text_link_def is_text_node_def split: option.splits)

lemma text_link_Some: "is_text_node p t i \<noteq> None \<Longrightarrow> text_link p t i = Some (Some b) \<longleftrightarrow> Option.bind (tree_node t i) an_parent = Some b"
  by (auto simp: text_link_def is_text_node_def split: option.splits)

lemma run_step_open:
  assumes "c \<noteq> []" and "is_text_node p t i = Some n"
  shows "run_step p t m i (runs, open_chain p t c) =
    (if text_link p t i = Some (Some (last c)) then (runs, open_chain p t (c @ [i]))
     else (runs @ long_runs p t m [c], open_chain p t [i]))"
proof -
  have "text_link p t i = Some (Some (last c)) \<longleftrightarrow> Option.bind (tree_node t i) an_parent = Some (last c)"
    using text_link_Some assms(2) by simp
  moreover have "open_chain p t c = Some (hd c, last c, length c, sum_list (map (\<lambda>i. the (is_text_node p t i)) c))" for c
    by (simp add: open_chain_def chain_run_def)
  ultimately show ?thesis
    using assms by (simp add: close_run_def chain_run_def)
qed

lemma settle_chains:
  "settle p t m ids (runs, None) = runs @ long_runs p t m (chains (text_link p t) ids)"
  "c \<noteq> [] \<Longrightarrow> settle p t m ids (runs, open_chain p t c) =
     runs @ long_runs p t m ((c @ fst (chain_after (text_link p t) (last c) ids)) #
                              chains (text_link p t) (snd (chain_after (text_link p t) (last c) ids)))"
proof (induction ids arbitrary: runs c)
  case Nil
  { case 1 show ?case by (simp add: settle_def close_run_def) }
  { case 2 then show ?case using close_open_chain [of m p t c] by (simp add: settle_def) }
next
  case (Cons i ids)
  { case 1
    show ?case
    proof (cases "is_text_node p t i")
      case None
      then show ?thesis using Cons.IH(1) by (simp add: text_link_None close_run_def)
    next
      case (Some n)
      then have "run_step p t m i (runs, None) = (runs, open_chain p t [i])"
        by (simp add: open_chain_def chain_run_def)
      then show ?thesis using Some Cons.IH(2) [of "[i]" runs] by (simp add: text_link_None)
    qed }
  { case 2
    show ?case
    proof (cases "is_text_node p t i")
      case None
      then have "text_link p t i = None" by (simp add: text_link_None)
      then show ?thesis using None Cons.IH(1) close_open_chain [of m p t c] by simp
    next
      case (Some n)
      show ?thesis
        using 2 Some Cons.IH(2) [of "c @ [i]" runs] Cons.IH(2) [of "[i]" "runs @ long_runs p t m [c]"]
        by (auto simp: run_step_open [OF 2 Some] text_link_None simp del: run_step.simps split: prod.splits)
    qed }
qed

lemma runs_of_chains: "runs_of p t m ids = long_runs p t m (chains (text_link p t) ids)"
  using settle_chains(1) [of p t m ids "[]"] by (simp add: runs_of_def settle_def)

end
