(* ===== verification/Arbor_Activation.thy ===== *)
theory Arbor_Activation
  imports Arbor_Store
begin

text \<open>
  The RPC methods of Arbor, \<^verbatim>\<open>src/src/activations/arbor/activation.rs\<close>: each calls one storage
  operation and emits one event; most errors become an empty tree list. The events are the ones of
  \<open>ArborEvent\<close> that the methods emit. \<open>extract_display_content\<close> and \<open>resolve_handle_to_string\<close> turn what
  a handle resolves to into the text that \<open>tree_render\<close> shows; the items of the foreign stream
  type are \<open>Item_Data\<close>, \<open>Item_Error\<close>, \<open>Item_Done\<close> and the rest.
\<close>

datatype arbor_event =
    Tree_Created arbor_id
  | Tree_Updated arbor_id
  | Tree_List "arbor_id list"
  | Tree_Claimed arbor_id string int
  | Tree_Released arbor_id string int
  | Trees_Scheduled "arbor_id list"
  | Trees_Archived "arbor_id list"
  | Tree_Data arbor_tree
  | Tree_Skeleton_Data tree_skeleton
  | Arbor_Node_Created arbor_id arbor_id "arbor_id option"
  | Node_Data arbor_id arbor_node
  | Node_Children arbor_id arbor_id "arbor_id list"
  | Node_Parent arbor_id arbor_id "arbor_id option"
  | Context_Path arbor_id "arbor_id list"
  | Context_Path_Data arbor_id "arbor_node list"
  | Context_Handles arbor_id "handle list"
  | Context_Leaves arbor_id "arbor_id list"
  | Tree_Render arbor_id string

definition nil_uuid :: arbor_id where
  "nil_uuid = ''00000000-0000-0000-0000-000000000000''"

definition no_trees :: "'e \<Rightarrow> arbor_event" where
  "no_trees e = Tree_List []"

definition emit :: "('a \<Rightarrow> arbor_event) \<Rightarrow> (arbor_error \<Rightarrow> arbor_event) \<Rightarrow> arbor_error + 'a \<Rightarrow> arbor_event" where
  "emit good bad r = (case r of Inl e \<Rightarrow> bad e | Inr x \<Rightarrow> good x)"

text \<open>A method that changes the storage gives its event and the new storage.\<close>

definition emit_op :: "('a \<Rightarrow> arbor_event) \<Rightarrow> (arbor_error \<Rightarrow> arbor_event) \<Rightarrow> (arbor_error, 'a, arbor_db) outcome \<Rightarrow> arbor_event \<times> arbor_db" where
  "emit_op good bad r = (emit good bad (fst r), snd r)"

definition on_tree_create :: "json option \<Rightarrow> string \<Rightarrow> arbor_id \<Rightarrow> arbor_id \<Rightarrow> arbor_db \<Rightarrow> arbor_event \<times> arbor_db" where
  "on_tree_create metadata owner new_tree new_root db =
     emit_op Tree_Created (\<lambda>_. Tree_Created nil_uuid) (tree_create metadata owner new_tree new_root db)"

definition on_tree_get :: "arbor_id \<Rightarrow> arbor_db \<Rightarrow> arbor_event" where
  "on_tree_get t db = emit Tree_Data no_trees (tree_get db t)"

definition on_tree_get_skeleton :: "arbor_id \<Rightarrow> arbor_db \<Rightarrow> arbor_event" where
  "on_tree_get_skeleton t db = emit (\<lambda>tree. Tree_Skeleton_Data (tree_skeleton_of tree)) no_trees (tree_get db t)"

definition on_tree_list :: "arbor_db \<Rightarrow> arbor_event" where
  "on_tree_list db = Tree_List (tree_list db False)"

definition on_tree_update_metadata :: "arbor_id \<Rightarrow> json \<Rightarrow> arbor_db \<Rightarrow> arbor_event \<times> arbor_db" where
  "on_tree_update_metadata t m db = emit_op (\<lambda>_. Tree_Updated t) no_trees (tree_update_metadata t m db)"

definition on_tree_claim :: "arbor_id \<Rightarrow> string \<Rightarrow> int \<Rightarrow> arbor_db \<Rightarrow> arbor_event \<times> arbor_db" where
  "on_tree_claim t owner n db = emit_op (Tree_Claimed t owner) no_trees (tree_claim t owner n db)"

definition on_tree_release :: "arbor_id \<Rightarrow> string \<Rightarrow> int \<Rightarrow> arbor_db \<Rightarrow> arbor_event \<times> arbor_db" where
  "on_tree_release t owner n db = emit_op (Tree_Released t owner) no_trees (tree_release t owner n db)"

definition on_tree_list_scheduled :: "arbor_db \<Rightarrow> arbor_event" where
  "on_tree_list_scheduled db = Trees_Scheduled (tree_list db True)"

definition on_tree_list_archived :: "arbor_db \<Rightarrow> arbor_event" where
  "on_tree_list_archived db = Trees_Archived (tree_list db True)"

definition on_node_create_text :: "arbor_id \<Rightarrow> arbor_id option \<Rightarrow> string \<Rightarrow> json option \<Rightarrow> arbor_id \<Rightarrow> arbor_db \<Rightarrow> arbor_event \<times> arbor_db" where
  "on_node_create_text t parent content m uuid db =
     emit_op (\<lambda>i. Arbor_Node_Created t i parent) no_trees (node_create_text t parent content m uuid db)"

definition on_node_create_external :: "arbor_id \<Rightarrow> arbor_id option \<Rightarrow> handle \<Rightarrow> json option \<Rightarrow> arbor_id \<Rightarrow> arbor_db \<Rightarrow> arbor_event \<times> arbor_db" where
  "on_node_create_external t parent h m uuid db =
     emit_op (\<lambda>i. Arbor_Node_Created t i parent) no_trees (node_create_external t parent h m uuid db)"

definition on_node_get :: "arbor_id \<Rightarrow> arbor_id \<Rightarrow> arbor_db \<Rightarrow> arbor_event" where
  "on_node_get t i db = emit (Node_Data t) no_trees (node_get db t i)"

definition on_node_get_children :: "arbor_id \<Rightarrow> arbor_id \<Rightarrow> arbor_db \<Rightarrow> arbor_event" where
  "on_node_get_children t i db = Node_Children t i (node_get_children db t i)"

definition on_node_get_parent :: "arbor_id \<Rightarrow> arbor_id \<Rightarrow> arbor_db \<Rightarrow> arbor_event" where
  "on_node_get_parent t i db = emit (Node_Parent t i) no_trees (node_get_parent db t i)"

text \<open>\<open>None\<close>: the walk up does not end, and no event comes.\<close>

definition on_node_get_path :: "arbor_id \<Rightarrow> arbor_id \<Rightarrow> arbor_db \<Rightarrow> arbor_event option" where
  "on_node_get_path t i db = map_option (emit (Context_Path t) no_trees) (node_get_path db t i)"

definition on_context_list_leaves :: "arbor_id \<Rightarrow> arbor_db \<Rightarrow> arbor_event" where
  "on_context_list_leaves t db = Context_Leaves t (context_list_leaves db t)"

definition on_context_get_path :: "arbor_id \<Rightarrow> arbor_id \<Rightarrow> arbor_db \<Rightarrow> arbor_event option" where
  "on_context_get_path t i db = map_option (emit (Context_Path_Data t) no_trees) (context_get_path db t i)"

definition on_context_get_handles :: "arbor_id \<Rightarrow> arbor_id \<Rightarrow> arbor_db \<Rightarrow> arbor_event option" where
  "on_context_get_handles t i db = map_option (emit (Context_Handles t) no_trees) (context_get_handles db t i)"

text \<open>\<open>resolver\<close> is present when the parent context is.\<close>

definition on_tree_render :: "(handle \<Rightarrow> string) \<Rightarrow> (handle \<Rightarrow> string) option \<Rightarrow> nat \<Rightarrow> arbor_id \<Rightarrow> arbor_db \<Rightarrow> arbor_event comp" where
  "on_tree_render sh resolver fuel t db =
     (case tree_get db t of
        Inl e \<Rightarrow> Ret (Tree_Render t (''Error: '' @ arbor_error_text e))
      | Inr tree \<Rightarrow>
          bind_comp (case resolver of Some f \<Rightarrow> tree_render_resolved sh f fuel tree | None \<Rightarrow> tree_render sh fuel tree)
            (\<lambda>s. Ret (Tree_Render t s)))"

subsection \<open>Contents of handles\<close>

definition extract_display_content :: "(json \<Rightarrow> string) \<Rightarrow> json \<Rightarrow> string comp" where
  "extract_display_content json_text content =
     (let field = (\<lambda>k. Option.bind (json_get k content) json_as_str) in
      case field ''content'' of
        Some msg \<Rightarrow>
          let role = (case field ''role'' of Some r \<Rightarrow> r | None \<Rightarrow> ''unknown'') in
          bind_comp (truncate_text msg) (\<lambda>cut.
            Ret (case field ''name'' of
                   Some n \<Rightarrow> ''['' @ role @ '':'' @ n @ ''] '' @ replace_newlines cut
                 | None \<Rightarrow> ''['' @ role @ ''] '' @ replace_newlines cut))
      | None \<Rightarrow>
          (case field ''type'' of
             Some s \<Rightarrow> Ret (''['' @ s @ '']'')
           | None \<Rightarrow>
               let s = json_text content in
               if 50 < length s then bind_comp (slice_to 47 s) (\<lambda>cut. Ret (cut @ ''...'')) else Ret s))"

datatype stream_item = Item_Data json | Item_Error string | Item_Done | Item_Other

fun first_display :: "(json \<Rightarrow> string) \<Rightarrow> string \<Rightarrow> stream_item list \<Rightarrow> string comp" where
  "first_display json_text shown [] = Ret (''[empty: '' @ shown @ '']'')"
| "first_display json_text shown (Item_Data v # items) = extract_display_content json_text v"
| "first_display json_text shown (Item_Error m # items) = Ret (''[error: '' @ m @ '']'')"
| "first_display json_text shown (Item_Done # items) = Ret (''[empty: '' @ shown @ '']'')"
| "first_display json_text shown (Item_Other # items) = first_display json_text shown items"

definition resolve_handle_to_string :: "(json \<Rightarrow> string) \<Rightarrow> (handle \<Rightarrow> string) \<Rightarrow> (handle \<Rightarrow> string + stream_item list) \<Rightarrow> handle \<Rightarrow> string comp" where
  "resolve_handle_to_string json_text sh resolve h =
     (case resolve h of
        Inr items \<Rightarrow> first_display json_text (sh h) items
      | Inl e \<Rightarrow> Ret (''[unresolved: '' @ h_method h @ '' - '' @ e @ '']''))"

subsection \<open>The listing of archived trees\<close>

lemma listed_not_archived:
  assumes "on_tree_list_archived db = Trees_Archived ts" and "distinct (map tr_id (ar_trees db))"
    and "r \<in> set (ar_trees db)" and "tr_state r = ''archived''"
  shows "tr_id r \<notin> set ts"
proof
  assume "tr_id r \<in> set ts"
  then obtain s where "s \<in> set (ar_trees db)" "tr_id s = tr_id r" "tr_state s \<in> {''active'', ''scheduled_delete''}"
    using assms(1) by (auto simp: on_tree_list_archived_def tree_list_def trees_in_def)
  moreover from this have "s = r" using assms(2,3) by (metis distinct_map inj_on_eq_iff)
  ultimately show False using assms(4) by simp
qed

end
