(* ===== verification/Arbor_Props.thy ===== *)
theory Arbor_Props
  imports Arbor_Life Arbor_Paths Arbor_Runs Arbor_Activation "HOL-Library.Multiset"
begin

text \<open>
  The properties of Arbor: the reference ledger, the life of a tree, paths, ranges, rendering and text
  runs, with a small store on which they are applied.
\<close>

subsection \<open>A small store\<close>

text \<open>
  Two owners hold a tree; a node \<open>a\<close> hangs below its root, \<open>b\<close> and a handle \<open>h\<close> below \<open>a\<close>, \<open>c\<close> below
  \<open>b\<close>. A second tree has been given up, a node \<open>o\<close> has lost its parent.
\<close>

definition demo_handle :: handle where
  "demo_handle = \<lparr>h_plugin_id = ''p'', h_version = ''1'', h_method = ''m'', h_meta = []\<rparr>"

definition show_method :: "handle \<Rightarrow> string" where
  "show_method h = h_method h"

definition demo_steps :: "(arbor_db \<Rightarrow> arbor_db) list" where
  "demo_steps =
     [\<lambda>db. snd (tree_create_with_id (Some ''t'') None ''alice'' ''_'' ''r'' db),
      \<lambda>db. snd (tree_claim ''t'' ''bob'' 2 db),
      \<lambda>db. snd (tree_release ''t'' ''alice'' 1 db),
      \<lambda>db. snd (node_create_text ''t'' (Some ''r'') ''one'' None ''a'' db),
      \<lambda>db. snd (node_create_text ''t'' (Some ''a'') ''two'' None ''b'' db),
      \<lambda>db. snd (node_create_external ''t'' (Some ''a'') demo_handle None ''h'' db),
      \<lambda>db. snd (node_create_text ''t'' (Some ''b'') ''three'' None ''c'' db),
      \<lambda>db. snd (node_create_text ''t'' (Some ''lost'') ''x'' None ''o'' db),
      \<lambda>db. snd (tree_create_with_id (Some ''u'') None ''alice'' ''_'' ''s'' db),
      \<lambda>db. snd (tree_release ''u'' ''alice'' 1 db)]"

definition demo_arbor :: arbor_db where
  "demo_arbor = fold (\<lambda>f. f) demo_steps (empty_arbor 100)"

lemma reach_steps:
  "(arbor_step sane)\<^sup>*\<^sup>* db (fold (\<lambda>f. f) [] db)"
  "arbor_step sane db (f db) \<Longrightarrow> (arbor_step sane)\<^sup>*\<^sup>* (f db) (fold (\<lambda>f. f) fs (f db)) \<Longrightarrow>
     (arbor_step sane)\<^sup>*\<^sup>* db (fold (\<lambda>f. f) (f # fs) db)"
  by (auto intro: converse_rtranclp_into_rtranclp)

lemma demo_reachable: "arbor_reachable (\<lambda>n. 0 < n) demo_arbor"
  unfolding arbor_reachable_def demo_arbor_def demo_steps_def
  by (rule exI, (rule reach_steps arbor_step.intros | code_simp)+)

subsection \<open>References\<close>

text \<open>
  C13. The reference counter of a tree is, in every state that the operations can reach and whatever
  counts clients pass, the sum of what the owners hold; an owner is listed once, and the children of
  every node are listed in the order in which they were attached, numbered from 0.
\<close>

theorem reference_ledger:
  assumes "arbor_reachable sane db" and "tree_row db t = Some r"
  shows "rr_ref_count (get_tree_refs db t) = tr_ref_count r \<and> distinct (map fst (rr_owners (get_tree_refs db t))) \<and>
    get_node_children_internal db p = map nc_child (filter (\<lambda>c. nc_parent c = p) (ar_children db)) \<and>
    map nc_position (filter (\<lambda>c. nc_parent c = p) (ar_children db)) = map int [0..<count_where (\<lambda>c. nc_parent c = p) (ar_children db)]"
proof (intro conjI)
  have ok: "arbor_ok db" using assms(1) by (rule arbor_reachable_ok)
  show "rr_ref_count (get_tree_refs db t) = tr_ref_count r"
    using ok tree_row_in [OF assms(2)] by (simp add: get_tree_refs_def refs_of_count arbor_ok_def ledger_ok_def)
  have "distinct (map ref_key (ar_tree_refs db))" using ok by (simp add: arbor_ok_def ledger_ok_def)
  then show "distinct (map fst (rr_owners (get_tree_refs db t)))"
    unfolding get_tree_refs_def refs_of_def Let_def by (induction "ar_tree_refs db") (auto simp: comp_def distinct_map inj_on_def)
  show "get_node_children_internal db p = map nc_child (filter (\<lambda>c. nc_parent c = p) (ar_children db))"
    using ok by (rule children_arrival)
  show "map nc_position (filter (\<lambda>c. nc_parent c = p) (ar_children db)) = map int [0..<count_where (\<lambda>c. nc_parent c = p) (ar_children db)]"
    using ok by (simp add: arbor_ok_def children_ok_def)
qed

lemma demo_tree_row: "map_option tr_ref_count (tree_row demo_arbor ''t'') = Some 2"
  by code_simp

theorem reference_ledger_witness: "rr_ref_count (get_tree_refs demo_arbor ''t'') = 2"
proof -
  obtain r where "tree_row demo_arbor ''t'' = Some r" "tr_ref_count r = 2" using demo_tree_row by auto
  then show ?thesis using reference_ledger [OF demo_reachable, of "''t''"] by simp
qed

lemma no_owners: "rr_owners (refs_of rows t) = [] \<longleftrightarrow> (\<forall>r \<in> set rows. rf_resource r \<noteq> t)"
  by (simp add: refs_of_def Let_def filter_empty_conv)

text \<open>
  C14. When clients claim and release positive counts only (a claim of zero or of a negative count breaks
  this), a tree is active exactly while somebody holds a reference to it: the state column agrees with the
  counter, which is never negative. The two time stamps agree with the state as well: an active tree carries
  neither, also after it was scheduled for deletion and claimed again; a scheduled tree carries the time at
  which it was given up and no other; an archived one carries both.
\<close>

theorem tree_life:
  assumes "arbor_reachable (\<lambda>n. 0 < n) db" and "tree_row db t = Some r"
  shows "(tr_state r = ''active'') = (0 < rr_ref_count (get_tree_refs db t)) \<and>
    (tr_state r = ''active'') = (rr_owners (get_tree_refs db t) \<noteq> []) \<and> 0 \<le> tr_ref_count r \<and>
    (case read_state (tr_state r) of Active \<Rightarrow> tr_scheduled_at r = None \<and> tr_archived_at r = None
     | Scheduled_Delete \<Rightarrow> tr_scheduled_at r \<noteq> None \<and> tr_archived_at r = None
     | Archived \<Rightarrow> tr_scheduled_at r \<noteq> None \<and> tr_archived_at r \<noteq> None)"
proof (intro conjI)
  have ok: "arbor_ok db" and lives: "lives_ok db" using reachable_lives [OF assms(1)] by simp_all
  have r: "r \<in> set (ar_trees db)" "tr_id r = t" using tree_row_in [OF assms(2)] by simp_all
  have held: "tr_ref_count r = held (ar_tree_refs db) t" and states: "tr_state r \<in> resource_states"
    using ok r by (simp_all add: arbor_ok_def ledger_ok_def)
  have pos: "\<forall>r \<in> set (ar_tree_refs db). 0 < rf_count r" and life: "life r" using lives r by (simp_all add: lives_ok_def)
  show "0 \<le> tr_ref_count r" using held_nonneg [OF pos] held by simp
  show act: "(tr_state r = ''active'') = (0 < rr_ref_count (get_tree_refs db t))"
    using held life by (auto simp: get_tree_refs_def refs_of_count life_def)
  have "held (ar_tree_refs db) t = 0 \<longleftrightarrow> rr_owners (get_tree_refs db t) = []"
    using held_none_iff [OF pos, of t] by (simp add: get_tree_refs_def no_owners)
  then show "(tr_state r = ''active'') = (rr_owners (get_tree_refs db t) \<noteq> [])"
    using act held_nonneg [OF pos, of t] by (auto simp: get_tree_refs_def refs_of_count)
  show "case read_state (tr_state r) of Active \<Rightarrow> tr_scheduled_at r = None \<and> tr_archived_at r = None
     | Scheduled_Delete \<Rightarrow> tr_scheduled_at r \<noteq> None \<and> tr_archived_at r = None
     | Archived \<Rightarrow> tr_scheduled_at r \<noteq> None \<and> tr_archived_at r \<noteq> None"
    using life states by (auto simp: life_def read_state_def resource_state_of_str_def resource_states_def)
qed

lemma demo_given_up: "map_option tr_state (tree_row demo_arbor ''u'') = Some ''scheduled_delete''"
  by code_simp

theorem tree_life_witness: "rr_owners (get_tree_refs demo_arbor ''u'') = []"
proof -
  obtain r where "tree_row demo_arbor ''u'' = Some r" "tr_state r = ''scheduled_delete''" using demo_given_up by auto
  then show ?thesis using tree_life [OF demo_reachable, of "''u''"] by simp
qed

subsection \<open>Paths and ranges\<close>

text \<open>
  C15. A path query returns on every reachable store: it answers the lineage of the node, from its root
  down to it, without a repetition, or reports the first ancestor that the tree does not hold.
\<close>

theorem paths_return:
  assumes "arbor_reachable sane db"
  shows "\<exists>ks m. lineage (parent_in db t) i ks m \<and> distinct ks \<and>
    node_get_path db t i = Some (case m of None \<Rightarrow> Inr (rev ks) | Some j \<Rightarrow> Inl (Arbor_Node_Not_Found j t))"
proof -
  have ok: "arbor_ok db" using assms by (rule arbor_reachable_ok)
  then obtain ks m where l: "lineage (parent_in db t) i ks m"
    using stored.lineage_exists [of "(db, t)" i] by auto
  moreover have "distinct ks" using stored.lineage_distinct [of "(db, t)" i ks m] l ok by simp
  ultimately show ?thesis using node_get_path_lineage [OF l] by blast
qed

theorem paths_return_witness: "\<exists>ks m. lineage (parent_in demo_arbor ''t'') ''c'' ks m \<and> distinct ks"
  using paths_return [OF demo_reachable, of "''t''" "''c''"] by blast

lemma drop_until:
  assumes "distinct xs" and "a \<in> set xs"
  shows "rev (takeWhile (\<lambda>k. k \<noteq> a) (rev xs) @ [a]) = dropWhile (\<lambda>k. k \<noteq> a) xs"
proof -
  obtain ys zs where xs: "xs = ys @ a # zs" using assms(2) by (meson split_list)
  then have "a \<notin> set ys" "a \<notin> set zs" using assms(1) by auto
  then have "takeWhile (\<lambda>k. k \<noteq> a) (rev zs @ a # rev ys) = rev zs"
    by (subst takeWhile_append2) auto
  moreover have "dropWhile (\<lambda>k. k \<noteq> a) (ys @ a # zs) = a # zs"
    using \<open>a \<notin> set ys\<close> by (induction ys) auto
  ultimately show ?thesis using xs by simp
qed

text \<open>
  C16. A range from \<open>a\<close> down to \<open>b\<close> is the end of the path to \<open>b\<close>, from \<open>a\<close> on, with its texts merged in
  that order; if \<open>a\<close> is not on the path, the query is refused.
\<close>

theorem ranges_are_path_ends:
  assumes "arbor_reachable sane db" and "tree_get db t = Inr tree" and "node_get_path db t b = Some (Inr path)"
  shows "range_get parse_json db t a b Text_Merge =
    Some (if a \<in> set path
          then let ids = dropWhile (\<lambda>k. k \<noteq> a) path in Inr (Range_Text (merged_text parse_json tree ids) (length ids) ids)
          else Inl (not_descendant b a t))"
proof -
  have ok: "arbor_ok db" using assms(1) by (rule arbor_reachable_ok)
  have l: "lineage (parent_in db t) b (rev path) None" by (rule node_get_path_ok [OF ok assms(3)])
  have dist: "distinct path" using stored.lineage_distinct [of "(db, t)" b "rev path" None] l ok by simp
  have get: "tree_get_internal db t False = Inr tree" using assms(2) by (simp add: tree_get_def)
  then have loop: "range_loop tree a b [] b =
      Some (if a \<in> set path then Inr (dropWhile (\<lambda>k. k \<noteq> a) path) else Inl (not_descendant b a t))"
    using range_loop_lineage [OF tree_node_parent [OF get] l] drop_until [OF dist, of a] tree_get_internal_nodes [OF get] by simp
  show ?thesis using assms(2) by (simp add: range_get_def range_in_def loop Let_def)
qed

definition no_json :: "string \<Rightarrow> json option" where
  "no_json s = None"

lemma demo_tree: "\<not> isl (tree_get demo_arbor ''t'')" "node_get_path demo_arbor ''t'' ''c'' = Some (Inr [''r'', ''a'', ''b'', ''c''])"
  by code_simp+

theorem ranges_are_path_ends_witness:
  "\<exists>s. range_get no_json demo_arbor ''t'' ''a'' ''c'' Text_Merge = Some (Inr (Range_Text s 3 [''a'', ''b'', ''c'']))"
proof -
  obtain tree where "tree_get demo_arbor ''t'' = Inr tree" using demo_tree(1) by (cases "tree_get demo_arbor ''t''") auto
  from ranges_are_path_ends [OF demo_reachable this demo_tree(2), of no_json "''a''"] show ?thesis by (simp add: Let_def)
qed

subsection \<open>Rendering and text runs\<close>

lemma tree_get_keys:
  assumes "arbor_ok db" and "tree_get_internal db t f = Inr tree"
  shows "distinct (map fst (at_nodes tree))"
  using assms by (simp add: tree_get_internal_nodes get_nodes_for_tree_def arbor_ok_def nodes_ok_def comp_def distinct_map_filter)


lemma demo_cut: "case tree_get demo_arbor ''t'' of Inl _ \<Rightarrow> False
    | Inr tree \<Rightarrow> list_all (\<lambda>(i, n). case an_data n of Text_Node s \<Rightarrow> length s \<le> 60 | _ \<Rightarrow> True) (at_nodes tree)"
  "length (ar_nodes demo_arbor) = 7"
  by code_simp+


text \<open>The children of a stored tree form a forest on which the positions of the rows grow.\<close>

lemma child_map_forest:
  assumes ok: "arbor_ok db" and get: "tree_get_internal db t f = Inr stored"
    and ns: "mset ns = mset (at_nodes stored)" and tree: "tree = stored\<lparr>at_nodes := ns\<rparr>"
  shows "c \<in> set (build_child_map tree p) \<Longrightarrow> c \<in> set (build_child_map tree q) \<Longrightarrow> p = q"
    and "p \<in> nr_id ` set (ar_nodes db) \<Longrightarrow> c \<in> set (build_child_map tree p) \<Longrightarrow>
      c \<in> nr_id ` set (ar_nodes db) \<and> row_rank db p < row_rank db c"
    and "distinct (build_child_map tree p)"
    and "first_root tree = Some r \<Longrightarrow> r \<in> nr_id ` set (ar_nodes db)"
proof -
  have set_ns: "set ns = set (at_nodes stored)" using ns by (rule mset_eq_setD)
  have dist: "distinct (map fst ns)"
    using tree_get_keys [OF ok get] mset_eq_imp_distinct_iff [of "map fst ns" "map fst (at_nodes stored)"] ns by simp
  have rows: "\<exists>r \<in> set (ar_nodes db). nr_id r = i \<and> an_parent n = nr_parent r" if "(i, n) \<in> set ns" for i n
    using that tree_get_internal_nodes [OF get] unfolding set_ns
    by (auto simp: get_nodes_for_tree_def node_of_row_def)
  have child: "\<exists>n. (c, n) \<in> set ns \<and> an_parent n = Some p" if "c \<in> set (build_child_map tree p)" for c p
    using that tree by (auto simp: build_child_map_def)
  show "p = q" if "c \<in> set (build_child_map tree p)" "c \<in> set (build_child_map tree q)"
    using child [OF that(1)] child [OF that(2)] eq_key_imp_eq_value [OF dist] by fastforce
  show "c \<in> nr_id ` set (ar_nodes db) \<and> row_rank db p < row_rank db c"
    if p: "p \<in> nr_id ` set (ar_nodes db)" and c: "c \<in> set (build_child_map tree p)"
  proof -
    obtain r where "r \<in> set (ar_nodes db)" "nr_id r = c" "nr_parent r = Some p" using child [OF c] rows by metis
    then show ?thesis using rank_parent [OF ok _ _ p] by blast
  qed
  show "distinct (build_child_map tree p)" using dist tree by (simp add: build_child_map_def distinct_map_filter)
  show "r \<in> nr_id ` set (ar_nodes db)" if "first_root tree = Some r"
    using that tree rows by (fastforce simp: first_root_def find_Some_iff dest!: nth_mem)
qed

lemma traverse_tree_returns:
  assumes ok: "arbor_ok db" and get: "tree_get_internal db t f = Inr stored"
    and ns: "mset ns = mset (at_nodes stored)" and tree: "tree = stored\<lparr>at_nodes := ns\<rparr>" and fuel: "length (ar_nodes db) < fuel"
  shows "\<exists>ids. traverse_tree_dfs fuel tree = Some ids \<and> distinct ids \<and>
    set ids = (case first_root tree of None \<Rightarrow> {} | Some r \<Rightarrow> {j. (r, j) \<in> (child_links (build_child_map tree))\<^sup>*})"
proof (cases "first_root tree")
  case (Some r)
  note forest = child_map_forest [OF ok get ns tree]
  have "length (ar_nodes db) - row_rank db r < fuel" using fuel by simp
  then have "\<exists>ids. traverse_dfs_from (build_child_map tree) fuel r = Some ids \<and>
      set ids = {j. (r, j) \<in> (child_links (build_child_map tree))\<^sup>*} \<and> distinct ids"
    by (intro traverse_returns [of "build_child_map tree" "nr_id ` set (ar_nodes db)" "row_rank db" "length (ar_nodes db)"])
       (use forest Some row_rank_le in blast)+
  then show ?thesis using Some by (auto simp: traverse_tree_dfs_def)
qed (simp add: traverse_tree_dfs_def)

text \<open>
  C18. The detection of text runs in a reachable tree returns, whatever order the map of its nodes is walked in:
  with fuel above the number of nodes in the store the traversal meets every node below the first root exactly
  once, and the runs are the parent chains of text nodes in it that reach the minimal length. The chains
  partition the text nodes in the order of the traversal, and a run carries the first and last node, the number
  and the total length of its chain.
\<close>

theorem text_runs_are_chains:
  assumes "arbor_reachable sane db" and "tree_get db t = Inr stored" and "mset ns = mset (at_nodes stored)"
    and "tree = stored\<lparr>at_nodes := ns\<rparr>" and "length (ar_nodes db) < fuel"
  shows "\<exists>ids runs. traverse_tree_dfs fuel tree = Some ids \<and> distinct ids \<and>
    set ids = (case first_root tree of None \<Rightarrow> {} | Some r \<Rightarrow> {j. (r, j) \<in> (child_links (build_child_map tree))\<^sup>*}) \<and>
    view_detect_text_runs parse_json fuel tree m = Some runs \<and>
    runs = long_runs parse_json tree m (chains (text_link parse_json tree) ids) \<and>
    concat (chains (text_link parse_json tree) ids) = filter (\<lambda>i. is_text_node parse_json tree i \<noteq> None) ids \<and>
    list_all (\<lambda>c. c \<noteq> [] \<and> linked (text_link parse_json tree) c) (chains (text_link parse_json tree) ids)"
proof -
  have ok: "arbor_ok db" using assms(1) by (rule arbor_reachable_ok)
  have "tree_get_internal db t False = Inr stored" using assms(2) by (simp add: tree_get_def)
  then obtain ids where "traverse_tree_dfs fuel tree = Some ids" "distinct ids"
      "set ids = (case first_root tree of None \<Rightarrow> {} | Some r \<Rightarrow> {j. (r, j) \<in> (child_links (build_child_map tree))\<^sup>*})"
    using traverse_tree_returns [OF ok _ assms(3-5)] by blast
  then show ?thesis
    using chains_linked [of _ "text_link parse_json tree" ids]
    by (auto simp: view_detect_text_runs_def runs_of_chains chains_concat text_link_None list_all_iff)
qed

lemma demo_runs: "case tree_get demo_arbor ''t'' of Inl _ \<Rightarrow> False
    | Inr tree \<Rightarrow> map_option length (view_detect_text_runs no_json 8 tree 2) = Some 1 \<and>
        traverse_tree_dfs 8 tree = Some [''r'', ''a'', ''b'', ''c'', ''h'']"
  by code_simp

theorem text_runs_are_chains_witness:
  "\<exists>tree. tree_get demo_arbor ''t'' = Inr tree \<and>
     length (long_runs no_json tree 2 (chains (text_link no_json tree) [''r'', ''a'', ''b'', ''c'', ''h''])) = 1"
proof -
  obtain tree where t: "tree_get demo_arbor ''t'' = Inr tree"
    and "map_option length (view_detect_text_runs no_json 8 tree 2) = Some 1"
    and order: "traverse_tree_dfs 8 tree = Some [''r'', ''a'', ''b'', ''c'', ''h'']"
    using demo_runs by (cases "tree_get demo_arbor ''t''") auto
  then obtain runs where "view_detect_text_runs no_json 8 tree 2 = Some runs" "length runs = 1" by auto
  then show ?thesis
    using text_runs_are_chains [OF demo_reachable t refl, of tree, where fuel = 8 and parse_json = no_json and m = 2] order demo_cut(2) t by auto
qed

subsection \<open>A collapsed view\<close>

text \<open>
  The view of the demo tree in which runs of three texts are collapsed holds the range node, but its
  root has no child: rendering the view shows the empty root only. The source root was copied to a
  second node without a parent, and what followed was attached to that.
\<close>

definition view_id :: "arbor_id \<Rightarrow> arbor_id" where
  "view_id i = ''v'' @ i"

definition demo_json_text :: "json \<Rightarrow> string" where
  "demo_json_text v = (case json_get ''text'' v of Some (JStr s) \<Rightarrow> s | _ \<Rightarrow> [])"

lemma collapsed_view_is_detached:
  "case view_collapse_text_runs no_json demo_json_text id id view_id 8 ''t'' 3 ''alice'' ''view'' ''vroot'' demo_arbor of
     Some (Inr (v, runs), db) \<Rightarrow>
       length runs = 1 \<and>
       (case tree_get db v of
          Inr view \<Rightarrow> map fst (at_nodes view) = [''vroot'', ''vr'', ''va'', ''vh''] \<and>
            tree_render show_method 20 view = Ret (last_connector @ newline)
        | Inl _ \<Rightarrow> False)
   | _ \<Rightarrow> False"
  by code_simp

end
