(* ===== verification/Ticket_Compiler.thy ===== *)
theory Ticket_Compiler
  imports Substrate_Text Orcha_Graph
begin

text \<open>
  The compiler from Markdown plans to graph definitions: \<^verbatim>\<open>src/src/activations/orcha/ticket_compiler.rs\<close>.
  Texts are UTF-8 bytes; the separators that the parser looks for are ASCII, so byte positions and
  character positions cut a text at the same places.
\<close>

subsection \<open>Splitting texts\<close>

text \<open>\<open>s.find(c)\<close> as the parts before and after the first \<open>c\<close>.\<close>

definition split_at :: "char \<Rightarrow> string \<Rightarrow> (string \<times> string) option" where
  "split_at c s =
     (if c \<in> set s then Some (takeWhile (\<lambda>x. x \<noteq> c) s, tl (dropWhile (\<lambda>x. x \<noteq> c) s)) else None)"

text \<open>\<open>s.split(c)\<close>.\<close>

fun split_on :: "char \<Rightarrow> string \<Rightarrow> string list" where
  "split_on c [] = [[]]"
| "split_on c (x # xs) =
     (if x = c then [] # split_on c xs
      else (case split_on c xs of [] \<Rightarrow> [[x]] | p # ps \<Rightarrow> (x # p) # ps))"

lemma split_on_not_Nil [simp]: "split_on c s \<noteq> []"
  by (cases s) (auto split: list.splits)

lemma split_on_no_sep: "p \<in> set (split_on c s) \<Longrightarrow> c \<notin> set p"
  by (induction c s arbitrary: p rule: split_on.induct) (auto split: if_splits list.splits)

definition trim_start_char :: "char \<Rightarrow> string \<Rightarrow> string" where
  "trim_start_char c s = dropWhile (\<lambda>x. x = c) s"

definition trim_end_char :: "char \<Rightarrow> string \<Rightarrow> string" where
  "trim_end_char c s = rev (dropWhile (\<lambda>x. x = c) (rev s))"

subsection \<open>Sections\<close>

record raw_section =
  rs_id :: string
  rs_type :: string
  rs_body :: "string list"

definition try_parse_ticket_heading :: "string \<Rightarrow> (string \<times> string) option" where
  "try_parse_ticket_heading line =
     (case strip_prefix ''# '' line of
        None \<Rightarrow> None
      | Some rest \<Rightarrow>
          if starts_with ''#'' rest then None
          else (case split_at CHR ''['' (trim rest) of
                  None \<Rightarrow> None
                | Some (before, after) \<Rightarrow>
                    (case split_at CHR '']'' after of
                       None \<Rightarrow> None
                     | Some (tag, _) \<Rightarrow>
                         let type_tag = trim tag; ticket = trim (hd (split_on CHR '':'' (trim before)))
                         in if type_tag = [] then None
                            else if ticket = [] \<or> CHR '' '' \<in> set ticket then None
                            else Some (ticket, type_tag))))"

text \<open>The loop of \<open>parse_sections\<close>: the sections that are finished and the one that is open.\<close>

fun section_line :: "string \<Rightarrow> raw_section list \<times> raw_section option \<Rightarrow> raw_section list \<times> raw_section option" where
  "section_line line (done_sections, current) =
     (case try_parse_ticket_heading line of
        Some (i, tag) \<Rightarrow>
          (case current of Some s \<Rightarrow> done_sections @ [s] | None \<Rightarrow> done_sections,
           Some \<lparr>rs_id = i, rs_type = tag, rs_body = []\<rparr>)
      | None \<Rightarrow>
          (done_sections, map_option (\<lambda>s. s\<lparr>rs_body := rs_body s @ [line]\<rparr>) current))"

definition parse_sections :: "string \<Rightarrow> raw_section list" where
  "parse_sections input =
     (case fold section_line (text_lines input) ([], None) of
        (ss, current) \<Rightarrow> (case current of Some s \<Rightarrow> ss @ [s] | None \<Rightarrow> ss))"

subsection \<open>Bodies\<close>

record parsed_ticket =
  pt_id :: string
  pt_type :: string
  pt_deps :: "string list"
  pt_task :: "string option"
  pt_command :: "string option"
  pt_validate :: "string option"

record body_state =
  bs_deps :: "string list"
  bs_validate :: "string option"
  bs_prose :: "string list"

definition parse_deps :: "string \<Rightarrow> string list" where
  "parse_deps rest =
     filter (\<lambda>s. s \<noteq> []) (map trim (split_on CHR '','' (trim_end_char CHR '']'' (trim_start_char CHR ''['' (trim rest)))))"

definition blocked_by :: "string \<Rightarrow> string option" where
  "blocked_by trimmed =
     (case strip_prefix ''blocked_by:'' trimmed of Some r \<Rightarrow> Some r | None \<Rightarrow> strip_prefix ''blocked-by:'' trimmed)"

definition body_line :: "string \<Rightarrow> body_state \<Rightarrow> body_state" where
  "body_line line st =
     (let trimmed = trim line in
      if starts_with ''<!--'' trimmed \<or> starts_with ''//'' trimmed then st
      else case blocked_by trimmed of
        Some rest \<Rightarrow> st\<lparr>bs_deps := parse_deps rest\<rparr>
      | None \<Rightarrow>
          (case strip_prefix ''validate:'' trimmed of
             Some cmd \<Rightarrow> if trim cmd = [] then st else st\<lparr>bs_validate := Some (trim cmd)\<rparr>
           | None \<Rightarrow>
               if starts_with ''unlocks:'' trimmed then st else st\<lparr>bs_prose := bs_prose st @ [line]\<rparr>))"

definition blank :: "string \<Rightarrow> bool" where
  "blank l \<longleftrightarrow> trim l = []"

text \<open>Leading and trailing blank lines go, inner ones stay.\<close>

definition body_text :: "string list \<Rightarrow> string" where
  "body_text prose = join_with newline (rev (dropWhile blank (rev (dropWhile blank prose))))"

definition parse_section_body :: "raw_section \<Rightarrow> string + parsed_ticket" where
  "parse_section_body s =
     (let st = fold body_line (rs_body s) \<lparr>bs_deps = [], bs_validate = None, bs_prose = []\<rparr>;
          body = body_text (bs_prose st);
          content = (if body = [] then None else Some body);
          prog = (rs_type s = ''prog'')
      in Inr \<lparr>pt_id = rs_id s, pt_type = rs_type s, pt_deps = bs_deps st,
              pt_task = (if prog then None else content), pt_command = (if prog then content else None),
              pt_validate = bs_validate st\<rparr>)"

subsection \<open>Graphs\<close>

record compiled_graph =
  cg_nodes :: "orcha_node_def list"
  cg_edges :: "orcha_edge_def list"

definition validate_id :: "string \<Rightarrow> string" where
  "validate_id i = i @ ''-validate''"

text \<open>\<open>completion_id\<close> maps a ticket to the last node of its chain; a later ticket of the same name wins.\<close>

definition completion_of :: "parsed_ticket \<Rightarrow> string" where
  "completion_of t = (if pt_validate t \<noteq> None then validate_id (pt_id t) else pt_id t)"

definition completion_ids :: "parsed_ticket list \<Rightarrow> string \<Rightarrow> string option" where
  "completion_ids ts = fold (\<lambda>t m. m(pt_id t \<mapsto> completion_of t)) ts Map.empty"

definition no_body :: "parsed_ticket \<Rightarrow> string" where
  "no_body t = ''Ticket '' @ [CHR 0x27] @ pt_id t @ [CHR 0x27] @ '' ['' @ pt_type t @ ''] has no body text''"

definition need :: "parsed_ticket \<Rightarrow> ('a \<Rightarrow> 'b) \<Rightarrow> 'a option \<Rightarrow> string + 'b" where
  "need t f x = (case x of Some y \<Rightarrow> Inr (f y) | None \<Rightarrow> Inl (no_body t))"

definition ticket_spec :: "parsed_ticket \<Rightarrow> string + orcha_node_spec" where
  "ticket_spec t =
     (if pt_type t = ''agent'' then need t (\<lambda>s. Def_Task s None) (pt_task t)
      else if pt_type t = ''agent/synthesize'' then need t (\<lambda>s. Def_Synthesize s None) (pt_task t)
      else if pt_type t = ''prog'' then need t (\<lambda>c. Def_Validate c None None) (pt_command t)
      else if pt_type t = ''review'' then need t Def_Review (pt_task t)
      else if pt_type t = ''planner'' then need t Def_Plan (pt_task t)
      else Inl (''Unknown ticket type ['' @ pt_type t @ ''] in ticket '' @ [CHR 0x27] @ pt_id t @ [CHR 0x27]))"

definition validate_nodes :: "parsed_ticket \<Rightarrow> orcha_node_def list" where
  "validate_nodes t =
     (case pt_validate t of
        None \<Rightarrow> []
      | Some cmd \<Rightarrow> [\<lparr>nd_id = validate_id (pt_id t), nd_spec = Def_Validate cmd None None\<rparr>])"

definition ticket_edges :: "(string \<Rightarrow> string option) \<Rightarrow> parsed_ticket \<Rightarrow> orcha_edge_def list" where
  "ticket_edges completion t =
     (if pt_validate t = None then [] else [\<lparr>ed_from = pt_id t, ed_to = validate_id (pt_id t)\<rparr>]) @
     map (\<lambda>d. \<lparr>ed_from = (case completion d of Some e \<Rightarrow> e | None \<Rightarrow> d), ed_to = pt_id t\<rparr>) (pt_deps t)"

fun build_tickets :: "(string \<Rightarrow> string option) \<Rightarrow> parsed_ticket list \<Rightarrow> compiled_graph \<Rightarrow> string + compiled_graph" where
  "build_tickets completion [] g = Inr g"
| "build_tickets completion (t # ts) g =
     (case ticket_spec t of
        Inl e \<Rightarrow> Inl e
      | Inr spec \<Rightarrow>
          build_tickets completion ts
            (g\<lparr>cg_nodes := cg_nodes g @ [\<lparr>nd_id = pt_id t, nd_spec = spec\<rparr>] @ validate_nodes t,
               cg_edges := cg_edges g @ ticket_edges completion t\<rparr>))"

text \<open>\<open>collect\<close> into a result: the first error wins.\<close>

fun collect_tickets :: "(string + parsed_ticket) list \<Rightarrow> string + parsed_ticket list" where
  "collect_tickets [] = Inr []"
| "collect_tickets (Inl e # rs) = Inl e"
| "collect_tickets (Inr t # rs) = (case collect_tickets rs of Inl e \<Rightarrow> Inl e | Inr ts \<Rightarrow> Inr (t # ts))"

definition build_graph :: "raw_section list \<Rightarrow> string + compiled_graph" where
  "build_graph ss =
     (case collect_tickets (map parse_section_body ss) of
        Inl e \<Rightarrow> Inl e
      | Inr ts \<Rightarrow> build_tickets (completion_ids ts) ts \<lparr>cg_nodes = [], cg_edges = []\<rparr>)"

definition compile_tickets :: "string \<Rightarrow> string + compiled_graph" where
  "compile_tickets input = build_graph (parse_sections input)"

end
