(* ===== verification/Ticket_Props.thy ===== *)
theory Ticket_Props
  imports Ticket_Compiler Orcha_Build
begin

text \<open>
  What the ticket compiler produces, and the order in which a compiled plan runs once it has been built
  as a Lattice graph.
\<close>

subsection \<open>The compiler as a map over the tickets\<close>

definition plan_tickets :: "string \<Rightarrow> parsed_ticket list" where
  "plan_tickets input = map (\<lambda>s. projr (parse_section_body s)) (parse_sections input)"

definition ticket_nodes :: "parsed_ticket \<Rightarrow> orcha_node_def list" where
  "ticket_nodes t = \<lparr>nd_id = pt_id t, nd_spec = projr (ticket_spec t)\<rparr> # validate_nodes t"

lemma collect_parsed: "collect_tickets (map parse_section_body ss) = Inr (map (\<lambda>s. projr (parse_section_body s)) ss)"
  by (induction ss) (simp_all add: parse_section_body_def Let_def)

lemma build_tickets_map:
  "build_tickets c ts g =
     (case find (\<lambda>t. isl (ticket_spec t)) ts of
        Some t \<Rightarrow> Inl (projl (ticket_spec t))
      | None \<Rightarrow> Inr (g\<lparr>cg_nodes := cg_nodes g @ concat (map ticket_nodes ts), cg_edges := cg_edges g @ concat (map (ticket_edges c) ts)\<rparr>))"
proof (induction ts arbitrary: g)
  case (Cons t ts)
  then show ?case by (cases "ticket_spec t") (auto simp: ticket_nodes_def [of t] split: option.splits)
qed simp

lemma compile_ok:
  assumes "compile_tickets input = Inr g"
  shows "cg_nodes g = concat (map ticket_nodes (plan_tickets input))"
    and "cg_edges g = concat (map (ticket_edges (completion_ids (plan_tickets input))) (plan_tickets input))"
  using assms
  by (auto simp: compile_tickets_def build_graph_def collect_parsed plan_tickets_def build_tickets_map split: option.splits)

lemma completion_lookup:
  assumes "distinct (map pt_id ts)" and "t \<in> set ts"
  shows "completion_ids ts (pt_id t) = Some (completion_of t)"
proof -
  have keep: "fold (\<lambda>t m. m(pt_id t \<mapsto> completion_of t)) us m i = m i" if "i \<notin> pt_id ` set us" for us m i
    using that by (induction us arbitrary: m) auto
  have "fold (\<lambda>t m. m(pt_id t \<mapsto> completion_of t)) ts m (pt_id t) = Some (completion_of t)" for m
    using assms by (induction ts arbitrary: m) (auto simp: keep)
  then show ?thesis by (simp add: completion_ids_def)
qed

lemma distinct_tickets:
  "distinct (map nd_id (concat (map ticket_nodes ts))) \<Longrightarrow> distinct (map pt_id ts)"
proof (induction ts)
  case (Cons t ts)
  have own: "pt_id u \<in> set (map nd_id (ticket_nodes u))" for u by (simp add: ticket_nodes_def)
  have "set (map nd_id (ticket_nodes t)) \<inter> set (map nd_id (concat (map ticket_nodes ts))) = {}"
    using Cons.prems by simp
  moreover have "pt_id ` set ts \<subseteq> set (map nd_id (concat (map ticket_nodes ts)))"
    using own by fastforce
  ultimately have "pt_id t \<notin> pt_id ` set ts" using own [of t] by blast
  moreover have "distinct (map nd_id (concat (map ticket_nodes ts)))" using Cons.prems by simp
  ultimately show ?case using Cons.IH by simp
qed simp

text \<open>A dependency becomes an edge from the completion of the ticket it names.\<close>

lemma dependency_edge:
  assumes "compile_tickets input = Inr g" and "distinct (map nd_id (cg_nodes g))"
    and "t \<in> set (plan_tickets input)" and "t' \<in> set (plan_tickets input)" and "pt_id t \<in> set (pt_deps t')"
  shows "\<lparr>ed_from = completion_of t, ed_to = pt_id t'\<rparr> \<in> set (cg_edges g)"
proof -
  have "distinct (map pt_id (plan_tickets input))"
    using assms(2) distinct_tickets by (simp add: compile_ok(1) [OF assms(1)])
  then have "completion_ids (plan_tickets input) (pt_id t) = Some (completion_of t)"
    using completion_lookup assms(3) by blast
  then have "\<lparr>ed_from = completion_of t, ed_to = pt_id t'\<rparr> \<in> set (ticket_edges (completion_ids (plan_tickets input)) t')"
    using assms(5) by (force simp: ticket_edges_def)
  then show ?thesis using assms(4) by (auto simp: compile_ok(2) [OF assms(1)])
qed

subsection \<open>Building a graph is a run\<close>

lemma build_nodes_run: "run_step\<^sup>*\<^sup>* db (snd (build_nodes g ds uuids ids db))"
proof (induction ds arbitrary: uuids ids db)
  case (Cons d ds)
  obtain r db1 where a: "add_def g (nd_spec d) (uuids 0) db = (r, db1)" by fastforce
  then have "run_step db db1" using run_add_node [of db g None "def_spec (nd_spec d)" "uuids 0"] by (simp add: add_def_eq)
  then show ?case using Cons a by (cases r) (auto intro: converse_rtranclp_into_rtranclp)
qed simp

lemma build_edges_run:
  assumes "gstatus_of db g = Some G_Pending" and "\<forall>i < length ds. row_by er_id (uuids i) (db_edges db) = None"
    and "inj_on uuids {..<length ds}" and "labels_known db g ids"
    and "\<forall>d \<in> set ds. ed_from d \<in> dom ids \<and> ed_to d \<in> dom ids \<and> ids (ed_from d) \<noteq> ids (ed_to d)"
    and "\<forall>l n. ids l = Some n \<longrightarrow> status_of db n = Some N_Pending"
  shows "run_step\<^sup>*\<^sup>* db (snd (build_edges g ds uuids ids db))"
  using assms
proof (induction ds arbitrary: uuids db)
  case (Cons d ds)
  obtain dep n where ids: "ids (ed_from d) = Some dep" "ids (ed_to d) = Some n" "dep \<noteq> n" using Cons.prems(5) by auto
  let ?db1 = "db\<lparr>db_edges := db_edges db @ [\<lparr>er_id = uuids 0, er_graph = g, er_from = dep, er_to = n, er_condition = None\<rparr>]\<rparr>"
  have a: "add_edge g dep n None (uuids 0) db = (Inr (), ?db1)"
    using Cons.prems ids by (simp add: add_edge_pending labels_known_def)
  then have step: "run_step db ?db1"
    using run_add_edge [of dep n db g None "uuids 0"] ids Cons.prems(6) by simp
  have "row_by er_id (uuids (Suc i)) (db_edges ?db1) = None" if "i < length ds" for i
  proof -
    have "uuids (Suc i) \<noteq> uuids 0" using Cons.prems(3) that by (auto dest: inj_onD)
    moreover have "row_by er_id (uuids (Suc i)) (db_edges db) = None" using Cons.prems(2) that by simp
    ultimately show ?thesis by (simp add: row_by_append)
  qed
  moreover have "inj_on (\<lambda>i. uuids (Suc i)) {..<length ds}" using Cons.prems(3) by (auto simp: inj_on_def)
  moreover have "gstatus_of ?db1 g = Some G_Pending" "labels_known ?db1 g ids" "status_of ?db1 m = status_of db m" for m
    using Cons.prems(1,4) by (simp_all add: gstatus_of_def labels_known_def node_in_graph_def status_of_def)
  ultimately have "run_step\<^sup>*\<^sup>* ?db1 (snd (build_edges g ds (\<lambda>i. uuids (Suc i)) ids ?db1))"
    using Cons.prems(5,6) by (intro Cons.IH) simp_all
  then show ?case using step ids by (simp add: depends_on_def a converse_rtranclp_into_rtranclp)
qed simp

lemma label_map_nth:
  assumes "distinct (map nd_id ns)" and "i < length ns"
  shows "label_map ns nu (nd_id (ns ! i)) = Some (nu i)"
proof -
  have "(nd_id (ns ! i), nu i) \<in> set (rev (zip (map nd_id ns) (map nu [0..<length ns])))"
    using assms(2) by (auto simp: set_zip intro!: exI [of _ i])
  moreover have "distinct (map fst (rev (zip (map nd_id ns) (map nu [0..<length ns]))))"
    using assms(1) by (simp add: rev_map [symmetric])
  ultimately show ?thesis unfolding label_map_def by (rule map_of_is_SomeI [rotated])
qed

lemma label_map_inj:
  assumes "distinct (map nd_id ns)" and "inj_on nu {..<length ns}" and "l \<in> nd_id ` set ns" and "l' \<in> nd_id ` set ns"
    and "label_map ns nu l = label_map ns nu l'"
  shows "l = l'"
proof -
  obtain i j where "i < length ns" "l = nd_id (ns ! i)" "j < length ns" "l' = nd_id (ns ! j)"
    using assms(3,4) by (auto simp: in_set_conv_nth)
  then show ?thesis using assms(2,5) label_map_nth [OF assms(1), of _ nu] by (auto dest: inj_onD)
qed

lemma with_child_pending:
  assumes "\<forall>i < length ns. row_by nr_id (nu i) (db_nodes db) = None" and "label_map ns nu l = Some n"
  shows "status_of (with_child g parent m ns nu db) n = Some N_Pending"
proof -
  obtain i where i: "i < length ns" "n = nu i" using label_map_range [OF assms(2)] by auto
  have ids: "map nr_id (def_rows g ns nu db) = map nu [0..<length ns]"
    by (rule nth_equalityI) (simp_all add: def_rows_def fresh_node_def)
  have "n \<in> nr_id ` set (def_rows g ns nu db)"
    using i arg_cong [OF ids, of set] by auto
  then obtain r where "row_by nr_id n (def_rows g ns nu db) = Some r"
    using row_by_None_iff [of nr_id n "def_rows g ns nu db"] by (cases "row_by nr_id n (def_rows g ns nu db)") auto
  moreover from this have "r \<in> set (def_rows g ns nu db)" using row_by_Some_in by fast
  then have "nr_status r = N_Pending" by (auto simp: def_rows_def fresh_node_def set_zip)
  ultimately show ?thesis using assms(1) i by (simp add: with_child_def status_of_def row_by_append)
qed

lemma build_child_run:
  assumes "run_reachable fk db" and "row_by gr_id (''lattice-'' @ gu) (db_graphs db) = None" and "row_by gr_id parent (db_graphs db) \<noteq> None"
    and "\<forall>i < length ns. row_by nr_id (nu i) (db_nodes db) = None" and "inj_on nu {..<length ns}"
    and "\<forall>i < length es. row_by er_id (eu i) (db_edges db) = None" and "inj_on eu {..<length es}"
    and "distinct (map nd_id ns)"
    and "\<forall>d \<in> set es. ed_from d \<in> nd_id ` set ns \<and> ed_to d \<in> nd_id ` set ns \<and> ed_from d \<noteq> ed_to d"
    and "build_child_graph parent m ns es gu nu eu db = (Inr (g, labels), db1)"
  shows "run_reachable fk db1 \<and> labels = label_map ns nu \<and>
    (\<forall>d \<in> set es. \<exists>e \<in> set (db_edges db1). er_from e = the (labels (ed_from d)) \<and> er_to e = the (labels (ed_to d)))"
proof -
  define g' where "g' = ''lattice-'' @ gu"
  note child = build_nodes_child [OF assms(2-5), where m = m, folded g'_def]
  let ?db2 = "with_child g' parent m ns nu db"
  have e: "db_edges ?db2 = db_edges db" by (simp add: with_child_def)
  have dom: "\<forall>d \<in> set es. ed_from d \<in> dom (label_map ns nu) \<and> ed_to d \<in> dom (label_map ns nu)"
    using assms(9) by (simp add: label_map_dom)
  have edges: "build_edges g' es eu (label_map ns nu) ?db2 =
      (Inr (), ?db2\<lparr>db_edges := db_edges db @ edge_rows g' es eu (label_map ns nu)\<rparr>)"
    using build_edges_ok [OF child(2) _ assms(7) child(3) dom] assms(6) by (simp add: e)
  have "build_child_graph parent m ns es gu nu eu db =
      (Inr (g', label_map ns nu), ?db2\<lparr>db_edges := db_edges db @ edge_rows g' es eu (label_map ns nu)\<rparr>)"
    by (simp add: child(1) edges)
  from trans [OF sym [OF this] assms(10)] have db1: "labels = label_map ns nu" "db1 = ?db2\<lparr>db_edges := db_edges db @ edge_rows g' es eu (label_map ns nu)\<rparr>"
    by (auto simp only: prod.inject sum.inject)
  have "\<forall>d \<in> set es. label_map ns nu (ed_from d) \<noteq> label_map ns nu (ed_to d)"
    using assms(9) label_map_inj [OF assms(8,5)] by blast
  then have run2: "run_step\<^sup>*\<^sup>* ?db2 db1"
    using build_edges_run [OF child(2) _ assms(7) child(3)] assms(4,6) dom with_child_pending edges db1
    by (simp add: e)
  have c: "create_child_graph parent m gu db = (Inr g', db\<lparr>db_graphs := db_graphs db @ [\<lparr>gr_id = g', gr_metadata = m,
      gr_status = G_Pending, gr_created_at = db_clock db, gr_parent = Some parent\<rparr>]\<rparr>)" (is "_ = (_, ?dbc)")
    using assms(2,3) by (simp add: create_child_graph_def Let_def g'_def)
  then have "run_step db ?dbc" using run_create_child [of db parent m gu] by simp
  moreover have "snd (build_nodes g' ns nu Map.empty ?dbc) = ?db2"
  proof -
    have "gstatus_of ?dbc g' = Some G_Pending" using assms(2) by (simp add: gstatus_of_def row_by_append g'_def)
    then show ?thesis using build_nodes_ok [of ?dbc g' ns nu Map.empty] assms(4,5)
      by (simp add: with_child_def def_rows_def fresh_node_def)
  qed
  then have "run_step\<^sup>*\<^sup>* ?dbc ?db2" using build_nodes_run [of ?dbc g' ns nu Map.empty] by simp
  ultimately have "run_reachable fk db1"
    using assms(1) run2 by (meson run_more run_steps_reachable)
  moreover have "\<exists>e \<in> set (db_edges db1). er_from e = the (labels (ed_from d)) \<and> er_to e = the (labels (ed_to d))" if "d \<in> set es" for d
  proof -
    obtain i where "i < length es" "es ! i = d" using \<open>d \<in> set es\<close> by (auto simp: in_set_conv_nth)
    have "edge_rows g' es eu (label_map ns nu) ! i \<in> set (edge_rows g' es eu (label_map ns nu))"
      using \<open>i < length es\<close> by (intro nth_mem) (simp add: edge_rows_def)
    then have "edge_rows g' es eu (label_map ns nu) ! i \<in> set (db_edges db1)" by (simp add: db1)
    moreover have "er_from (edge_rows g' es eu (label_map ns nu) ! i) = the (labels (ed_from d))"
      "er_to (edge_rows g' es eu (label_map ns nu) ! i) = the (labels (ed_to d))"
      using \<open>i < length es\<close> \<open>es ! i = d\<close> by (simp_all add: db1 edge_rows_def)
    ultimately show ?thesis by blast
  qed
  ultimately show ?thesis using db1(1) by blast
qed

subsection \<open>Properties\<close>

text \<open>The ticket itself precedes its validation.\<close>

lemma validation_edge:
  assumes "compile_tickets input = Inr g" and "t \<in> set (plan_tickets input)" and "pt_validate t \<noteq> None"
  shows "\<lparr>ed_from = pt_id t, ed_to = completion_of t\<rparr> \<in> set (cg_edges g)"
proof -
  have "\<lparr>ed_from = pt_id t, ed_to = completion_of t\<rparr> \<in> set (ticket_edges (completion_ids (plan_tickets input)) t)"
    using assms(3) by (auto simp: ticket_edges_def completion_of_def)
  then show ?thesis using assms(2) by (auto simp: compile_ok(2) [OF assms(1)])
qed

text \<open>
  C20. From plan to run: when a compiled plan has been built as a graph, then in every state that a run
  reaches from there a ticket that has left \<open>Pending\<close> has every ticket it is blocked by behind it, and where
  such a ticket asks for validation the validation node too: they have finished. Finished means \<open>Complete\<close> or
  \<open>Failed\<close>. The documentation of the compiler promises more, that downstream work starts only after the
  validation passes; the compiled edges carry no condition and take the error token of a failed validation as
  well, so the promise is not kept. The run of the witness is one in which the validation of \<open>A\<close> fails and \<open>B\<close> is
  readied.
\<close>

theorem plan_order:
  assumes "run_reachable fk db" and "row_by gr_id (''lattice-'' @ gu) (db_graphs db) = None" and "row_by gr_id parent (db_graphs db) \<noteq> None"
    and "compile_tickets plan = Inr g"
    and "\<forall>i < length (cg_nodes g). row_by nr_id (nu i) (db_nodes db) = None" and "inj_on nu {..<length (cg_nodes g)}"
    and "\<forall>i < length (cg_edges g). row_by er_id (eu i) (db_edges db) = None" and "inj_on eu {..<length (cg_edges g)}"
    and "distinct (map nd_id (cg_nodes g))"
    and "\<forall>d \<in> set (cg_edges g). ed_from d \<in> nd_id ` set (cg_nodes g) \<and> ed_to d \<in> nd_id ` set (cg_nodes g) \<and> ed_from d \<noteq> ed_to d"
    and "build_child_graph parent m (cg_nodes g) (cg_edges g) gu nu eu db = (Inr (gid, labels), db1)"
    and "run_step\<^sup>*\<^sup>* db1 db2"
    and "t \<in> set (plan_tickets plan)" and "t' \<in> set (plan_tickets plan)" and "pt_id t \<in> set (pt_deps t')"
    and "status_of db2 (the (labels (pt_id t'))) \<noteq> Some N_Pending"
  shows "status_of db2 (the (labels (completion_of t))) \<in> {Some N_Complete, Some N_Failed} \<and>
    status_of db2 (the (labels (pt_id t))) \<in> {Some N_Complete, Some N_Failed}"
proof -
  note built = build_child_run [OF assms(1-3) assms(5-11)]
  have order: "status_of db2 (the (labels a)) \<in> {Some N_Complete, Some N_Failed}"
    if link: "\<lparr>ed_from = a, ed_to = b\<rparr> \<in> set (cg_edges g)" and left: "status_of db2 (the (labels b)) \<noteq> Some N_Pending" for a b
  proof -
    obtain e where e: "e \<in> set (db_edges db1)" "er_from e = the (labels a)" "er_to e = the (labels b)"
      using built link by fastforce
    have "finished db2 (er_from e)"
      using run_edge_order [OF run_steps_reachable [OF assms(12)]] run_steps_edges [OF assms(12)] built e left by fastforce
    then show ?thesis by (auto simp: finished_def terminal_status_def e(2) split: option.splits)
  qed
  have "\<lparr>ed_from = completion_of t, ed_to = pt_id t'\<rparr> \<in> set (cg_edges g)"
    by (rule dependency_edge [OF assms(4,9,13-15)])
  then have ended: "status_of db2 (the (labels (completion_of t))) \<in> {Some N_Complete, Some N_Failed}"
    using assms(16) by (rule order)
  moreover have "status_of db2 (the (labels (pt_id t))) \<in> {Some N_Complete, Some N_Failed}"
  proof (cases "pt_validate t")
    case (Some cmd)
    then have "\<lparr>ed_from = pt_id t, ed_to = completion_of t\<rparr> \<in> set (cg_edges g)"
      using validation_edge [OF assms(4,13)] by simp
    then show ?thesis by (rule order) (use ended in auto)
  qed (use ended in \<open>simp add: completion_of_def\<close>)
  ultimately show ?thesis by blast
qed

text \<open>A plan of two tickets, the first with a validation.\<close>

definition demo_plan :: string where
  "demo_plan = join_with newline
     [''Notes'', ''# A: first [agent]'', ''Write it.'', ''validate: make test'', ''# B [prog]'', ''blocked_by: [A]'', ''make all'']"

definition plan_graph :: compiled_graph where
  "plan_graph =
     \<lparr>cg_nodes = [\<lparr>nd_id = ''A'', nd_spec = Def_Task ''Write it.'' None\<rparr>,
        \<lparr>nd_id = ''A-validate'', nd_spec = Def_Validate ''make test'' None None\<rparr>,
        \<lparr>nd_id = ''B'', nd_spec = Def_Validate ''make all'' None None\<rparr>],
      cg_edges = [\<lparr>ed_from = ''A'', ed_to = ''A-validate''\<rparr>, \<lparr>ed_from = ''A-validate'', ed_to = ''B''\<rparr>]\<rparr>"

lemma demo_plan_compiles: "compile_tickets demo_plan = Inr plan_graph"
  "map pt_id (plan_tickets demo_plan) = [''A'', ''B'']" "map completion_of (plan_tickets demo_plan) = [''A-validate'', ''B'']"
  "map pt_deps (plan_tickets demo_plan) = [[], [''A'']]"
  by code_simp+

text \<open>It is built below a parent graph, started, and run until the validation of \<open>A\<close> has failed.\<close>

definition plan_uuid :: "nat \<Rightarrow> string" where
  "plan_uuid i = replicate (Suc i) CHR ''n''"

lemma plan_uuid_inj: "inj_on plan_uuid A"
  by (rule inj_onI) (auto simp: plan_uuid_def dest: arg_cong [where f = length])

definition plan_parent :: lattice_db where
  "plan_parent = snd (create_graph JNull ''p'' (empty_db True))"

definition plan_built :: "(build_error, graph_id \<times> (string \<rightharpoonup> node_id), lattice_db) outcome" where
  "plan_built = build_child_graph ''lattice-p'' JNull (cg_nodes plan_graph) (cg_edges plan_graph) ''c'' plan_uuid plan_uuid plan_parent"

definition plan_labels :: "string \<rightharpoonup> node_id" where
  "plan_labels = snd (projr (fst plan_built))"

definition run_node :: "node_id \<Rightarrow> string option \<Rightarrow> lattice_db \<Rightarrow> lattice_db" where
  "run_node n err db =
     (case advance_graph ''lattice-c'' n (if err = None then Some (Single token_ok) else None) err (start_node ''lattice-c'' n db) of
        Some (_, db') \<Rightarrow> db' | None \<Rightarrow> db)"

lemma plan_facts:
  "is_ok (fst plan_built)" "fst (projr (fst plan_built)) = ''lattice-c''"
  "plan_labels ''A'' = Some ''n''" "plan_labels ''A-validate'' = Some ''nn''" "plan_labels ''B'' = Some ''nnn''"
  "db_nodes plan_parent = []" "db_edges plan_parent = []"
  "row_by gr_id ''lattice-c'' (db_graphs plan_parent) = None" "row_by gr_id ''lattice-p'' (db_graphs plan_parent) \<noteq> None"
  by code_simp+

definition plan_started :: lattice_db where
  "plan_started = start_graph ''lattice-c'' (snd plan_built)"

definition plan_written :: lattice_db where
  "plan_written = run_node ''n'' None plan_started"

definition plan_run :: lattice_db where
  "plan_run = run_node ''nn'' (Some ''exit 1'') plan_written"

lemma run_node_run:
  assumes "status_of db n = Some N_Ready" and "handed_out (start_node ''lattice-c'' n db) n"
  shows "run_step\<^sup>*\<^sup>* db (run_node n err db)"
proof -
  let ?out = "if err = None then Some (Single token_ok) else None"
  have "run_step db (start_node ''lattice-c'' n db)" by (rule run_start_node [OF assms(1)])
  moreover have "run_step (start_node ''lattice-c'' n db) b"
    if "advance_graph ''lattice-c'' n ?out err (start_node ''lattice-c'' n db) = Some (a, b)" for a b
    using run_outcome [OF assms(2)] that by blast
  ultimately show ?thesis by (auto simp: run_node_def split: option.splits intro: converse_rtranclp_into_rtranclp)
qed

lemma plan_run_facts:
  "status_of plan_started ''n'' = Some N_Ready" "handed_out (start_node ''lattice-c'' ''n'' plan_started) ''n''"
  "status_of plan_written ''nn'' = Some N_Ready"
  "handed_out (start_node ''lattice-c'' ''nn'' plan_written) ''nn''"
  "status_of plan_run ''nn'' = Some N_Failed" "status_of plan_run ''nnn'' = Some N_Ready"
  by code_simp+

lemma plan_run_steps: "run_step\<^sup>*\<^sup>* (snd plan_built) plan_run"
proof -
  have "run_step\<^sup>*\<^sup>* plan_started plan_written"
    unfolding plan_written_def by (rule run_node_run) (rule plan_run_facts)+
  moreover have "run_step\<^sup>*\<^sup>* plan_written plan_run"
    unfolding plan_run_def by (rule run_node_run) (rule plan_run_facts)+
  moreover have "run_step (snd plan_built) plan_started" unfolding plan_started_def by (rule run_start)
  ultimately show ?thesis by (meson converse_rtranclp_into_rtranclp rtranclp_trans)
qed

theorem plan_order_witness:
  "status_of plan_run ''n'' \<in> {Some N_Complete, Some N_Failed} \<and> status_of plan_run ''nn'' = Some N_Failed \<and>
   status_of plan_run ''nnn'' = Some N_Ready"
proof -
  have built: "build_child_graph ''lattice-p'' JNull (cg_nodes plan_graph) (cg_edges plan_graph) ''c'' plan_uuid plan_uuid plan_parent =
      (Inr (''lattice-c'', plan_labels), snd plan_built)"
    using plan_facts(1,2) unfolding plan_built_def [symmetric] plan_labels_def
    by (cases "fst plan_built") (auto simp: prod_eq_iff)
  obtain t t' where ts: "plan_tickets demo_plan = [t, t']" "pt_id t = ''A''" "pt_id t' = ''B''" "completion_of t = ''A-validate''"
    "pt_deps t' = [''A'']"
    using demo_plan_compiles(2-4) by (auto simp: map_eq_Cons_conv)
  have reach: "run_reachable True plan_parent"
    unfolding plan_parent_def by (rule run_more [OF run_init run_create_graph])
  show ?thesis
    using plan_order [OF reach _ _ demo_plan_compiles(1) _ plan_uuid_inj _ plan_uuid_inj _ _ built plan_run_steps, of t t'] ts plan_facts plan_run_facts(5,6)
    by (simp add: plan_graph_def)
qed

end
