(* ===== verification/Claude_Types.thy ===== *)
theory Claude_Types
  imports Arbor_Store
begin

text \<open>
  The data of ClaudeCode, the sessions with the Claude command line program:
  \<^verbatim>\<open>src/src/activations/claudecode/types.rs\<close>. A UUID is its text. A double is the number of its bit
  pattern. The derived JSON form of a type is written out as functions to and from \<^typ>\<open>json\<close>
  values: an internally tagged enum is an object whose entry \<open>type\<close> names the variant. Reading also
  takes the array form that the derived code accepts, unknown entries are ignored, and a missing
  entry of an \<open>Option\<close> type reads as \<open>None\<close>.
\<close>

type_synonym f64 = nat

subsection \<open>Roles and models\<close>

datatype message_role = Role_User | Role_Assistant | Role_System

fun role_str :: "message_role \<Rightarrow> string" where
  "role_str Role_User = ''user''"
| "role_str Role_Assistant = ''assistant''"
| "role_str Role_System = ''system''"

definition role_of_str :: "string \<Rightarrow> message_role option" where
  "role_of_str s =
     (if s = ''user'' then Some Role_User else if s = ''assistant'' then Some Role_Assistant
      else if s = ''system'' then Some Role_System else None)"

lemma role_of_str_str [simp]: "role_of_str (role_str r) = Some r"
  by (cases r) (simp_all add: role_of_str_def)

datatype claude_model = Opus | Sonnet | Haiku

fun model_str :: "claude_model \<Rightarrow> string" where
  "model_str Opus = ''opus''"
| "model_str Sonnet = ''sonnet''"
| "model_str Haiku = ''haiku''"

text \<open>
  \<open>str::to_lowercase\<close>, as far as its result may be ASCII: besides the capital letters only the
  Kelvin sign (U+212A) has a lower case form in ASCII. All other characters stay outside ASCII.
\<close>

definition lower_char :: "char \<Rightarrow> char" where
  "lower_char c = (if 65 \<le> byte c \<and> byte c \<le> 90 then char_of (byte c + 32) else c)"

fun lower_text :: "string \<Rightarrow> string" where
  "lower_text [] = []"
| "lower_text (c # cs) =
     (if byte c = 0xE2 \<and> map byte (take 2 cs) = [0x84, 0xAA] then CHR ''k'' # lower_text (drop 2 cs)
      else lower_char c # lower_text cs)"

definition model_of_str :: "string \<Rightarrow> claude_model option" where
  "model_of_str s =
     (let l = lower_text s
      in if l = ''opus'' then Some Opus else if l = ''sonnet'' then Some Sonnet
         else if l = ''haiku'' then Some Haiku else None)"

lemma model_of_str_str [simp]: "model_of_str (model_str m) = Some m"
  by (cases m) (simp_all add: model_of_str_def lower_char_def byte_def Let_def)

subsection \<open>Sessions and messages\<close>

record position =
  ps_tree :: arbor_id
  ps_node :: arbor_id

definition advance_position :: "position \<Rightarrow> arbor_id \<Rightarrow> position" where
  "advance_position p i = \<lparr>ps_tree = ps_tree p, ps_node = i\<rparr>"

record claude_msg =
  ms_id :: string
  ms_session :: string
  ms_role :: message_role
  ms_content :: string
  ms_created_at :: int
  ms_model_id :: "string option"
  ms_input_tokens :: "int option"
  ms_output_tokens :: "int option"
  ms_cost :: "f64 option"

record claude_config =
  cf_id :: string
  cf_name :: string
  cf_claude_id :: "string option"
  cf_loopback_id :: "string option"
  cf_head :: position
  cf_working_dir :: string
  cf_model :: claude_model
  cf_prompt :: "string option"
  cf_mcp :: "json option"
  cf_loopback :: bool
  cf_metadata :: "json option"
  cf_created_at :: int
  cf_updated_at :: int

record claude_info =
  ci_id :: string
  ci_name :: string
  ci_model :: claude_model
  ci_head :: position
  ci_claude_id :: "string option"
  ci_working_dir :: string
  ci_loopback :: bool
  ci_created_at :: int

definition info_of_config :: "claude_config \<Rightarrow> claude_info" where
  "info_of_config c =
     \<lparr>ci_id = cf_id c, ci_name = cf_name c, ci_model = cf_model c, ci_head = cf_head c, ci_claude_id = cf_claude_id c,
      ci_working_dir = cf_working_dir c, ci_loopback = cf_loopback c, ci_created_at = cf_created_at c\<rparr>"

record chat_usage =
  cu_input_tokens :: "nat option"
  cu_output_tokens :: "nat option"
  cu_cost :: "f64 option"
  cu_turns :: "int option"

subsection \<open>Streams\<close>

datatype stream_status = Running_Stream | Awaiting_Permission | Complete_Stream | Failed_Stream

record stream_info =
  si_stream :: string
  si_session :: string
  si_status :: stream_status
  si_user_position :: "position option"
  si_event_count :: nat
  si_read_position :: nat
  si_started_at :: int
  si_ended_at :: "int option"
  si_error :: "string option"

datatype chat_event =
    Chat_Start string position
  | Chat_Content string
  | Chat_Thinking string
  | Chat_Tool_Use string string json
  | Chat_Tool_Result string string bool
  | Chat_Complete position string "chat_usage option"
  | Chat_Passthrough string string json
  | Chat_Err string

record buffered_event =
  be_seq :: nat
  be_event :: chat_event
  be_time :: int

subsection \<open>Errors\<close>

datatype claude_error =
    Path_Resolution string string
  | Session_Not_Found string
  | Ambiguous_Session string string
  | Claude_Database string
  | Claude_Parse string string
  | Claude_Serialization
  | Claude_Arbor string

text \<open>\<open>Display\<close>; the driver's and the parser's own messages at the end are not modelled.\<close>

definition quoted :: "string \<Rightarrow> string" where
  "quoted s = [CHR 0x27] @ s @ [CHR 0x27]"

fun claude_error_text :: "claude_error \<Rightarrow> string" where
  "claude_error_text (Path_Resolution p s) = ''failed to resolve working directory '' @ quoted p @ '': '' @ s"
| "claude_error_text (Session_Not_Found i) = ''session not found: '' @ i"
| "claude_error_text (Ambiguous_Session n m) =
     ''ambiguous session name '' @ quoted n @ '' matches multiple sessions: '' @ m"
| "claude_error_text (Claude_Database op) = ''database error: '' @ op @ '': ''"
| "claude_error_text (Claude_Parse c d) = ''parse error: '' @ c @ '': '' @ d"
| "claude_error_text Claude_Serialization = ''serialization error: ''"
| "claude_error_text (Claude_Arbor m) = ''arbor error: '' @ m"

subsection \<open>Events of the command line program\<close>

datatype raw_block =
    Raw_Text string
  | Raw_Thinking string "string option"
  | Raw_Tool_Use string string json
  | Raw_Tool_Result string "string option" "bool option"

record raw_message =
  rm_id :: "string option"
  rm_role :: "string option"
  rm_model :: "string option"
  rm_content :: "raw_block list option"

datatype stream_block = Stream_Text "string option" | Stream_Tool_Use string string "json option"

datatype stream_delta = Text_Delta string | Input_Json_Delta string

datatype stream_inner =
    Message_Start "(string option \<times> string option) option"
  | Block_Start nat "stream_block option"
  | Block_Delta nat stream_delta
  | Block_Stop nat
  | Message_Delta "string option" "string option"
  | Message_Stop

record result_info =
  ri_subtype :: "string option"
  ri_session :: "string option"
  ri_cost :: "f64 option"
  ri_is_error :: "bool option"
  ri_duration :: "int option"
  ri_turns :: "int option"
  ri_result :: "string option"
  ri_error :: "string option"

datatype raw_event =
    Raw_System "string option" "string option" "string option" "string option" "string list option"
  | Raw_Assistant "raw_message option"
  | Raw_User "raw_message option"
  | Raw_Result result_info
  | Raw_Stream stream_inner "string option"
  | Raw_Unknown string json
  | Raw_Launch string
  | Raw_Stderr string

subsection \<open>Events stored in the tree, and messages\<close>

datatype node_event =
    User_Message string
  | Assistant_Start
  | Content_Text string
  | Content_Tool_Use string string json
  | Content_Thinking string
  | User_Tool_Result string string bool
  | Assistant_Complete "chat_usage option"
  | Launch_Command string
  | Claude_Stderr string

datatype content_block =
    Block_Text string
  | Block_Tool_Use string string json
  | Block_Tool_Result string string bool
  | Block_Thinking string

record claude_message =
  cm_role :: string
  cm_content :: "content_block list"

subsection \<open>The JSON form of stored events\<close>

definition opt_json :: "('a \<Rightarrow> json) \<Rightarrow> 'a option \<Rightarrow> json" where
  "opt_json f x = (case x of None \<Rightarrow> JNull | Some y \<Rightarrow> f y)"

text \<open>A double that is infinite or not a number is written as \<open>null\<close>.\<close>

definition finite_bits :: "f64 \<Rightarrow> bool" where
  "finite_bits b \<longleftrightarrow> b div 2 ^ 52 mod 2048 \<noteq> 2047"

definition f64_json :: "f64 \<Rightarrow> json" where
  "f64_json b = (if finite_bits b then JNum (Float_Bits b) else JNull)"

definition nat_json :: "nat \<Rightarrow> json" where
  "nat_json n = JNum (Int_Number (int n))"

definition usage_json :: "chat_usage \<Rightarrow> json" where
  "usage_json u = JObj
     [(''input_tokens'', opt_json nat_json (cu_input_tokens u)), (''output_tokens'', opt_json nat_json (cu_output_tokens u)),
      (''cost_usd'', opt_json f64_json (cu_cost u)), (''num_turns'', opt_json (\<lambda>i. JNum (Int_Number i)) (cu_turns u))]"

fun node_event_json :: "node_event \<Rightarrow> json" where
  "node_event_json (User_Message c) = JObj [(''type'', JStr ''user_message''), (''content'', JStr c)]"
| "node_event_json Assistant_Start = JObj [(''type'', JStr ''assistant_start'')]"
| "node_event_json (Content_Text t) = JObj [(''type'', JStr ''content_text''), (''text'', JStr t)]"
| "node_event_json (Content_Tool_Use i n v) =
     JObj [(''type'', JStr ''content_tool_use''), (''id'', JStr i), (''name'', JStr n), (''input'', v)]"
| "node_event_json (Content_Thinking t) = JObj [(''type'', JStr ''content_thinking''), (''thinking'', JStr t)]"
| "node_event_json (User_Tool_Result i c e) =
     JObj [(''type'', JStr ''user_tool_result''), (''tool_use_id'', JStr i), (''content'', JStr c), (''is_error'', JBool e)]"
| "node_event_json (Assistant_Complete u) = JObj [(''type'', JStr ''assistant_complete''), (''usage'', opt_json usage_json u)]"
| "node_event_json (Launch_Command c) = JObj [(''type'', JStr ''launch_command''), (''command'', JStr c)]"
| "node_event_json (Claude_Stderr t) = JObj [(''type'', JStr ''claude_stderr''), (''text'', JStr t)]"

text \<open>Reading: a field of type \<open>String\<close>, \<open>bool\<close>, \<open>u64\<close>, \<open>i32\<close> or \<open>f64\<close>.\<close>

fun as_str :: "json option \<Rightarrow> string option" where
  "as_str (Some (JStr s)) = Some s"
| "as_str _ = None"

fun as_bool :: "json option \<Rightarrow> bool option" where
  "as_bool (Some (JBool b)) = Some b"
| "as_bool _ = None"

text \<open>An optional field: the outer option is the failure of the reader.\<close>

fun as_opt :: "(json option \<Rightarrow> 'a option) \<Rightarrow> json option \<Rightarrow> 'a option option" where
  "as_opt f None = Some None"
| "as_opt f (Some JNull) = Some None"
| "as_opt f (Some v) = map_option Some (f (Some v))"

fun as_u64 :: "json option \<Rightarrow> nat option" where
  "as_u64 (Some (JNum (Int_Number i))) = (if 0 \<le> i \<and> i < 2 ^ 64 then Some (nat i) else None)"
| "as_u64 _ = None"

fun as_i32 :: "json option \<Rightarrow> int option" where
  "as_i32 (Some (JNum (Int_Number i))) = (if - (2 ^ 31) \<le> i \<and> i < 2 ^ 31 then Some i else None)"
| "as_i32 _ = None"

text \<open>An integer literal converts to the nearest double: \<open>f64_of_int\<close>, a parameter.\<close>

fun as_f64 :: "(int \<Rightarrow> f64) \<Rightarrow> json option \<Rightarrow> f64 option" where
  "as_f64 f64_of_int (Some (JNum (Float_Bits b))) = Some b"
| "as_f64 f64_of_int (Some (JNum (Int_Number i))) = Some (f64_of_int i)"
| "as_f64 f64_of_int _ = None"

text \<open>
  The fields of a value with the names \<open>ns\<close>: by name in an object, by position in an array of the
  right length.
\<close>

fun fields_of :: "string list \<Rightarrow> json \<Rightarrow> (string \<Rightarrow> json option) option" where
  "fields_of ns (JObj kvs) = Some (map_of kvs)"
| "fields_of ns (JArr vs) = (if length vs = length ns then Some (map_of (zip ns vs)) else None)"
| "fields_of ns _ = None"

text \<open>The variant of an internally tagged value, and the value without the tag.\<close>

fun untag :: "json \<Rightarrow> (string \<times> json) option" where
  "untag (JObj kvs) = (case map_of kvs ''type'' of Some (JStr t) \<Rightarrow> Some (t, JObj (filter (\<lambda>e. fst e \<noteq> ''type'') kvs)) | _ \<Rightarrow> None)"
| "untag (JArr (JStr t # vs)) = Some (t, JArr vs)"
| "untag _ = None"

definition usage_of_json :: "(int \<Rightarrow> f64) \<Rightarrow> json option \<Rightarrow> chat_usage option" where
  "usage_of_json f64_of_int v =
     Option.bind v (\<lambda>v. Option.bind (fields_of [''input_tokens'', ''output_tokens'', ''cost_usd'', ''num_turns''] v) (\<lambda>f.
     Option.bind (as_opt as_u64 (f ''input_tokens'')) (\<lambda>i.
     Option.bind (as_opt as_u64 (f ''output_tokens'')) (\<lambda>out.
     Option.bind (as_opt (as_f64 f64_of_int) (f ''cost_usd'')) (\<lambda>c.
     Option.bind (as_opt as_i32 (f ''num_turns'')) (\<lambda>t.
       Some \<lparr>cu_input_tokens = i, cu_output_tokens = out, cu_cost = c, cu_turns = t\<rparr>))))))"

definition one_str :: "string \<Rightarrow> (string \<Rightarrow> node_event) \<Rightarrow> json \<Rightarrow> node_event option" where
  "one_str n mk body = Option.bind (fields_of [n] body) (\<lambda>f. map_option mk (as_str (f n)))"

definition node_event_of_json :: "(int \<Rightarrow> f64) \<Rightarrow> json \<Rightarrow> node_event option" where
  "node_event_of_json f64_of_int v = Option.bind (untag v) (\<lambda>(t, body).
     if t = ''user_message'' then one_str ''content'' User_Message body
     else if t = ''assistant_start'' then Some Assistant_Start
     else if t = ''content_text'' then one_str ''text'' Content_Text body
     else if t = ''content_tool_use'' then
       Option.bind (fields_of [''id'', ''name'', ''input''] body) (\<lambda>f.
       Option.bind (as_str (f ''id'')) (\<lambda>i. Option.bind (as_str (f ''name'')) (\<lambda>n.
       Option.bind (f ''input'') (\<lambda>x. Some (Content_Tool_Use i n x)))))
     else if t = ''content_thinking'' then one_str ''thinking'' Content_Thinking body
     else if t = ''user_tool_result'' then
       Option.bind (fields_of [''tool_use_id'', ''content'', ''is_error''] body) (\<lambda>f.
       Option.bind (as_str (f ''tool_use_id'')) (\<lambda>i. Option.bind (as_str (f ''content'')) (\<lambda>c.
       Option.bind (as_bool (f ''is_error'')) (\<lambda>e. Some (User_Tool_Result i c e)))))
     else if t = ''assistant_complete'' then
       Option.bind (fields_of [''usage''] body) (\<lambda>f.
       map_option Assistant_Complete (as_opt (usage_of_json f64_of_int) (f ''usage'')))
     else if t = ''launch_command'' then one_str ''command'' Launch_Command body
     else if t = ''claude_stderr'' then one_str ''text'' Claude_Stderr body
     else None)"

text \<open>The events that the machine types can hold and that JSON can carry.\<close>

definition usage_in_range :: "chat_usage \<Rightarrow> bool" where
  "usage_in_range u \<longleftrightarrow>
     pred_option (\<lambda>n. n < 2 ^ 64) (cu_input_tokens u) \<and> pred_option (\<lambda>n. n < 2 ^ 64) (cu_output_tokens u) \<and>
     pred_option finite_bits (cu_cost u) \<and> pred_option (\<lambda>i. - (2 ^ 31) \<le> i \<and> i < 2 ^ 31) (cu_turns u)"

fun event_in_range :: "node_event \<Rightarrow> bool" where
  "event_in_range (Assistant_Complete (Some u)) = usage_in_range u"
| "event_in_range _ = True"

lemma as_opt_opt_json:
  assumes "pred_option P x" and "\<And>y. P y \<Longrightarrow> g y \<noteq> JNull \<and> f (Some (g y)) = Some y"
  shows "as_opt f (Some (opt_json g x)) = Some x"
proof (cases x)
  case (Some y)
  have "g y \<noteq> JNull" "f (Some (g y)) = Some y" using assms(2) [of y] assms(1) Some by simp_all
  then show ?thesis using Some by (cases "g y") (simp_all add: opt_json_def)
qed (simp add: opt_json_def)

lemma usage_roundtrip:
  assumes "usage_in_range u"
  shows "usage_of_json f64_of_int (Some (usage_json u)) = Some u"
proof -
  have "as_opt as_u64 (Some (opt_json nat_json (cu_input_tokens u))) = Some (cu_input_tokens u)"
    "as_opt as_u64 (Some (opt_json nat_json (cu_output_tokens u))) = Some (cu_output_tokens u)"
    using assms by (auto intro!: as_opt_opt_json simp: usage_in_range_def nat_json_def)
  moreover have "as_opt (as_f64 f64_of_int) (Some (opt_json f64_json (cu_cost u))) = Some (cu_cost u)"
    using assms by (intro as_opt_opt_json [of finite_bits]) (simp_all add: usage_in_range_def f64_json_def)
  moreover have "as_opt as_i32 (Some (opt_json (\<lambda>i. JNum (Int_Number i)) (cu_turns u))) = Some (cu_turns u)"
    using assms by (intro as_opt_opt_json [of "\<lambda>i. - (2 ^ 31) \<le> i \<and> i < 2 ^ 31"]) (simp_all add: usage_in_range_def)
  ultimately show ?thesis by (simp add: usage_of_json_def usage_json_def)
qed

lemma event_json_roundtrip:
  assumes "event_in_range e"
  shows "node_event_of_json f64_of_int (node_event_json e) = Some e"
proof (cases e)
  case (Assistant_Complete u)
  have "pred_option usage_in_range u" using assms by (cases u) (simp_all add: Assistant_Complete)
  then have "as_opt (usage_of_json f64_of_int) (Some (opt_json usage_json u)) = Some u"
    by (rule as_opt_opt_json) (simp add: usage_roundtrip, simp add: usage_json_def)
  then show ?thesis by (simp add: Assistant_Complete node_event_of_json_def)
qed (simp_all add: node_event_of_json_def one_str_def)

end
