(* ===== verification/Claude_Store.thy ===== *)
theory Claude_Store
  imports Claude_Types "HOL-Library.AList"
begin

text \<open>
  The tables and stream buffers of \<open>ClaudeCodeStorage\<close>:
  \<^verbatim>\<open>src/src/activations/claudecode/storage.rs\<close>. The state holds the tables of Arbor, which the
  storage shares; both read the same clock. New UUIDs are arguments. A text column that holds JSON
  keeps the value, and an id column the text of the UUID that the code has written into it. A query
  fails when a key of the schema refuses it (foreign keys are on in \<open>sqlx\<close>).
\<close>

subsection \<open>Tables\<close>

record session_row =
  se_id :: string
  se_name :: string
  se_claude_id :: "string option"
  se_loopback_id :: "string option"
  se_tree :: arbor_id
  se_head :: arbor_id
  se_working_dir :: string
  se_model :: string
  se_prompt :: "string option"
  se_mcp :: "json option"
  se_loopback :: bool
  se_metadata :: "json option"
  se_created_at :: int
  se_updated_at :: int

record message_row =
  me_id :: string
  me_session :: string
  me_role :: string
  me_content :: string
  me_model_id :: "string option"
  me_input_tokens :: "int option"
  me_output_tokens :: "int option"
  me_cost :: "f64 option"
  me_created_at :: int

record unknown_row =
  ue_id :: string
  ue_session :: "string option"
  ue_type :: string
  ue_data :: json
  ue_created_at :: int

record stream_buffer =
  sb_info :: stream_info
  sb_events :: "buffered_event list"

record claude_db =
  cc_arbor :: arbor_db
  cc_sessions :: "session_row list"
  cc_messages :: "message_row list"
  cc_unknown :: "unknown_row list"
  cc_streams :: "(string \<times> stream_buffer) list"

type_synonym 'a claude_op = "claude_db \<Rightarrow> (claude_error, 'a, claude_db) outcome"

definition cc_now :: "claude_db \<Rightarrow> int" where
  "cc_now db = ar_clock (cc_arbor db)"

definition empty_claude :: "int \<Rightarrow> claude_db" where
  "empty_claude now = \<lparr>cc_arbor = empty_arbor now, cc_sessions = [], cc_messages = [], cc_unknown = [], cc_streams = []\<rparr>"

text \<open>A call of Arbor, its error wrapped in \<open>ClaudeCodeError::Arbor\<close>.\<close>

definition in_arbor :: "'a arbor_op \<Rightarrow> 'a claude_op" where
  "in_arbor f db =
     (case f (cc_arbor db) of
        (Inl e, a) \<Rightarrow> (Inl (Claude_Arbor (arbor_error_text e)), db\<lparr>cc_arbor := a\<rparr>)
      | (Inr x, a) \<Rightarrow> (Inr x, db\<lparr>cc_arbor := a\<rparr>))"

subsection \<open>Creating sessions\<close>

definition insert_session :: "string \<Rightarrow> session_row \<Rightarrow> unit claude_op" where
  "insert_session op r db =
     (if se_id r \<in> se_id ` set (cc_sessions db) \<or> se_name r \<in> se_name ` set (cc_sessions db)
      then (Inl (Claude_Database op), db)
      else (Inr (), db\<lparr>cc_sessions := cc_sessions db @ [r]\<rparr>))"

text \<open>The row under its name, or, when the name is taken, under the name with the id behind it.\<close>

definition store_session :: "session_row \<Rightarrow> claude_config \<Rightarrow> claude_config claude_op" where
  "store_session row config db =
     (case insert_session ''create session'' row db of
        (Inr _, db) \<Rightarrow> (Inr config, db)
      | (Inl _, db) \<Rightarrow>
          let unique_name = se_name row @ ''#'' @ se_id row
          in bind_res (insert_session ''create session (unique name)'' (row\<lparr>se_name := unique_name\<rparr>) db)
               (\<lambda>_ db. (Inr (config\<lparr>cf_name := unique_name\<rparr>), db)))"

definition session_create ::
  "string \<Rightarrow> string \<Rightarrow> claude_model \<Rightarrow> string option \<Rightarrow> json option \<Rightarrow> bool \<Rightarrow> string option \<Rightarrow> string option \<Rightarrow>
   json option \<Rightarrow> string \<Rightarrow> arbor_id \<Rightarrow> arbor_id \<Rightarrow> claude_config claude_op" where
  "session_create name working_dir model prompt mcp loopback claude_id loopback_id metadata sid new_tree new_root db =
     bind_res (in_arbor (tree_create metadata sid new_tree new_root) db) (\<lambda>tree_id db.
     bind_res (in_arbor (\<lambda>a. (tree_get a tree_id, a)) db) (\<lambda>tree db.
       store_session
         \<lparr>se_id = sid, se_name = name, se_claude_id = claude_id, se_loopback_id = loopback_id, se_tree = tree_id,
          se_head = at_root tree, se_working_dir = working_dir, se_model = model_str model, se_prompt = prompt,
          se_mcp = mcp, se_loopback = loopback, se_metadata = metadata, se_created_at = cc_now db, se_updated_at = cc_now db\<rparr>
         \<lparr>cf_id = sid, cf_name = name, cf_claude_id = claude_id, cf_loopback_id = loopback_id,
          cf_head = \<lparr>ps_tree = tree_id, ps_node = at_root tree\<rparr>, cf_working_dir = working_dir, cf_model = model,
          cf_prompt = prompt, cf_mcp = mcp, cf_loopback = loopback, cf_metadata = metadata,
          cf_created_at = cc_now db, cf_updated_at = cc_now db\<rparr> db))"

subsection \<open>Reading sessions\<close>

definition row_to_config :: "session_row \<Rightarrow> claude_error + claude_config" where
  "row_to_config r =
     (case model_of_str (se_model r) of
        None \<Rightarrow> Inl (Claude_Parse ''model'' (se_model r))
      | Some m \<Rightarrow> Inr
          \<lparr>cf_id = se_id r, cf_name = se_name r, cf_claude_id = se_claude_id r, cf_loopback_id = se_loopback_id r,
           cf_head = \<lparr>ps_tree = se_tree r, ps_node = se_head r\<rparr>, cf_working_dir = se_working_dir r, cf_model = m,
           cf_prompt = se_prompt r, cf_mcp = se_mcp r, cf_loopback = se_loopback r, cf_metadata = se_metadata r,
           cf_created_at = se_created_at r, cf_updated_at = se_updated_at r\<rparr>)"

definition session_get :: "claude_db \<Rightarrow> string \<Rightarrow> claude_error + claude_config" where
  "session_get db sid =
     (case row_by se_id sid (cc_sessions db) of
        None \<Rightarrow> Inl (Session_Not_Found sid)
      | Some r \<Rightarrow> row_to_config r)"

text \<open>
  SQL's \<open>LIKE\<close>: \<open>%\<close> stands for any text, \<open>_\<close> for one character, letters of ASCII match in both cases.
\<close>

fun suffixes_of :: "string \<Rightarrow> string list" where
  "suffixes_of [] = [[]]"
| "suffixes_of (c # cs) = (c # cs) # suffixes_of cs"

definition at_char :: "string \<Rightarrow> bool" where
  "at_char s \<longleftrightarrow> s = [] \<or> \<not> continuation (hd s)"

fun sql_like :: "string \<Rightarrow> string \<Rightarrow> bool" where
  "sql_like [] s = (s = [])"
| "sql_like (p # ps) s =
     (if p = CHR ''%'' then list_ex (sql_like ps) (filter at_char (suffixes_of s))
      else case s of
        [] \<Rightarrow> False
      | c # cs \<Rightarrow> (if p = CHR ''_'' then sql_like ps (dropWhile continuation cs)
                  else lower_char p = lower_char c \<and> sql_like ps cs))"

definition session_get_by_name :: "claude_db \<Rightarrow> string \<Rightarrow> claude_error + claude_config" where
  "session_get_by_name db name =
     (case row_by se_name name (cc_sessions db) of
        Some r \<Rightarrow> row_to_config r
      | None \<Rightarrow>
          (case filter (\<lambda>r. sql_like (name @ ''%'') (se_name r)) (cc_sessions db) of
             [] \<Rightarrow> Inl (Session_Not_Found name)
           | [r] \<Rightarrow> row_to_config r
           | rs \<Rightarrow> Inl (Ambiguous_Session name (join_with '', '' (map se_name rs)))))"

definition newest_first :: "session_row list \<Rightarrow> session_row list" where
  "newest_first = sort_key (\<lambda>r. - se_created_at r)"

definition row_to_info :: "session_row \<Rightarrow> claude_error + claude_info" where
  "row_to_info r =
     (case model_of_str (se_model r) of
        None \<Rightarrow> Inl (Claude_Parse ''model'' (se_model r))
      | Some m \<Rightarrow> Inr
          \<lparr>ci_id = se_id r, ci_name = se_name r, ci_model = m, ci_head = \<lparr>ps_tree = se_tree r, ps_node = se_head r\<rparr>,
           ci_claude_id = se_claude_id r, ci_working_dir = se_working_dir r, ci_loopback = se_loopback r,
           ci_created_at = se_created_at r\<rparr>)"

text \<open>\<open>collect\<close> into a \<open>Result\<close>: the first error wins.\<close>

fun collect_results :: "('e + 'a) list \<Rightarrow> 'e + 'a list" where
  "collect_results [] = Inr []"
| "collect_results (Inl e # rs) = Inl e"
| "collect_results (Inr x # rs) = (case collect_results rs of Inl e \<Rightarrow> Inl e | Inr xs \<Rightarrow> Inr (x # xs))"

definition session_list :: "claude_db \<Rightarrow> claude_error + claude_info list" where
  "session_list db = collect_results (map row_to_info (newest_first (cc_sessions db)))"

definition session_exists :: "claude_db \<Rightarrow> string \<Rightarrow> bool" where
  "session_exists db sid \<longleftrightarrow> sid \<in> se_id ` set (cc_sessions db)"

definition list_session_ids :: "claude_db \<Rightarrow> string list" where
  "list_session_ids db = map se_id (newest_first (cc_sessions db))"

subsection \<open>Updating sessions\<close>

definition update_session :: "string \<Rightarrow> (session_row \<Rightarrow> session_row) \<Rightarrow> claude_db \<Rightarrow> claude_db" where
  "update_session sid f db = db\<lparr>cc_sessions := update_where (\<lambda>r. se_id r = sid) f (cc_sessions db)\<rparr>"

definition session_update_head :: "string \<Rightarrow> arbor_id \<Rightarrow> string option \<Rightarrow> unit claude_op" where
  "session_update_head sid new_head claude_id db =
     (if \<not> session_exists db sid then (Inl (Session_Not_Found sid), db)
      else (Inr (), update_session sid (\<lambda>r. (case claude_id of
              Some c \<Rightarrow> r\<lparr>se_head := new_head, se_claude_id := Some c, se_updated_at := cc_now db\<rparr>
            | None \<Rightarrow> r\<lparr>se_head := new_head, se_updated_at := cc_now db\<rparr>)) db))"

definition session_update_loopback_id :: "string \<Rightarrow> string \<Rightarrow> claude_db \<Rightarrow> claude_db" where
  "session_update_loopback_id sid l db =
     update_session sid (\<lambda>r. r\<lparr>se_loopback_id := Some l, se_updated_at := cc_now db\<rparr>) db"

definition session_update_claude_id :: "string \<Rightarrow> string \<Rightarrow> claude_db \<Rightarrow> claude_db" where
  "session_update_claude_id sid c db =
     update_session sid (\<lambda>r. r\<lparr>se_claude_id := Some c, se_updated_at := cc_now db\<rparr>) db"

definition or_else :: "'a option \<Rightarrow> 'a option \<Rightarrow> 'a option" where
  "or_else x y = (case x of Some _ \<Rightarrow> x | None \<Rightarrow> y)"

definition session_update ::
  "string \<Rightarrow> string option \<Rightarrow> claude_model option \<Rightarrow> string option option \<Rightarrow> json option \<Rightarrow> json option \<Rightarrow> unit claude_op" where
  "session_update sid name model prompt mcp metadata db =
     (case session_get db sid of
        Inl e \<Rightarrow> (Inl e, db)
      | Inr c \<Rightarrow>
          let new_name = (case name of Some n \<Rightarrow> n | None \<Rightarrow> cf_name c);
              new_model = (case model of Some m \<Rightarrow> m | None \<Rightarrow> cf_model c);
              new_prompt = (case prompt of Some p \<Rightarrow> p | None \<Rightarrow> cf_prompt c)
          in if \<exists>r \<in> set (cc_sessions db). se_name r = new_name \<and> se_id r \<noteq> sid
             then (Inl (Claude_Database ''update session''), db)
             else (Inr (), update_session sid (\<lambda>r. r\<lparr>se_name := new_name, se_model := model_str new_model,
                     se_prompt := new_prompt, se_mcp := or_else mcp (cf_mcp c), se_metadata := or_else metadata (cf_metadata c),
                     se_updated_at := cc_now db\<rparr>) db))"

text \<open>The foreign keys cascade: the messages and unknown events of the session go with it.\<close>

definition session_delete :: "string \<Rightarrow> unit claude_op" where
  "session_delete sid db =
     (if \<not> session_exists db sid then (Inl (Session_Not_Found sid), db)
      else (Inr (), db\<lparr>cc_sessions := filter (\<lambda>r. se_id r \<noteq> sid) (cc_sessions db),
              cc_messages := filter (\<lambda>m. me_session m \<noteq> sid) (cc_messages db),
              cc_unknown := filter (\<lambda>u. ue_session u \<noteq> Some sid) (cc_unknown db)\<rparr>))"

subsection \<open>Messages\<close>

definition message_insert ::
  "string \<Rightarrow> int \<Rightarrow> string \<Rightarrow> message_role \<Rightarrow> string \<Rightarrow> string option \<Rightarrow> int option \<Rightarrow> int option \<Rightarrow> f64 option \<Rightarrow> string \<Rightarrow>
   claude_msg claude_op" where
  "message_insert op at sid role content model_id input_tokens output_tokens cost mid db =
     (if \<not> session_exists db sid \<or> mid \<in> me_id ` set (cc_messages db) then (Inl (Claude_Database op), db)
      else (Inr \<lparr>ms_id = mid, ms_session = sid, ms_role = role, ms_content = content, ms_created_at = at,
                 ms_model_id = model_id, ms_input_tokens = input_tokens, ms_output_tokens = output_tokens, ms_cost = cost\<rparr>,
            db\<lparr>cc_messages := cc_messages db @
              [\<lparr>me_id = mid, me_session = sid, me_role = role_str role, me_content = content, me_model_id = model_id,
                me_input_tokens = input_tokens, me_output_tokens = output_tokens, me_cost = cost, me_created_at = at\<rparr>]\<rparr>))"

definition message_create ::
  "string \<Rightarrow> message_role \<Rightarrow> string \<Rightarrow> string option \<Rightarrow> int option \<Rightarrow> int option \<Rightarrow> f64 option \<Rightarrow> string \<Rightarrow> claude_msg claude_op" where
  "message_create sid role content model_id input_tokens output_tokens cost mid db =
     message_insert ''create message'' (cc_now db) sid role content model_id input_tokens output_tokens cost mid db"

text \<open>An ephemeral message is marked by a negative time.\<close>

definition message_create_ephemeral ::
  "string \<Rightarrow> message_role \<Rightarrow> string \<Rightarrow> string option \<Rightarrow> int option \<Rightarrow> int option \<Rightarrow> f64 option \<Rightarrow> string \<Rightarrow> claude_msg claude_op" where
  "message_create_ephemeral sid role content model_id input_tokens output_tokens cost mid db =
     message_insert ''create ephemeral message'' (- cc_now db) sid role content model_id input_tokens output_tokens cost mid db"

definition row_to_message :: "message_row \<Rightarrow> claude_error + claude_msg" where
  "row_to_message r =
     (case role_of_str (me_role r) of
        None \<Rightarrow> Inl (Claude_Parse ''role'' (me_role r))
      | Some role \<Rightarrow> Inr
          \<lparr>ms_id = me_id r, ms_session = me_session r, ms_role = role, ms_content = me_content r, ms_created_at = me_created_at r,
           ms_model_id = me_model_id r, ms_input_tokens = me_input_tokens r, ms_output_tokens = me_output_tokens r,
           ms_cost = me_cost r\<rparr>)"

definition message_get :: "claude_db \<Rightarrow> string \<Rightarrow> claude_error + claude_msg" where
  "message_get db mid =
     (case row_by me_id mid (cc_messages db) of
        None \<Rightarrow> Inl (Session_Not_Found (''message:'' @ mid))
      | Some r \<Rightarrow> row_to_message r)"

text \<open>
  \<open>str::splitn(n, sep)\<close> on one character; the handle of a message and its resolution. \<open>parse_uuid\<close> is
  \<open>Uuid::parse_str\<close>: the standard text of the UUID that a text denotes.
\<close>

fun splitn :: "nat \<Rightarrow> char \<Rightarrow> string \<Rightarrow> string list" where
  "splitn 0 sep s = []"
| "splitn (Suc 0) sep s = [s]"
| "splitn (Suc (Suc n)) sep s =
     (if sep \<in> set s
      then takeWhile (\<lambda>c. c \<noteq> sep) s # splitn (Suc n) sep (tl (dropWhile (\<lambda>c. c \<noteq> sep) s))
      else [s])"

definition message_to_handle :: "string \<Rightarrow> claude_msg \<Rightarrow> string \<Rightarrow> handle" where
  "message_to_handle plugin_id m name =
     \<lparr>h_plugin_id = plugin_id, h_version = ''1.0.0'', h_method = ''chat'',
      h_meta = [''msg-'' @ ms_id m, role_str (ms_role m), name]\<rparr>"

definition resolve_message_handle :: "(string \<Rightarrow> string option) \<Rightarrow> claude_db \<Rightarrow> string \<Rightarrow> claude_error + claude_msg" where
  "resolve_message_handle parse_uuid db identifier =
     (let parts = splitn 3 CHR '':'' identifier
      in if length parts < 2 then Inl (Claude_Parse ''message handle'' (''invalid format: '' @ identifier))
         else case strip_prefix ''msg-'' (hd parts) of
           None \<Rightarrow> Inl (Claude_Parse ''message handle'' (''invalid prefix: '' @ identifier))
         | Some i \<Rightarrow>
             (case parse_uuid i of
                None \<Rightarrow> Inl (Claude_Parse ''message ID in handle'' [])
              | Some mid \<Rightarrow> message_get db mid))"

subsection \<open>Unknown events\<close>

definition unknown_event_store :: "string option \<Rightarrow> string \<Rightarrow> json \<Rightarrow> string \<Rightarrow> string claude_op" where
  "unknown_event_store sid event_type data uid db =
     (if (case sid of Some s \<Rightarrow> \<not> session_exists db s | None \<Rightarrow> False) \<or> uid \<in> ue_id ` set (cc_unknown db)
      then (Inl (Claude_Database ''store unknown event''), db)
      else (Inr uid, db\<lparr>cc_unknown := cc_unknown db @
              [\<lparr>ue_id = uid, ue_session = sid, ue_type = event_type, ue_data = data, ue_created_at = cc_now db\<rparr>]\<rparr>))"

definition unknown_event_get :: "claude_db \<Rightarrow> string \<Rightarrow> claude_error + string \<times> json" where
  "unknown_event_get db uid =
     (case row_by ue_id uid (cc_unknown db) of
        None \<Rightarrow> Inl (Session_Not_Found (''unknown_event:'' @ uid))
      | Some r \<Rightarrow> Inr (ue_type r, ue_data r))"

definition unknown_events_by_type :: "claude_db \<Rightarrow> string \<Rightarrow> (string \<times> json) list" where
  "unknown_events_by_type db t =
     map (\<lambda>r. (ue_id r, ue_data r)) (sort_key (\<lambda>r. - ue_created_at r) (filter (\<lambda>r. ue_type r = t) (cc_unknown db)))"

subsection \<open>Stream buffers\<close>

definition put_stream :: "string \<Rightarrow> stream_buffer \<Rightarrow> claude_db \<Rightarrow> claude_db" where
  "put_stream s b db = db\<lparr>cc_streams := AList.update s b (cc_streams db)\<rparr>"

definition stream_create :: "string \<Rightarrow> string \<Rightarrow> claude_db \<Rightarrow> claude_db" where
  "stream_create sid stream db =
     put_stream stream \<lparr>sb_info = \<lparr>si_stream = stream, si_session = sid, si_status = Running_Stream, si_user_position = None,
       si_event_count = 0, si_read_position = 0, si_started_at = cc_now db, si_ended_at = None, si_error = None\<rparr>,
       sb_events = []\<rparr> db"

definition with_stream :: "string \<Rightarrow> (stream_buffer \<Rightarrow> 'a \<times> stream_buffer) \<Rightarrow> 'a claude_op" where
  "with_stream stream f db =
     (case map_of (cc_streams db) stream of
        None \<Rightarrow> (Inl (Session_Not_Found (''stream:'' @ stream)), db)
      | Some b \<Rightarrow> (Inr (fst (f b)), put_stream stream (snd (f b)) db))"

definition stream_set_user_position :: "string \<Rightarrow> position \<Rightarrow> unit claude_op" where
  "stream_set_user_position stream p =
     with_stream stream (\<lambda>b. ((), b\<lparr>sb_info := (sb_info b)\<lparr>si_user_position := Some p\<rparr>\<rparr>))"

definition push_event :: "int \<Rightarrow> chat_event \<Rightarrow> stream_buffer \<Rightarrow> nat \<times> stream_buffer" where
  "push_event now e b =
     (let seq = si_event_count (sb_info b)
      in (seq, b\<lparr>sb_events := sb_events b @ [\<lparr>be_seq = seq, be_event = e, be_time = now\<rparr>],
                 sb_info := (sb_info b)\<lparr>si_event_count := seq + 1\<rparr>\<rparr>))"

definition stream_push_event :: "string \<Rightarrow> chat_event \<Rightarrow> nat claude_op" where
  "stream_push_event stream e db = with_stream stream (push_event (cc_now db) e) db"

definition set_status :: "int \<Rightarrow> stream_status \<Rightarrow> string option \<Rightarrow> stream_info \<Rightarrow> stream_info" where
  "set_status now status err i =
     (let j = i\<lparr>si_status := status\<rparr>;
          k = (if status = Complete_Stream \<or> status = Failed_Stream then j\<lparr>si_ended_at := Some now\<rparr> else j)
      in case err of Some e \<Rightarrow> k\<lparr>si_error := Some e\<rparr> | None \<Rightarrow> k)"

definition stream_set_status :: "string \<Rightarrow> stream_status \<Rightarrow> string option \<Rightarrow> unit claude_op" where
  "stream_set_status stream status err db =
     with_stream stream (\<lambda>b. ((), b\<lparr>sb_info := set_status (cc_now db) status err (sb_info b)\<rparr>)) db"

definition stream_get_info :: "claude_db \<Rightarrow> string \<Rightarrow> claude_error + stream_info" where
  "stream_get_info db stream =
     (case map_of (cc_streams db) stream of
        None \<Rightarrow> Inl (Session_Not_Found (''stream:'' @ stream))
      | Some b \<Rightarrow> Inr (sb_info b))"

definition poll_buffer ::
  "nat option \<Rightarrow> nat option \<Rightarrow> stream_buffer \<Rightarrow> (stream_info \<times> buffered_event list) \<times> stream_buffer" where
  "poll_buffer from_seq limit b =
     (let start = (case from_seq of Some s \<Rightarrow> s | None \<Rightarrow> si_read_position (sb_info b));
          max_events = (case limit of Some n \<Rightarrow> n | None \<Rightarrow> 100);
          events = take max_events (drop start (sb_events b));
          info = (if events = [] then sb_info b
                  else (sb_info b)\<lparr>si_read_position := be_seq (last events) + 1\<rparr>)
      in ((info, events), b\<lparr>sb_info := info\<rparr>))"

definition stream_poll :: "string \<Rightarrow> nat option \<Rightarrow> nat option \<Rightarrow> (stream_info \<times> buffered_event list) claude_op" where
  "stream_poll stream from_seq limit = with_stream stream (poll_buffer from_seq limit)"

definition stream_list :: "claude_db \<Rightarrow> stream_info list" where
  "stream_list db = map (sb_info \<circ> snd) (cc_streams db)"

definition stream_list_for_session :: "claude_db \<Rightarrow> string \<Rightarrow> stream_info list" where
  "stream_list_for_session db sid = filter (\<lambda>i. si_session i = sid) (stream_list db)"

definition stream_cleanup :: "string \<Rightarrow> claude_db \<Rightarrow> stream_info option \<times> claude_db" where
  "stream_cleanup stream db =
     (map_option sb_info (map_of (cc_streams db) stream), db\<lparr>cc_streams := AList.delete stream (cc_streams db)\<rparr>)"

definition stream_exists :: "claude_db \<Rightarrow> string \<Rightarrow> bool" where
  "stream_exists db stream \<longleftrightarrow> map_of (cc_streams db) stream \<noteq> None"

end
