(* ===== verification/Claude_Render.thy ===== *)
theory Claude_Render
  imports Claude_Store
begin

text \<open>
  The history of a session: the events that a turn stores as text nodes of the tree, and
  \<open>render_messages\<close>, which reads them back along a path
  (\<^verbatim>\<open>src/src/activations/claudecode/storage.rs\<close> and \<open>create_event_node\<close> in
  \<^verbatim>\<open>src/src/activations/claudecode/activation.rs\<close>).

  Printing and parsing of JSON texts belong to \<open>serde_json\<close>: a \<open>json_codec\<close> holds the two functions
  and the conversion of an integer literal to a double.
\<close>

record json_codec =
  jc_print :: "json \<Rightarrow> string"
  jc_parse :: "string \<Rightarrow> json option"
  jc_f64 :: "int \<Rightarrow> f64"

definition write_event :: "json_codec \<Rightarrow> node_event \<Rightarrow> string" where
  "write_event jc e = jc_print jc (node_event_json e)"

definition read_event :: "json_codec \<Rightarrow> string \<Rightarrow> node_event option" where
  "read_event jc s = Option.bind (jc_parse jc s) (node_event_of_json (jc_f64 jc))"

definition create_event_node ::
  "json_codec \<Rightarrow> arbor_id \<Rightarrow> arbor_id \<Rightarrow> node_event \<Rightarrow> arbor_id \<Rightarrow> arbor_db \<Rightarrow> (string, arbor_id, arbor_db) outcome" where
  "create_event_node jc t parent e uuid a =
     (case node_create_text t (Some parent) (write_event jc e) None uuid a of
        (Inl err, a) \<Rightarrow> (Inl (arbor_error_text err), a)
      | (Inr i, a) \<Rightarrow> (Inr i, a))"

subsection \<open>Grouping events into messages\<close>

type_synonym render_state = "claude_message list \<times> string option \<times> content_block list"

text \<open>A role is taken in any case; its message is pushed if there is content for it.\<close>

fun flush :: "render_state \<Rightarrow> render_state" where
  "flush (ms, None, bs) = (ms, None, bs)"
| "flush (ms, Some r, bs) = (if bs = [] then (ms, None, bs) else (ms @ [\<lparr>cm_role = r, cm_content = bs\<rparr>], None, []))"

fun add_block :: "content_block \<Rightarrow> render_state \<Rightarrow> render_state" where
  "add_block b (ms, r, bs) = (ms, r, bs @ [b])"

fun set_role :: "string \<Rightarrow> render_state \<Rightarrow> render_state" where
  "set_role role (ms, r, bs) = (ms, Some role, bs)"

fun push_message :: "claude_message \<Rightarrow> render_state \<Rightarrow> render_state" where
  "push_message m (ms, r, bs) = (ms @ [m], r, bs)"

fun render_event :: "node_event \<Rightarrow> render_state \<Rightarrow> render_state" where
  "render_event (User_Message c) st = add_block (Block_Text c) (set_role ''user'' (flush st))"
| "render_event Assistant_Start st = set_role ''assistant'' (flush st)"
| "render_event (Content_Text t) st = add_block (Block_Text t) st"
| "render_event (Content_Tool_Use i n v) st = add_block (Block_Tool_Use i n v) st"
| "render_event (Content_Thinking t) st = add_block (Block_Thinking t) st"
| "render_event (User_Tool_Result i c e) st =
     push_message \<lparr>cm_role = ''user'', cm_content = [Block_Tool_Result i c e]\<rparr> (flush st)"
| "render_event (Assistant_Complete u) st = flush st"
| "render_event (Launch_Command c) st = st"
| "render_event (Claude_Stderr t) st = st"

definition render_node_data :: "json_codec \<Rightarrow> arbor_node_type \<Rightarrow> render_state \<Rightarrow> claude_error + render_state" where
  "render_node_data jc d st =
     (case d of
        External_Node h \<Rightarrow> Inr st
      | Text_Node content \<Rightarrow>
          if trim content = [] then Inr st
          else case read_event jc content of
            None \<Rightarrow> Inl Claude_Serialization
          | Some e \<Rightarrow> Inr (render_event e st))"

fun render_nodes :: "json_codec \<Rightarrow> arbor_db \<Rightarrow> arbor_id \<Rightarrow> arbor_id list \<Rightarrow> render_state \<Rightarrow> claude_error + render_state" where
  "render_nodes jc a t [] st = Inr st"
| "render_nodes jc a t (i # ids) st =
     (case node_get a t i of
        Inl e \<Rightarrow> Inl (Claude_Arbor (arbor_error_text e))
      | Inr n \<Rightarrow>
          (case render_node_data jc (an_data n) st of
             Inl e \<Rightarrow> Inl e
           | Inr st \<Rightarrow> render_nodes jc a t ids st))"

text \<open>\<open>None\<close> when the path query of Arbor does not return.\<close>

definition render_messages ::
  "json_codec \<Rightarrow> arbor_db \<Rightarrow> arbor_id \<Rightarrow> arbor_id \<Rightarrow> arbor_id \<Rightarrow> (claude_error + claude_message list) option" where
  "render_messages jc a t start end_node = map_option (\<lambda>r.
     case r of
       Inl e \<Rightarrow> Inl (Claude_Arbor (arbor_error_text e))
     | Inr ids \<Rightarrow>
         if start \<notin> set ids then Inl (Claude_Arbor ''start node not found in path from root to end'')
         else case render_nodes jc a t (dropWhile (\<lambda>i. i \<noteq> start) ids) ([], None, []) of
           Inl e \<Rightarrow> Inl e
         | Inr st \<Rightarrow> Inr (fst (flush st)))
     (node_get_path a t end_node)"

subsection \<open>Histories\<close>

text \<open>
  What a path of nodes says, without the tables: the data of its nodes in order. \<open>render_data\<close> is the
  fold of \<open>render_messages\<close> over it.
\<close>

definition render_step :: "json_codec \<Rightarrow> arbor_node_type \<Rightarrow> claude_error + render_state \<Rightarrow> claude_error + render_state" where
  "render_step jc d r = (case r of Inl e \<Rightarrow> Inl e | Inr st \<Rightarrow> render_node_data jc d st)"

definition render_data :: "json_codec \<Rightarrow> arbor_node_type list \<Rightarrow> render_state \<Rightarrow> claude_error + render_state" where
  "render_data jc ds st = fold (render_step jc) ds (Inr st)"

lemma fold_render_Inl: "fold (render_step jc) ds (Inl e) = Inl e"
  by (induction ds) (simp_all add: render_step_def)

lemma render_data_simps [simp]:
  "render_data jc [] st = Inr st"
  "render_data jc (d # ds) st = (case render_node_data jc d st of Inl e \<Rightarrow> Inl e | Inr st \<Rightarrow> render_data jc ds st)"
  by (simp_all add: render_data_def render_step_def fold_render_Inl split: sum.splits)

lemma render_data_append:
  "render_data jc (xs @ ys) st = (case render_data jc xs st of Inl e \<Rightarrow> Inl e | Inr st \<Rightarrow> render_data jc ys st)"
  by (induction xs arbitrary: st) (simp_all split: sum.splits)

lemma render_nodes_data:
  assumes "list_all2 (\<lambda>i d. \<exists>n. node_get a t i = Inr n \<and> an_data n = d) ids ds"
  shows "render_nodes jc a t ids st = render_data jc ds st"
  using assms by (induction arbitrary: st) (auto split: sum.splits)

text \<open>A stored event, and what reads it back.\<close>

definition stored_event :: "json_codec \<Rightarrow> node_event \<Rightarrow> arbor_node_type" where
  "stored_event jc e = Text_Node (write_event jc e)"

definition readable :: "json_codec \<Rightarrow> node_event \<Rightarrow> bool" where
  "readable jc e \<longleftrightarrow> trim (write_event jc e) \<noteq> [] \<and> jc_parse jc (write_event jc e) = Some (node_event_json e) \<and> event_in_range e"

lemma render_stored [simp]: "readable jc e \<Longrightarrow> render_node_data jc (stored_event jc e) st = Inr (render_event e st)"
  by (simp add: render_node_data_def stored_event_def readable_def read_event_def event_json_roundtrip)

lemma render_stored_events:
  "\<forall>e \<in> set es. readable jc e \<Longrightarrow> render_data jc (map (stored_event jc) es) st = Inr (fold render_event es st)"
  by (induction es arbitrary: st) simp_all

lemma render_external [simp]: "render_node_data jc (External_Node h) st = Inr st"
  by (simp add: render_node_data_def)

subsection \<open>Conversations\<close>

text \<open>
  A reference: a turn is the prompt of the user followed by the rounds of the assistant, each closed
  by the results of the tools that it has called.
\<close>

definition block_event :: "content_block \<Rightarrow> node_event" where
  "block_event b = (case b of
      Block_Text t \<Rightarrow> Content_Text t
    | Block_Tool_Use i n v \<Rightarrow> Content_Tool_Use i n v
    | Block_Thinking t \<Rightarrow> Content_Thinking t
    | Block_Tool_Result i c e \<Rightarrow> User_Tool_Result i c e)"

fun is_result :: "content_block \<Rightarrow> bool" where
  "is_result (Block_Tool_Result i c e) = True"
| "is_result _ = False"

lemma render_blocks:
  "\<forall>b \<in> set bs. \<not> is_result b \<Longrightarrow> fold render_event (map block_event bs) (ms, r, xs) = (ms, r, xs @ bs)"
proof (induction bs arbitrary: xs)
  case (Cons b bs)
  then show ?case by (cases b) (simp_all add: block_event_def)
qed simp

text \<open>The messages of an assistant with these blocks: none, if there are none.\<close>

definition as_message :: "string \<Rightarrow> content_block list \<Rightarrow> claude_message list" where
  "as_message r bs = (if bs = [] then [] else [\<lparr>cm_role = r, cm_content = bs\<rparr>])"

lemma render_reply:
  assumes "\<forall>b \<in> set bs. \<not> is_result b"
  shows "fold render_event (User_Message p # Assistant_Start # map block_event bs @ [Assistant_Complete u]) (ms, None, []) =
    (ms @ as_message ''user'' [Block_Text p] @ as_message ''assistant'' bs, None, [])"
  using assms by (simp add: render_blocks as_message_def)

end
