(* ===== verification/Claude_Executor.thy ===== *)
theory Claude_Executor
  imports Claude_Types
begin

text \<open>
  The launch of the Claude command line program:
  \<^verbatim>\<open>src/src/activations/claudecode/executor.rs\<close>. What the operating system answers is an argument:
  the environment variable, whether the MCP server is reachable, the file that is written, the start
  of the process and the lines that it prints. \<open>read_raw\<close> is \<open>serde_json\<close>'s reader for
  \<open>RawClaudeEvent\<close>, \<open>parse_json\<close> its reader for values. The result is the list of events that the
  stream yields, or \<open>None\<close> for a panic.
\<close>

record launch_config =
  lc_query :: string
  lc_session :: "string option"
  lc_fork :: bool
  lc_model :: claude_model
  lc_working_dir :: string
  lc_prompt :: "string option"
  lc_mcp :: "json option"
  lc_permission_tool :: "string option"
  lc_allowed :: "string list"
  lc_disallowed :: "string list"
  lc_max_turns :: "int option"
  lc_loopback :: bool
  lc_loopback_id :: "string option"
  lc_cookies :: "(string \<times> string) list option"
  lc_headers :: "(string \<times> string) list option"

definition default_launch :: launch_config where
  "default_launch = \<lparr>lc_query = [], lc_session = None, lc_fork = False, lc_model = Sonnet, lc_working_dir = ''.'',
     lc_prompt = None, lc_mcp = None, lc_permission_tool = None, lc_allowed = [], lc_disallowed = [], lc_max_turns = None,
     lc_loopback = False, lc_loopback_id = None, lc_cookies = None, lc_headers = None\<rparr>"

subsection \<open>The command line\<close>

definition opt_arg :: "string \<Rightarrow> string option \<Rightarrow> string list" where
  "opt_arg flag x = (case x of None \<Rightarrow> [] | Some v \<Rightarrow> [flag, v])"

definition build_args :: "launch_config \<Rightarrow> string list" where
  "build_args c =
     [''--output-format'', ''stream-json'', ''--include-partial-messages'', ''--verbose'', ''--print''] @
     (case lc_session c of
        None \<Rightarrow> []
      | Some s \<Rightarrow> [''--resume'', s] @ (if lc_fork c then [''--fork-session''] else [])) @
     [''--model'', model_str (lc_model c)] @
     opt_arg ''--max-turns'' (map_option int_text (lc_max_turns c)) @
     opt_arg ''--system-prompt'' (lc_prompt c) @
     (if lc_loopback c then [''--permission-prompt-tool'', ''mcp__plexus__loopback_permit'']
      else opt_arg ''--permission-prompt-tool'' (lc_permission_tool c)) @
     (if lc_allowed c = [] then [] else [''--allowedTools'', join_with '','' (lc_allowed c)]) @
     (if lc_disallowed c = [] then [] else [''--disallowedTools'', join_with '','' (lc_disallowed c)]) @
     [''--'', lc_query c]"

definition quote :: char where
  "quote = CHR 0x27"

definition shell_escape :: "string \<Rightarrow> string" where
  "shell_escape s = [quote] @ concat (map (\<lambda>c. if c = quote then [quote, CHR 0x5C, quote, quote] else [c]) s) @ [quote]"

definition shell_command :: "string \<Rightarrow> string list \<Rightarrow> string" where
  "shell_command claude_path args = shell_escape claude_path @ '' '' @ join_with '' '' (map shell_escape args)"

text \<open>The arguments for the MCP file go before the first \<open>--\<close>.\<close>

definition insert_mcp_args :: "string \<Rightarrow> string list \<Rightarrow> string list" where
  "insert_mcp_args path args =
     (if ''--'' \<in> set args
      then takeWhile (\<lambda>a. a \<noteq> ''--'') args @ [''--mcp-config'', path] @ dropWhile (\<lambda>a. a \<noteq> ''--'') args
      else args)"

subsection \<open>The MCP configuration\<close>

text \<open>\<open>Map::insert\<close>, in place when the key is there.\<close>

definition obj_insert :: "string \<Rightarrow> json \<Rightarrow> (string \<times> json) list \<Rightarrow> (string \<times> json) list" where
  "obj_insert k v kvs =
     (if k \<in> fst ` set kvs then map (\<lambda>e. if fst e = k then (k, v) else e) kvs else kvs @ [(k, v)])"

definition default_mcp_url :: string where
  "default_mcp_url = ''http://127.0.0.1:4444/mcp''"

definition loopback_mcp :: "string option \<Rightarrow> string option \<Rightarrow> json" where
  "loopback_mcp mcp_url sid =
     (let base_url = (case mcp_url of Some u \<Rightarrow> u | None \<Rightarrow> default_mcp_url);
          url = (case sid of Some s \<Rightarrow> base_url @ ''?session_id='' @ s | None \<Rightarrow> base_url);
          servers = (''mcpServers'', JObj [(''plexus'', JObj [(''type'', JStr ''http''), (''url'', JStr url)])])
      in case sid of
           Some s \<Rightarrow> JObj [servers, (''env'', JObj [(''PLEXUS_SESSION_ID'', JStr s)])]
         | None \<Rightarrow> JObj [servers])"

text \<open>
  \<open>merge_servers\<close>: the servers of the loopback configuration go into the \<open>mcpServers\<close> object of the
  existing one. If that entry is not an object nothing is merged; if there is none it is written, which
  panics when the configuration is no object.
\<close>

definition merge_servers :: "json \<Rightarrow> json \<Rightarrow> json option" where
  "merge_servers existing loopback =
     (case (json_get ''mcpServers'' existing, json_get ''mcpServers'' loopback) of
        (Some es, Some ls) \<Rightarrow>
          (case (es, ls) of
             (JObj eo, JObj lo) \<Rightarrow>
               (case existing of
                  JObj kvs \<Rightarrow> Some (JObj (obj_insert ''mcpServers'' (JObj (fold (\<lambda>(k, v) obj. obj_insert k v obj) lo eo)) kvs))
                | _ \<Rightarrow> Some existing)
           | _ \<Rightarrow> Some existing)
      | (_, ls) \<Rightarrow>
          let written = (case ls of Some v \<Rightarrow> v | None \<Rightarrow> JNull)
          in (case existing of
                JObj kvs \<Rightarrow> Some (JObj (obj_insert ''mcpServers'' written kvs))
              | JNull \<Rightarrow> Some (JObj [(''mcpServers'', written)])
              | _ \<Rightarrow> None))"

definition effective_mcp :: "string option \<Rightarrow> launch_config \<Rightarrow> json option option" where
  "effective_mcp mcp_url c =
     (if lc_loopback c
      then (case lc_mcp c of
              Some existing \<Rightarrow> map_option Some (merge_servers existing (loopback_mcp mcp_url (lc_loopback_id c)))
            | None \<Rightarrow> Some (Some (loopback_mcp mcp_url (lc_loopback_id c))))
      else Some (lc_mcp c))"

subsection \<open>Is the MCP server there?\<close>

text \<open>
  \<open>check_mcp_reachable\<close>: the address that is tried, and the message when it does not answer. The TCP
  connection attempt is an argument. \<open>strip_all\<close> is \<open>trim_start_matches\<close>.
\<close>

datatype tcp_answer = Connected | Refused string | Timed_Out

function strip_all :: "string \<Rightarrow> string \<Rightarrow> string" where
  "strip_all p s = (case strip_prefix p s of Some r \<Rightarrow> if p = [] then s else strip_all p r | None \<Rightarrow> s)"
  by pat_completeness auto
termination
  by (relation "measure (\<lambda>(p, s). length s)") (auto simp: strip_prefix_iff)

declare strip_all.simps [simp del]

definition mcp_host_port_from_url :: "string \<Rightarrow> string" where
  "mcp_host_port_from_url url =
     (let host_port = takeWhile (\<lambda>c. c \<noteq> CHR ''/'') (strip_all ''http://'' (strip_all ''https://'' url))
      in if CHR '':'' \<in> set host_port then host_port else host_port @ '':4444'')"

definition mcp_hint :: string where
  "mcp_hint = ''Start the substrate without --no-mcp so the permission-prompt tool is available.''"

definition check_mcp_reachable :: "string option \<Rightarrow> (string \<Rightarrow> tcp_answer) \<Rightarrow> string option" where
  "check_mcp_reachable mcp_url connect =
     (let url = (case mcp_url of Some u \<Rightarrow> u | None \<Rightarrow> default_mcp_url)
      in case connect (mcp_host_port_from_url url) of
           Connected \<Rightarrow> None
         | Refused e \<Rightarrow> Some (''MCP server not reachable at '' @ url @ '' ('' @ e @ ''). '' @ mcp_hint)
         | Timed_Out \<Rightarrow> Some (''MCP server connection timed out at '' @ url @ ''. '' @ mcp_hint))"

subsection \<open>The stream of events\<close>

record launch_env =
  ev_mcp_url :: "string option"
  ev_unreachable :: "string option"
  ev_write_mcp :: "json \<Rightarrow> string + string"
  ev_temp_dir :: string
  ev_spawn_error :: "string option"
  ev_stdout :: "string list"

definition error_result :: "string \<Rightarrow> raw_event" where
  "error_result m = Raw_Result \<lparr>ri_subtype = Some ''error'', ri_session = None, ri_cost = None, ri_is_error = Some True,
     ri_duration = None, ri_turns = None, ri_result = None, ri_error = Some m\<rparr>"

definition line_event :: "(string \<Rightarrow> raw_event option) \<Rightarrow> (string \<Rightarrow> json option) \<Rightarrow> string \<Rightarrow> raw_event" where
  "line_event read_raw parse_json line =
     (case read_raw line of
        Some e \<Rightarrow> e
      | None \<Rightarrow>
          (case parse_json line of
             Some v \<Rightarrow> Raw_Unknown (case Option.bind (json_get ''type'' v) json_as_str of Some t \<Rightarrow> t | None \<Rightarrow> ''unknown_json'') v
           | None \<Rightarrow> Raw_Unknown ''raw_output'' (JStr line)))"

fun is_raw_result :: "raw_event \<Rightarrow> bool" where
  "is_raw_result (Raw_Result r) = True"
| "is_raw_result _ = False"

fun relay_lines :: "(string \<Rightarrow> raw_event option) \<Rightarrow> (string \<Rightarrow> json option) \<Rightarrow> string list \<Rightarrow> raw_event list" where
  "relay_lines read_raw parse_json [] = []"
| "relay_lines read_raw parse_json (line # rest) =
     (if trim line = [] then relay_lines read_raw parse_json rest
      else let e = line_event read_raw parse_json line
           in e # (if is_raw_result e then [] else relay_lines read_raw parse_json rest))"

definition run_process ::
  "(string \<Rightarrow> raw_event option) \<Rightarrow> (string \<Rightarrow> json option) \<Rightarrow> launch_env \<Rightarrow> string \<Rightarrow> launch_config \<Rightarrow> string list \<Rightarrow> raw_event list" where
  "run_process read_raw parse_json env claude_path c args =
     Raw_Launch (shell_command claude_path args) #
     (case ev_spawn_error env of
        Some e \<Rightarrow> [error_result (''failed to spawn claude process (binary='' @ quoted claude_path @ '', cwd='' @
                     quoted (lc_working_dir c) @ ''): '' @ e)]
      | None \<Rightarrow> relay_lines read_raw parse_json (ev_stdout env))"

text \<open>
  The handle of the error output has already been taken for the background reader when the drain at
  the end asks for it, so the drain yields nothing.
\<close>

definition launch ::
  "(string \<Rightarrow> raw_event option) \<Rightarrow> (string \<Rightarrow> json option) \<Rightarrow> launch_env \<Rightarrow> string \<Rightarrow> launch_config \<Rightarrow> raw_event list option" where
  "launch read_raw parse_json env claude_path c =
     (case effective_mcp (ev_mcp_url env) c of
        None \<Rightarrow> None
      | Some mcp \<Rightarrow> Some
          (case (if lc_loopback c then ev_unreachable env else None) of
             Some e \<Rightarrow> [error_result e]
           | None \<Rightarrow>
               (case mcp of
                  None \<Rightarrow> run_process read_raw parse_json env claude_path c (build_args c)
                | Some m \<Rightarrow>
                    (case ev_write_mcp env m of
                       Inl e \<Rightarrow> [error_result (''failed to write MCP config to '' @ quoted (ev_temp_dir env) @ '': '' @ e)]
                     | Inr path \<Rightarrow> run_process read_raw parse_json env claude_path c (insert_mcp_args path (build_args c))))))"

subsection \<open>What a shell reads\<close>

text \<open>
  A strict reader for the words of a simple command in the quoting of a POSIX shell. A quoted part ends at the
  next quote and takes everything in it as it is; outside of quotes a blank ends a word and a backslash takes the
  next character as it is, unless that is a newline. Any other character outside of quotes may have a meaning of
  its own for the shell (expansions, separators, redirections, comments, patterns), so the reader refuses it:
  \<open>None\<close>. It refuses a NUL byte everywhere, since no argument of a program can carry one.
\<close>

definition nul :: char where
  "nul = CHR 0x00"

fun shell_words :: "bool \<Rightarrow> bool \<Rightarrow> string \<Rightarrow> string \<Rightarrow> string list option" where
  "shell_words in_quote in_word w [] = (if in_quote then None else Some (if in_word then [w] else []))"
| "shell_words True in_word w (c # cs) =
     (if c = nul then None
      else if c = quote then shell_words False True w cs
      else shell_words True True (w @ [c]) cs)"
| "shell_words False in_word w (c # cs) =
     (if c = quote then shell_words True True w cs
      else if c = CHR '' '' then map_option (\<lambda>ws. (if in_word then [w] else []) @ ws) (shell_words False False [] cs)
      else if c = CHR 0x5C then
        (case cs of [] \<Rightarrow> None | d # ds \<Rightarrow> if d \<in> {nul, CHR 0x0A} then None else shell_words False True (w @ [d]) ds)
      else None)"

definition bash_words :: "string \<Rightarrow> string list option" where
  "bash_words cmd = shell_words False False [] cmd"

lemma shell_words_escaped:
  "shell_words True b w (concat (map (\<lambda>c. if c = quote then [quote, CHR 0x5C, quote, quote] else [c]) s) @ quote # rest) =
     (if nul \<in> set s then None else shell_words False True (w @ s) rest)"
  by (induction s arbitrary: b w) (simp_all add: quote_def nul_def)

lemma shell_words_escape:
  "shell_words False b w (shell_escape s @ rest) = (if nul \<in> set s then None else shell_words False True (w @ s) rest)"
  by (simp add: shell_escape_def shell_words_escaped)

lemma shell_words_blank:
  "shell_words False True w (CHR '' '' # cs) = map_option (Cons w) (shell_words False False [] cs)"
  by (cases "shell_words False False [] cs") (simp_all add: quote_def)

lemma shell_words_args:
  "args \<noteq> [] \<Longrightarrow> shell_words False False [] (join_with '' '' (map shell_escape args)) =
     (if nul \<in> set (concat args) then None else Some args)"
proof (induction args rule: list_nonempty_induct)
  case (single a)
  show ?case using shell_words_escape [of False "[]" a "[]"] by simp
next
  case (cons a args)
  then show ?case
    by (simp add: join_with_Cons shell_words_escape shell_words_blank quote_def)
qed

lemma shell_command_words:
  "args \<noteq> [] \<Longrightarrow> bash_words (shell_command claude_path args) =
     (if nul \<in> set (concat (claude_path # args)) then None else Some (claude_path # args))"
  by (simp add: bash_words_def shell_command_def shell_words_escape quote_def shell_words_args)

text \<open>The flags are what \<open>build_args\<close> puts before \<open>--\<close> and the query.\<close>

definition flag_args :: "launch_config \<Rightarrow> string list" where
  "flag_args c = butlast (butlast (build_args c))"

lemma build_args_flags: "build_args c = flag_args c @ [''--'', lc_query c]"
proof -
  obtain flags where "build_args c = flags @ [''--'', lc_query c]" by (simp add: build_args_def)
  then show ?thesis by (simp add: flag_args_def butlast_append)
qed

text \<open>The arguments for the MCP file land before the first argument that is \<open>--\<close>, be it a flag's value.\<close>

definition before_dashes :: "string list \<Rightarrow> string list" where
  "before_dashes flags = takeWhile (\<lambda>a. a \<noteq> ''--'') flags"

definition from_dashes :: "string list \<Rightarrow> string list" where
  "from_dashes flags = dropWhile (\<lambda>a. a \<noteq> ''--'') flags"

lemma insert_mcp_build:
  "insert_mcp_args path (build_args c) =
     before_dashes (flag_args c) @ [''--mcp-config'', path] @ from_dashes (flag_args c) @ [''--'', lc_query c]"
proof (cases "''--'' \<in> set (flag_args c)")
  case True
  then show ?thesis
    by (simp add: insert_mcp_args_def before_dashes_def from_dashes_def build_args_flags)
next
  case False
  then have all: "a \<noteq> ''--''" if "a \<in> set (flag_args c)" for a using that by blast
  have cut: "takeWhile (\<lambda>a. a \<noteq> ''--'') (flag_args c) = flag_args c" "dropWhile (\<lambda>a. a \<noteq> ''--'') (flag_args c) = []"
    by (rule takeWhile_eq_all_conv [THEN iffD2], use all in blast)
       (rule dropWhile_eq_Nil_conv [THEN iffD2], use all in blast)
  show ?thesis
    using all by (simp add: cut insert_mcp_args_def before_dashes_def from_dashes_def build_args_flags)
qed

text \<open>What \<open>launch\<close> announces first is the command that it hands to \<open>bash -c\<close>.\<close>

definition mcp_args :: "launch_env \<Rightarrow> json option \<Rightarrow> string list" where
  "mcp_args env mcp =
     (case mcp of None \<Rightarrow> [] | Some m \<Rightarrow> (case ev_write_mcp env m of Inl e \<Rightarrow> [] | Inr path \<Rightarrow> [''--mcp-config'', path]))"

lemma launch_command:
  assumes "launch read_raw parse_json env claude_path c = Some (Raw_Launch cmd # es)"
  shows "\<exists>mcp args. effective_mcp (ev_mcp_url env) c = Some mcp \<and> cmd = shell_command claude_path args \<and>
    args = before_dashes (flag_args c) @ mcp_args env mcp @ from_dashes (flag_args c) @ [''--'', lc_query c]"
proof -
  have parts: "before_dashes (flag_args c) @ from_dashes (flag_args c) = flag_args c" by (simp add: before_dashes_def from_dashes_def)
  obtain mcp where mcp: "effective_mcp (ev_mcp_url env) c = Some mcp" using assms by (auto simp: launch_def split: option.splits)
  show ?thesis
  proof (cases mcp)
    case None
    then have "cmd = shell_command claude_path (build_args c)"
      using assms mcp by (auto simp: launch_def run_process_def error_result_def split: option.splits if_splits)
    then show ?thesis using mcp None parts by (metis append.assoc append_Nil build_args_flags mcp_args_def option.simps(4))
  next
    case (Some m)
    then obtain path where "ev_write_mcp env m = Inr path" "cmd = shell_command claude_path (insert_mcp_args path (build_args c))"
      using assms mcp by (auto simp: launch_def run_process_def error_result_def split: option.splits if_splits sum.splits)
    then show ?thesis using mcp Some by (auto simp: mcp_args_def insert_mcp_build)
  qed
qed

lemma launch_no_stderr:
  assumes "launch read_raw parse_json env claude_path c = Some es" and "\<And>l. case read_raw l of Some (Raw_Stderr t) \<Rightarrow> False | _ \<Rightarrow> True"
  shows "\<forall>e \<in> set es. case e of Raw_Stderr t \<Rightarrow> False | _ \<Rightarrow> True"
proof -
  have line: "case line_event read_raw parse_json l of Raw_Stderr t \<Rightarrow> False | _ \<Rightarrow> True" for l
    using assms(2) [of l] by (auto simp: line_event_def split: option.splits)
  have lines: "\<forall>e \<in> set (relay_lines read_raw parse_json ls). case e of Raw_Stderr t \<Rightarrow> False | _ \<Rightarrow> True" for ls
    by (induction ls) (use line in \<open>auto simp: Let_def\<close>)
  show ?thesis using assms(1) lines
    by (auto simp: launch_def run_process_def error_result_def split: option.splits sum.splits)
qed

end
