(* ===== verification/Claude_Chat.thy ===== *)
theory Claude_Chat
  imports Claude_Render Claude_Executor
begin

text \<open>
  One turn of a conversation with the Claude program: \<open>chat_stream_for_config\<close> and its background
  variant \<open>run_chat_background\<close> in \<^verbatim>\<open>src/src/activations/claudecode/activation.rs\<close>. The state of a
  turn holds the tables, the local variables of the code and the events it has yielded so far;
  \<open>ch_done\<close> says that it has returned. The events of the program (\<open>executor.launch\<close>) are a function
  of the launch configuration; new UUIDs are drawn from a sequence.
\<close>

record chat_env =
  ce_json :: json_codec
  ce_new_id :: "nat \<Rightarrow> string"
  ce_plugin_id :: string

record chat_state =
  ch_db :: claude_db
  ch_next :: nat
  ch_parent :: arbor_id
  ch_response :: string
  ch_claude_id :: "string option"
  ch_cost :: "f64 option"
  ch_turns :: "int option"
  ch_tool_id :: "string option"
  ch_tool_name :: "string option"
  ch_tool_input :: string
  ch_out :: "chat_event list"
  ch_done :: bool

definition start_state :: "claude_config \<Rightarrow> claude_db \<Rightarrow> nat \<Rightarrow> chat_state" where
  "start_state c db next =
     \<lparr>ch_db = db, ch_next = next, ch_parent = ps_node (cf_head c), ch_response = [], ch_claude_id = cf_claude_id c,
      ch_cost = None, ch_turns = None, ch_tool_id = None, ch_tool_name = None, ch_tool_input = [], ch_out = [], ch_done = False\<rparr>"

definition emit :: "chat_event \<Rightarrow> chat_state \<Rightarrow> chat_state" where
  "emit e st = st\<lparr>ch_out := ch_out st @ [e]\<rparr>"

definition fail_turn :: "string \<Rightarrow> chat_state \<Rightarrow> chat_state" where
  "fail_turn m st = (emit (Chat_Err m) st)\<lparr>ch_done := True\<rparr>"

text \<open>A call on the tables, with a new UUID.\<close>

definition with_db :: "chat_env \<Rightarrow> (string \<Rightarrow> 'a claude_op) \<Rightarrow> chat_state \<Rightarrow> (claude_error + 'a) \<times> chat_state" where
  "with_db env f st =
     (case f (ce_new_id env (ch_next st)) (ch_db st) of (r, db) \<Rightarrow> (r, st\<lparr>ch_db := db, ch_next := ch_next st + 1\<rparr>))"

definition with_arbor :: "chat_env \<Rightarrow> (string \<Rightarrow> arbor_db \<Rightarrow> (string + 'a) \<times> arbor_db) \<Rightarrow> chat_state \<Rightarrow> (string + 'a) \<times> chat_state" where
  "with_arbor env f st =
     (case f (ce_new_id env (ch_next st)) (cc_arbor (ch_db st)) of
        (r, a) \<Rightarrow> (r, st\<lparr>ch_db := (ch_db st)\<lparr>cc_arbor := a\<rparr>, ch_next := ch_next st + 1\<rparr>))"

subsection \<open>Storing\<close>

text \<open>An event node that cannot be stored is skipped.\<close>

definition add_event :: "chat_env \<Rightarrow> arbor_id \<Rightarrow> node_event \<Rightarrow> chat_state \<Rightarrow> chat_state" where
  "add_event env t e st =
     (case with_arbor env (create_event_node (ce_json env) t (ch_parent st) e) st of
        (Inr i, st) \<Rightarrow> st\<lparr>ch_parent := i\<rparr>
      | (Inl _, st) \<Rightarrow> st)"

definition store_message ::
  "chat_env \<Rightarrow> bool \<Rightarrow> string \<Rightarrow> message_role \<Rightarrow> string \<Rightarrow> string option \<Rightarrow> f64 option \<Rightarrow> chat_state \<Rightarrow>
   (claude_error + claude_msg) \<times> chat_state" where
  "store_message env ephemeral sid role content model_id cost =
     with_db env (\<lambda>mid. (if ephemeral then message_create_ephemeral else message_create)
       sid role content model_id None None cost mid)"

text \<open>The external node for a message, below the current parent.\<close>

definition store_node :: "chat_env \<Rightarrow> bool \<Rightarrow> arbor_id \<Rightarrow> handle \<Rightarrow> chat_state \<Rightarrow> (string + arbor_id) \<times> chat_state" where
  "store_node env ephemeral t h st =
     with_arbor env (\<lambda>i a. case (if ephemeral then node_create_external_ephemeral else node_create_external)
         t (Some (ch_parent st)) h None i a of
       (Inl e, a) \<Rightarrow> (Inl (arbor_error_text e), a)
     | (Inr x, a) \<Rightarrow> (Inr x, a)) st"

subsection \<open>The beginning of a turn\<close>

definition begin_turn :: "chat_env \<Rightarrow> claude_config \<Rightarrow> string \<Rightarrow> bool \<Rightarrow> chat_state \<Rightarrow> chat_state" where
  "begin_turn env c prompt ephemeral st =
     (let t = ps_tree (cf_head c)
      in case store_message env ephemeral (cf_id c) Role_User prompt None None st of
           (Inl e, st) \<Rightarrow> fail_turn (claude_error_text e) st
         | (Inr m, st) \<Rightarrow>
             (case store_node env ephemeral t (message_to_handle (ce_plugin_id env) m ''user'') st of
                (Inl e, st) \<Rightarrow> fail_turn e st
              | (Inr i, st) \<Rightarrow>
                  emit (Chat_Start (cf_id c) \<lparr>ps_tree = t, ps_node = i\<rparr>)
                    (add_event env t Assistant_Start (add_event env t (User_Message prompt) (st\<lparr>ch_parent := i\<rparr>)))))"

definition turn_launch :: "claude_config \<Rightarrow> string \<Rightarrow> string list option \<Rightarrow> launch_config" where
  "turn_launch c prompt allowed =
     default_launch\<lparr>lc_query := prompt, lc_session := cf_claude_id c, lc_fork := False, lc_model := cf_model c,
       lc_working_dir := cf_working_dir c, lc_prompt := cf_prompt c, lc_mcp := cf_mcp c, lc_loopback := cf_loopback c,
       lc_loopback_id := (if cf_loopback c then cf_loopback_id c else None),
       lc_allowed := (case allowed of Some a \<Rightarrow> a | None \<Rightarrow> [])\<rparr>"

subsection \<open>Relaying the events of the program\<close>

definition say_text :: "chat_env \<Rightarrow> arbor_id \<Rightarrow> string \<Rightarrow> chat_state \<Rightarrow> chat_state" where
  "say_text env t s st = emit (Chat_Content s) (add_event env t (Content_Text s) (st\<lparr>ch_response := ch_response st @ s\<rparr>))"

definition say_tool_use :: "chat_env \<Rightarrow> arbor_id \<Rightarrow> string \<Rightarrow> string \<Rightarrow> json \<Rightarrow> chat_state \<Rightarrow> chat_state" where
  "say_tool_use env t i n v st = emit (Chat_Tool_Use n i v) (add_event env t (Content_Tool_Use i n v) st)"

definition take_claude_id :: "string option \<Rightarrow> chat_state \<Rightarrow> chat_state" where
  "take_claude_id sid st = (case sid of Some i \<Rightarrow> st\<lparr>ch_claude_id := Some i\<rparr> | None \<Rightarrow> st)"

definition tool_input :: "chat_env \<Rightarrow> chat_state \<Rightarrow> json" where
  "tool_input env st = (case jc_parse (ce_json env) (ch_tool_input st) of Some v \<Rightarrow> v | None \<Rightarrow> JObj [])"

definition stop_block :: "chat_env \<Rightarrow> arbor_id \<Rightarrow> chat_state \<Rightarrow> chat_state" where
  "stop_block env t st =
     (let taken = st\<lparr>ch_tool_id := None, ch_tool_name := None\<rparr>
      in case (ch_tool_id st, ch_tool_name st) of
           (Some i, Some n) \<Rightarrow> (say_tool_use env t i n (tool_input env st) taken)\<lparr>ch_tool_input := []\<rparr>
         | _ \<Rightarrow> taken)"

fun relay_inner :: "chat_env \<Rightarrow> arbor_id \<Rightarrow> stream_inner \<Rightarrow> chat_state \<Rightarrow> chat_state" where
  "relay_inner env t (Block_Delta _ (Text_Delta s)) st = say_text env t s st"
| "relay_inner env t (Block_Delta _ (Input_Json_Delta p)) st = st\<lparr>ch_tool_input := ch_tool_input st @ p\<rparr>"
| "relay_inner env t (Block_Start _ (Some (Stream_Tool_Use i n _))) st =
     st\<lparr>ch_tool_id := Some i, ch_tool_name := Some n, ch_tool_input := []\<rparr>"
| "relay_inner env t (Block_Stop _) st = stop_block env t st"
| "relay_inner env t _ st = st"

definition say_result :: "chat_env \<Rightarrow> arbor_id \<Rightarrow> string \<Rightarrow> string option \<Rightarrow> bool option \<Rightarrow> chat_state \<Rightarrow> chat_state" where
  "say_result env t i content is_error st =
     (let c = (case content of Some s \<Rightarrow> s | None \<Rightarrow> []); e = (is_error = Some True)
      in emit (Chat_Tool_Result i c e) (add_event env t (User_Tool_Result i c e) st))"

fun relay_block :: "chat_env \<Rightarrow> arbor_id \<Rightarrow> raw_block \<Rightarrow> chat_state \<Rightarrow> chat_state" where
  "relay_block env t (Raw_Text s) st = (if ch_response st = [] then say_text env t s st else st)"
| "relay_block env t (Raw_Tool_Use i n v) st = say_tool_use env t i n v st"
| "relay_block env t (Raw_Tool_Result i content is_error) st = say_result env t i content is_error st"
| "relay_block env t (Raw_Thinking s _) st = emit (Chat_Thinking s) (add_event env t (Content_Thinking s) st)"

definition message_blocks :: "raw_message option \<Rightarrow> raw_block list" where
  "message_blocks m = (case Option.bind m rm_content of Some bs \<Rightarrow> bs | None \<Rightarrow> [])"

definition relay_result :: "result_info \<Rightarrow> chat_state \<Rightarrow> chat_state" where
  "relay_result r st =
     (let st = (take_claude_id (ri_session r) st)\<lparr>ch_cost := ri_cost r, ch_turns := ri_turns r\<rparr>
      in case (ri_is_error r, ri_error r) of
           (Some True, Some m) \<Rightarrow> fail_turn m st
         | _ \<Rightarrow> st)"

definition relay_unknown :: "chat_env \<Rightarrow> string \<Rightarrow> string \<Rightarrow> json \<Rightarrow> chat_state \<Rightarrow> chat_state" where
  "relay_unknown env sid event_type data st =
     (case with_db env (unknown_event_store (Some sid) event_type data) st of
        (Inr h, st) \<Rightarrow> emit (Chat_Passthrough event_type h data) st
      | (Inl _, st) \<Rightarrow> emit (Chat_Passthrough event_type ''storage-failed'' data) st)"

fun relay_event :: "chat_env \<Rightarrow> claude_config \<Rightarrow> raw_event \<Rightarrow> chat_state \<Rightarrow> chat_state" where
  "relay_event env c (Raw_System _ sid _ _ _) st = take_claude_id sid st"
| "relay_event env c (Raw_Stream inner sid) st = relay_inner env (ps_tree (cf_head c)) inner (take_claude_id sid st)"
| "relay_event env c (Raw_Assistant m) st = fold (relay_block env (ps_tree (cf_head c))) (message_blocks m) st"
| "relay_event env c (Raw_Result r) st = relay_result r st"
| "relay_event env c (Raw_Unknown event_type data) st = relay_unknown env (cf_id c) event_type data st"
| "relay_event env c (Raw_User m) st = st"
| "relay_event env c (Raw_Launch command) st = add_event env (ps_tree (cf_head c)) (Launch_Command command) st"
| "relay_event env c (Raw_Stderr s) st = add_event env (ps_tree (cf_head c)) (Claude_Stderr s) st"

fun relay_events :: "chat_env \<Rightarrow> claude_config \<Rightarrow> raw_event list \<Rightarrow> chat_state \<Rightarrow> chat_state" where
  "relay_events env c [] st = st"
| "relay_events env c (r # rs) st = (if ch_done st then st else relay_events env c rs (relay_event env c r st))"

subsection \<open>The end of a turn\<close>

text \<open>From the response of the assistant to the \<open>Complete\<close> event: the part that both variants share.\<close>

definition reply_model :: "claude_config \<Rightarrow> string" where
  "reply_model c = ''claude-code-'' @ model_str (cf_model c)"

definition record_reply :: "chat_env \<Rightarrow> claude_config \<Rightarrow> bool \<Rightarrow> chat_state \<Rightarrow> chat_state" where
  "record_reply env c ephemeral st =
     (let t = ps_tree (cf_head c)
      in case store_message env ephemeral (cf_id c) Role_Assistant (ch_response st)
             (Some (reply_model c)) (ch_cost st) st of
           (Inl e, st) \<Rightarrow> fail_turn (claude_error_text e) st
         | (Inr m, st) \<Rightarrow>
             (case store_node env ephemeral t (message_to_handle (ce_plugin_id env) m ''assistant'')
                 (add_event env t (Assistant_Complete None) st) of
                (Inl e, st) \<Rightarrow> fail_turn e st
              | (Inr i, st) \<Rightarrow>
                  (case (if ephemeral then (Inr (), ch_db st)
                         else session_update_head (cf_id c) i (ch_claude_id st) (ch_db st)) of
                     (Inl e, db) \<Rightarrow> fail_turn (claude_error_text e) (st\<lparr>ch_db := db\<rparr>)
                   | (Inr _, db) \<Rightarrow>
                       emit (Chat_Complete (if ephemeral then cf_head c else \<lparr>ps_tree = t, ps_node = i\<rparr>)
                         (case ch_claude_id st of Some s \<Rightarrow> s | None \<Rightarrow> [])
                         (Some \<lparr>cu_input_tokens = None, cu_output_tokens = None, cu_cost = ch_cost st, cu_turns = ch_turns st\<rparr>))
                         (st\<lparr>ch_db := db, ch_done := True\<rparr>))))"

definition persist_claude_id :: "claude_config \<Rightarrow> chat_state \<Rightarrow> chat_state" where
  "persist_claude_id c st =
     (case ch_claude_id st of
        Some new \<Rightarrow> if cf_claude_id c \<noteq> Some new then st\<lparr>ch_db := session_update_claude_id (cf_id c) new (ch_db st)\<rparr> else st
      | None \<Rightarrow> st)"

definition no_response :: string where
  "no_response = ''Claude process produced no response. Check substrate logs for details.''"

definition finish_turn :: "chat_env \<Rightarrow> claude_config \<Rightarrow> bool \<Rightarrow> chat_state \<Rightarrow> chat_state" where
  "finish_turn env c ephemeral st =
     (let st = persist_claude_id c st
      in if ch_response st = [] \<and> ch_claude_id st = None
         then fail_turn no_response st
         else record_reply env c ephemeral st)"

definition chat_turn ::
  "chat_env \<Rightarrow> (launch_config \<Rightarrow> raw_event list) \<Rightarrow> claude_config \<Rightarrow> string \<Rightarrow> bool option \<Rightarrow> string list option \<Rightarrow>
   claude_db \<Rightarrow> nat \<Rightarrow> chat_state" where
  "chat_turn env claude c prompt ephemeral allowed db next =
     (let eph = (ephemeral = Some True);
          st = begin_turn env c prompt eph (start_state c db next);
          st = (if ch_done st then st else relay_events env c (claude (turn_launch c prompt allowed)) st)
      in if ch_done st then st else finish_turn env c eph st)"

subsection \<open>The background variant\<close>

text \<open>
  The same turn with the events pushed into a stream buffer; an error also sets the status of the
  stream. What a push or a status change answers is only logged. One event of the program is one
  step of the model: the status change that it causes comes first.
\<close>

definition on_stream :: "'a claude_op \<Rightarrow> chat_state \<Rightarrow> chat_state" where
  "on_stream f st = st\<lparr>ch_db := snd (f (ch_db st))\<rparr>"

definition publish :: "string \<Rightarrow> chat_event \<Rightarrow> claude_db \<Rightarrow> claude_db" where
  "publish stream e db =
     (let db = snd (stream_push_event stream e db)
      in case e of Chat_Err m \<Rightarrow> snd (stream_set_status stream Failed_Stream (Some m) db) | _ \<Rightarrow> db)"

definition publish_out :: "string \<Rightarrow> chat_state \<Rightarrow> chat_state" where
  "publish_out stream st = st\<lparr>ch_db := fold (publish stream) (ch_out st) (ch_db st), ch_out := []\<rparr>"

fun is_tool_result :: "raw_block \<Rightarrow> bool" where
  "is_tool_result (Raw_Tool_Result _ _ _) = True"
| "is_tool_result _ = False"

definition permit_tool :: string where
  "permit_tool = ''mcp__plexus__loopback_permit''"

fun mark_status :: "string \<Rightarrow> raw_event \<Rightarrow> chat_state \<Rightarrow> chat_state" where
  "mark_status stream (Raw_Stream (Block_Stop _) _) st =
     (if ch_tool_id st \<noteq> None \<and> ch_tool_name st = Some permit_tool
      then on_stream (stream_set_status stream Awaiting_Permission None) st else st)"
| "mark_status stream (Raw_Assistant m) st =
     (if list_ex is_tool_result (message_blocks m)
      then on_stream (stream_set_status stream Running_Stream None) st else st)"
| "mark_status stream _ st = st"

definition relay_event_bg :: "chat_env \<Rightarrow> claude_config \<Rightarrow> string \<Rightarrow> raw_event \<Rightarrow> chat_state \<Rightarrow> chat_state" where
  "relay_event_bg env c stream r st = publish_out stream (relay_event env c r (mark_status stream r st))"

fun relay_events_bg :: "chat_env \<Rightarrow> claude_config \<Rightarrow> string \<Rightarrow> raw_event list \<Rightarrow> chat_state \<Rightarrow> chat_state" where
  "relay_events_bg env c stream [] st = st"
| "relay_events_bg env c stream (r # rs) st =
     (if ch_done st then st else relay_events_bg env c stream rs (relay_event_bg env c stream r st))"

definition background_launch :: "claude_config \<Rightarrow> string \<Rightarrow> launch_config" where
  "background_launch c prompt =
     default_launch\<lparr>lc_query := prompt, lc_session := cf_claude_id c, lc_fork := False, lc_model := cf_model c,
       lc_working_dir := cf_working_dir c, lc_prompt := cf_prompt c, lc_mcp := cf_mcp c, lc_loopback := cf_loopback c,
       lc_loopback_id := (if cf_loopback c then cf_claude_id c else None)\<rparr>"

fun start_position :: "chat_event list \<Rightarrow> position option" where
  "start_position (Chat_Start _ p # _) = Some p"
| "start_position _ = None"

definition begin_background :: "chat_env \<Rightarrow> claude_config \<Rightarrow> string \<Rightarrow> bool \<Rightarrow> string \<Rightarrow> chat_state \<Rightarrow> chat_state" where
  "begin_background env c prompt ephemeral stream st =
     (let st = begin_turn env c prompt ephemeral st;
          st = (case start_position (ch_out st) of
                  Some p \<Rightarrow> on_stream (stream_set_user_position stream p) st
                | None \<Rightarrow> st)
      in publish_out stream st)"

definition finish_background :: "chat_env \<Rightarrow> claude_config \<Rightarrow> bool \<Rightarrow> string \<Rightarrow> chat_state \<Rightarrow> chat_state" where
  "finish_background env c ephemeral stream st =
     (let st = record_reply env c ephemeral st; out = ch_out st; st = publish_out stream st
      in case last out of
           Chat_Complete _ _ _ \<Rightarrow> on_stream (stream_set_status stream Complete_Stream None) st
         | _ \<Rightarrow> st)"

definition run_chat_background ::
  "chat_env \<Rightarrow> (launch_config \<Rightarrow> raw_event list) \<Rightarrow> claude_config \<Rightarrow> string \<Rightarrow> bool \<Rightarrow> string \<Rightarrow>
   claude_db \<Rightarrow> nat \<Rightarrow> chat_state" where
  "run_chat_background env claude c prompt ephemeral stream db next =
     (let st = begin_background env c prompt ephemeral stream (start_state c db next);
          st = (if ch_done st then st else relay_events_bg env c stream (claude (background_launch c prompt)) st)
      in if ch_done st then st else finish_background env c ephemeral stream st)"

end
