(* ===== verification/Arbor_History.thy ===== *)
theory Arbor_History
  imports Arbor_Paths
begin

text \<open>
  What a node's path says: the nodes from the root down to it, with their data. Creating a node below
  another appends one entry to the history of the parent and leaves all other histories as they are.
  This is the view of Arbor that the clients that keep conversations in it rely on.
\<close>

definition path_data :: "arbor_db \<Rightarrow> arbor_id \<Rightarrow> arbor_id \<Rightarrow> arbor_id list \<Rightarrow> arbor_node_type list \<Rightarrow> bool" where
  "path_data db t i ids ds \<longleftrightarrow>
     node_get_path db t i = Some (Inr ids) \<and> list_all2 (\<lambda>k d. \<exists>n. node_get db t k = Inr n \<and> an_data n = d) ids ds"

lemma node_get_row:
  "(\<exists>n. node_get db t i = Inr n \<and> an_data n = d) \<longleftrightarrow>
     (\<exists>r. find (\<lambda>r. nr_tree r = t \<and> nr_id r = i) (ar_nodes db) = Some r \<and> nr_data r = d)"
proof -
  have "map_of (get_nodes_for_tree db t) i = map_option (node_of_row db) (find (\<lambda>r. nr_tree r = t \<and> nr_id r = i) (ar_nodes db))"
    by (simp add: get_nodes_for_tree_def map_of_rows)
  then show ?thesis by (auto simp: node_get_def node_of_row_def split: option.splits)
qed

text \<open>The row of a new node.\<close>

definition has_row :: "arbor_db \<Rightarrow> arbor_db \<Rightarrow> arbor_id \<Rightarrow> arbor_id \<Rightarrow> arbor_id \<Rightarrow> arbor_node_type \<Rightarrow> bool" where
  "has_row db db' t p u d \<longleftrightarrow>
     (\<exists>r. ar_nodes db' = ar_nodes db @ [r] \<and> nr_id r = u \<and> nr_tree r = t \<and> nr_parent r = Some p \<and> nr_data r = d) \<and>
     ar_trees db' = ar_trees db \<and> ar_clock db' = ar_clock db"

lemma find_snoc: "find P (xs @ [x]) = (case find P xs of Some y \<Rightarrow> Some y | None \<Rightarrow> if P x then Some x else None)"
  by (induction xs) auto

lemma new_find:
  "\<not> mentioned db u \<Longrightarrow> has_row db db' t p u d \<Longrightarrow>
    \<exists>r. find (\<lambda>r. nr_tree r = t \<and> nr_id r = u) (ar_nodes db') = Some r \<and> nr_parent r = Some p \<and> nr_data r = d"
  by (auto simp: has_row_def mentioned_def find_snoc split: option.splits dest!: find_in)

lemma lineage_carried:
  assumes "lineage par i ks m" and "\<And>k. k \<in> set ks \<Longrightarrow> par' k = par k" and "m = None"
  shows "lineage par' i ks m"
  using assms
proof (induction rule: lineage.induct)
  case (child k p ks m)
  then have "lineage par' p ks m" "par' k = Some (Some p)" by simp_all
  then show ?case by (intro lineage.child)
qed (auto intro: lineage.root)

lemma path_data_old:
  assumes ok: "arbor_ok db" and path: "path_data db t i ids ds" and new: "\<not> mentioned db u" "has_row db db' t' p u d"
    and ok': "arbor_ok db'"
  shows "path_data db' t i ids ds"
proof -
  have lin: "lineage (parent_in db t) i (rev ids) None"
    using node_get_path_ok [OF ok] path by (simp add: path_data_def)
  have same: "find (\<lambda>r. nr_tree r = t \<and> nr_id r = k) (ar_nodes db') = find (\<lambda>r. nr_tree r = t \<and> nr_id r = k) (ar_nodes db)"
    if "k \<in> set ids" for k
  proof -
    have "parent_in db t k \<noteq> None" using lineage_known [OF lin] that by simp
    then have "k \<in> nr_id ` set (ar_nodes db)" using parent_in_row by (metis image_eqI option.exhaust)
    then have "k \<noteq> u" using new(1) by (auto simp: mentioned_def)
    then show ?thesis using new(2) by (auto simp: has_row_def find_snoc split: option.splits)
  qed
  have "lineage (parent_in db' t) i (rev ids) None"
    by (rule lineage_carried [OF lin]) (simp_all add: parent_in_def same)
  then have "node_get_path db' t i = Some (Inr ids)" using node_get_path_lineage by fastforce
  moreover have "list_all2 (\<lambda>k d. \<exists>n. node_get db' t k = Inr n \<and> an_data n = d) ids ds"
    using path unfolding path_data_def node_get_row
    by (elim conjE list.rel_mono_strong) (simp add: same)
  ultimately show ?thesis by (simp add: path_data_def)
qed

lemma path_data_new:
  assumes ok: "arbor_ok db" and path: "path_data db t p ids ds" and new: "\<not> mentioned db u" "has_row db db' t p u d"
    and ok': "arbor_ok db'"
  shows "path_data db' t u (ids @ [u]) (ds @ [d])"
proof -
  have old: "path_data db' t p ids ds" using path_data_old assms by blast
  then have "lineage (parent_in db' t) p (rev ids) None" using node_get_path_ok [OF ok'] by (simp add: path_data_def)
  moreover obtain r where r: "find (\<lambda>r. nr_tree r = t \<and> nr_id r = u) (ar_nodes db') = Some r" "nr_parent r = Some p" "nr_data r = d"
    using new_find [OF new] by blast
  ultimately have "lineage (parent_in db' t) u (u # rev ids) None"
    by (intro lineage.child) (simp_all add: parent_in_def)
  then have "node_get_path db' t u = Some (Inr (ids @ [u]))" using node_get_path_lineage by fastforce
  moreover have "\<exists>n. node_get db' t u = Inr n \<and> an_data n = d" using r by (simp add: node_get_row)
  ultimately show ?thesis using old by (simp add: path_data_def list_all2_appendI)
qed

text \<open>The end of a path is a node of the tree.\<close>

lemma path_data_known:
  assumes ok: "arbor_ok db" and path: "path_data db t p ids ds"
  shows "p \<in> nr_id ` set (ar_nodes db) \<and> t \<in> tr_id ` set (ar_trees db) \<and> mentioned db p"
proof -
  have lin: "lineage (parent_in db t) p (rev ids) None"
    using node_get_path_ok [OF ok] path by (simp add: path_data_def)
  then have "parent_in db t p \<noteq> None" by cases simp_all
  then obtain r where "r \<in> set (ar_nodes db)" "nr_id r = p" "nr_tree r = t" using parent_in_row by blast
  then show ?thesis using ok by (auto simp: arbor_ok_def nodes_ok_def mentioned_def)
qed

text \<open>The shared tail of the constructors, below an existing node.\<close>

lemma create_node_below:
  assumes ok: "arbor_ok db" and fresh: "\<not> mentioned db u" and p: "p \<in> nr_id ` set (ar_nodes db)"
    and t: "nr_tree row \<in> tr_id ` set (ar_trees db)" and row: "nr_id row = u" "nr_parent row = Some p"
  shows "\<exists>db'. bind_res (insert_node what row db) (\<lambda>_ db. link_parent (Some p) u db) = (Inr u, db') \<and>
    has_row db db' (nr_tree row) p u (nr_data row) \<and> arbor_ok db'"
proof -
  have new: "u \<notin> nr_id ` set (ar_nodes db)" using fresh by (auto simp: mentioned_def)
  then have ins: "insert_node what row db = (Inr (), db\<lparr>ar_nodes := ar_nodes db @ [row]\<rparr>)"
    using t row by (simp add: insert_node_def node_row_iff tree_row_iff)
  have "\<not> (\<exists>r \<in> set (ar_children db). nc_parent r = p \<and> nc_child r = u)"
  proof
    assume "\<exists>r \<in> set (ar_children db). nc_parent r = p \<and> nc_child r = u"
    then obtain c where "c \<in> set (ar_children db)" "nc_child c = u" by blast
    then show False using ok new unfolding arbor_ok_def children_ok_def by (metis image_eqI)
  qed
  then have link: "\<exists>db'. link_parent (Some p) u (db\<lparr>ar_nodes := ar_nodes db @ [row]\<rparr>) = (Inr u, db') \<and>
      ar_nodes db' = ar_nodes db @ [row] \<and> ar_trees db' = ar_trees db \<and> ar_clock db' = ar_clock db"
    using p row by (auto simp: link_parent_def add_child_to_parent_def node_row_iff)
  then obtain db' where db': "link_parent (Some p) u (db\<lparr>ar_nodes := ar_nodes db @ [row]\<rparr>) = (Inr u, db')"
      "ar_nodes db' = ar_nodes db @ [row]" "ar_trees db' = ar_trees db" "ar_clock db' = ar_clock db" by blast
  have "Some p \<noteq> Some u" using p new by auto
  then have "arbor_ok db'" using create_node_ok [OF ok fresh _ row, of what] ins db'(1) by simp
  then show ?thesis using db' ins row by (auto simp: has_row_def)
qed

text \<open>The three constructors: what creating a node below the end of a path does.\<close>

definition grown :: "arbor_db \<Rightarrow> arbor_db \<Rightarrow> arbor_id \<Rightarrow> arbor_id \<Rightarrow> arbor_id \<Rightarrow> arbor_node_type \<Rightarrow> bool" where
  "grown db db' t p u d \<longleftrightarrow> arbor_ok db' \<and> has_row db db' t p u d"

lemma node_create_below:
  assumes "arbor_ok db" and "path_data db t p ids ds" and "\<not> mentioned db u"
  shows "\<exists>db'. node_create_text t (Some p) content m u db = (Inr u, db') \<and> grown db db' t p u (Text_Node content)"
    and "\<exists>db'. node_create_external t (Some p) h m u db = (Inr u, db') \<and> grown db db' t p u (External_Node h)"
    and "\<exists>db'. node_create_external_ephemeral t (Some p) h m u db = (Inr u, db') \<and> grown db db' t p u (External_Node h)"
proof -
  note known = path_data_known [OF assms(1,2)]
  show "\<exists>db'. node_create_text t (Some p) content m u db = (Inr u, db') \<and> grown db db' t p u (Text_Node content)"
    using create_node_below [OF assms(1,3), of p "\<lparr>nr_id = u, nr_tree = t, nr_parent = Some p, nr_ref_count = 1,
      nr_state = ''active'', nr_scheduled_at = None, nr_archived_at = None, nr_data = Text_Node content,
      nr_created_at = ar_clock db, nr_metadata = m\<rparr>" "''Failed to create text node: ''"] known
    by (simp add: node_create_text_def grown_def) blast
  show "\<exists>db'. node_create_external t (Some p) h m u db = (Inr u, db') \<and> grown db db' t p u (External_Node h)"
    using create_node_below [OF assms(1,3), of p "\<lparr>nr_id = u, nr_tree = t, nr_parent = Some p, nr_ref_count = 1,
      nr_state = ''active'', nr_scheduled_at = None, nr_archived_at = None, nr_data = External_Node h,
      nr_created_at = ar_clock db, nr_metadata = m\<rparr>" "''Failed to create external node: ''"] known
    by (simp add: node_create_external_def grown_def) blast
  show "\<exists>db'. node_create_external_ephemeral t (Some p) h m u db = (Inr u, db') \<and> grown db db' t p u (External_Node h)"
    using create_node_below [OF assms(1,3), of p "\<lparr>nr_id = u, nr_tree = t, nr_parent = Some p, nr_ref_count = 0,
      nr_state = ''scheduled_delete'', nr_scheduled_at = Some (ar_clock db), nr_archived_at = None,
      nr_data = External_Node h, nr_created_at = ar_clock db, nr_metadata = m\<rparr>"
      "''Failed to create ephemeral external node: ''"] known
    by (simp add: node_create_external_ephemeral_def grown_def) blast
qed

lemma mentioned_grown:
  assumes "arbor_ok db" and "path_data db t p ids ds" and "grown db db' t p u d" and "v \<noteq> u" and "\<not> mentioned db v"
  shows "\<not> mentioned db' v"
proof -
  have "v \<noteq> p" using path_data_known [OF assms(1,2)] assms(5) by blast
  then show ?thesis using assms(3-5) by (auto simp: grown_def has_row_def mentioned_def)
qed

end
