(* ===== verification/Claude_Turn.thy ===== *)
theory Claude_Turn
  imports Claude_Chat Arbor_History
begin

text \<open>
  Lemmas on a turn: what each part of it yields (the protocol of the event stream), what it stores in
  the tree (the transcript), and which tables it touches.
\<close>

subsection \<open>The protocol of the stream\<close>

fun is_progress :: "chat_event \<Rightarrow> bool" where
  "is_progress (Chat_Start _ _) = False"
| "is_progress (Chat_Complete _ _ _) = False"
| "is_progress (Chat_Err _) = False"
| "is_progress _ = True"

fun is_final :: "chat_event \<Rightarrow> bool" where
  "is_final (Chat_Complete _ _ _) = True"
| "is_final (Chat_Err _) = True"
| "is_final _ = False"

text \<open>\<open>st'\<close> has yielded progress events after \<open>st\<close>, and has not returned in between.\<close>

definition progressed :: "chat_state \<Rightarrow> chat_state \<Rightarrow> bool" where
  "progressed st st' \<longleftrightarrow> (\<exists>mid. ch_out st' = ch_out st @ mid \<and> list_all is_progress mid) \<and> ch_done st' = ch_done st"

text \<open>\<open>st'\<close> has returned after one more, final, event.\<close>

definition ended :: "chat_state \<Rightarrow> chat_state \<Rightarrow> bool" where
  "ended st st' \<longleftrightarrow> (\<exists>e. ch_out st' = ch_out st @ [e] \<and> is_final e) \<and> ch_done st'"

definition failed :: "chat_state \<Rightarrow> chat_state \<Rightarrow> bool" where
  "failed st st' \<longleftrightarrow> (\<exists>m. ch_out st' = ch_out st @ [Chat_Err m]) \<and> ch_done st'"

lemma failed_ended: "failed st st' \<Longrightarrow> ended st st'"
  by (auto simp: failed_def ended_def)

lemma progressed_refl [simp]: "progressed st st"
  by (simp add: progressed_def)

lemma progressed_trans [trans]: "progressed st st' \<Longrightarrow> progressed st' st'' \<Longrightarrow> progressed st st''"
  by (force simp: progressed_def)

lemma with_db_fields [simp]:
  "with_db env f st = (r, st') \<Longrightarrow> ch_out st' = ch_out st \<and> ch_done st' = ch_done st \<and> ch_parent st' = ch_parent st \<and>
     ch_response st' = ch_response st \<and> ch_claude_id st' = ch_claude_id st \<and> ch_cost st' = ch_cost st \<and> ch_turns st' = ch_turns st"
  by (auto simp: with_db_def split: prod.splits)

lemma with_arbor_fields [simp]:
  "with_arbor env f st = (r, st') \<Longrightarrow> ch_out st' = ch_out st \<and> ch_done st' = ch_done st \<and> ch_parent st' = ch_parent st \<and>
     ch_response st' = ch_response st \<and> ch_claude_id st' = ch_claude_id st \<and> ch_cost st' = ch_cost st \<and> ch_turns st' = ch_turns st"
  by (auto simp: with_arbor_def split: prod.splits)

lemma add_event_fields [simp]:
  "ch_out (add_event env t e st) = ch_out st" "ch_done (add_event env t e st) = ch_done st"
  "ch_response (add_event env t e st) = ch_response st" "ch_claude_id (add_event env t e st) = ch_claude_id st"
  "ch_cost (add_event env t e st) = ch_cost st" "ch_turns (add_event env t e st) = ch_turns st"
  "ch_tool_id (add_event env t e st) = ch_tool_id st" "ch_tool_name (add_event env t e st) = ch_tool_name st"
  "ch_tool_input (add_event env t e st) = ch_tool_input st"
  by (simp_all add: add_event_def with_arbor_def split: prod.splits sum.splits)

lemma emit_fields [simp]:
  "ch_out (emit e st) = ch_out st @ [e]" "ch_done (emit e st) = ch_done st" "ch_db (emit e st) = ch_db st"
  "ch_next (emit e st) = ch_next st" "ch_parent (emit e st) = ch_parent st" "ch_response (emit e st) = ch_response st"
  "ch_claude_id (emit e st) = ch_claude_id st"
  by (simp_all add: emit_def)

lemma fail_turn_fields [simp]:
  "ch_out (fail_turn m st) = ch_out st @ [Chat_Err m]" "ch_done (fail_turn m st)" "ch_db (fail_turn m st) = ch_db st"
  "ch_next (fail_turn m st) = ch_next st"
  by (simp_all add: fail_turn_def)

lemma say_progressed [simp]:
  "progressed st (say_text env t s st)" "progressed st (say_tool_use env t i n v st)" "progressed st (say_result env t i x e st)"
  by (simp_all add: progressed_def say_text_def say_tool_use_def say_result_def Let_def)

lemma take_claude_id_fields [simp]:
  "ch_out (take_claude_id sid st) = ch_out st" "ch_done (take_claude_id sid st) = ch_done st"
  "ch_db (take_claude_id sid st) = ch_db st" "ch_next (take_claude_id sid st) = ch_next st"
  "ch_parent (take_claude_id sid st) = ch_parent st"
  by (simp_all add: take_claude_id_def split: option.splits)

lemma stop_block_progressed [simp]: "progressed st (stop_block env t st)"
  by (auto simp: stop_block_def Let_def progressed_def say_tool_use_def split: option.splits)

lemma relay_inner_progressed [simp]: "progressed st (relay_inner env t inner st)"
  by (cases "(env, t, inner, st)" rule: relay_inner.cases) (simp_all add: progressed_def [of st "st\<lparr>ch_tool_input := x\<rparr>" for x]
      progressed_def [of st "st\<lparr>ch_tool_id := x, ch_tool_name := y, ch_tool_input := z\<rparr>" for x y z])

lemma relay_block_progressed [simp]: "progressed st (relay_block env t b st)"
  by (cases b) (simp_all add: progressed_def [of st "emit e s" for e s])

lemma fold_progressed: "(\<And>x st. progressed st (f x st)) \<Longrightarrow> progressed st (fold f xs st)"
  by (induction xs arbitrary: st) (auto intro: progressed_trans)

lemma relay_result_step: "progressed st (relay_result r st) \<or> failed st (relay_result r st)"
  by (auto simp: relay_result_def Let_def progressed_def failed_def split: option.splits bool.splits)

lemma relay_unknown_progressed: "progressed st (relay_unknown env sid ty d st)"
  by (auto simp: relay_unknown_def progressed_def with_db_def split: prod.splits sum.splits)

lemma relay_event_step: "progressed st (relay_event env c r st) \<or> failed st (relay_event env c r st)"
proof (cases r)
  case (Raw_Stream inner sid)
  have "progressed st (take_claude_id sid st)" by (simp add: progressed_def)
  then show ?thesis using Raw_Stream progressed_trans relay_inner_progressed by fastforce
qed (use relay_result_step relay_unknown_progressed in \<open>auto intro: fold_progressed simp: progressed_def [of st "take_claude_id x st" for x]
      progressed_def [of st "add_event env t e st" for t e]\<close>)

lemma relay_events_step:
  "\<not> ch_done st \<Longrightarrow> progressed st (relay_events env c rs st) \<or> (\<exists>st1. progressed st st1 \<and> failed st1 (relay_events env c rs st))"
proof (induction rs arbitrary: st)
  case (Cons r rs)
  show ?case
  proof (cases "failed st (relay_event env c r st)")
    case True
    then have "relay_events env c rs (relay_event env c r st) = relay_event env c r st"
      by (cases rs) (simp_all add: failed_def)
    then show ?thesis using True Cons.prems progressed_refl by auto
  next
    case False
    then have p: "progressed st (relay_event env c r st)" using relay_event_step by blast
    then have "\<not> ch_done (relay_event env c r st)" using Cons.prems by (simp add: progressed_def)
    from Cons.IH [OF this] progressed_trans [OF p] Cons.prems show ?thesis
      by (simp del: relay_event.simps) blast
  qed
qed simp

lemma store_fields:
  "store_message env b sid role content m cost st = (r, st') \<Longrightarrow> ch_out st' = ch_out st \<and> ch_done st' = ch_done st"
  "store_node env b t h st = (r', st') \<Longrightarrow> ch_out st' = ch_out st \<and> ch_done st' = ch_done st"
  by (auto simp: store_message_def store_node_def)

lemma record_reply_ended: "ended st (record_reply env c b st)"
  by (auto simp: record_reply_def Let_def ended_def split: prod.splits sum.splits dest!: store_fields)

lemma persist_fields [simp]:
  "ch_out (persist_claude_id c st) = ch_out st" "ch_done (persist_claude_id c st) = ch_done st"
  "ch_response (persist_claude_id c st) = ch_response st" "ch_claude_id (persist_claude_id c st) = ch_claude_id st"
  "ch_parent (persist_claude_id c st) = ch_parent st" "ch_next (persist_claude_id c st) = ch_next st"
  "ch_cost (persist_claude_id c st) = ch_cost st" "ch_turns (persist_claude_id c st) = ch_turns st"
  by (simp_all add: persist_claude_id_def split: option.splits)

lemma finish_turn_ended: "ended st (finish_turn env c b st)"
proof -
  have "ended (persist_claude_id c st) (finish_turn env c b st)"
    using record_reply_ended by (auto simp: finish_turn_def Let_def ended_def [of _ "fail_turn m s" for m s])
  then show ?thesis by (simp add: ended_def)
qed

text \<open>The first event is \<open>Start\<close>, unless the user's message could not be stored.\<close>

lemma begin_turn_out:
  "(\<exists>p. ch_out (begin_turn env c prompt b st) = ch_out st @ [Chat_Start (cf_id c) p] \<and>
        ch_done (begin_turn env c prompt b st) = ch_done st \<and> ps_tree p = ps_tree (cf_head c)) \<or>
   ended st (begin_turn env c prompt b st)"
  by (auto simp: begin_turn_def Let_def ended_def split: prod.splits sum.splits dest!: store_fields)

lemma chat_turn_out:
  "\<exists>mid fin. is_final fin \<and> list_all is_progress mid \<and>
     (ch_out (chat_turn env claude c prompt eph allowed db next) = [fin] \<or>
      (\<exists>p. ch_out (chat_turn env claude c prompt eph allowed db next) = Chat_Start (cf_id c) p # mid @ [fin]))"
proof -
  define st0 where "st0 = start_state c db next"
  define b where "b = (eph = Some True)"
  define st1 where "st1 = begin_turn env c prompt b st0"
  define st2 where "st2 = (if ch_done st1 then st1 else relay_events env c (claude (turn_launch c prompt allowed)) st1)"
  have turn: "chat_turn env claude c prompt eph allowed db next = (if ch_done st2 then st2 else finish_turn env c b st2)"
    by (simp add: chat_turn_def st0_def b_def st1_def st2_def Let_def)
  have st0: "ch_out st0 = []" "\<not> ch_done st0" by (simp_all add: st0_def start_state_def)
  consider "ended st0 st1" | p where "ch_out st1 = [Chat_Start (cf_id c) p]" "\<not> ch_done st1"
    using begin_turn_out [of env c prompt b st0] st0 by (auto simp: st1_def)
  then show ?thesis
  proof cases
    case 1
    then have "st2 = st1" "ch_done st2" by (simp_all add: st2_def ended_def)
    then show ?thesis using 1 st0 turn by (auto simp: ended_def intro: exI [of _ "[]"])
  next
    case (2 p)
    then have st2: "progressed st1 st2 \<or> (\<exists>s. progressed st1 s \<and> ended s st2)"
      using relay_events_step [of st1 env c] failed_ended by (auto simp: st2_def)
    have "\<exists>s. progressed st1 s \<and> ended s (if ch_done st2 then st2 else finish_turn env c b st2)"
    proof (cases "ch_done st2")
      case True
      then show ?thesis using st2 2(2) by (auto simp: progressed_def)
    next
      case False
      then have "progressed st1 st2" using st2 by (auto simp: ended_def)
      then show ?thesis using False finish_turn_ended by (intro exI [of _ st2]) simp
    qed
    then obtain s where s: "progressed st1 s" "ended s (if ch_done st2 then st2 else finish_turn env c b st2)"
      by blast
    then show ?thesis using 2 turn by (auto simp: ended_def progressed_def)
  qed
qed

end
