(* ===== verification/Claude_History.thy ===== *)
theory Claude_History
  imports Claude_Turn
begin

text \<open>
  What a turn leaves in the tree: below the head come the node of the user's message, the events of
  the turn, and the node of the reply; no other history of the store changes.
\<close>

subsection \<open>New identifiers\<close>

definition fresh_ids :: "chat_env \<Rightarrow> nat \<Rightarrow> claude_db \<Rightarrow> bool" where
  "fresh_ids env n db \<longleftrightarrow> inj (ce_new_id env) \<and>
     (\<forall>k \<ge> n. \<not> mentioned (cc_arbor db) (ce_new_id env k) \<and> ce_new_id env k \<notin> me_id ` set (cc_messages db) \<and>
        ce_new_id env k \<notin> ue_id ` set (cc_unknown db))"

definition keeps :: "arbor_db \<Rightarrow> arbor_db \<Rightarrow> bool" where
  "keeps a a' \<longleftrightarrow> (\<forall>t i ids ds. path_data a t i ids ds \<longrightarrow> path_data a' t i ids ds)"

lemma keeps_grown:
  "arbor_ok a \<Longrightarrow> keeps a0 a \<Longrightarrow> \<not> mentioned a u \<Longrightarrow> grown a a' t p u d \<Longrightarrow> keeps a0 a'"
  by (auto simp: keeps_def grown_def intro: path_data_old)

text \<open>The state of a turn whose parent node has the path \<open>ids\<close> with the data \<open>ds\<close>.\<close>

definition turn_ok :: "chat_env \<Rightarrow> claude_config \<Rightarrow> arbor_db \<Rightarrow> arbor_id list \<Rightarrow> arbor_node_type list \<Rightarrow> chat_state \<Rightarrow> bool" where
  "turn_ok env c a0 ids ds st \<longleftrightarrow>
     arbor_ok (cc_arbor (ch_db st)) \<and> path_data (cc_arbor (ch_db st)) (ps_tree (cf_head c)) (ch_parent st) ids ds \<and>
     fresh_ids env (ch_next st) (ch_db st) \<and> session_exists (ch_db st) (cf_id c) \<and> keeps a0 (cc_arbor (ch_db st))"

lemma turn_ok_cong:
  "turn_ok env c a0 ids ds st \<Longrightarrow> ch_db st' = ch_db st \<Longrightarrow> ch_next st' = ch_next st \<Longrightarrow> ch_parent st' = ch_parent st \<Longrightarrow>
    turn_ok env c a0 ids ds st'"
  by (simp add: turn_ok_def)

text \<open>A node created below the parent.\<close>

lemma node_stored:
  assumes ok: "turn_ok env c a0 ids ds st"
    and f: "grown (cc_arbor (ch_db st)) a (ps_tree (cf_head c)) (ch_parent st) (ce_new_id env (ch_next st)) d"
  shows "turn_ok env c a0 (ids @ [ce_new_id env (ch_next st)]) (ds @ [d])
    (st\<lparr>ch_db := (ch_db st)\<lparr>cc_arbor := a\<rparr>, ch_next := ch_next st + 1, ch_parent := ce_new_id env (ch_next st)\<rparr>)"
proof -
  let ?u = "ce_new_id env (ch_next st)" and ?A = "cc_arbor (ch_db st)"
  have A: "arbor_ok ?A" "path_data ?A (ps_tree (cf_head c)) (ch_parent st) ids ds" "\<not> mentioned ?A ?u"
    using ok by (auto simp: turn_ok_def fresh_ids_def)
  have "path_data a (ps_tree (cf_head c)) ?u (ids @ [?u]) (ds @ [d])"
    using path_data_new [OF A] f by (simp add: grown_def)
  moreover have "fresh_ids env (ch_next st + 1) ((ch_db st)\<lparr>cc_arbor := a\<rparr>)"
  proof -
    have "ce_new_id env k \<noteq> ?u" if "ch_next st + 1 \<le> k" for k
      using ok that by (auto simp: turn_ok_def fresh_ids_def dest: injD)
    then show ?thesis
      using ok mentioned_grown [OF A(1,2) f] by (auto simp: turn_ok_def fresh_ids_def)
  qed
  ultimately show ?thesis
    using ok f keeps_grown [OF A(1) _ A(3) f] by (simp add: turn_ok_def grown_def session_exists_def)
qed

lemma add_event_ok:
  assumes ok: "turn_ok env c a0 ids ds st"
  shows "\<exists>u. turn_ok env c a0 (ids @ [u]) (ds @ [stored_event (ce_json env) e]) (add_event env (ps_tree (cf_head c)) e st)"
proof -
  let ?u = "ce_new_id env (ch_next st)"
  have "arbor_ok (cc_arbor (ch_db st))" "path_data (cc_arbor (ch_db st)) (ps_tree (cf_head c)) (ch_parent st) ids ds"
    "\<not> mentioned (cc_arbor (ch_db st)) ?u"
    using ok by (auto simp: turn_ok_def fresh_ids_def)
  from node_create_below(1) [OF this, of "write_event (ce_json env) e" None] obtain a where
    a: "node_create_text (ps_tree (cf_head c)) (Some (ch_parent st)) (write_event (ce_json env) e) None ?u (cc_arbor (ch_db st)) = (Inr ?u, a)"
       "grown (cc_arbor (ch_db st)) a (ps_tree (cf_head c)) (ch_parent st) ?u (stored_event (ce_json env) e)"
    by (auto simp: stored_event_def)
  then show ?thesis using node_stored [OF ok a(2)] by (auto simp: add_event_def with_arbor_def create_event_node_def)
qed

lemma store_node_ok:
  assumes ok: "turn_ok env c a0 ids ds st"
  shows "\<exists>u st'. store_node env b (ps_tree (cf_head c)) h st = (Inr u, st') \<and> ch_claude_id st' = ch_claude_id st \<and>
    turn_ok env c a0 (ids @ [u]) (ds @ [External_Node h]) (st'\<lparr>ch_parent := u\<rparr>)"
proof -
  let ?u = "ce_new_id env (ch_next st)"
  have A: "arbor_ok (cc_arbor (ch_db st))" "path_data (cc_arbor (ch_db st)) (ps_tree (cf_head c)) (ch_parent st) ids ds"
    "\<not> mentioned (cc_arbor (ch_db st)) ?u"
    using ok by (auto simp: turn_ok_def fresh_ids_def)
  have "\<exists>a. (if b then node_create_external_ephemeral else node_create_external) (ps_tree (cf_head c)) (Some (ch_parent st)) h None ?u
      (cc_arbor (ch_db st)) = (Inr ?u, a) \<and>
      grown (cc_arbor (ch_db st)) a (ps_tree (cf_head c)) (ch_parent st) ?u (External_Node h)"
    using node_create_below(2,3) [OF A] by (cases b) simp_all
  then obtain a where a: "(if b then node_create_external_ephemeral else node_create_external) (ps_tree (cf_head c)) (Some (ch_parent st)) h None ?u
      (cc_arbor (ch_db st)) = (Inr ?u, a)"
      "grown (cc_arbor (ch_db st)) a (ps_tree (cf_head c)) (ch_parent st) ?u (External_Node h)" by blast
  then show ?thesis using node_stored [OF ok a(2)] by (simp add: store_node_def with_arbor_def)
qed

lemma store_message_ok:
  assumes ok: "turn_ok env c a0 ids ds st"
  shows "\<exists>m st'. store_message env b (cf_id c) role content model cost st = (Inr m, st') \<and> ch_parent st' = ch_parent st \<and>
    ch_claude_id st' = ch_claude_id st \<and> turn_ok env c a0 ids ds st'"
proof -
  let ?u = "ce_new_id env (ch_next st)"
  have new: "session_exists (ch_db st) (cf_id c)" "?u \<notin> me_id ` set (cc_messages (ch_db st))"
    using ok by (auto simp: turn_ok_def fresh_ids_def)
  have "ce_new_id env k \<noteq> ?u" if "ch_next st + 1 \<le> k" for k
    using ok that by (auto simp: turn_ok_def fresh_ids_def dest: injD)
  then have fr: "fresh_ids env (ch_next st + 1) ((ch_db st)\<lparr>cc_messages := cc_messages (ch_db st) @ [r]\<rparr>)" if "me_id r = ?u" for r
    using ok that by (auto simp: turn_ok_def fresh_ids_def)
  show ?thesis
    using ok new fr
    by (cases b) (simp_all add: store_message_def with_db_def message_create_def message_create_ephemeral_def message_insert_def
        turn_ok_def session_exists_def)
qed

subsection \<open>The transcript\<close>

text \<open>The stored events that the yielded events stand for; the other stored events are for debugging.\<close>

fun said :: "chat_event \<Rightarrow> node_event list" where
  "said (Chat_Content s) = [Content_Text s]"
| "said (Chat_Thinking s) = [Content_Thinking s]"
| "said (Chat_Tool_Use n i v) = [Content_Tool_Use i n v]"
| "said (Chat_Tool_Result i c e) = [User_Tool_Result i c e]"
| "said _ = []"

fun is_debug :: "node_event \<Rightarrow> bool" where
  "is_debug (Launch_Command c) = True"
| "is_debug (Claude_Stderr s) = True"
| "is_debug _ = False"

text \<open>\<open>es\<close> are the events that the turn has stored so far, behind the data \<open>ds\<close>.\<close>

definition transcribed :: "chat_env \<Rightarrow> claude_config \<Rightarrow> arbor_db \<Rightarrow> arbor_id \<Rightarrow> arbor_node_type list \<Rightarrow> node_event list \<Rightarrow> chat_state \<Rightarrow> bool" where
  "transcribed env c a0 root ds pre st \<longleftrightarrow>
     (\<exists>ids es. turn_ok env c a0 (root # ids) (ds @ map (stored_event (ce_json env)) (pre @ es)) st \<and>
        filter (\<lambda>e. \<not> is_debug e) es = concat (map said (ch_out st)))"

lemma transcribed_cong:
  "transcribed env c a0 root ds pre st \<Longrightarrow> ch_db st' = ch_db st \<Longrightarrow> ch_next st' = ch_next st \<Longrightarrow> ch_parent st' = ch_parent st \<Longrightarrow>
    concat (map said (ch_out st')) = concat (map said (ch_out st)) \<Longrightarrow> transcribed env c a0 root ds pre st'"
  unfolding transcribed_def using turn_ok_cong by metis

lemma add_event_transcribed:
  assumes "transcribed env c a0 root ds pre st" and "concat (map said (ch_out st')) = concat (map said (ch_out st)) @ (if is_debug e then [] else [e])"
    and "ch_db st' = ch_db (add_event env (ps_tree (cf_head c)) e st)" "ch_next st' = ch_next (add_event env (ps_tree (cf_head c)) e st)"
    "ch_parent st' = ch_parent (add_event env (ps_tree (cf_head c)) e st)"
  shows "transcribed env c a0 root ds pre st'"
proof -
  from assms(1) obtain ids es where ok: "turn_ok env c a0 (root # ids) (ds @ map (stored_event (ce_json env)) (pre @ es)) st"
    and es: "filter (\<lambda>e. \<not> is_debug e) es = concat (map said (ch_out st))"
    by (auto simp: transcribed_def)
  from add_event_ok [OF ok] obtain u where
    "turn_ok env c a0 (root # (ids @ [u])) (ds @ map (stored_event (ce_json env)) (pre @ (es @ [e]))) (add_event env (ps_tree (cf_head c)) e st)"
    by fastforce
  then have "turn_ok env c a0 (root # (ids @ [u])) (ds @ map (stored_event (ce_json env)) (pre @ (es @ [e]))) st'"
    using assms(3-5) by (rule turn_ok_cong)
  moreover have "filter (\<lambda>e. \<not> is_debug e) (es @ [e]) = concat (map said (ch_out st'))"
    using es assms(2) by simp
  ultimately show ?thesis unfolding transcribed_def by blast
qed

lemma add_event_resp [simp]:
  "ch_db (add_event env t e (st\<lparr>ch_response := r\<rparr>)) = ch_db (add_event env t e st)"
  "ch_next (add_event env t e (st\<lparr>ch_response := r\<rparr>)) = ch_next (add_event env t e st)"
  "ch_parent (add_event env t e (st\<lparr>ch_response := r\<rparr>)) = ch_parent (add_event env t e st)"
  by (simp_all add: add_event_def with_arbor_def split: prod.splits sum.splits)

lemma say_transcribed:
  assumes "transcribed env c a0 root ds pre st"
  shows "transcribed env c a0 root ds pre (say_text env (ps_tree (cf_head c)) s st)"
    and "transcribed env c a0 root ds pre (say_tool_use env (ps_tree (cf_head c)) i n v st)"
    and "transcribed env c a0 root ds pre (say_result env (ps_tree (cf_head c)) i x e st)"
    and "transcribed env c a0 root ds pre (emit (Chat_Thinking s) (add_event env (ps_tree (cf_head c)) (Content_Thinking s) st))"
  by (rule add_event_transcribed [OF assms];
      simp add: say_text_def say_tool_use_def say_result_def Let_def)+

lemma stop_block_transcribed:
  assumes "transcribed env c a0 root ds pre st"
  shows "transcribed env c a0 root ds pre (stop_block env (ps_tree (cf_head c)) st)"
proof -
  have taken: "transcribed env c a0 root ds pre (st\<lparr>ch_tool_id := None, ch_tool_name := None\<rparr>)"
    by (rule transcribed_cong [OF assms]) simp_all
  have "transcribed env c a0 root ds pre
      ((say_tool_use env (ps_tree (cf_head c)) i n v (st\<lparr>ch_tool_id := None, ch_tool_name := None\<rparr>))\<lparr>ch_tool_input := []\<rparr>)" for i n v
    by (rule transcribed_cong [OF say_transcribed(2) [OF taken]]) simp_all
  with taken show ?thesis by (simp add: stop_block_def Let_def split: option.splits)
qed

lemma relay_inner_transcribed:
  assumes "transcribed env c a0 root ds pre st"
  shows "transcribed env c a0 root ds pre (relay_inner env (ps_tree (cf_head c)) inner st)"
  by (cases "(env, ps_tree (cf_head c), inner, st)" rule: relay_inner.cases)
     (simp_all add: assms say_transcribed stop_block_transcribed transcribed_cong [OF assms])

lemma relay_block_transcribed:
  assumes "transcribed env c a0 root ds pre st"
  shows "transcribed env c a0 root ds pre (relay_block env (ps_tree (cf_head c)) b st)"
  by (cases b) (simp_all add: assms say_transcribed)

lemma fold_transcribed:
  "transcribed env c a0 root ds pre st \<Longrightarrow> transcribed env c a0 root ds pre (fold (relay_block env (ps_tree (cf_head c))) bs st)"
  by (induction bs arbitrary: st) (simp_all add: relay_block_transcribed)

lemma relay_unknown_transcribed:
  assumes "transcribed env c a0 root ds pre st"
  shows "transcribed env c a0 root ds pre (relay_unknown env (cf_id c) ty d st)"
proof -
  from assms obtain ids es where ok: "turn_ok env c a0 (root # ids) (ds @ map (stored_event (ce_json env)) (pre @ es)) st"
    and es: "filter (\<lambda>e. \<not> is_debug e) es = concat (map said (ch_out st))"
    by (auto simp: transcribed_def)
  have "ce_new_id env k \<noteq> ce_new_id env (ch_next st)" if "ch_next st + 1 \<le> k" for k
    using ok that by (auto simp: turn_ok_def fresh_ids_def dest: injD)
  then have "turn_ok env c a0 (root # ids) (ds @ map (stored_event (ce_json env)) (pre @ es)) (relay_unknown env (cf_id c) ty d st)"
    using ok by (auto simp: relay_unknown_def with_db_def unknown_event_store_def turn_ok_def fresh_ids_def session_exists_def)
  moreover have "concat (map said (ch_out (relay_unknown env (cf_id c) ty d st))) = concat (map said (ch_out st))"
    by (auto simp: relay_unknown_def with_db_def split: prod.splits sum.splits)
  ultimately show ?thesis using es unfolding transcribed_def by metis
qed

lemma relay_event_transcribed:
  assumes "transcribed env c a0 root ds pre st"
  shows "transcribed env c a0 root ds pre (relay_event env c r st)"
proof (cases r)
  case (Raw_Stream inner sid)
  have "transcribed env c a0 root ds pre (take_claude_id sid st)" by (rule transcribed_cong [OF assms]) simp_all
  then show ?thesis using Raw_Stream by (simp add: relay_inner_transcribed)
next
  case (Raw_Result i)
  then show ?thesis
    by (auto simp: relay_result_def Let_def fail_turn_def intro!: transcribed_cong [OF assms] split: option.splits bool.splits)
qed (auto simp: assms fold_transcribed relay_unknown_transcribed transcribed_cong [OF assms] intro!: add_event_transcribed [OF assms])

lemma relay_events_transcribed:
  "transcribed env c a0 root ds pre st \<Longrightarrow> transcribed env c a0 root ds pre (relay_events env c rs st)"
  by (induction rs arbitrary: st) (simp_all add: relay_event_transcribed)

lemma begin_turn_transcribed:
  assumes ok: "turn_ok env c a0 (root # ids) ds st" and st: "ch_out st = []"
  shows "\<exists>h. transcribed env c a0 root (ds @ [External_Node h]) [User_Message prompt, Assistant_Start] (begin_turn env c prompt b st) \<and>
    ch_done (begin_turn env c prompt b st) = ch_done st"
proof -
  let ?t = "ps_tree (cf_head c)"
  obtain m st1 where m: "store_message env b (cf_id c) Role_User prompt None None st = (Inr m, st1)"
    "turn_ok env c a0 (root # ids) ds st1" using store_message_ok [OF ok] by blast
  obtain u st2 where u: "store_node env b ?t (message_to_handle (ce_plugin_id env) m ''user'') st1 = (Inr u, st2)"
    "turn_ok env c a0 (root # ids @ [u]) (ds @ [External_Node (message_to_handle (ce_plugin_id env) m ''user'')]) (st2\<lparr>ch_parent := u\<rparr>)"
    using store_node_ok [OF m(2)] by fastforce
  let ?h = "message_to_handle (ce_plugin_id env) m ''user''"
  let ?st3 = "add_event env ?t (User_Message prompt) (st2\<lparr>ch_parent := u\<rparr>)"
  obtain u3 where u3: "turn_ok env c a0 (root # ids @ [u] @ [u3]) (ds @ [External_Node ?h] @ [stored_event (ce_json env) (User_Message prompt)]) ?st3"
    using add_event_ok [OF u(2)] by auto
  obtain u4 where u4: "turn_ok env c a0 (root # (ids @ [u] @ [u3] @ [u4]))
      ((ds @ [External_Node ?h]) @ map (stored_event (ce_json env)) ([User_Message prompt, Assistant_Start] @ []))
      (add_event env ?t Assistant_Start ?st3)"
    using add_event_ok [OF u3, of Assistant_Start] by auto
  have turn: "begin_turn env c prompt b st = emit (Chat_Start (cf_id c) \<lparr>ps_tree = ?t, ps_node = u\<rparr>) (add_event env ?t Assistant_Start ?st3)"
    by (simp add: begin_turn_def Let_def m u)
  have out: "ch_out st2 = ch_out st" "ch_done st2 = ch_done st"
    using store_fields(1) [OF m(1)] store_fields(2) [OF u(1)] by simp_all
  have "transcribed env c a0 root (ds @ [External_Node ?h]) [User_Message prompt, Assistant_Start] (begin_turn env c prompt b st)"
    unfolding transcribed_def
  proof (intro exI conjI)
    show "turn_ok env c a0 (root # (ids @ [u] @ [u3] @ [u4]))
        ((ds @ [External_Node ?h]) @ map (stored_event (ce_json env)) ([User_Message prompt, Assistant_Start] @ []))
        (begin_turn env c prompt b st)"
      by (rule turn_ok_cong [OF u4]) (simp_all add: turn)
    show "filter (\<lambda>e. \<not> is_debug e) [] = concat (map said (ch_out (begin_turn env c prompt b st)))"
      by (simp add: turn out st)
  qed
  then show ?thesis using out turn by auto
qed

lemma record_reply_stored:
  assumes tr: "transcribed env c a0 root ds pre st" and r: "r = record_reply env c b st"
  shows "\<exists>ids es h u p cid usage.
    path_data (cc_arbor (ch_db r)) (ps_tree (cf_head c)) u (root # ids)
      (ds @ map (stored_event (ce_json env)) (pre @ es @ [Assistant_Complete None]) @ [External_Node h]) \<and>
    filter (\<lambda>e. \<not> is_debug e) es = concat (map said (ch_out st)) \<and>
    keeps a0 (cc_arbor (ch_db r)) \<and> arbor_ok (cc_arbor (ch_db r)) \<and>
    ch_out r = ch_out st @ [Chat_Complete (if b then cf_head c else \<lparr>ps_tree = ps_tree (cf_head c), ps_node = u\<rparr>) cid usage]"
proof -
  let ?t = "ps_tree (cf_head c)"
  from tr obtain ids es where ok: "turn_ok env c a0 (root # ids) (ds @ map (stored_event (ce_json env)) (pre @ es)) st"
    and es: "filter (\<lambda>e. \<not> is_debug e) es = concat (map said (ch_out st))"
    by (auto simp: transcribed_def)
  obtain m st1 where m: "store_message env b (cf_id c) Role_Assistant (ch_response st)
      (Some (reply_model c)) (ch_cost st) st = (Inr m, st1)"
    "turn_ok env c a0 (root # ids) (ds @ map (stored_event (ce_json env)) (pre @ es)) st1"
    using store_message_ok [OF ok] by blast
  obtain u1 where u1: "turn_ok env c a0 (root # ids @ [u1])
      (ds @ map (stored_event (ce_json env)) (pre @ es @ [Assistant_Complete None])) (add_event env ?t (Assistant_Complete None) st1)"
    using add_event_ok [OF m(2)] by fastforce
  let ?h = "message_to_handle (ce_plugin_id env) m ''assistant''"
  obtain u st2 where u: "store_node env b ?t ?h (add_event env ?t (Assistant_Complete None) st1) = (Inr u, st2)"
    "turn_ok env c a0 (root # (ids @ [u1, u]))
      (ds @ map (stored_event (ce_json env)) (pre @ es @ [Assistant_Complete None]) @ [External_Node ?h]) (st2\<lparr>ch_parent := u\<rparr>)"
    using store_node_ok [OF u1] by fastforce
  have ex: "session_exists (ch_db st2) (cf_id c)" using u(2) by (simp add: turn_ok_def)
  have out: "ch_out st2 = ch_out st" using store_fields(1) [OF m(1)] store_fields(2) [OF u(1)] by simp
  have arb: "cc_arbor (ch_db r) = cc_arbor (ch_db st2)"
    using ex by (simp add: r record_reply_def Let_def m(1) u(1) session_update_head_def update_session_def)
  have "ch_out r = ch_out st @ [Chat_Complete (if b then cf_head c else \<lparr>ps_tree = ?t, ps_node = u\<rparr>)
      (case ch_claude_id st2 of Some s \<Rightarrow> s | None \<Rightarrow> [])
      (Some \<lparr>cu_input_tokens = None, cu_output_tokens = None, cu_cost = ch_cost st2, cu_turns = ch_turns st2\<rparr>)]"
    using ex out by (simp add: r record_reply_def Let_def m(1) u(1) session_update_head_def)
  then show ?thesis using u(2) es arb unfolding turn_ok_def by fastforce
qed

lemma persist_transcribed:
  "transcribed env c a0 root ds pre st \<Longrightarrow> transcribed env c a0 root ds pre (persist_claude_id c st)"
  by (auto simp: transcribed_def turn_ok_def fresh_ids_def persist_claude_id_def session_update_claude_id_def update_session_def
      session_exists_def image_key_update_where split: option.splits)

subsection \<open>A whole turn\<close>

text \<open>What the turn has stored behind the history of the head, when it has completed.\<close>

lemma chat_turn_stored:
  assumes ok: "arbor_ok (cc_arbor db)" and fr: "fresh_ids env next db" and ex: "session_exists db (cf_id c)"
    and path: "path_data (cc_arbor db) (ps_tree (cf_head c)) (ps_node (cf_head c)) (root # ids) ds"
    and r: "r = chat_turn env claude c prompt eph allowed db next"
    and out: "ch_out r = Chat_Start sid sp # mid @ [Chat_Complete p cid usage]"
  shows "\<exists>ids es h h' u.
    path_data (cc_arbor (ch_db r)) (ps_tree (cf_head c)) u (root # ids)
      (ds @ External_Node h # map (stored_event (ce_json env)) (User_Message prompt # Assistant_Start # es @ [Assistant_Complete None]) @
        [External_Node h']) \<and>
    filter (\<lambda>e. \<not> is_debug e) es = concat (map said mid) \<and>
    keeps (cc_arbor db) (cc_arbor (ch_db r)) \<and> arbor_ok (cc_arbor (ch_db r)) \<and>
    p = (if eph = Some True then cf_head c else \<lparr>ps_tree = ps_tree (cf_head c), ps_node = u\<rparr>)"
proof -
  define b where "b = (eph = Some True)"
  define st0 where "st0 = start_state c db next"
  define st1 where "st1 = begin_turn env c prompt b st0"
  define st2 where "st2 = relay_events env c (claude (turn_launch c prompt allowed)) st1"
  have "turn_ok env c (cc_arbor db) (root # ids) ds st0"
    using ok fr ex path by (simp add: turn_ok_def st0_def start_state_def keeps_def)
  from begin_turn_transcribed [OF this, of prompt b] obtain h where
    st1: "transcribed env c (cc_arbor db) root (ds @ [External_Node h]) [User_Message prompt, Assistant_Start] st1" "\<not> ch_done st1"
    by (auto simp: st1_def st0_def start_state_def)
  have st2: "transcribed env c (cc_arbor db) root (ds @ [External_Node h]) [User_Message prompt, Assistant_Start] st2"
    unfolding st2_def by (rule relay_events_transcribed [OF st1(1)])
  have turn: "r = (if ch_done st2 then st2 else finish_turn env c b st2)"
    using st1(2) by (simp add: r chat_turn_def b_def st0_def st1_def st2_def Let_def)
  have last: "last (ch_out r) = Chat_Complete p cid usage" using out by simp
  have st1o: "ch_out st1 = [Chat_Start (cf_id c) (case ch_out st1 of Chat_Start _ q # _ \<Rightarrow> q)]"
    using begin_turn_out [of env c prompt b st0] st1(2) by (auto simp: st1_def st0_def start_state_def ended_def)
  have "\<not> ch_done st2"
  proof
    assume d: "ch_done st2"
    then obtain s where "failed s st2"
      using relay_events_step [OF st1(2), of env c "claude (turn_launch c prompt allowed)"] st1(2)
      unfolding st2_def [symmetric] progressed_def by blast
    then show False using last turn d by (auto simp: failed_def)
  qed
  then have fin: "r = finish_turn env c b st2" by (simp add: turn)
  have rec: "r = record_reply env c b (persist_claude_id c st2)"
    using last fin by (auto simp: finish_turn_def Let_def split: if_splits)
  from record_reply_stored [OF persist_transcribed [OF st2] rec] obtain ids' es h' u p' cid' usage' where
    fin': "path_data (cc_arbor (ch_db r)) (ps_tree (cf_head c)) u (root # ids')
      ((ds @ [External_Node h]) @ map (stored_event (ce_json env)) ([User_Message prompt, Assistant_Start] @ es @ [Assistant_Complete None]) @ [External_Node h'])"
    "filter (\<lambda>e. \<not> is_debug e) es = concat (map said (ch_out st2))"
    "keeps (cc_arbor db) (cc_arbor (ch_db r))" "arbor_ok (cc_arbor (ch_db r))"
    "ch_out r = ch_out st2 @ [Chat_Complete (if b then cf_head c else \<lparr>ps_tree = ps_tree (cf_head c), ps_node = u\<rparr>) cid' usage']"
    by auto
  have "ch_out st2 = Chat_Start sid sp # mid" "p = (if b then cf_head c else \<lparr>ps_tree = ps_tree (cf_head c), ps_node = u\<rparr>)"
    using out fin'(5) by (auto simp: append_eq_append_conv2 Cons_eq_append_conv split: list.splits)
  then show ?thesis using fin' by (intro exI [of _ ids'] exI [of _ es] exI [of _ h] exI [of _ h'] exI [of _ u]) (simp add: b_def)
qed

end
