(* ===== verification/Claude_Conversation.thy ===== *)
theory Claude_Conversation
  imports Claude_History
begin

text \<open>
  The abstract view of a session: a position of the tree stands for a list of messages. A completed
  turn appends the prompt of the user and the reply of the assistant to it, and \<open>render_messages\<close>
  reads it off the tree.
\<close>

subsection \<open>Conversations\<close>

text \<open>
  The path of position \<open>p\<close> starts at \<open>root\<close>, and the events on it are grouped into the messages
  \<open>ms\<close> with nothing left over.
\<close>

definition conversation :: "json_codec \<Rightarrow> arbor_db \<Rightarrow> position \<Rightarrow> arbor_id \<Rightarrow> claude_message list \<Rightarrow> bool" where
  "conversation jc a p root ms \<longleftrightarrow>
     (\<exists>ids ds. path_data a (ps_tree p) (ps_node p) (root # ids) ds \<and> render_data jc ds ([], None, []) = Inr (ms, None, []))"

lemma conversation_render:
  assumes "conversation jc a p root ms"
  shows "render_messages jc a (ps_tree p) root (ps_node p) = Some (Inr ms)"
proof -
  from assms obtain ids ds where p: "node_get_path a (ps_tree p) (ps_node p) = Some (Inr (root # ids))"
    "list_all2 (\<lambda>k d. \<exists>n. node_get a (ps_tree p) k = Inr n \<and> an_data n = d) (root # ids) ds"
    "render_data jc ds ([], None, []) = Inr (ms, None, [])"
    by (auto simp: conversation_def path_data_def)
  have "render_nodes jc a (ps_tree p) (root # ids) ([], None, []) = Inr (ms, None, [])"
    using render_nodes_data [OF p(2), of jc] p(3) by simp
  then show ?thesis using p(1) by (simp add: render_messages_def del: render_nodes.simps)
qed

lemma conversation_keeps: "conversation jc a p root ms \<Longrightarrow> keeps a a' \<Longrightarrow> conversation jc a' p root ms"
  unfolding conversation_def keeps_def by blast

text \<open>The content blocks that the yielded events stand for.\<close>

fun block_of :: "chat_event \<Rightarrow> content_block list" where
  "block_of (Chat_Content s) = [Block_Text s]"
| "block_of (Chat_Thinking s) = [Block_Thinking s]"
| "block_of (Chat_Tool_Use n i v) = [Block_Tool_Use i n v]"
| "block_of (Chat_Tool_Result i c e) = [Block_Tool_Result i c e]"
| "block_of _ = []"

fun is_chat_result :: "chat_event \<Rightarrow> bool" where
  "is_chat_result (Chat_Tool_Result i c e) = True"
| "is_chat_result _ = False"

definition reply_blocks :: "chat_event list \<Rightarrow> content_block list" where
  "reply_blocks es = concat (map block_of es)"

lemma said_blocks: "concat (map said es) = map block_event (reply_blocks es)"
proof (induction es)
  case (Cons e es)
  then show ?case by (cases e) (simp_all add: reply_blocks_def block_event_def)
qed (simp add: reply_blocks_def)

lemma reply_blocks_results: "list_all (\<lambda>e. \<not> is_chat_result e) es \<Longrightarrow> \<forall>b \<in> set (reply_blocks es). \<not> is_result b"
proof (induction es)
  case (Cons e es)
  then show ?case by (cases e) (simp_all add: reply_blocks_def)
qed (simp add: reply_blocks_def)

lemma render_debug: "is_debug e \<Longrightarrow> render_event e st = st"
  by (cases e) simp_all

lemma fold_render_visible: "fold render_event es st = fold render_event (filter (\<lambda>e. \<not> is_debug e) es) st"
  by (induction es arbitrary: st) (simp_all add: render_debug)

text \<open>What a turn stores behind a conversation continues it.\<close>

lemma render_turn:
  assumes "filter (\<lambda>e. \<not> is_debug e) es = concat (map said mid)" and "list_all (\<lambda>e. \<not> is_chat_result e) mid"
  shows "fold render_event (User_Message prompt # Assistant_Start # es @ [Assistant_Complete u]) (ms, None, []) =
    (ms @ as_message ''user'' [Block_Text prompt] @ as_message ''assistant'' (reply_blocks mid), None, [])"
proof -
  have "fold render_event (User_Message prompt # Assistant_Start # es @ [Assistant_Complete u]) (ms, None, []) =
      fold render_event (User_Message prompt # Assistant_Start # map block_event (reply_blocks mid) @ [Assistant_Complete u]) (ms, None, [])"
    using fold_render_visible [of es] by (simp add: assms(1) said_blocks)
  then show ?thesis using render_reply [OF reply_blocks_results [OF assms(2)]] by simp
qed

text \<open>The events of a turn, as far as the codec must carry them.\<close>

definition turn_events :: "string \<Rightarrow> chat_event list \<Rightarrow> node_event list" where
  "turn_events prompt mid = User_Message prompt # Assistant_Start # concat (map said mid) @ [Assistant_Complete None]"

definition codec_carries :: "json_codec \<Rightarrow> string \<Rightarrow> chat_event list \<Rightarrow> bool" where
  "codec_carries jc prompt mid \<longleftrightarrow> (\<forall>e. is_debug e \<or> e \<in> set (turn_events prompt mid) \<longrightarrow> readable jc e)"

lemma turn_continues:
  assumes ok: "arbor_ok (cc_arbor db)" and fr: "fresh_ids env next db" and ex: "session_exists db (cf_id c)"
    and conv: "conversation (ce_json env) (cc_arbor db) (cf_head c) root ms"
    and r: "r = chat_turn env claude c prompt eph allowed db next"
    and out: "ch_out r = Chat_Start sid sp # mid @ [Chat_Complete p cid usage]"
    and codec: "codec_carries (ce_json env) prompt mid" and nores: "list_all (\<lambda>e. \<not> is_chat_result e) mid"
  shows "conversation (ce_json env) (cc_arbor (ch_db r)) p root
    (if eph = Some True then ms
     else ms @ as_message ''user'' [Block_Text prompt] @ as_message ''assistant'' (reply_blocks mid))"
proof -
  from conv obtain ids ds where path: "path_data (cc_arbor db) (ps_tree (cf_head c)) (ps_node (cf_head c)) (root # ids) ds"
    and ms: "render_data (ce_json env) ds ([], None, []) = Inr (ms, None, [])"
    by (auto simp: conversation_def)
  from chat_turn_stored [OF ok fr ex path r out] obtain ids' es h h' u where
    new: "path_data (cc_arbor (ch_db r)) (ps_tree (cf_head c)) u (root # ids')
      (ds @ External_Node h # map (stored_event (ce_json env)) (User_Message prompt # Assistant_Start # es @ [Assistant_Complete None]) @
        [External_Node h'])"
    and es: "filter (\<lambda>e. \<not> is_debug e) es = concat (map said mid)" and keeps: "keeps (cc_arbor db) (cc_arbor (ch_db r))"
    and p: "p = (if eph = Some True then cf_head c else \<lparr>ps_tree = ps_tree (cf_head c), ps_node = u\<rparr>)"
    by blast
  show ?thesis
  proof (cases "eph = Some True")
    case True
    then show ?thesis using conversation_keeps [OF conv keeps] p by simp
  next
    case False
    have "e \<in> set es \<Longrightarrow> is_debug e \<or> e \<in> set (concat (map said mid))" for e
      unfolding es [symmetric] by simp
    then have "\<forall>e \<in> set (User_Message prompt # Assistant_Start # es @ [Assistant_Complete None]). readable (ce_json env) e"
      using codec unfolding codec_carries_def turn_events_def by auto
    then have "render_data (ce_json env)
        (External_Node h # map (stored_event (ce_json env)) (User_Message prompt # Assistant_Start # es @ [Assistant_Complete None]) @
          [External_Node h']) (ms, None, []) =
        Inr (ms @ as_message ''user'' [Block_Text prompt] @ as_message ''assistant'' (reply_blocks mid), None, [])"
      using render_turn [OF es nores, of prompt None ms]
      by (simp only: render_data_simps(2) render_external sum.case render_data_append render_stored_events render_data_simps(1))
    with ms have "render_data (ce_json env)
        (ds @ External_Node h # map (stored_event (ce_json env)) (User_Message prompt # Assistant_Start # es @ [Assistant_Complete None]) @
          [External_Node h']) ([], None, []) =
        Inr (ms @ as_message ''user'' [Block_Text prompt] @ as_message ''assistant'' (reply_blocks mid), None, [])"
      by (simp only: render_data_append sum.case)
    then have "conversation (ce_json env) (cc_arbor (ch_db r)) \<lparr>ps_tree = ps_tree (cf_head c), ps_node = u\<rparr> root
        (ms @ as_message ''user'' [Block_Text prompt] @ as_message ''assistant'' (reply_blocks mid))"
      unfolding conversation_def using new by (metis position.select_convs)
    then show ?thesis using False p by simp
  qed
qed

end
