(* ===== verification/Claude_Background.thy ===== *)
theory Claude_Background
  imports Claude_Turn
begin

text \<open>
  The background variant of a turn against the foreground one: its stream buffer gets the events that
  the foreground variant yields. The parts of a turn commute with \<open>view\<close>, which replaces the stream
  buffers and forgets the events that have been published.
\<close>

definition view :: "nat \<Rightarrow> (string \<times> stream_buffer) list \<Rightarrow> chat_state \<Rightarrow> chat_state" where
  "view k S st = st\<lparr>ch_out := drop k (ch_out st), ch_db := (ch_db st)\<lparr>cc_streams := S\<rparr>\<rparr>"

definition blind :: "(chat_state \<Rightarrow> chat_state) \<Rightarrow> bool" where
  "blind f \<longleftrightarrow> (\<forall>k S st. k \<le> length (ch_out st) \<longrightarrow> f (view k S st) = view k S (f st) \<and> (\<exists>ext. ch_out (f st) = ch_out st @ ext))"

lemma blindI:
  assumes "\<And>k S st. k \<le> length (ch_out st) \<Longrightarrow> f (view k S st) = view k S (f st)"
    and "\<And>st. \<exists>ext. ch_out (f st) = ch_out st @ ext"
  shows "blind f"
  using assms by (auto simp: blind_def)

lemma blindD: "blind f \<Longrightarrow> k \<le> length (ch_out st) \<Longrightarrow> f (view k S st) = view k S (f st)"
  by (simp add: blind_def)

lemma blind_ext: "blind f \<Longrightarrow> \<exists>ext. ch_out (f st) = ch_out st @ ext"
  unfolding blind_def by (metis le_refl)

lemma blind_length: "blind f \<Longrightarrow> length (ch_out st) \<le> length (ch_out (f st))"
  using blind_ext [of f st] by auto

lemma blind_id: "blind (\<lambda>st. st)"
  by (simp add: blind_def)

lemma blind_comp:
  assumes f: "blind f" and g: "blind g"
  shows "blind (\<lambda>st. g (f st))"
proof (rule blindI)
  fix k S and st :: chat_state
  assume "k \<le> length (ch_out st)"
  then show "g (f (view k S st)) = view k S (g (f st))"
    using blindD [OF f] blindD [OF g] blind_length [OF f] le_trans by metis
next
  fix st :: chat_state
  obtain e1 e2 where "ch_out (f st) = ch_out st @ e1" "ch_out (g (f st)) = ch_out (f st) @ e2"
    using blind_ext [OF f] blind_ext [OF g] by blast
  then show "\<exists>ext. ch_out (g (f st)) = ch_out st @ ext" by simp
qed

lemma blind_fold: "(\<And>x. blind (f x)) \<Longrightarrow> blind (fold f xs)"
proof (induction xs)
  case (Cons x xs)
  then show ?case using blind_comp [of "f x" "fold f xs"] by (simp add: comp_def)
qed (simp add: blind_def)

lemma view_fields [simp]:
  "ch_done (view k S st) = ch_done st" "ch_next (view k S st) = ch_next st" "ch_parent (view k S st) = ch_parent st"
  "ch_response (view k S st) = ch_response st" "ch_claude_id (view k S st) = ch_claude_id st"
  "ch_tool_id (view k S st) = ch_tool_id st" "ch_tool_name (view k S st) = ch_tool_name st"
  "ch_tool_input (view k S st) = ch_tool_input st" "ch_cost (view k S st) = ch_cost st" "ch_turns (view k S st) = ch_turns st"
  "cc_arbor (ch_db (view k S st)) = cc_arbor (ch_db st)" "cc_streams (ch_db (view k S st)) = S"
  "ch_out (view k S st) = drop k (ch_out st)"
  by (simp_all add: view_def)

lemma blind_emit: "blind (emit e)"
  by (rule blindI) (simp_all add: view_def emit_def)

lemma blind_fail: "blind (fail_turn m)"
  by (rule blindI) (simp_all add: view_def emit_def fail_turn_def)

lemma blind_take: "blind (take_claude_id sid)"
  by (rule blindI) (simp_all add: view_def take_claude_id_def split: option.splits)

lemma with_arbor_view:
  "with_arbor env f (view k S st) = apsnd (view k S) (with_arbor env f st)"
  by (simp add: with_arbor_def view_def split: prod.splits)

lemma blind_add_event: "blind (add_event env t e)"
proof (rule blindI)
  fix k S and st :: chat_state
  show "add_event env t e (view k S st) = view k S (add_event env t e st)"
    by (cases "with_arbor env (create_event_node (ce_json env) t (ch_parent st) e) st"; cases "fst (with_arbor env (create_event_node (ce_json env) t (ch_parent st) e) st)")
       (simp_all add: add_event_def with_arbor_view, simp add: view_def)
qed simp

lemma store_message_view:
  "store_message env b sid role content m cost (view k S st) = apsnd (view k S) (store_message env b sid role content m cost st)"
  by (simp add: store_message_def with_db_def message_create_def message_create_ephemeral_def message_insert_def
      session_exists_def cc_now_def view_def)

lemma store_node_view: "store_node env b t h (view k S st) = apsnd (view k S) (store_node env b t h st)"
  by (simp add: store_node_def with_arbor_view)

lemma blind_say_text: "blind (say_text env t s)"
proof -
  have "blind (\<lambda>st. st\<lparr>ch_response := ch_response st @ s\<rparr>)" by (rule blindI) (simp_all add: view_def)
  then show ?thesis unfolding say_text_def [abs_def] by (intro blind_comp [OF blind_comp [OF _ blind_add_event] blind_emit])
qed

lemma blind_say_tool_use: "blind (say_tool_use env t i n v)"
  unfolding say_tool_use_def [abs_def] by (rule blind_comp [OF blind_add_event blind_emit])

lemma blind_say_result: "blind (say_result env t i x e)"
  unfolding say_result_def [abs_def] Let_def by (rule blind_comp [OF blind_add_event blind_emit])

lemma blind_stop_block: "blind (stop_block env t)"
proof -
  have taken: "blind (\<lambda>st. st\<lparr>ch_tool_id := None, ch_tool_name := None\<rparr>)" by (rule blindI) (simp_all add: view_def)
  have clear: "blind (\<lambda>st. st\<lparr>ch_tool_input := []\<rparr>)" by (rule blindI) (simp_all add: view_def)
  have use: "blind (\<lambda>st. (say_tool_use env t i n v (st\<lparr>ch_tool_id := None, ch_tool_name := None\<rparr>))\<lparr>ch_tool_input := []\<rparr>)" for i n v
    using blind_comp [OF blind_comp [OF taken blind_say_tool_use] clear] .
  show ?thesis
  proof (rule blindI)
    fix k S and st :: chat_state
    assume k: "k \<le> length (ch_out st)"
    have input: "tool_input env (view k S st) = tool_input env st" by (simp add: tool_input_def)
    show "stop_block env t (view k S st) = view k S (stop_block env t st)"
      using blindD [OF use k] blindD [OF taken k] by (simp add: stop_block_def Let_def input split: option.splits)
  next
    fix st :: chat_state
    show "\<exists>ext. ch_out (stop_block env t st) = ch_out st @ ext"
      using blind_ext [OF use] blind_ext [OF taken] by (simp add: stop_block_def Let_def split: option.splits)
  qed
qed

lemma blind_relay_inner: "blind (relay_inner env t inner)"
proof (rule blindI)
  fix k S and st :: chat_state
  assume "k \<le> length (ch_out st)"
  then show "relay_inner env t inner (view k S st) = view k S (relay_inner env t inner st)"
    using blindD [OF blind_say_text] blindD [OF blind_stop_block]
    by (cases "(env, t, inner, st)" rule: relay_inner.cases) (simp_all add: view_def [of k S st] view_def [of k S "st\<lparr>ch_tool_input := x\<rparr>" for x]
        view_def [of k S "st\<lparr>ch_tool_id := x, ch_tool_name := y, ch_tool_input := z\<rparr>" for x y z])
next
  fix st :: chat_state
  show "\<exists>ext. ch_out (relay_inner env t inner st) = ch_out st @ ext"
    using blind_ext [OF blind_say_text] blind_ext [OF blind_stop_block]
    by (cases "(env, t, inner, st)" rule: relay_inner.cases) simp_all
qed

lemma blind_relay_block: "blind (relay_block env t b)"
proof (cases b)
  case (Raw_Text s)
  then show ?thesis using blindD [OF blind_say_text] blind_ext [OF blind_say_text]
    by (intro blindI) simp_all
next
  case (Raw_Thinking s sig)
  then have "relay_block env t b = (\<lambda>st. emit (Chat_Thinking s) (add_event env t (Content_Thinking s) st))"
    by (intro ext) simp
  then show ?thesis using blind_comp [OF blind_add_event blind_emit] by simp
next
  case (Raw_Tool_Use i n v)
  then have "relay_block env t b = say_tool_use env t i n v" by (intro ext) simp
  then show ?thesis by (simp add: blind_say_tool_use)
next
  case (Raw_Tool_Result i x e)
  then have "relay_block env t b = say_result env t i x e" by (intro ext) simp
  then show ?thesis by (simp add: blind_say_result)
qed

lemma blind_relay_unknown: "blind (relay_unknown env sid ty d)"
  by (rule blindI) (auto simp: relay_unknown_def with_db_def unknown_event_store_def session_exists_def cc_now_def view_def emit_def)

lemma blind_relay_result: "blind (relay_result r)"
proof -
  define f where "f = (\<lambda>st. (take_claude_id (ri_session r) st)\<lparr>ch_cost := ri_cost r, ch_turns := ri_turns r\<rparr>)"
  define g where "g = (if ri_is_error r = Some True \<and> ri_error r \<noteq> None then fail_turn (the (ri_error r)) else (\<lambda>st. st))"
  have "blind f"
    by (rule blindI) (simp_all add: f_def take_claude_id_def view_def split: option.splits)
  moreover have "blind g" by (simp add: g_def blind_fail blind_id)
  moreover have "relay_result r = (\<lambda>st. g (f st))"
    by (intro ext) (simp add: relay_result_def f_def g_def Let_def split: option.splits bool.splits)
  ultimately show ?thesis using blind_comp by metis
qed

lemma blind_relay_event: "blind (relay_event env c r)"
proof (cases r)
  case (Raw_Stream inner sid)
  then have "relay_event env c r = (\<lambda>st. relay_inner env (ps_tree (cf_head c)) inner (take_claude_id sid st))"
    by (intro ext) simp
  then show ?thesis using blind_comp [OF blind_take blind_relay_inner] by metis
next
  case (Raw_Assistant m)
  then have "relay_event env c r = fold (relay_block env (ps_tree (cf_head c))) (message_blocks m)" by (intro ext) simp
  then show ?thesis by (simp add: blind_fold blind_relay_block)
next
  case (Raw_Result i)
  then have "relay_event env c r = relay_result i" by (intro ext) simp
  then show ?thesis by (simp add: blind_relay_result)
next
  case (Raw_Unknown ty d)
  then have "relay_event env c r = relay_unknown env (cf_id c) ty d" by (intro ext) simp
  then show ?thesis by (simp add: blind_relay_unknown)
next
  case (Raw_System a sid b d e)
  then have "relay_event env c r = take_claude_id sid" by (intro ext) simp
  then show ?thesis by (simp add: blind_take)
next
  case (Raw_User m)
  then have "relay_event env c r = (\<lambda>st. st)" by (intro ext) simp
  then show ?thesis by (simp add: blind_id)
next
  case (Raw_Launch command)
  then have "relay_event env c r = add_event env (ps_tree (cf_head c)) (Launch_Command command)" by (intro ext) simp
  then show ?thesis by (simp add: blind_add_event)
next
  case (Raw_Stderr s)
  then have "relay_event env c r = add_event env (ps_tree (cf_head c)) (Claude_Stderr s)" by (intro ext) simp
  then show ?thesis by (simp add: blind_add_event)
qed

lemma blind_begin_turn: "blind (begin_turn env c prompt b)"
proof (rule blindI)
  have tail: "blind (\<lambda>st. emit e (add_event env t e2 (add_event env t e1 (st\<lparr>ch_parent := i\<rparr>))))" for e t e1 e2 i
  proof -
    have "blind (\<lambda>st. st\<lparr>ch_parent := i\<rparr>)" by (rule blindI) (simp_all add: view_def)
    from blind_comp [OF blind_comp [OF blind_comp [OF this blind_add_event] blind_add_event] blind_emit] show ?thesis .
  qed
  fix k S and st :: chat_state
  assume "k \<le> length (ch_out st)"
  then show "begin_turn env c prompt b (view k S st) = view k S (begin_turn env c prompt b st)"
    using blindD [OF blind_fail] blindD [OF tail] store_fields
    by (auto simp: begin_turn_def Let_def store_message_view store_node_view split: prod.splits sum.splits)
next
  fix st :: chat_state
  show "\<exists>ext. ch_out (begin_turn env c prompt b st) = ch_out st @ ext"
    using begin_turn_out [of env c prompt b st] by (auto simp: ended_def)
qed

lemma cc_now_streams [simp]: "cc_now (db\<lparr>cc_streams := S\<rparr>) = cc_now db"
  by (simp add: cc_now_def)

lemma blind_record_reply: "blind (record_reply env c b)"
proof (rule blindI)
  fix k S and st :: chat_state
  assume k: "k \<le> length (ch_out st)"
  obtain r1 st1 where 1: "store_message env b (cf_id c) Role_Assistant (ch_response st) (Some (reply_model c)) (ch_cost st) st = (r1, st1)"
    by (cases "store_message env b (cf_id c) Role_Assistant (ch_response st) (Some (reply_model c)) (ch_cost st) st")
  obtain r2 st2 where 2: "store_node env b (ps_tree (cf_head c)) (message_to_handle (ce_plugin_id env) (projr r1) ''assistant'')
      (add_event env (ps_tree (cf_head c)) (Assistant_Complete None) st1) = (r2, st2)" by force
  have len: "length (ch_out st1) = length (ch_out st)" "length (ch_out st2) = length (ch_out st)"
    using store_fields(1) [OF 1] store_fields(2) [OF 2] by simp_all
  have ev: "add_event env (ps_tree (cf_head c)) (Assistant_Complete None) (view k S st1) =
      view k S (add_event env (ps_tree (cf_head c)) (Assistant_Complete None) st1)"
    using blindD [OF blind_add_event] k len by simp
  have fail: "fail_turn m (view k S st1) = view k S (fail_turn m st1)" "fail_turn m (view k S st2) = view k S (fail_turn m st2)" for m
    using blindD [OF blind_fail] k len by simp_all
  show "record_reply env c b (view k S st) = view k S (record_reply env c b st)"
  proof (cases r1)
    case (Inl e)
    then show ?thesis using 1 fail by (simp add: record_reply_def Let_def store_message_view)
  next
    case (Inr m)
    then have 2: "store_node env b (ps_tree (cf_head c)) (message_to_handle (ce_plugin_id env) m ''assistant'')
      (add_event env (ps_tree (cf_head c)) (Assistant_Complete None) st1) = (r2, st2)" using 2 by simp
    show ?thesis
    proof (cases r2)
      case (Inl e)
      then show ?thesis using 1 2 Inr fail by (simp add: record_reply_def Let_def store_message_view store_node_view ev)
    next
      case Inr': (Inr i)
      show ?thesis
        using k len by (simp add: record_reply_def Let_def store_message_view store_node_view ev 1 2 Inr Inr' session_update_head_def
            update_session_def session_exists_def fail_turn_def emit_def) (simp add: view_def cong del: option.case_cong_weak)
    qed
  qed
next
  fix st :: chat_state
  show "\<exists>ext. ch_out (record_reply env c b st) = ch_out st @ ext"
    using record_reply_ended [of st env c b] by (auto simp: ended_def)
qed

subsection \<open>Publishing\<close>

text \<open>The buffer holds these events, numbered from 0 on, and nobody has polled.\<close>

definition buffered :: "stream_buffer \<Rightarrow> chat_event list \<Rightarrow> bool" where
  "buffered b es \<longleftrightarrow> map be_event (sb_events b) = es \<and> map be_seq (sb_events b) = [0..<length es] \<and>
     si_event_count (sb_info b) = length es \<and> si_read_position (sb_info b) = 0"

lemma buffered_push: "buffered b es \<Longrightarrow> buffered (snd (push_event now e b)) (es @ [e])"
  by (simp add: buffered_def push_event_def Let_def)

lemma buffered_info:
  "buffered (b\<lparr>sb_info := i\<rparr>) es \<longleftrightarrow> map be_event (sb_events b) = es \<and> map be_seq (sb_events b) = [0..<length es] \<and>
     si_event_count i = length es \<and> si_read_position i = 0"
  by (simp add: buffered_def)

text \<open>The status that a stream with these events must have, when its last event is final.\<close>

definition status_fits :: "stream_info \<Rightarrow> chat_event list \<Rightarrow> bool" where
  "status_fits i es \<longleftrightarrow> (case last es of
      Chat_Err m \<Rightarrow> si_status i = Failed_Stream \<and> si_error i = Some m \<and> si_ended_at i \<noteq> None
    | Chat_Complete _ _ _ \<Rightarrow> si_status i = Complete_Stream \<and> si_ended_at i \<noteq> None
    | _ \<Rightarrow> True)"

text \<open>\<open>bg\<close> is \<open>st\<close> with its events published.\<close>

definition mirrors :: "string \<Rightarrow> chat_state \<Rightarrow> chat_state \<Rightarrow> bool" where
  "mirrors stream st bg \<longleftrightarrow>
     (\<exists>S b. bg = view (length (ch_out st)) S st \<and> map_of S stream = Some b \<and> buffered b (ch_out st))"

text \<open>What an operation on the stream does to the buffers, when it exists.\<close>

lemma with_stream_present:
  "map_of (cc_streams db) stream = Some b \<Longrightarrow>
     with_stream stream f db = (Inr (fst (f b)), db\<lparr>cc_streams := AList.update stream (snd (f b)) (cc_streams db)\<rparr>)"
  by (simp add: with_stream_def put_stream_def)

lemma publish_present:
  assumes "map_of S stream = Some b" and "buffered b es"
  shows "\<exists>S' b'. publish stream e (db\<lparr>cc_streams := S\<rparr>) = db\<lparr>cc_streams := S'\<rparr> \<and> map_of S' stream = Some b' \<and>
    buffered b' (es @ [e]) \<and> (\<forall>m. e = Chat_Err m \<longrightarrow> status_fits (sb_info b') (es @ [e]))"
proof -
  define b1 where "b1 = snd (push_event (cc_now db) e b)"
  have push: "snd (stream_push_event stream e (db\<lparr>cc_streams := S\<rparr>)) = db\<lparr>cc_streams := AList.update stream b1 S\<rparr>"
    using assms(1) by (simp add: stream_push_event_def with_stream_present b1_def)
  have b1: "buffered b1 (es @ [e])" using buffered_push [OF assms(2)] by (simp add: b1_def)
  show ?thesis
  proof (cases "\<exists>m. e = Chat_Err m")
    case True
    then obtain m where m: "e = Chat_Err m" by blast
    let ?b = "b1\<lparr>sb_info := set_status (cc_now db) Failed_Stream (Some m) (sb_info b1)\<rparr>"
    have "publish stream e (db\<lparr>cc_streams := S\<rparr>) = db\<lparr>cc_streams := AList.update stream ?b (AList.update stream b1 S)\<rparr>"
      unfolding publish_def push Let_def by (simp add: m stream_set_status_def with_stream_present update_conv')
    moreover have "buffered ?b (es @ [e])" using b1 by (simp add: buffered_def set_status_def Let_def)
    ultimately show ?thesis
      using m by (intro exI [of _ "AList.update stream ?b (AList.update stream b1 S)"] exI [of _ ?b])
        (simp add: update_conv' status_fits_def set_status_def Let_def)
  next
    case False
    then have "publish stream e (db\<lparr>cc_streams := S\<rparr>) = db\<lparr>cc_streams := AList.update stream b1 S\<rparr>"
      unfolding publish_def push Let_def by (cases e) simp_all
    then show ?thesis using b1 False by (auto simp: update_conv')
  qed
qed

lemma publish_all:
  assumes "map_of S stream = Some b" and "buffered b es"
  shows "\<exists>S' b'. fold (publish stream) out (db\<lparr>cc_streams := S\<rparr>) = db\<lparr>cc_streams := S'\<rparr> \<and> map_of S' stream = Some b' \<and>
    buffered b' (es @ out) \<and> (\<forall>m. out \<noteq> [] \<and> last out = Chat_Err m \<longrightarrow> status_fits (sb_info b') (es @ out))"
  using assms
proof (induction out arbitrary: S b es)
  case (Cons e out)
  from publish_present [OF Cons.prems, of e db] obtain S1 b1 where 1: "publish stream e (db\<lparr>cc_streams := S\<rparr>) = db\<lparr>cc_streams := S1\<rparr>"
    "map_of S1 stream = Some b1" "buffered b1 (es @ [e])" "\<forall>m. e = Chat_Err m \<longrightarrow> status_fits (sb_info b1) (es @ [e])" by blast
  show ?case
  proof (cases "out = []")
    case True
    have "fold (publish stream) (e # out) (db\<lparr>cc_streams := S\<rparr>) = db\<lparr>cc_streams := S1\<rparr>" by (simp only: True 1(1) fold_simps)
    then show ?thesis using 1(2-4) unfolding True by (intro exI [of _ S1] exI [of _ b1]) (simp only: list.distinct last_ConsL simp_thms)
  next
    case False
    have "fold (publish stream) (e # out) (db\<lparr>cc_streams := S\<rparr>) = fold (publish stream) out (db\<lparr>cc_streams := S1\<rparr>)"
      by (simp only: 1(1) fold_simps)
    moreover have "last (e # out) = last out" using False by simp
    ultimately show ?thesis using Cons.IH [OF 1(2,3)] False by (simp only: append_assoc append_Cons append_Nil list.distinct simp_thms)
  qed
next
  case Nil
  then show ?case by (intro exI [of _ S] exI [of _ b]) simp
qed

text \<open>A part of a turn, followed by the publication of its events, keeps the mirror.\<close>

lemma mirrors_step:
  assumes f: "blind f" and m: "mirrors stream st bg"
  shows "\<exists>S b. publish_out stream (f bg) = view (length (ch_out (f st))) S (f st) \<and> map_of S stream = Some b \<and>
    buffered b (ch_out (f st)) \<and>
    (\<forall>m. length (ch_out st) < length (ch_out (f st)) \<and> last (ch_out (f st)) = Chat_Err m \<longrightarrow> status_fits (sb_info b) (ch_out (f st)))"
proof -
  from m obtain S b where bg: "bg = view (length (ch_out st)) S st" "map_of S stream = Some b" "buffered b (ch_out st)"
    by (auto simp: mirrors_def)
  have fb: "f bg = view (length (ch_out st)) S (f st)" using blindD [OF f] bg(1) by simp
  obtain ext where ext: "ch_out (f st) = ch_out st @ ext" using blind_ext [OF f] by blast
  from publish_all [OF bg(2,3), of ext "ch_db (f st)"] obtain S' b' where
    p: "fold (publish stream) ext ((ch_db (f st))\<lparr>cc_streams := S\<rparr>) = (ch_db (f st))\<lparr>cc_streams := S'\<rparr>"
    "map_of S' stream = Some b'" "buffered b' (ch_out st @ ext)"
    "\<forall>m. ext \<noteq> [] \<and> last ext = Chat_Err m \<longrightarrow> status_fits (sb_info b') (ch_out st @ ext)" by blast
  have "publish_out stream (f bg) = view (length (ch_out (f st))) S' (f st)"
    using p(1) by (simp add: publish_out_def fb ext) (simp add: view_def ext)
  moreover have "status_fits (sb_info b') (ch_out (f st))"
    if "length (ch_out st) < length (ch_out (f st))" "last (ch_out (f st)) = Chat_Err m" for m
    using p(4) that unfolding ext by simp
  ultimately show ?thesis using p(2,3) ext by metis
qed

lemma mirrors_mark:
  assumes "mirrors stream st bg"
  shows "mirrors stream st (mark_status stream r bg)"
proof -
  from assms obtain S b where bg: "bg = view (length (ch_out st)) S st" "map_of S stream = Some b" "buffered b (ch_out st)"
    by (auto simp: mirrors_def)
  have "mirrors stream st (on_stream (stream_set_status stream status err) bg)" for status err
  proof -
    have "on_stream (stream_set_status stream status err) bg =
        view (length (ch_out st)) (AList.update stream (b\<lparr>sb_info := set_status (cc_now (ch_db bg)) status err (sb_info b)\<rparr>) S) st"
      using bg by (simp add: on_stream_def stream_set_status_def with_stream_present) (simp add: view_def)
    moreover have "buffered (b\<lparr>sb_info := set_status (cc_now (ch_db bg)) status err (sb_info b)\<rparr>) (ch_out st)"
      using bg(3) by (simp add: buffered_def set_status_def Let_def split: option.splits)
    ultimately show ?thesis unfolding mirrors_def by (metis update_conv' fun_upd_same)
  qed
  then show ?thesis using assms by (cases "(stream, r, bg)" rule: mark_status.cases) simp_all
qed

lemma mirrors_intro:
  "\<exists>S b. bg = view (length (ch_out st)) S st \<and> map_of S stream = Some b \<and> buffered b (ch_out st) \<and> P b \<Longrightarrow> mirrors stream st bg"
  by (auto simp: mirrors_def)

text \<open>The buffer of the stream, and the status it has after an error.\<close>

definition failed_fits :: "string \<Rightarrow> chat_state \<Rightarrow> bool" where
  "failed_fits stream bg \<longleftrightarrow> (\<exists>b. map_of (cc_streams (ch_db bg)) stream = Some b \<and> status_fits (sb_info b) (map be_event (sb_events b)))"

lemma mirrors_failed:
  assumes f: "blind f" and m: "mirrors stream st bg" and e: "failed st (f st)"
  shows "mirrors stream (f st) (publish_out stream (f bg)) \<and> failed_fits stream (publish_out stream (f bg))"
proof -
  from mirrors_step [OF f m] obtain S b where p: "publish_out stream (f bg) = view (length (ch_out (f st))) S (f st)" "map_of S stream = Some b"
    "buffered b (ch_out (f st))"
    "\<forall>m. length (ch_out st) < length (ch_out (f st)) \<and> last (ch_out (f st)) = Chat_Err m \<longrightarrow> status_fits (sb_info b) (ch_out (f st))"
    by blast
  have "status_fits (sb_info b) (ch_out (f st))" using e p(4) by (auto simp: failed_def)
  then show ?thesis using p(1-3) by (auto simp: mirrors_def failed_fits_def buffered_def)
qed

lemma mirrors_relay:
  "mirrors stream st bg \<Longrightarrow> \<not> ch_done st \<Longrightarrow>
     mirrors stream (relay_events env c rs st) (relay_events_bg env c stream rs bg) \<and>
     (ch_done (relay_events env c rs st) \<longrightarrow> failed_fits stream (relay_events_bg env c stream rs bg))"
proof (induction rs arbitrary: st bg)
  case (Cons r rs)
  have dn: "ch_done bg = ch_done st" using Cons.prems(1) by (auto simp: mirrors_def)
  have mark: "mirrors stream st (mark_status stream r bg)" using mirrors_mark [OF Cons.prems(1)] .
  let ?st = "relay_event env c r st" and ?bg = "relay_event_bg env c stream r bg"
  have step: "mirrors stream ?st ?bg"
    using mirrors_step [OF blind_relay_event mark] unfolding relay_event_bg_def by (blast intro: mirrors_intro)
  have dn': "ch_done ?bg = ch_done ?st" using step by (auto simp: mirrors_def)
  show ?case
  proof (cases "ch_done ?st")
    case True
    then have "failed st ?st" using relay_event_step [of st env c r] Cons.prems(2) by (auto simp: progressed_def)
    then have "failed_fits stream ?bg" using mirrors_failed [OF blind_relay_event mark] by (simp add: relay_event_bg_def)
    moreover have "relay_events env c rs ?st = ?st" "relay_events_bg env c stream rs ?bg = ?bg"
      using True dn' by (cases rs; simp)+
    ultimately show ?thesis using step dn Cons.prems(2) by simp
  next
    case False
    then show ?thesis using Cons.IH [OF step] dn Cons.prems(2) by simp
  qed
qed simp

subsection \<open>The whole background task\<close>

definition new_stream :: "claude_db \<Rightarrow> string \<Rightarrow> string \<Rightarrow> stream_buffer" where
  "new_stream db sid stream = the (map_of (cc_streams (stream_create sid stream db)) stream)"

lemma stream_create_present:
  "map_of (cc_streams (stream_create sid stream db)) stream = Some (new_stream db sid stream)"
  "buffered (new_stream db sid stream) []"
  "stream_create sid stream db = db\<lparr>cc_streams := cc_streams (stream_create sid stream db)\<rparr>"
  by (simp_all add: new_stream_def stream_create_def put_stream_def update_conv' buffered_def)

lemma begin_background_mirrors:
  fixes env c prompt b db n stream
  defines "st \<equiv> begin_turn env c prompt b (start_state c db n)"
    and "bg \<equiv> begin_background env c prompt b stream (start_state c (stream_create (cf_id c) stream db) n)"
  shows "mirrors stream st bg" and "ch_done st \<longrightarrow> failed_fits stream bg"
proof -
  let ?S0 = "cc_streams (stream_create (cf_id c) stream db)" and ?b0 = "new_stream db (cf_id c) stream"
  have "start_state c (stream_create (cf_id c) stream db) n = view 0 ?S0 (start_state c db n)"
    by (subst stream_create_present(3)) (simp add: start_state_def view_def)
  then have begun: "begin_turn env c prompt b (start_state c (stream_create (cf_id c) stream db) n) = view 0 ?S0 st"
    using blindD [OF blind_begin_turn] by (simp add: st_def)
  have "\<exists>S1 b1. (case start_position (ch_out st) of Some p \<Rightarrow> on_stream (stream_set_user_position stream p) (view 0 ?S0 st) | None \<Rightarrow> view 0 ?S0 st)
      = view 0 S1 st \<and> map_of S1 stream = Some b1 \<and> buffered b1 []"
  proof (cases "start_position (ch_out st)")
    case (Some p)
    let ?b1 = "?b0\<lparr>sb_info := (sb_info ?b0)\<lparr>si_user_position := Some p\<rparr>\<rparr>"
    have "on_stream (stream_set_user_position stream p) (view 0 ?S0 st) = view 0 (AList.update stream ?b1 ?S0) st"
      by (simp add: on_stream_def stream_set_user_position_def with_stream_present stream_create_present(1)) (simp add: view_def)
    moreover have "buffered ?b1 []" using stream_create_present(2) [of db "cf_id c" stream] by (simp add: buffered_def)
    ultimately show ?thesis using Some by (intro exI [of _ "AList.update stream ?b1 ?S0"] exI [of _ ?b1]) (simp add: update_conv')
  qed (use stream_create_present in auto)
  then obtain S1 b1 where 1: "(case start_position (ch_out st) of Some p \<Rightarrow> on_stream (stream_set_user_position stream p) (view 0 ?S0 st) | None \<Rightarrow> view 0 ?S0 st)
      = view 0 S1 st" "map_of S1 stream = Some b1" "buffered b1 []" by blast
  from publish_all [OF 1(2,3), of "ch_out st" "ch_db st"] obtain S b' where
    p: "fold (publish stream) (ch_out st) ((ch_db st)\<lparr>cc_streams := S1\<rparr>) = (ch_db st)\<lparr>cc_streams := S\<rparr>" "map_of S stream = Some b'"
    "buffered b' (ch_out st)" "\<forall>m. ch_out st \<noteq> [] \<and> last (ch_out st) = Chat_Err m \<longrightarrow> status_fits (sb_info b') (ch_out st)" by auto
  have bg: "bg = view (length (ch_out st)) S st"
    unfolding bg_def begin_background_def Let_def begun view_fields drop_0 1(1) using p(1) by (simp add: publish_out_def view_def)
  then show "mirrors stream st bg" using p by (auto simp: mirrors_def)
  show "ch_done st \<longrightarrow> failed_fits stream bg"
  proof
    assume "ch_done st"
    then obtain e where "ch_out st = [e]" "is_final e"
      using begin_turn_out [of env c prompt b "start_state c db n"] by (auto simp: st_def start_state_def ended_def)
    moreover have "\<nexists>p cid u. e = Chat_Complete p cid u"
      using \<open>ch_out st = [e]\<close>
      by (auto simp: st_def begin_turn_def Let_def start_state_def split: prod.splits sum.splits dest!: store_fields)
    ultimately have "status_fits (sb_info b') (ch_out st)" using p(4) by (cases e) auto
    then show "failed_fits stream bg" using p(2,3) bg by (simp add: failed_fits_def buffered_def)
  qed
qed

text \<open>What a reply yields depends on the sessions only through their ids.\<close>

definition with_sessions :: "session_row list \<Rightarrow> chat_state \<Rightarrow> chat_state" where
  "with_sessions Q st = st\<lparr>ch_db := (ch_db st)\<lparr>cc_sessions := Q\<rparr>\<rparr>"

lemma with_sessions_fields [simp]:
  "ch_out (with_sessions Q st) = ch_out st" "ch_response (with_sessions Q st) = ch_response st" "ch_cost (with_sessions Q st) = ch_cost st"
  "ch_claude_id (with_sessions Q st) = ch_claude_id st" "ch_turns (with_sessions Q st) = ch_turns st" "ch_parent (with_sessions Q st) = ch_parent st"
  "session_exists (ch_db (with_sessions Q st)) i = (i \<in> se_id ` set Q)"
  by (simp_all add: with_sessions_def session_exists_def)

lemma with_arbor_sessions: "with_arbor env f (with_sessions Q st) = apsnd (with_sessions Q) (with_arbor env f st)"
  by (simp add: with_arbor_def with_sessions_def split: prod.splits)

lemma add_event_sessions: "add_event env t e (with_sessions Q st) = with_sessions Q (add_event env t e st)"
  by (cases "with_arbor env (create_event_node (ce_json env) t (ch_parent st) e) st"; cases "fst (with_arbor env (create_event_node (ce_json env) t (ch_parent st) e) st)")
     (simp_all add: add_event_def with_arbor_sessions, simp add: with_sessions_def)

lemma store_node_sessions: "store_node env b t h (with_sessions Q st) = apsnd (with_sessions Q) (store_node env b t h st)"
  by (simp add: store_node_def with_arbor_sessions)

lemma store_message_sessions:
  assumes "se_id ` set Q = se_id ` set (cc_sessions (ch_db st))"
  shows "store_message env b sid role content m cost (with_sessions Q st) = apsnd (with_sessions Q) (store_message env b sid role content m cost st)"
  using assms by (simp add: store_message_def with_db_def message_create_def message_create_ephemeral_def message_insert_def
      session_exists_def cc_now_def with_sessions_def)

lemma store_message_ids: "store_message env b sid role content m cost st = (r, st') \<Longrightarrow> cc_sessions (ch_db st') = cc_sessions (ch_db st)"
  by (auto simp: store_message_def with_db_def message_create_def message_create_ephemeral_def message_insert_def split: if_splits)

lemma store_node_ids: "store_node env b t h st = (r, st') \<Longrightarrow> cc_sessions (ch_db st') = cc_sessions (ch_db st)"
  by (auto simp: store_node_def with_arbor_def split: prod.splits)

lemma add_event_ids: "cc_sessions (ch_db (add_event env t e st)) = cc_sessions (ch_db st)"
  by (simp add: add_event_def with_arbor_def split: prod.splits sum.splits)

lemma record_reply_sessions:
  assumes Q: "se_id ` set Q = se_id ` set (cc_sessions (ch_db st))"
  shows "ch_out (record_reply env c b (with_sessions Q st)) = ch_out (record_reply env c b st)"
proof -
  let ?t = "ps_tree (cf_head c)"
  obtain r1 st1 where 1: "store_message env b (cf_id c) Role_Assistant (ch_response st) (Some (reply_model c)) (ch_cost st) st = (r1, st1)"
    by (cases "store_message env b (cf_id c) Role_Assistant (ch_response st) (Some (reply_model c)) (ch_cost st) st")
  obtain r2 st2 where 2: "store_node env b ?t (message_to_handle (ce_plugin_id env) (projr r1) ''assistant'')
      (add_event env ?t (Assistant_Complete None) st1) = (r2, st2)" by force
  have ids: "se_id ` set Q = se_id ` set (cc_sessions (ch_db st2))"
    using Q store_message_ids [OF 1] store_node_ids [OF 2] add_event_ids by simp
  show ?thesis
  proof (cases r1)
    case (Inl e)
    then show ?thesis using 1 by (simp add: record_reply_def Let_def store_message_sessions [OF Q])
  next
    case (Inr m)
    then have 2: "store_node env b ?t (message_to_handle (ce_plugin_id env) m ''assistant'') (add_event env ?t (Assistant_Complete None) st1) = (r2, st2)"
      using 2 by simp
    show ?thesis
    proof (cases r2)
      case (Inl e)
      then show ?thesis using 1 2 Inr by (simp add: record_reply_def Let_def store_message_sessions [OF Q] store_node_sessions add_event_sessions)
    next
      case Inr': (Inr i)
      have ex: "session_exists (ch_db st2) (cf_id c) = (cf_id c \<in> se_id ` set Q)" by (simp add: session_exists_def ids)
      show ?thesis
        by (simp add: record_reply_def Let_def store_message_sessions [OF Q] store_node_sessions add_event_sessions 1 2 Inr Inr' session_update_head_def ex)
    qed
  qed
qed

lemma persist_out: "ch_out (record_reply env c b (persist_claude_id c st)) = ch_out (record_reply env c b st)"
proof (cases "persist_claude_id c st = st")
  case False
  then obtain new where "persist_claude_id c st = with_sessions (cc_sessions (session_update_claude_id (cf_id c) new (ch_db st))) st"
    by (auto simp: persist_claude_id_def with_sessions_def session_update_claude_id_def update_session_def split: option.splits if_splits)
  then show ?thesis
    using record_reply_sessions [of "cc_sessions (session_update_claude_id (cf_id c) new (ch_db st))" st env c b]
    by (simp add: session_update_claude_id_def update_session_def image_key_update_where)
qed simp

lemma finish_background_fits:
  assumes m: "mirrors stream st bg" and fg: "ch_out r = ch_out (record_reply env c b st)"
  shows "\<exists>buf. map_of (cc_streams (ch_db (finish_background env c b stream bg))) stream = Some buf \<and> buffered buf (ch_out r) \<and>
    status_fits (sb_info buf) (ch_out r)"
proof -
  let ?st = "record_reply env c b st"
  from mirrors_step [OF blind_record_reply m] obtain S buf where
    p: "publish_out stream (record_reply env c b bg) = view (length (ch_out ?st)) S ?st" "map_of S stream = Some buf"
    "buffered buf (ch_out ?st)"
    "\<forall>m. length (ch_out st) < length (ch_out ?st) \<and> last (ch_out ?st) = Chat_Err m \<longrightarrow> status_fits (sb_info buf) (ch_out ?st)" by blast
  obtain e where e: "ch_out ?st = ch_out st @ [e]" "is_final e" using record_reply_ended [of st env c b] by (auto simp: ended_def)
  have "record_reply env c b bg = view (length (ch_out st)) (cc_streams (ch_db bg)) ?st"
    using m blindD [OF blind_record_reply] by (auto simp: mirrors_def)
  then have out: "ch_out (record_reply env c b bg) = [e]" by (simp add: e(1))
  show ?thesis
  proof (cases e)
    case (Chat_Complete q cid u)
    let ?b = "buf\<lparr>sb_info := set_status (cc_now (ch_db ?st)) Complete_Stream None (sb_info buf)\<rparr>"
    have "finish_background env c b stream bg = on_stream (stream_set_status stream Complete_Stream None) (view (length (ch_out ?st)) S ?st)"
      by (simp add: finish_background_def Let_def out p(1) Chat_Complete)
    then have "map_of (cc_streams (ch_db (finish_background env c b stream bg))) stream = Some ?b"
      using p(2) by (simp add: on_stream_def stream_set_status_def with_stream_present update_conv') (simp add: view_def)
    moreover have "buffered ?b (ch_out ?st)" using p(3) by (simp add: buffered_def set_status_def Let_def)
    ultimately show ?thesis using e(1) Chat_Complete fg by (simp add: status_fits_def set_status_def Let_def)
  next
    case (Chat_Err x)
    then have "finish_background env c b stream bg = view (length (ch_out ?st)) S ?st"
      by (simp add: finish_background_def Let_def out p(1))
    then show ?thesis using p(2-4) e(1) Chat_Err fg by simp
  qed (use e(2) in simp_all)
qed

lemma background_matches_foreground:
  fixes env c prompt eph allowed db n stream raws
  defines "fg \<equiv> chat_turn env (\<lambda>_. raws) c prompt eph allowed db n"
    and "bg \<equiv> run_chat_background env (\<lambda>_. raws) c prompt (eph = Some True) stream (stream_create (cf_id c) stream db) n"
  assumes "last (ch_out fg) \<noteq> Chat_Err no_response"
  shows "\<exists>b. map_of (cc_streams (ch_db bg)) stream = Some b \<and> buffered b (ch_out fg) \<and> status_fits (sb_info b) (ch_out fg)"
proof -
  define b where "b = (eph = Some True)"
  define st1 where "st1 = begin_turn env c prompt b (start_state c db n)"
  define bg1 where "bg1 = begin_background env c prompt b stream (start_state c (stream_create (cf_id c) stream db) n)"
  define st2 where "st2 = relay_events env c raws st1"
  define bg2 where "bg2 = relay_events_bg env c stream raws bg1"
  have m1: "mirrors stream st1 bg1" "ch_done st1 \<longrightarrow> failed_fits stream bg1"
    unfolding st1_def bg1_def by (rule begin_background_mirrors)+
  have fits: "\<exists>b. map_of (cc_streams (ch_db bg')) stream = Some b \<and> buffered b (ch_out st) \<and> status_fits (sb_info b) (ch_out st)"
    if "mirrors stream st bg'" "failed_fits stream bg'" for st bg'
    using that by (auto simp: mirrors_def failed_fits_def buffered_def)
  have dn1: "ch_done bg1 = ch_done st1" using m1(1) by (auto simp: mirrors_def)
  show ?thesis
  proof (cases "ch_done st1")
    case True
    then have "fg = st1" "bg = bg1"
      by (simp_all add: fg_def bg_def chat_turn_def run_chat_background_def Let_def b_def [symmetric] st1_def [symmetric] bg1_def [symmetric] dn1)
    then show ?thesis using fits m1 True by blast
  next
    case False
    have m2: "mirrors stream st2 bg2" "ch_done st2 \<longrightarrow> failed_fits stream bg2"
      using mirrors_relay [OF m1(1) False] by (simp_all add: st2_def bg2_def)
    have dn2: "ch_done bg2 = ch_done st2" using m2(1) by (auto simp: mirrors_def)
    have fg: "fg = (if ch_done st2 then st2 else finish_turn env c b st2)"
      using False by (simp add: fg_def chat_turn_def Let_def b_def [symmetric] st1_def [symmetric] st2_def)
    have bg: "bg = (if ch_done st2 then bg2 else finish_background env c b stream bg2)"
      using False by (simp add: bg_def run_chat_background_def Let_def b_def [symmetric] bg1_def [symmetric] bg2_def [symmetric] dn1 dn2)
    show ?thesis
    proof (cases "ch_done st2")
      case True
      then show ?thesis using fits m2 fg bg by simp
    next
      case False
      have "fg = record_reply env c b (persist_claude_id c st2)"
        using fg False assms(3) by (auto simp: finish_turn_def Let_def split: if_splits)
      then have "ch_out fg = ch_out (record_reply env c b st2)" by (simp add: persist_out)
      from finish_background_fits [OF m2(1) this] show ?thesis using bg False by simp
    qed
  qed
qed

end
