(* ===== verification/Claude_Streams.thy ===== *)
theory Claude_Streams
  imports Claude_Store Log_Interface
begin

text \<open>
  The stream buffers of ClaudeCode as a log read through a cursor: the contract of
  \<^theory_text>\<open>cursor_log\<close> on \<open>stream_push_event\<close> and \<open>stream_poll\<close>, and what a client that polls
  gets to see.
\<close>

text \<open>The number of an entry is one more than its sequence number: the read position behind it.\<close>

definition buffer_after :: "stream_buffer \<Rightarrow> nat \<Rightarrow> (nat \<times> buffered_event) list" where
  "buffer_after b c = map (\<lambda>e. (be_seq e + 1, e)) (drop c (sb_events b))"

definition numbered :: "stream_buffer \<Rightarrow> bool" where
  "numbered b \<longleftrightarrow> map be_seq (sb_events b) = [0..<length (sb_events b)]"

definition longer :: "stream_buffer \<Rightarrow> stream_buffer \<Rightarrow> bool" where
  "longer b b' \<longleftrightarrow> (\<exists>new. sb_events b' = sb_events b @ new)"

lemma numbered_nth: "numbered b \<Longrightarrow> i < length (sb_events b) \<Longrightarrow> be_seq (sb_events b ! i) = i"
  unfolding numbered_def by (metis add_0 length_upt minus_nat.diff_0 nth_map nth_upt)

lemma drop_filter_from:
  "map be_seq es = [k..<k + length es] \<Longrightarrow> filter (\<lambda>e. c < be_seq e + 1) es = drop (c - k) es"
proof (induction es arbitrary: k)
  case (Cons e es)
  have "[k..<k + length (e # es)] = k # [Suc k..<Suc k + length es]" by (simp add: upt_rec)
  with Cons.prems have e: "be_seq e = k" "map be_seq es = [Suc k..<Suc k + length es]" by simp_all
  show ?case
  proof (cases "c \<le> k")
    case True
    then show ?thesis using e Cons.IH [OF e(2)] by simp
  next
    case False
    then have "c - k = Suc (c - Suc k)" by simp
    then show ?thesis using False e Cons.IH [OF e(2)] by simp
  qed
qed simp

lemma drop_filter_seq: "numbered b \<Longrightarrow> drop c (sb_events b) = filter (\<lambda>e. c < be_seq e + 1) (sb_events b)"
  using drop_filter_from [of "sb_events b" 0 c] by (simp add: numbered_def)

interpretation buffers: cursor_log buffer_after 0 "\<lambda>_. True" numbered longer
proof
  fix b c
  assume "numbered b"
  then show "buffer_after b c = filter (\<lambda>x. c < fst x) (buffer_after b 0)"
    by (simp add: buffer_after_def drop_filter_seq filter_map comp_def)
next
  fix b
  assume "numbered b"
  then have "map Suc (map be_seq (sb_events b)) = map Suc [0..<length (sb_events b)]" by (simp add: numbered_def)
  then have "map fst (buffer_after b 0) = map Suc [0..<length (sb_events b)]"
    by (simp add: buffer_after_def comp_def)
  then show "sorted_wrt (<) (map fst (buffer_after b 0))"
    by (simp add: map_Suc_upt del: upt_Suc)
next
  fix b b'
  assume "longer b b'"
  then show "\<exists>new. buffer_after b' 0 = buffer_after b 0 @ new" by (auto simp: longer_def buffer_after_def)
next
  fix a b c
  assume "longer a b" "longer b c"
  then show "longer a c" by (auto simp: longer_def)
qed simp_all

subsection \<open>What a client does with a stream\<close>

datatype stream_op =
    Push chat_event
  | Status stream_status "string option"
  | User_Position position
  | Poll "nat option"
  | Clock int

text \<open>The state is the storage and what the polls have returned so far.\<close>

fun stream_exec :: "string \<Rightarrow> stream_op \<Rightarrow> claude_db \<times> buffered_event list \<Rightarrow> claude_db \<times> buffered_event list" where
  "stream_exec s (Push e) (db, got) = (snd (stream_push_event s e db), got)"
| "stream_exec s (Status st err) (db, got) = (snd (stream_set_status s st err db), got)"
| "stream_exec s (User_Position p) (db, got) = (snd (stream_set_user_position s p db), got)"
| "stream_exec s (Poll limit) (db, got) =
     (case stream_poll s None limit db of
        (Inr (info, es), db) \<Rightarrow> (db, got @ es)
      | (Inl _, db) \<Rightarrow> (db, got))"
| "stream_exec s (Clock now) (db, got) = (db\<lparr>cc_arbor := (cc_arbor db)\<lparr>ar_clock := now\<rparr>\<rparr>, got)"

definition pushed :: "stream_op list \<Rightarrow> chat_event list" where
  "pushed ops = concat (map (\<lambda>x. case x of Push e \<Rightarrow> [e] | _ \<Rightarrow> []) ops)"

text \<open>Everything is buffered in order, and what the polls returned is a prefix up to the read position.\<close>

definition stream_state :: "stream_buffer \<Rightarrow> chat_event list \<Rightarrow> buffered_event list \<Rightarrow> bool" where
  "stream_state b es got \<longleftrightarrow>
     map be_event (sb_events b) = es \<and> numbered b \<and> si_event_count (sb_info b) = length es \<and>
     fetched buffer_after 0 b (si_read_position (sb_info b), map (\<lambda>e. (be_seq e + 1, e)) got)"

lemma map_pair_prefix: "map (\<lambda>e. (f e, e)) xs = map (\<lambda>e. (f e, e)) ys @ rest \<Longrightarrow> \<exists>zs. xs = ys @ zs \<and> rest = map (\<lambda>e. (f e, e)) zs"
proof (induction ys arbitrary: xs)
  case (Cons y ys)
  then show ?case by (cases xs) auto
qed simp

lemma stream_state_prefix:
  assumes "stream_state b es got"
  shows "got = take (si_read_position (sb_info b)) (sb_events b) \<and> si_read_position (sb_info b) \<le> length es"
proof -
  from assms obtain rest where r: "map (\<lambda>e. (be_seq e + 1, e)) (sb_events b) = map (\<lambda>e. (be_seq e + 1, e)) got @ rest"
    and p: "si_read_position (sb_info b) = (if got = [] then 0 else be_seq (last got) + 1)"
    by (auto simp: stream_state_def fetched_def buffer_after_def last_map split: if_splits)
  from map_pair_prefix [OF r] obtain zs where zs: "sb_events b = got @ zs" by blast
  have "be_seq (last got) = length got - 1" if "got \<noteq> []"
  proof -
    have pos: "0 < length got" using that by simp
    then have here: "length got - 1 < length got" by linarith
    also have "length got \<le> length (sb_events b)" using zs by simp
    finally have inside: "length got - 1 < length (sb_events b)" .
    have "last got = sb_events b ! (length got - 1)" unfolding last_conv_nth [OF that] using here zs by (simp only: nth_append if_True)
    then show ?thesis
      using numbered_nth [OF _ inside] assms by (simp add: stream_state_def)
  qed
  then have "si_read_position (sb_info b) = length got" using p by (cases got) auto
  then show ?thesis using assms zs by (auto simp: stream_state_def)
qed

lemma poll_state:
  assumes st: "stream_state b es got" and p: "poll_buffer None limit b = ((info, new), b')"
  shows "stream_state b' es (got @ new)"
proof -
  define n where "n = (case limit of Some n \<Rightarrow> n | None \<Rightarrow> 100)"
  have new: "new = take n (drop (si_read_position (sb_info b)) (sb_events b))"
    and b': "sb_events b' = sb_events b" "si_event_count (sb_info b') = si_event_count (sb_info b)"
    "si_read_position (sb_info b') = (if new = [] then si_read_position (sb_info b) else be_seq (last new) + 1)"
    using p by (auto simp: poll_buffer_def Let_def n_def split: if_splits)
  have "poll_batch buffer_after n b (si_read_position (sb_info b), map (\<lambda>e. (be_seq e + 1, e)) got) =
      (si_read_position (sb_info b'), map (\<lambda>e. (be_seq e + 1, e)) (got @ new))"
    unfolding b'(3) new by (simp add: poll_batch_def buffer_after_def Let_def take_map last_map split: if_splits)
  then have "fetched buffer_after 0 b (si_read_position (sb_info b'), map (\<lambda>e. (be_seq e + 1, e)) (got @ new))"
    using buffers.batch_next [of b b "(si_read_position (sb_info b), map (\<lambda>e. (be_seq e + 1, e)) got)" n] st
    by (simp add: stream_state_def longer_def)
  then show ?thesis using st b' by (simp add: stream_state_def fetched_def buffer_after_def numbered_def)
qed

lemma push_state:
  assumes "stream_state b es got"
  shows "stream_state (snd (push_event now e b)) (es @ [e]) got"
proof -
  have "length (sb_events b) = length es" using assms unfolding stream_state_def by (metis length_map)
  then show ?thesis
    using assms by (auto simp: stream_state_def push_event_def numbered_def fetched_def buffer_after_def Let_def)
qed

lemma info_state:
  assumes "stream_state b es got" "si_event_count i = si_event_count (sb_info b)" "si_read_position i = si_read_position (sb_info b)"
  shows "stream_state (b\<lparr>sb_info := i\<rparr>) es got"
  using assms by (simp add: stream_state_def numbered_def fetched_def buffer_after_def)

lemma exec_state:
  assumes "map_of (cc_streams db) s = Some b" and "stream_state b es got" and "stream_exec s x (db, got) = (db', got')"
  shows "\<exists>b'. map_of (cc_streams db') s = Some b' \<and> stream_state b' (es @ pushed [x]) got'"
proof (cases x)
  case (Poll limit)
  obtain info new b' where "poll_buffer None limit b = ((info, new), b')" by (metis surj_pair)
  then show ?thesis
    using assms poll_state [OF assms(2), of limit info new b'] Poll
    by (auto simp: stream_poll_def with_stream_def put_stream_def update_conv' pushed_def)
next
  case (Push e)
  then show ?thesis
    using assms push_state [OF assms(2), of "cc_now db" e]
    by (auto simp: stream_push_event_def with_stream_def put_stream_def update_conv' pushed_def)
next
  case (Status st err)
  then show ?thesis
    using assms info_state [OF assms(2), of "set_status (cc_now db) st err (sb_info b)"]
    by (auto simp: stream_set_status_def with_stream_def put_stream_def update_conv' pushed_def set_status_def Let_def split: option.splits)
next
  case (User_Position p)
  then show ?thesis
    using assms info_state [OF assms(2), of "(sb_info b)\<lparr>si_user_position := Some p\<rparr>"]
    by (auto simp: stream_set_user_position_def with_stream_def put_stream_def update_conv' pushed_def)
next
  case (Clock now)
  then show ?thesis using assms by (auto simp: pushed_def)
qed

lemma execs_state:
  assumes "map_of (cc_streams db) s = Some b" and "stream_state b es got" and "fold (stream_exec s) ops (db, got) = (db', got')"
  shows "\<exists>b'. map_of (cc_streams db') s = Some b' \<and> stream_state b' (es @ pushed ops) got'"
  using assms
proof (induction ops arbitrary: db got b es)
  case (Cons x ops)
  obtain db1 got1 where 1: "stream_exec s x (db, got) = (db1, got1)" by force
  from exec_state [OF Cons.prems(1,2) 1] obtain b1 where "map_of (cc_streams db1) s = Some b1" "stream_state b1 (es @ pushed [x]) got1" by blast
  from Cons.IH [OF this] Cons.prems(3) 1 show ?case by (simp add: pushed_def)
qed (auto simp: pushed_def)

lemma new_stream_state:
  "\<exists>b. map_of (cc_streams (stream_create sid s db)) s = Some b \<and> stream_state b [] []"
  by (simp add: stream_create_def put_stream_def update_conv' stream_state_def numbered_def fetched_def buffer_after_def)

end
