(* ===== verification/Claude_Tables.thy ===== *)
theory Claude_Tables
  imports Claude_Store
begin

text \<open>
  The tables of ClaudeCode in all states that its storage can reach: keys and names are unique, the
  references hold, and every text column of an enumerated type reads back. The trees and the stream
  buffers have their own theories; here they may change in any way.
\<close>

inductive claude_step :: "claude_db \<Rightarrow> claude_db \<Rightarrow> bool" where
  create: "claude_step db (snd (session_create name wd model prompt mcp loopback cid lid metadata sid t r db))"
| head: "claude_step db (snd (session_update_head sid i cid db))"
| loopback: "claude_step db (session_update_loopback_id sid l db)"
| claude_id: "claude_step db (session_update_claude_id sid cid db)"
| update: "claude_step db (snd (session_update sid name model prompt mcp metadata db))"
| delete: "claude_step db (snd (session_delete sid db))"
| message: "claude_step db (snd (message_create sid role content model_id inp out cost mid db))"
| ephemeral: "claude_step db (snd (message_create_ephemeral sid role content model_id inp out cost mid db))"
| unknown: "claude_step db (snd (unknown_event_store sid' ty data uid db))"
| others: "claude_step db (db\<lparr>cc_arbor := a, cc_streams := S\<rparr>)"

definition claude_reachable :: "claude_db \<Rightarrow> bool" where
  "claude_reachable db \<longleftrightarrow> (\<exists>now. claude_step\<^sup>*\<^sup>* (empty_claude now) db)"

definition claude_ok :: "claude_db \<Rightarrow> bool" where
  "claude_ok db \<longleftrightarrow>
     distinct (map se_id (cc_sessions db)) \<and> distinct (map se_name (cc_sessions db)) \<and>
     (\<forall>r \<in> set (cc_sessions db). se_model r \<in> range model_str) \<and>
     distinct (map me_id (cc_messages db)) \<and>
     (\<forall>m \<in> set (cc_messages db). me_role m \<in> range role_str \<and> me_session m \<in> se_id ` set (cc_sessions db)) \<and>
     distinct (map ue_id (cc_unknown db)) \<and>
     (\<forall>u \<in> set (cc_unknown db). ue_session u \<in> insert None (Some ` se_id ` set (cc_sessions db)))"

text \<open>An update of one session that keeps its id, its name and a readable model.\<close>

lemma update_session_ok:
  assumes "claude_ok db" and "\<And>r. se_id (f r) = se_id r" "\<And>r. se_name (f r) = se_name r" "\<And>r. se_model (f r) = se_model r"
  shows "claude_ok (update_session sid f db)"
  using assms by (simp add: claude_ok_def update_session_def map_key_update_where image_key_update_where ball_update_where)

lemma insert_session_ok:
  assumes "claude_ok db" and "se_model r \<in> range model_str"
  shows "claude_ok (snd (insert_session op r db))"
  using assms by (auto simp: claude_ok_def insert_session_def)

lemma claude_ok_arbor: "claude_ok (db\<lparr>cc_arbor := a\<rparr>) = claude_ok db"
  by (simp add: claude_ok_def)

lemma in_arbor_ok: "claude_ok db \<Longrightarrow> in_arbor f db = (r, db') \<Longrightarrow> claude_ok db'"
  by (auto simp: in_arbor_def claude_ok_arbor split: prod.splits sum.splits)

lemma bind_ok:
  assumes "\<And>x db'. r = (x, db') \<Longrightarrow> claude_ok db'" and "\<And>x db'. r = (Inr x, db') \<Longrightarrow> claude_ok (snd (k x db'))"
  shows "claude_ok (snd (bind_res r k))"
  using assms by (cases r; cases "fst r") auto

lemma insert_session_unchanged: "insert_session op r db = (Inl e, db') \<Longrightarrow> db' = db"
  by (auto simp: insert_session_def split: if_splits)

lemma store_session_ok:
  assumes "claude_ok db" and "se_model row \<in> range model_str"
  shows "claude_ok (snd (store_session row config db))"
proof -
  have renamed: "claude_ok (snd (bind_res (insert_session op (row\<lparr>se_name := n\<rparr>) db) (\<lambda>_ db. (Inr y, db))))" for op n y
    using insert_session_ok [OF assms(1), of "row\<lparr>se_name := n\<rparr>" op] assms(2) by (intro bind_ok) auto
  show ?thesis
  proof (cases "insert_session ''create session'' row db")
    case (Pair x db')
    then show ?thesis
    proof (cases x)
      case (Inl e)
      then have "db' = db" using Pair insert_session_unchanged by blast
      then show ?thesis using renamed Pair Inl by (simp add: store_session_def Let_def)
    next
      case (Inr u)
      then show ?thesis using insert_session_ok [OF assms, of "''create session''"] Pair by (simp add: store_session_def)
    qed
  qed
qed

lemma session_create_ok:
  assumes "claude_ok db"
  shows "claude_ok (snd (session_create name wd model prompt mcp loopback cid lid metadata sid t r db))"
  unfolding session_create_def
  using assms by (intro bind_ok store_session_ok) (auto dest: in_arbor_ok)

lemma message_insert_ok: "claude_ok db \<Longrightarrow> claude_ok (snd (message_insert op at sid role content model_id inp out cost mid db))"
  by (auto simp: claude_ok_def message_insert_def session_exists_def)

lemma unknown_ok: "claude_ok db \<Longrightarrow> claude_ok (snd (unknown_event_store sid' ty data uid db))"
  by (auto simp: claude_ok_def unknown_event_store_def session_exists_def split: option.splits)

lemma delete_ok: "claude_ok db \<Longrightarrow> claude_ok (snd (session_delete sid db))"
  by (auto simp: claude_ok_def session_delete_def distinct_map_filter)

lemma head_ok: "claude_ok db \<Longrightarrow> claude_ok (snd (session_update_head sid i cid db))"
  by (auto simp: session_update_head_def intro!: update_session_ok split: option.splits)

text \<open>A change of name is refused when another session has the name.\<close>

lemma rename_names:
  assumes "distinct (map se_id rows)" "distinct (map se_name rows)" "\<forall>r \<in> set rows. se_name r = n \<longrightarrow> se_id r = sid"
    and "\<And>r. se_name (f r) = n"
  shows "distinct (map se_name (update_where (\<lambda>r. se_id r = sid) f rows))"
  using assms(1-3)
proof (induction rows)
  case (Cons r rows)
  show ?case
  proof (cases "se_id r = sid")
    case True
    then have "update_where (\<lambda>r. se_id r = sid) f rows = rows"
      using Cons.prems(1) by (intro update_where_id) (auto simp: rev_image_eqI)
    moreover have "n \<notin> se_name ` set rows" using Cons.prems True by (auto simp: rev_image_eqI)
    ultimately show ?thesis using True Cons.prems assms(4) by simp
  next
    case False
    then have "se_name r \<noteq> n" using Cons.prems(3) by auto
    then have "se_name r \<notin> se_name ` set (update_where (\<lambda>r. se_id r = sid) f rows)"
      using Cons.prems(2) assms(4) by (auto simp: set_update_where image_iff split: if_splits)
    then show ?thesis using False Cons by simp
  qed
qed simp

lemma update_ok:
  assumes "claude_ok db"
  shows "claude_ok (snd (session_update sid name model prompt mcp metadata db))"
proof (cases "session_get db sid")
  case (Inr c)
  let ?n = "case name of Some n \<Rightarrow> n | None \<Rightarrow> cf_name c"
  show ?thesis
  proof (cases "\<exists>r \<in> set (cc_sessions db). se_name r = ?n \<and> se_id r \<noteq> sid")
    case False
    let ?f = "\<lambda>r. r\<lparr>se_name := ?n, se_model := model_str (case model of Some m \<Rightarrow> m | None \<Rightarrow> cf_model c),
      se_prompt := case prompt of Some p \<Rightarrow> p | None \<Rightarrow> cf_prompt c, se_mcp := or_else mcp (cf_mcp c),
      se_metadata := or_else metadata (cf_metadata c), se_updated_at := cc_now db\<rparr>"
    have "distinct (map se_name (update_where (\<lambda>r. se_id r = sid) ?f (cc_sessions db)))"
      using False assms by (intro rename_names) (auto simp: claude_ok_def)
    then have "claude_ok (update_session sid ?f db)"
      using assms by (simp add: claude_ok_def update_session_def map_key_update_where image_key_update_where ball_update_where)
    then show ?thesis using False assms Inr by (simp add: session_update_def Let_def)
  qed (use assms Inr in \<open>simp add: session_update_def Let_def\<close>)
qed (use assms in \<open>simp add: session_update_def\<close>)

lemma claude_step_ok: "claude_step db db' \<Longrightarrow> claude_ok db \<Longrightarrow> claude_ok db'"
proof (induction rule: claude_step.induct)
  case (loopback db sid l)
  then show ?case unfolding session_update_loopback_id_def by (intro update_session_ok) simp_all
next
  case (claude_id db sid cid)
  then show ?case unfolding session_update_claude_id_def by (intro update_session_ok) simp_all
next
  case (message db sid role content model_id inp out cost mid)
  then show ?case by (simp add: message_create_def message_insert_ok)
next
  case (ephemeral db sid role content model_id inp out cost mid)
  then show ?case by (simp add: message_create_ephemeral_def message_insert_ok)
next
  case (others db a S)
  then show ?case by (simp add: claude_ok_def)
qed (simp_all add: session_create_ok head_ok update_ok delete_ok unknown_ok)

lemma claude_reachable_ok: "claude_reachable db \<Longrightarrow> claude_ok db"
proof -
  assume "claude_reachable db"
  then obtain now where "claude_step\<^sup>*\<^sup>* (empty_claude now) db" by (auto simp: claude_reachable_def)
  then show ?thesis
    by (induction rule: rtranclp_induct) (simp add: claude_ok_def empty_claude_def, blast intro: claude_step_ok)
qed

subsection \<open>What the queries answer\<close>

lemma row_to_config_ok:
  "se_model r \<in> range model_str \<Longrightarrow> \<exists>c. row_to_config r = Inr c \<and> cf_id c = se_id r \<and> cf_name c = se_name r"
  by (auto simp: row_to_config_def)

lemma session_get_ok:
  assumes "claude_ok db"
  shows "session_get db sid = (if session_exists db sid then Inr (projr (session_get db sid)) else Inl (Session_Not_Found sid)) \<and>
    (session_exists db sid \<longrightarrow> cf_id (projr (session_get db sid)) = sid)"
proof (cases "row_by se_id sid (cc_sessions db)")
  case None
  moreover from this have "\<not> session_exists db sid" by (simp add: session_exists_def row_by_None_iff)
  ultimately show ?thesis by (simp add: session_get_def)
next
  case (Some r)
  then have r: "r \<in> set (cc_sessions db)" "se_id r = sid" using row_by_Some_in [OF Some] by blast+
  then obtain c where "row_to_config r = Inr c" "cf_id c = sid"
    using assms row_to_config_ok [of r] by (auto simp: claude_ok_def)
  moreover have "session_exists db sid" using r by (auto simp: session_exists_def)
  ultimately show ?thesis using Some by (simp add: session_get_def)
qed

lemma collect_all: "\<forall>r \<in> set rows. \<exists>x. f r = Inr x \<Longrightarrow> \<exists>xs. collect_results (map f rows) = Inr xs \<and> map Inr xs = map f rows"
  by (induction rows) auto

lemma session_list_ok:
  assumes "claude_ok db"
  shows "\<exists>infos. session_list db = Inr infos \<and> map ci_id infos = list_session_ids db"
proof -
  have "\<forall>r \<in> set (newest_first (cc_sessions db)). \<exists>x. row_to_info r = Inr x"
    using assms by (auto simp: claude_ok_def row_to_info_def newest_first_def)
  then obtain infos where infos: "session_list db = Inr infos" "map Inr infos = map row_to_info (newest_first (cc_sessions db))"
    unfolding session_list_def using collect_all by metis
  have "row_to_info r = Inr i \<Longrightarrow> ci_id i = se_id r" for r i
    by (auto simp: row_to_info_def split: option.splits)
  then have "map ci_id is = map se_id rows" if "map Inr is = map row_to_info rows" for "is" rows
    using that by (induction "is" arbitrary: rows) (auto simp: Cons_eq_map_conv)
  then show ?thesis using infos by (auto simp: list_session_ids_def)
qed

lemma message_get_ok:
  assumes "claude_ok db" and "message_get db mid = r"
  shows "(case r of Inl e \<Rightarrow> e = Session_Not_Found (''message:'' @ mid)
    | Inr m \<Rightarrow> ms_id m = mid \<and> session_exists db (ms_session m))"
proof (cases "row_by me_id mid (cc_messages db)")
  case (Some row)
  then have row: "row \<in> set (cc_messages db)" "me_id row = mid" using row_by_Some_in [OF Some] by blast+
  then obtain role where "me_role row = role_str role" "me_session row \<in> se_id ` set (cc_sessions db)"
    using assms(1) unfolding claude_ok_def by blast
  moreover have "r = row_to_message row" using assms(2) Some by (simp add: message_get_def)
  ultimately show ?thesis using row(2) by (simp add: row_to_message_def session_exists_def)
qed (use assms in \<open>auto simp: message_get_def\<close>)

end
