(* ===== verification/Claude_Props.thy ===== *)
theory Claude_Props
  imports Claude_Conversation Claude_Background Claude_Streams Claude_Tables
begin

text \<open>
  The properties of ClaudeCode: turns and what they leave in the tree, the stream of events of a turn
  and its background variant, polling, the tables, and the texts in which events, handles and command
  lines are written. The witnesses run one turn on a session that has just been created.
\<close>

subsection \<open>A concrete session\<close>

text \<open>A codec for the events that hold at most one text: the tag, a colon and the text.\<close>

fun demo_print :: "json \<Rightarrow> string" where
  "demo_print (JObj [(k, JStr t), (k', JStr x)]) = t @ '':'' @ x"
| "demo_print (JObj ((k, JStr t) # es)) = t @ '':''"
| "demo_print _ = []"

definition demo_fields :: "(string \<times> string) list" where
  "demo_fields = [(''user_message'', ''content''), (''content_text'', ''text''), (''content_thinking'', ''thinking''),
     (''launch_command'', ''command''), (''claude_stderr'', ''text'')]"

definition demo_parse :: "string \<Rightarrow> json option" where
  "demo_parse s =
     (let t = takeWhile (\<lambda>c. c \<noteq> CHR '':'') s; x = tl (dropWhile (\<lambda>c. c \<noteq> CHR '':'') s)
      in case map_of demo_fields t of
           Some k \<Rightarrow> Some (JObj [(''type'', JStr t), (k, JStr x)])
         | None \<Rightarrow>
             if t = ''assistant_start'' then Some (JObj [(''type'', JStr t)])
             else if t = ''assistant_complete'' then Some (JObj [(''type'', JStr t), (''usage'', JNull)])
             else None)"

definition demo_codec :: json_codec where
  "demo_codec = \<lparr>jc_print = demo_print, jc_parse = demo_parse, jc_f64 = (\<lambda>_. 0)\<rparr>"

lemma trim_start_plain: "byte c < 128 \<Longrightarrow> \<not> space1 (byte c) \<Longrightarrow> trim_start (c # cs) = c # cs"
  by (cases "c # cs" rule: space_len.cases) (auto simp: trim_start.simps space2_def space3_def)

lemma trim_rev_plain:
  assumes "byte c < 128" and "\<not> space1 (byte c)"
  shows "trim_rev (s @ [c]) \<noteq> []"
proof (induction "length s" arbitrary: s rule: less_induct)
  case less
  have inside: "space_len_rev (s @ [c]) \<le> length s"
    using assms by (cases "s @ [c]" rule: space_len_rev.cases) (auto simp: space2_def space3_def append_eq_Cons_conv Cons_eq_append_conv)
  show ?case
  proof (cases "space_len_rev (s @ [c]) = 0")
    case True
    then show ?thesis by (subst trim_rev.simps) simp
  next
    case False
    then have "trim_rev (s @ [c]) = trim_rev (drop (space_len_rev (s @ [c])) s @ [c])"
      using inside by (subst trim_rev.simps) simp
    then show ?thesis using less [of "drop (space_len_rev (s @ [c])) s"] False inside by simp
  qed
qed

lemma trim_plain: "byte c < 128 \<Longrightarrow> \<not> space1 (byte c) \<Longrightarrow> trim (c # cs) \<noteq> []"
  using trim_rev_plain [of c "rev cs"] by (simp add: trim_def trim_end_def trim_start_plain)

lemma demo_carries: "codec_carries demo_codec prompt [Chat_Content ''Hi'']"
proof -
  have plain: "readable demo_codec e" if "write_event demo_codec e = c # t" "byte c < 128" "\<not> space1 (byte c)"
    "jc_parse demo_codec (c # t) = Some (node_event_json e)" "event_in_range e" for e c t
    using that by (simp add: readable_def trim_plain)
  have "readable demo_codec (Launch_Command x)" "readable demo_codec (Claude_Stderr x)" "readable demo_codec (User_Message x)"
    "readable demo_codec (Content_Text x)" "readable demo_codec Assistant_Start" "readable demo_codec (Assistant_Complete None)" for x
    by (rule plain, simp add: write_event_def demo_codec_def opt_json_def, simp add: byte_def, simp add: space1_def byte_def,
        simp add: demo_codec_def demo_parse_def demo_fields_def opt_json_def, simp)+
  then have "is_debug e \<or> e \<in> set (turn_events prompt [Chat_Content ''Hi'']) \<Longrightarrow> readable demo_codec e" for e
    by (cases e) (auto simp: turn_events_def)
  then show ?thesis by (simp add: codec_carries_def)
qed

definition demo_env :: chat_env where
  "demo_env = \<lparr>ce_json = demo_codec, ce_new_id = (\<lambda>n. replicate (n + 2) CHR ''u''), ce_plugin_id = ''p''\<rparr>"

definition demo_created :: "(claude_error, claude_config, claude_db) outcome" where
  "demo_created = session_create ''chat'' ''/w'' Sonnet None None False None None None ''s'' ''t'' ''r'' (empty_claude 5)"

definition demo_config :: claude_config where
  "demo_config = projr (fst demo_created)"

definition demo_claude :: claude_db where
  "demo_claude = snd demo_created"

definition demo_raws :: "raw_event list" where
  "demo_raws = [Raw_Launch ''claude'', Raw_System None (Some ''c'') None None None,
     Raw_Stream (Block_Delta 0 (Text_Delta ''Hi'')) None, Raw_Stream (Block_Stop 0) None]"

definition demo_turn :: chat_state where
  "demo_turn = chat_turn demo_env (\<lambda>_. demo_raws) demo_config ''Hello'' None None demo_claude 0"

lemma demo_out:
  "ch_out demo_turn = Chat_Start ''s'' \<lparr>ps_tree = ''t'', ps_node = ''uuu''\<rparr> # [Chat_Content ''Hi''] @
     [Chat_Complete \<lparr>ps_tree = ''t'', ps_node = ''uuuuuuuuuu''\<rparr> ''c''
       (Some \<lparr>cu_input_tokens = None, cu_output_tokens = None, cu_cost = None, cu_turns = None\<rparr>)]"
  by code_simp


lemma demo_exists: "session_exists demo_claude (cf_id demo_config)"
  by code_simp

lemma demo_arbor: "arbor_ok (cc_arbor demo_claude)"
proof -
  have "cc_arbor demo_claude = snd (tree_create_with_id None None ''s'' ''t'' ''r'' (empty_arbor 5))" by code_simp
  moreover have "arbor_ok \<dots>" by (intro create_ok empty_ok) (simp add: mentioned_def empty_arbor_def)
  ultimately show ?thesis by simp
qed

lemma demo_fresh: "fresh_ids demo_env 0 demo_claude"
proof -
  have rows: "map (\<lambda>r. (nr_id r, nr_parent r)) (ar_nodes (cc_arbor demo_claude)) = [(''r'', None)]"
    "cc_messages demo_claude = []" "cc_unknown demo_claude = []" by code_simp+
  have "ce_new_id demo_env n = CHR ''u'' # CHR ''u'' # replicate n CHR ''u''" for n by (simp add: demo_env_def)
  moreover have "inj (ce_new_id demo_env)" by (rule injI) (simp add: demo_env_def replicate_eq_replicate)
  moreover have "\<not> mentioned (cc_arbor demo_claude) (CHR ''u'' # cs)" for cs
  proof
    assume "mentioned (cc_arbor demo_claude) (CHR ''u'' # cs)"
    then obtain r where r: "r \<in> set (ar_nodes (cc_arbor demo_claude))" "nr_id r = CHR ''u'' # cs \<or> nr_parent r = Some (CHR ''u'' # cs)"
      by (auto simp: mentioned_def)
    then have "(nr_id r, nr_parent r) \<in> set [(''r'', None)]" unfolding rows(1) [symmetric] by simp
    then show False using r(2) by auto
  qed
  ultimately show ?thesis using rows by (simp add: fresh_ids_def)
qed

lemma demo_conversation: "conversation demo_codec (cc_arbor demo_claude) (cf_head demo_config) ''r'' []"
proof -
  have head: "ps_tree (cf_head demo_config) = ''t''" "ps_node (cf_head demo_config) = ''r''" by code_simp+
  have row: "find (\<lambda>r. nr_tree r = ''t'' \<and> nr_id r = ''r'') (ar_nodes (cc_arbor demo_claude)) =
      Some \<lparr>nr_id = ''r'', nr_tree = ''t'', nr_parent = None, nr_ref_count = 1, nr_state = ''active'', nr_scheduled_at = None,
        nr_archived_at = None, nr_data = Text_Node [], nr_created_at = 5, nr_metadata = None\<rparr>" by code_simp
  then have "lineage (parent_in (cc_arbor demo_claude) ''t'') ''r'' [''r''] None"
    by (intro lineage.root) (simp add: parent_in_def)
  then have "node_get_path (cc_arbor demo_claude) ''t'' ''r'' = Some (Inr [''r''])" using node_get_path_lineage by fastforce
  moreover have "\<exists>n. node_get (cc_arbor demo_claude) ''t'' ''r'' = Inr n \<and> an_data n = Text_Node []"
    using row by (simp add: node_get_row)
  ultimately have "path_data (cc_arbor demo_claude) ''t'' ''r'' [''r''] [Text_Node []]" by (simp add: path_data_def)
  moreover have "render_data demo_codec [Text_Node []] ([], None, []) = Inr ([], None, [])" by code_simp
  ultimately show ?thesis unfolding conversation_def head by blast
qed

subsection \<open>Turns\<close>

text \<open>
  C21. A completed turn appends to the conversation. The session exists, its head stands for the messages
  \<open>ms\<close>, and new identifiers are new; the turn yields \<open>Start\<close>, the events \<open>mid\<close> and \<open>Complete\<close> at
  position \<open>p\<close>, with no tool result among them. Then the rendered context at \<open>p\<close> is \<open>ms\<close>, the prompt of
  the user, and one message of the assistant whose blocks are exactly the events that were yielded, in
  their order (at an ephemeral turn \<open>p\<close> is the old head and the context is \<open>ms\<close>); and every path
  that could be read before the turn reads the same after it.
\<close>

theorem recorded_turn:
  assumes "arbor_ok (cc_arbor db)" and "fresh_ids env n db" and "session_exists db (cf_id c)"
    and "conversation (ce_json env) (cc_arbor db) (cf_head c) root ms"
    and "ch_out (chat_turn env claude c prompt eph allowed db n) = Chat_Start sid sp # mid @ [Chat_Complete p cid usage]"
    and "codec_carries (ce_json env) prompt mid" and "list_all (\<lambda>e. \<not> is_chat_result e) mid"
  shows "(let a' = cc_arbor (ch_db (chat_turn env claude c prompt eph allowed db n));
              ms' = (if eph = Some True then ms
                     else ms @ as_message ''user'' [Block_Text prompt] @ as_message ''assistant'' (reply_blocks mid))
          in conversation (ce_json env) a' p root ms' \<and>
             render_messages (ce_json env) a' (ps_tree p) root (ps_node p) = Some (Inr ms') \<and> keeps (cc_arbor db) a')"
proof -
  define r where r: "r = chat_turn env claude c prompt eph allowed db n"
  note out = assms(5) [folded r]
  from turn_continues [OF assms(1-4) r out assms(6,7)] have conv:
    "conversation (ce_json env) (cc_arbor (ch_db r)) p root
      (if eph = Some True then ms else ms @ as_message ''user'' [Block_Text prompt] @ as_message ''assistant'' (reply_blocks mid))" .
  moreover have "keeps (cc_arbor db) (cc_arbor (ch_db r))"
    using chat_turn_stored [OF assms(1-3) _ r out] assms(4) unfolding conversation_def by blast
  ultimately show ?thesis using conversation_render [OF conv] by (simp add: r [symmetric] Let_def)
qed

lemma recorded_turn_witness:
  "render_messages demo_codec (cc_arbor (ch_db demo_turn)) ''t'' ''r'' ''uuuuuuuuuu'' =
     Some (Inr [\<lparr>cm_role = ''user'', cm_content = [Block_Text ''Hello'']\<rparr>, \<lparr>cm_role = ''assistant'', cm_content = [Block_Text ''Hi'']\<rparr>])"
  using recorded_turn [OF demo_arbor demo_fresh demo_exists, where root = "''r''" and ms = "[]",
      OF _ demo_out [unfolded demo_turn_def]] demo_conversation demo_carries
  by (simp add: demo_turn_def demo_env_def as_message_def reply_blocks_def Let_def)

text \<open>
  C22. The protocol of the event stream of a turn, in every state of the tables and for every behaviour of the
  program: either one error alone, or \<open>Start\<close>, then events that report progress, then exactly one
  final event, \<open>Complete\<close> or \<open>Err\<close>, after which nothing is yielded.
\<close>

theorem chat_protocol:
  "\<exists>mid fin. is_final fin \<and> list_all is_progress mid \<and>
     (ch_out (chat_turn env claude c prompt eph allowed db n) = [fin] \<or>
      (\<exists>p. ch_out (chat_turn env claude c prompt eph allowed db n) = Chat_Start (cf_id c) p # mid @ [fin]))"
  by (rule chat_turn_out)

text \<open>
  The background variant of a turn, on the stream created for it, buffers exactly the events that the
  foreground variant would yield for the same events of the program, numbered from 0; and the status of
  the stream fits the last one: complete after \<open>Complete\<close>, failed with the message after \<open>Err\<close>.
  The one exception is the error that the foreground variant adds for a program that said nothing.
\<close>

theorem background_matches:
  assumes "last (ch_out (chat_turn env (\<lambda>_. raws) c prompt eph allowed db n)) \<noteq> Chat_Err no_response"
  shows "\<exists>b. map_of (cc_streams (ch_db
        (run_chat_background env (\<lambda>_. raws) c prompt (eph = Some True) stream (stream_create (cf_id c) stream db) n))) stream = Some b \<and>
      buffered b (ch_out (chat_turn env (\<lambda>_. raws) c prompt eph allowed db n)) \<and>
      status_fits (sb_info b) (ch_out (chat_turn env (\<lambda>_. raws) c prompt eph allowed db n))"
  using assms by (rule background_matches_foreground)

lemma background_matches_witness:
  "\<exists>b. map_of (cc_streams (ch_db
      (run_chat_background demo_env (\<lambda>_. demo_raws) demo_config ''Hello'' False ''z'' (stream_create ''s'' ''z'' demo_claude) 0))) ''z'' = Some b \<and>
    length (sb_events b) = 3 \<and> si_status (sb_info b) = Complete_Stream"
proof -
  have sid: "cf_id demo_config = ''s''" by code_simp
  have "last (ch_out (chat_turn demo_env (\<lambda>_. demo_raws) demo_config ''Hello'' None None demo_claude 0)) \<noteq> Chat_Err no_response"
    using demo_out by (simp add: demo_turn_def)
  from background_matches [OF this, of "''z''"] obtain b where b: "map_of (cc_streams (ch_db
      (run_chat_background demo_env (\<lambda>_. demo_raws) demo_config ''Hello'' False ''z'' (stream_create ''s'' ''z'' demo_claude) 0))) ''z'' = Some b"
    "buffered b (ch_out demo_turn)" "status_fits (sb_info b) (ch_out demo_turn)"
    by (auto simp: demo_turn_def sid)
  from b(2) have "length (map be_event (sb_events b)) = length (ch_out demo_turn)" by (simp add: buffered_def)
  then show ?thesis using b(1,3) by (simp add: demo_out status_fits_def)
qed

subsection \<open>Polling\<close>

text \<open>
  C23. Whatever the writer and a polling client do with a stream, in any order and with any limits: the events
  are buffered in the order of the pushes with numbers 0, 1, ..; the polls have returned, one after the
  other, exactly the first events up to the read position, each once; and the read position has reached
  the event count exactly when everything pushed has been delivered.
\<close>

theorem stream_delivery:
  "\<exists>b db' got. fold (stream_exec s) ops (stream_create sid s db, []) = (db', got) \<and>
     map_of (cc_streams db') s = Some b \<and> map be_event (sb_events b) = pushed ops \<and>
     map be_seq (sb_events b) = [0..<length (pushed ops)] \<and>
     got = take (si_read_position (sb_info b)) (sb_events b) \<and>
     (si_read_position (sb_info b) = si_event_count (sb_info b)) = (map be_event got = pushed ops)"
proof -
  obtain db' got where run: "fold (stream_exec s) ops (stream_create sid s db, []) = (db', got)" by force
  obtain b0 where "map_of (cc_streams (stream_create sid s db)) s = Some b0" "stream_state b0 [] []" using new_stream_state by blast
  from execs_state [OF this run] obtain b where b: "map_of (cc_streams db') s = Some b" "stream_state b (pushed ops) got" by auto
  have got: "got = take (si_read_position (sb_info b)) (sb_events b)" "si_read_position (sb_info b) \<le> length (pushed ops)"
    using stream_state_prefix [OF b(2)] by simp_all
  have st: "map be_event (sb_events b) = pushed ops" "map be_seq (sb_events b) = [0..<length (sb_events b)]"
    "si_event_count (sb_info b) = length (pushed ops)" "length (sb_events b) = length (pushed ops)"
    using b(2) length_map [of be_event "sb_events b"] by (simp_all add: stream_state_def numbered_def)
  have "map be_event got = take (si_read_position (sb_info b)) (pushed ops)" by (simp add: got(1) take_map st(1) [symmetric])
  then have "(map be_event got = pushed ops) = (si_read_position (sb_info b) = length (pushed ops))"
    using got(2) by (metis length_take min.absorb2 take_all_iff)
  then show ?thesis using run b(1) st got(1) by auto
qed

subsection \<open>The tables\<close>

text \<open>
  C24. The columns of the tables keep their types: in every state that the operations of the storage reach, a
  session is found under its id, or not found, but its row is never unreadable; the list of all sessions
  never fails and agrees with the list of ids; a message that is found has the id asked for and a
  session that exists; and no two sessions have the same name.
\<close>

theorem rows_keep_types:
  assumes "claude_reachable db"
  shows "(session_get db sid = (if session_exists db sid then Inr (projr (session_get db sid)) else Inl (Session_Not_Found sid))) \<and>
     (\<exists>infos. session_list db = Inr infos \<and> map ci_id infos = list_session_ids db) \<and>
     (case message_get db mid of
        Inl e \<Rightarrow> e = Session_Not_Found (''message:'' @ mid)
      | Inr m \<Rightarrow> ms_id m = mid \<and> session_exists db (ms_session m)) \<and>
     distinct (map se_name (cc_sessions db))"
proof -
  have ok: "claude_ok db" using assms by (rule claude_reachable_ok)
  then have "distinct (map se_name (cc_sessions db))" by (simp add: claude_ok_def)
  then show ?thesis using session_get_ok [OF ok, of sid] session_list_ok [OF ok] message_get_ok [OF ok refl, of mid] by blast
qed

lemma rows_keep_types_witness:
  "claude_reachable demo_claude \<and> list_session_ids demo_claude = [''s''] \<and> (\<exists>infos. session_list demo_claude = Inr infos \<and> map ci_id infos = [''s''])"
proof -
  have "claude_step (empty_claude 5) demo_claude" unfolding demo_claude_def demo_created_def by (rule claude_step.create)
  then have "claude_reachable demo_claude" by (auto simp: claude_reachable_def)
  moreover have "list_session_ids demo_claude = [''s'']" by code_simp
  ultimately show ?thesis using rows_keep_types [of demo_claude "[]" "[]"] by auto
qed


subsection \<open>Texts\<close>

lemma splitn_head: "sep \<notin> set a \<Longrightarrow> splitn (Suc (Suc n)) sep (a @ sep # rest) = a # splitn (Suc n) sep rest"
  by (induction a) auto

lemma splitn_not_empty: "splitn (Suc n) sep s \<noteq> []"
  by (cases n) simp_all

text \<open>
  C25. The handle of a stored message leads back to it: the identifier made of the three parts of the handle,
  whatever the display name holds, resolves to the message that the creation returned. \<open>parse_uuid\<close>
  must read the standard text of the new id, which has no colon.
\<close>

theorem handle_resolves:
  assumes "(if ephemeral then message_create_ephemeral else message_create) sid role content model_id inp out cost mid db = (Inr m, db')"
    and "parse_uuid mid = Some mid" and "CHR '':'' \<notin> set mid"
  shows "resolve_message_handle parse_uuid db' (join_with '':'' (h_meta (message_to_handle plugin m name))) = Inr m"
proof -
  obtain op at where ins: "message_insert op at sid role content model_id inp out cost mid db = (Inr m, db')"
    using assms(1) by (cases ephemeral) (simp_all add: message_create_def message_create_ephemeral_def)
  have m: "ms_id m = mid" "message_get db' mid = Inr m"
    using ins by (auto simp: message_insert_def message_get_def row_by_append row_by_None_iff row_to_message_def split: if_splits option.splits)
       (auto dest!: row_by_Some_in)
  have "join_with '':'' (h_meta (message_to_handle plugin m name)) = (''msg-'' @ mid) @ CHR '':'' # role_str (ms_role m) @ CHR '':'' # name"
    by (simp add: message_to_handle_def m(1))
  moreover have colon: "CHR '':'' \<notin> set (''msg-'' @ mid)" using assms(3) by simp
  ultimately have parts: "splitn 3 CHR '':'' (join_with '':'' (h_meta (message_to_handle plugin m name))) =
      (''msg-'' @ mid) # splitn 2 CHR '':'' (role_str (ms_role m) @ CHR '':'' # name)"
    using splitn_head [OF colon, of 1] by (simp only: numeral_3_eq_3 numeral_2_eq_2 One_nat_def)
  have "splitn 2 CHR '':'' (role_str (ms_role m) @ CHR '':'' # name) \<noteq> []"
    using splitn_not_empty [of 1] by (simp only: numeral_2_eq_2 One_nat_def) simp
  then have "\<not> length (splitn 3 CHR '':'' (join_with '':'' (h_meta (message_to_handle plugin m name)))) < 2"
    unfolding parts by (cases "splitn 2 CHR '':'' (role_str (ms_role m) @ CHR '':'' # name)") simp_all
  then show ?thesis
    using assms(2) m(2) unfolding resolve_message_handle_def Let_def by (simp add: parts)
qed

lemma handle_resolves_witness:
  "resolve_message_handle Some (snd (message_create ''s'' Role_User ''Hello'' None None None None ''m'' demo_claude)) ''msg-m:user:a:b'' =
     fst (message_create ''s'' Role_User ''Hello'' None None None None ''m'' demo_claude)"
proof -
  let ?r = "message_create ''s'' Role_User ''Hello'' None None None None ''m'' demo_claude"
  define m where "m = projr (fst ?r)"
  define db' where "db' = snd ?r"
  have "\<not> isl (fst ?r)" "ms_id (projr (fst ?r)) = ''m''" "ms_role (projr (fst ?r)) = Role_User" by code_simp+
  then have r: "?r = (Inr m, db')" "ms_id m = ''m''" "ms_role m = Role_User" by (simp_all add: m_def db'_def prod_eq_iff)
  have meta: "join_with '':'' (h_meta (message_to_handle [] m ''a:b'')) = ''msg-m:user:a:b''"
    by (simp add: message_to_handle_def r)
  show ?thesis
    using handle_resolves [of False "''s''" Role_User "''Hello''" None None None None "''m''" demo_claude m db' Some "[]" "''a:b''"] r meta by simp
qed

text \<open>
  The JSON form of a stored event is read back as the event, for every event whose numbers fit their machine
  types and whose cost is a finite double.
\<close>

theorem event_reads_back:
  assumes "event_in_range e"
  shows "node_event_of_json f64_of_int (node_event_json e) = Some e"
  using assms by (rule event_json_roundtrip)

lemma event_reads_back_witness:
  "node_event_of_json (\<lambda>_. 0) (node_event_json (Assistant_Complete (Some
      \<lparr>cu_input_tokens = Some 100, cu_output_tokens = None, cu_cost = Some 4576918229304087675, cu_turns = Some (- 1)\<rparr>))) =
     Some (Assistant_Complete (Some \<lparr>cu_input_tokens = Some 100, cu_output_tokens = None, cu_cost = Some 4576918229304087675, cu_turns = Some (- 1)\<rparr>))"
  by (rule event_reads_back) (simp add: usage_in_range_def finite_bits_def)

text \<open>
  C26. The command line survives the shell. Whatever the launch (plain, with an MCP configuration, in loopback mode
  or both merged), the words that a shell reads in the command handed to \<open>bash -c\<close> are exactly the path of the
  program and the arguments of the launch: the flags, \<open>--mcp-config\<close> with the path of the file where one was
  written, and last \<open>--\<close> and the prompt; whatever characters the prompt, the tools or the path hold, except that a
  command with a NUL byte cannot be handed over at all. The pair for the file goes before the first argument that is
  \<open>--\<close>: a flag whose value is \<open>--\<close> loses it to the pair, otherwise the pair follows all flags.
\<close>

theorem command_survives_shell:
  assumes "launch read_raw parse_json env claude_path c = Some (Raw_Launch cmd # es)"
  shows "\<exists>mcp args. effective_mcp (ev_mcp_url env) c = Some mcp \<and>
    args = before_dashes (flag_args c) @ mcp_args env mcp @ from_dashes (flag_args c) @ [''--'', lc_query c] \<and>
    before_dashes (flag_args c) @ from_dashes (flag_args c) @ [''--'', lc_query c] = build_args c \<and>
    bash_words cmd = (if nul \<in> set (concat (claude_path # args)) then None else Some (claude_path # args))"
proof -
  obtain mcp args where "effective_mcp (ev_mcp_url env) c = Some mcp" "cmd = shell_command claude_path args"
    and args: "args = before_dashes (flag_args c) @ mcp_args env mcp @ from_dashes (flag_args c) @ [''--'', lc_query c]"
    using launch_command [OF assms] by blast
  moreover have "before_dashes (flag_args c) @ from_dashes (flag_args c) @ [''--'', lc_query c] = build_args c"
    by (simp add: before_dashes_def from_dashes_def build_args_flags)
  moreover have "bash_words (shell_command claude_path args) =
      (if nul \<in> set (concat (claude_path # args)) then None else Some (claude_path # args))"
    by (rule shell_command_words) (simp add: args)
  ultimately show ?thesis by blast
qed

text \<open>A launch in loopback mode whose prompt is full of characters that a shell would act on.\<close>

definition nasty_launch :: launch_config where
  "nasty_launch = default_launch\<lparr>lc_query := ''it'' @ quote # ''s $HOME; `ls` & #*'', lc_loopback := True\<rparr>"

definition quiet_env :: launch_env where
  "quiet_env = \<lparr>ev_mcp_url = None, ev_unreachable = None, ev_write_mcp = (\<lambda>_. Inr ''/tmp/m.json''), ev_temp_dir = ''/tmp'',
     ev_spawn_error = None, ev_stdout = []\<rparr>"

definition nasty_command :: string where
  "nasty_command = shell_command ''claude'' (insert_mcp_args ''/tmp/m.json'' (build_args nasty_launch))"

lemma nasty_facts:
  "launch (\<lambda>_. None) (\<lambda>_. None) quiet_env ''claude'' nasty_launch = Some [Raw_Launch nasty_command]"
  "flag_args nasty_launch = [''--output-format'', ''stream-json'', ''--include-partial-messages'', ''--verbose'', ''--print'',
     ''--model'', ''sonnet'', ''--permission-prompt-tool'', ''mcp__plexus__loopback_permit'']"
  "before_dashes (flag_args nasty_launch) = flag_args nasty_launch" "from_dashes (flag_args nasty_launch) = []"
  "nul \<notin> set (concat (''claude'' # (flag_args nasty_launch @ [''--mcp-config'', ''/tmp/m.json''] @ [''--'', lc_query nasty_launch])))"
  by code_simp+

theorem command_survives_shell_witness:
  "bash_words nasty_command = Some ([''claude''] @ flag_args nasty_launch @ [''--mcp-config'', ''/tmp/m.json''] @ [''--'', lc_query nasty_launch])"
proof -
  have mcp: "mcp_args quiet_env mcp = [''--mcp-config'', ''/tmp/m.json'']" if "effective_mcp (ev_mcp_url quiet_env) nasty_launch = Some mcp" for mcp
    using that by (auto simp: mcp_args_def quiet_env_def effective_mcp_def nasty_launch_def default_launch_def)
  obtain mcp args where "effective_mcp (ev_mcp_url quiet_env) nasty_launch = Some mcp"
    and args: "args = flag_args nasty_launch @ mcp_args quiet_env mcp @ [] @ [''--'', lc_query nasty_launch]"
    and words: "bash_words nasty_command = (if nul \<in> set (concat (''claude'' # args)) then None else Some (''claude'' # args))"
    using command_survives_shell [OF nasty_facts(1)] unfolding nasty_facts(3,4) by blast
  then have "args = flag_args nasty_launch @ [''--mcp-config'', ''/tmp/m.json''] @ [''--'', lc_query nasty_launch]"
    using mcp by simp
  then show ?thesis using words nasty_facts(5) by (simp only: if_False append_Cons append_Nil)
qed

end
