(* ===== verification/Claude_Activation.thy ===== *)
theory Claude_Activation
  imports Claude_Chat Claude_Tables
begin

text \<open>
  The methods that ClaudeCode offers its callers, on the flat namespace (a session by its name) and
  behind the gate \<open>session\<close> (a session by its id): \<^verbatim>\<open>src/src/activations/claudecode/activation.rs\<close>.
  A method that yields one result returns it, its \<open>Err\<close> variant as \<open>Inl\<close> the message; a method that
  yields chat events returns their list. New UUIDs are arguments. \<open>canonicalize\<close> is the file system's
  answer for a path, \<open>claude\<close> the program.
\<close>

subsection \<open>Sessions\<close>

definition answer :: "('a \<Rightarrow> 'b) \<Rightarrow> claude_error + 'a \<Rightarrow> string + 'b" where
  "answer f r = (case r of Inl e \<Rightarrow> Inl (claude_error_text e) | Inr x \<Rightarrow> Inr (f x))"

lemma answer_simps [simp]:
  "answer f (Inl e) = Inl (claude_error_text e)"
  "answer f (Inr x) = Inr (f x)"
  by (simp_all add: answer_def)

definition on_create ::
  "(string \<Rightarrow> string + string) \<Rightarrow> string option \<Rightarrow> string \<Rightarrow> string \<Rightarrow> claude_model \<Rightarrow> string option \<Rightarrow> bool option \<Rightarrow>
   string option \<Rightarrow> string \<Rightarrow> arbor_id \<Rightarrow> arbor_id \<Rightarrow> claude_db \<Rightarrow> (string + string \<times> position) \<times> claude_db" where
  "on_create canonicalize unreachable name working_dir model prompt loopback_enabled loopback_id sid new_tree new_root db =
     (let loopback = (loopback_enabled = Some True)
      in case canonicalize working_dir of
           Inl e \<Rightarrow> (Inl (claude_error_text (Path_Resolution working_dir e)), db)
         | Inr wd \<Rightarrow>
             (case (if loopback then unreachable else None) of
                Some e \<Rightarrow> (Inl e, db)
              | None \<Rightarrow>
                  (case session_create name wd model prompt None loopback None loopback_id None sid new_tree new_root db of
                     (r, db) \<Rightarrow> (answer (\<lambda>c. (cf_id c, cf_head c)) r, db))))"

definition on_get :: "string \<Rightarrow> claude_db \<Rightarrow> string + claude_config" where
  "on_get name db = answer id (session_get_by_name db name)"

definition on_list :: "claude_db \<Rightarrow> string + claude_info list" where
  "on_list db = answer id (session_list db)"

definition on_delete :: "string \<Rightarrow> claude_db \<Rightarrow> (string + string) \<times> claude_db" where
  "on_delete name db =
     (case session_get_by_name db name of
        Inl e \<Rightarrow> (Inl (claude_error_text e), db)
      | Inr c \<Rightarrow> (case session_delete (cf_id c) db of (r, db) \<Rightarrow> (answer (\<lambda>_. cf_id c) r, db)))"

text \<open>A fork: a new session (with a tree of its own) whose head is set to the node of the parent's head.\<close>

definition on_fork ::
  "string \<Rightarrow> string \<Rightarrow> string \<Rightarrow> arbor_id \<Rightarrow> arbor_id \<Rightarrow> claude_db \<Rightarrow> (string + string \<times> position) \<times> claude_db" where
  "on_fork name new_name sid new_tree new_root db =
     (case session_get_by_name db name of
        Inl e \<Rightarrow> (Inl (claude_error_text e), db)
      | Inr p \<Rightarrow>
          (case session_create new_name (cf_working_dir p) (cf_model p) (cf_prompt p) (cf_mcp p) (cf_loopback p)
               None None None sid new_tree new_root db of
             (Inl e, db) \<Rightarrow> (Inl (claude_error_text e), db)
           | (Inr c, db) \<Rightarrow>
               (case session_update_head (cf_id c) (ps_node (cf_head p)) None db of
                  (r, db) \<Rightarrow> (answer (\<lambda>_. (cf_id c, cf_head p)) r, db))))"

definition on_get_tree :: "string \<Rightarrow> claude_db \<Rightarrow> string + arbor_id \<times> arbor_id" where
  "on_get_tree name db = answer (\<lambda>c. (ps_tree (cf_head c), ps_node (cf_head c))) (session_get_by_name db name)"

text \<open>\<open>None\<close> when the path query of Arbor does not return.\<close>

definition on_render_context ::
  "json_codec \<Rightarrow> string \<Rightarrow> arbor_id option \<Rightarrow> arbor_id option \<Rightarrow> claude_db \<Rightarrow> (string + claude_message list) option" where
  "on_render_context jc name start_node end_node db =
     (case session_get_by_name db name of
        Inl e \<Rightarrow> Some (Inl (claude_error_text e))
      | Inr c \<Rightarrow>
          let t = ps_tree (cf_head c);
              last_node = (case end_node of Some e \<Rightarrow> e | None \<Rightarrow> ps_node (cf_head c))
          in case (case start_node of Some s \<Rightarrow> Inr s | None \<Rightarrow> map_sum arbor_error_text at_root (tree_get (cc_arbor db) t)) of
               Inl e \<Rightarrow> Some (Inl e)
             | Inr s \<Rightarrow> map_option (answer id) (render_messages jc (cc_arbor db) t s last_node))"

subsection \<open>Turns\<close>

definition turn_of ::
  "chat_env \<Rightarrow> (launch_config \<Rightarrow> raw_event list) \<Rightarrow> string \<Rightarrow> bool option \<Rightarrow> string list option \<Rightarrow> nat \<Rightarrow>
   claude_error + claude_config \<Rightarrow> claude_db \<Rightarrow> chat_event list \<times> claude_db" where
  "turn_of env claude prompt eph allowed n resolved db =
     (case resolved of
        Inl e \<Rightarrow> ([Chat_Err (claude_error_text e)], db)
      | Inr c \<Rightarrow> let r = chat_turn env claude c prompt eph allowed db n in (ch_out r, ch_db r))"

definition on_chat ::
  "chat_env \<Rightarrow> (launch_config \<Rightarrow> raw_event list) \<Rightarrow> string \<Rightarrow> string \<Rightarrow> bool option \<Rightarrow> string list option \<Rightarrow> nat \<Rightarrow>
   claude_db \<Rightarrow> chat_event list \<times> claude_db" where
  "on_chat env claude name prompt eph allowed n db = turn_of env claude prompt eph allowed n (session_get_by_name db name) db"

text \<open>\<open>chat_async\<close> answers at once; what it leaves to the background is a task.\<close>

record chat_task =
  ct_config :: claude_config
  ct_prompt :: string
  ct_ephemeral :: bool
  ct_stream :: string

definition on_chat_async ::
  "string \<Rightarrow> string \<Rightarrow> bool option \<Rightarrow> string \<Rightarrow> claude_db \<Rightarrow> (string + string \<times> string) \<times> chat_task option \<times> claude_db" where
  "on_chat_async name prompt eph stream db =
     (case session_get_by_name db name of
        Inl e \<Rightarrow> (Inl (claude_error_text e), None, db)
      | Inr c \<Rightarrow>
          (Inr (stream, cf_id c),
           Some \<lparr>ct_config = c, ct_prompt = prompt, ct_ephemeral = (eph = Some True), ct_stream = stream\<rparr>,
           stream_create (cf_id c) stream db))"

definition run_task :: "chat_env \<Rightarrow> (launch_config \<Rightarrow> raw_event list) \<Rightarrow> chat_task \<Rightarrow> nat \<Rightarrow> claude_db \<Rightarrow> claude_db" where
  "run_task env claude k n db =
     ch_db (run_chat_background env claude (ct_config k) (ct_prompt k) (ct_ephemeral k) (ct_stream k) db n)"

record poll_result =
  pr_status :: stream_status
  pr_events :: "buffered_event list"
  pr_read_position :: nat
  pr_total_events :: nat
  pr_has_more :: bool

definition on_poll :: "string \<Rightarrow> nat option \<Rightarrow> nat option \<Rightarrow> claude_db \<Rightarrow> (string + poll_result) \<times> claude_db" where
  "on_poll stream from_seq limit db =
     (case stream_poll stream from_seq limit db of
        (r, db) \<Rightarrow> (answer (\<lambda>(info, events).
           \<lparr>pr_status = si_status info, pr_events = events, pr_read_position = si_read_position info,
            pr_total_events = si_event_count info, pr_has_more = si_read_position info < si_event_count info\<rparr>) r, db))"

definition on_streams :: "string option \<Rightarrow> claude_db \<Rightarrow> stream_info list" where
  "on_streams sid db = (case sid of Some s \<Rightarrow> stream_list_for_session db s | None \<Rightarrow> stream_list db)"

subsection \<open>The gate\<close>

definition session_gate :: "(string \<Rightarrow> string option) \<Rightarrow> string \<Rightarrow> claude_db \<Rightarrow> string option" where
  "session_gate parse_uuid i db =
     (case parse_uuid i of
        None \<Rightarrow> None
      | Some sid \<Rightarrow> if session_exists db sid then Some sid else None)"

definition session_ids :: "claude_db \<Rightarrow> string list" where
  "session_ids db = list_session_ids db"

definition gate_chat ::
  "chat_env \<Rightarrow> (launch_config \<Rightarrow> raw_event list) \<Rightarrow> string \<Rightarrow> string \<Rightarrow> bool option \<Rightarrow> string list option \<Rightarrow> nat \<Rightarrow>
   claude_db \<Rightarrow> chat_event list \<times> claude_db" where
  "gate_chat env claude sid prompt eph allowed n db = turn_of env claude prompt eph allowed n (session_get db sid) db"

definition gate_get :: "string \<Rightarrow> claude_db \<Rightarrow> string + claude_config" where
  "gate_get sid db = answer id (session_get db sid)"

definition gate_delete :: "string \<Rightarrow> claude_db \<Rightarrow> (string + string) \<times> claude_db" where
  "gate_delete sid db = (case session_delete sid db of (r, db) \<Rightarrow> (answer (\<lambda>_. sid) r, db))"

subsection \<open>Handles\<close>

datatype resolve_result =
    Resolved_Message string string string "string option" string
  | Resolve_Error string

definition resolve_handle_impl :: "(string \<Rightarrow> string option) \<Rightarrow> handle \<Rightarrow> claude_db \<Rightarrow> string + resolve_result" where
  "resolve_handle_impl parse_uuid h db =
     (if h_meta h = [] then Inl ''ClaudeCode handle missing message ID in meta''
      else Inr (case resolve_message_handle parse_uuid db (join_with '':'' (h_meta h)) of
                  Inr m \<Rightarrow> Resolved_Message (ms_id m) (role_str (ms_role m)) (ms_content m) (ms_model_id m)
                    (if 2 < length (h_meta h) then h_meta h ! 2 else role_str (ms_role m))
                | Inl e \<Rightarrow> Resolve_Error (''Failed to resolve handle: '' @ claude_error_text e)))"

end
