(* ===== verification/Claude_Session_Props.thy ===== *)
theory Claude_Session_Props
  imports Claude_Props Claude_Activation
begin

text \<open>
  Properties of the methods of ClaudeCode: the two ways to address a session agree, a chat started in
  the background can be polled to its end, a new session starts with an empty conversation, and a
  fork cannot render its conversation.
\<close>

subsection \<open>Names and ids\<close>

lemma get_by_exact_name:
  assumes ok: "claude_ok db" and g: "session_get db sid = Inr c"
  shows "session_get_by_name db (cf_name c) = Inr c \<and> cf_id c = sid"
proof -
  obtain r where r: "row_by se_id sid (cc_sessions db) = Some r" "row_to_config r = Inr c"
    using g by (auto simp: session_get_def split: option.splits)
  then have c: "cf_name c = se_name r" "cf_id c = se_id r" by (auto simp: row_to_config_def split: option.splits)
  have "r \<in> set (cc_sessions db)" "se_id r = sid" using row_by_Some_in [OF r(1)] by blast+
  moreover have "distinct (map se_name (cc_sessions db))" using ok by (simp add: claude_ok_def)
  ultimately have "row_by se_name (se_name r) (cc_sessions db) = Some r" by (intro row_by_unique)
  then show ?thesis using r(2) c \<open>se_id r = sid\<close> by (simp add: session_get_by_name_def)
qed

text \<open>
  Behind the gate a session behaves as on the flat namespace: in every reachable state of the tables, for a
  session that exists, \<open>chat\<close>, \<open>get\<close> and \<open>delete\<close> by its id do and answer exactly what they do and
  answer for its name.
\<close>

theorem gate_is_flat:
  assumes "claude_reachable db" and "session_gate parse_uuid i db = Some sid"
  shows "\<exists>c. session_get db sid = Inr c \<and>
     gate_chat env claude sid prompt eph allowed n db = on_chat env claude (cf_name c) prompt eph allowed n db \<and>
     gate_get sid db = on_get (cf_name c) db \<and> gate_delete sid db = on_delete (cf_name c) db"
proof -
  have ok: "claude_ok db" using assms(1) by (rule claude_reachable_ok)
  have "session_exists db sid" using assms(2) by (auto simp: session_gate_def split: option.splits if_splits)
  then obtain c where c: "session_get db sid = Inr c" using session_get_ok [OF ok, of sid] by metis
  from get_by_exact_name [OF ok c] show ?thesis
    by (intro exI [of _ c]) (simp add: c gate_chat_def on_chat_def gate_get_def on_get_def gate_delete_def on_delete_def)
qed

lemma demo_claude_reachable: "claude_reachable demo_claude"
proof -
  have "claude_step (empty_claude 5) demo_claude" unfolding demo_claude_def demo_created_def by (rule claude_step.create)
  then show ?thesis by (auto simp: claude_reachable_def)
qed

lemma gate_is_flat_witness:
  "session_gate Some ''s'' demo_claude = Some ''s'' \<and>
   gate_delete ''s'' demo_claude = on_delete (cf_name (projr (session_get demo_claude ''s''))) demo_claude"
proof -
  have "session_gate Some ''s'' demo_claude = Some ''s''" by code_simp
  moreover from gate_is_flat [OF demo_claude_reachable this] obtain c
    where "session_get demo_claude ''s'' = Inr c" "gate_delete ''s'' demo_claude = on_delete (cf_name c) demo_claude" by blast
  ultimately show ?thesis by simp
qed

subsection \<open>Chats in the background\<close>

text \<open>A client that polls until nothing is left; \<open>None\<close> when it gives up or the stream is unknown.\<close>

fun poll_all :: "nat \<Rightarrow> string \<Rightarrow> nat option \<Rightarrow> claude_db \<Rightarrow> buffered_event list option" where
  "poll_all 0 stream limit db = None"
| "poll_all (Suc fuel) stream limit db =
     (case on_poll stream None limit db of
        (Inl e, db) \<Rightarrow> None
      | (Inr r, db) \<Rightarrow>
          if pr_has_more r then map_option ((@) (pr_events r)) (poll_all fuel stream limit db) else Some (pr_events r))"

lemma last_seq:
  assumes "numbered b" and "take n (drop k (sb_events b)) \<noteq> []"
  shows "be_seq (last (take n (drop k (sb_events b)))) + 1 = k + length (take n (drop k (sb_events b)))"
proof -
  let ?t = "take n (drop k (sb_events b))"
  have pos: "0 < length ?t" using length_greater_0_conv [THEN iffD2, OF assms(2)] .
  then have i: "k + (length ?t - 1) < length (sb_events b)" by auto
  have "last ?t = sb_events b ! (k + (length ?t - 1))" using pos i unfolding last_conv_nth [OF assms(2)] by (subst nth_take) (auto simp del: take_eq_Nil)
  then show ?thesis using numbered_nth [OF assms(1) i] pos by simp
qed

lemma poll_all_drains:
  assumes "map_of (cc_streams db) stream = Some b" and "numbered b" and "si_event_count (sb_info b) = length (sb_events b)"
    and "si_read_position (sb_info b) \<le> length (sb_events b)" and "limit \<noteq> Some 0"
    and "length (sb_events b) - si_read_position (sb_info b) < fuel"
  shows "poll_all fuel stream limit db = Some (drop (si_read_position (sb_info b)) (sb_events b))"
  using assms
proof (induction fuel arbitrary: db b)
  case (Suc fuel)
  define n where "n = (case limit of Some n \<Rightarrow> n | None \<Rightarrow> 100)"
  let ?k = "si_read_position (sb_info b)"
  define t where "t = take n (drop ?k (sb_events b))"
  define info where "info = (if t = [] then sb_info b else (sb_info b)\<lparr>si_read_position := ?k + length t\<rparr>)"
  define db' where "db' = db\<lparr>cc_streams := AList.update stream (b\<lparr>sb_info := info\<rparr>) (cc_streams db)\<rparr>"
  have n: "0 < n" using Suc.prems(5) by (cases limit) (auto simp: n_def)
  have info': "info = (if t = [] then sb_info b else (sb_info b)\<lparr>si_read_position := be_seq (last t) + 1\<rparr>)"
    using last_seq [OF Suc.prems(2), of n ?k] by (simp add: info_def t_def)
  have "poll_buffer None limit b = ((info, t), b\<lparr>sb_info := info\<rparr>)"
    by (simp only: poll_buffer_def Let_def option.case n_def [symmetric] t_def [symmetric] info' [symmetric])
  then have poll: "stream_poll stream None limit db = (Inr (info, t), db')"
    using Suc.prems(1) by (simp add: stream_poll_def with_stream_present db'_def)
  have read: "si_read_position info = ?k + length t" "si_event_count info = length (sb_events b)"
    using Suc.prems(3) by (simp_all add: info_def)
  have b': "map_of (cc_streams db') stream = Some (b\<lparr>sb_info := info\<rparr>)" by (simp add: db'_def update_conv')
  have t: "t @ drop (?k + length t) (sb_events b) = drop ?k (sb_events b)"
    unfolding t_def by (metis add.commute append_take_drop_id drop_drop length_take min.absorb_iff2 min_def take_all_iff)
  show ?case
  proof (cases "?k + length t < length (sb_events b)")
    case True
    have "0 < length t" using True n by (simp add: t_def)
    then have "length (sb_events b) - (?k + length t) < fuel" using Suc.prems(6) True by linarith
    with Suc.IH [OF b'] have "poll_all fuel stream limit db' = Some (drop (?k + length t) (sb_events b))"
      using Suc.prems(2,5) True by (simp add: read numbered_def)
    then show ?thesis using True poll t by (simp add: on_poll_def read)
  next
    case False
    then have "t = drop ?k (sb_events b)" using t by simp
    then show ?thesis using False poll by (simp add: on_poll_def read)
  qed
qed simp

text \<open>
  C27. A chat in the background delivers the chat: when \<open>chat_async\<close> has started it, its task has run and a
  client polls with any positive limit until nothing is left, the client ends and has received exactly
  the events that \<open>chat\<close> yields for the same session, prompt and events of the program, numbered
  from 0 (except the error that \<open>chat\<close> adds for a program that said nothing).
\<close>

theorem async_chat_delivers:
  assumes "on_chat_async name prompt eph stream db = (Inr (stream', sid), Some task, db1)"
    and "es = fst (on_chat env (\<lambda>_. raws) name prompt eph allowed n db)" and "last es \<noteq> Chat_Err no_response"
    and "limit \<noteq> Some 0" and "length es < fuel"
  shows "\<exists>got. poll_all fuel stream' limit (run_task env (\<lambda>_. raws) task n db1) = Some got \<and>
    map be_event got = es \<and> map be_seq got = [0..<length es]"
proof -
  obtain c where c: "session_get_by_name db name = Inr c"
    and started: "stream' = stream" "task = \<lparr>ct_config = c, ct_prompt = prompt, ct_ephemeral = (eph = Some True), ct_stream = stream\<rparr>"
    "db1 = stream_create (cf_id c) stream db"
    using assms(1) by (auto simp: on_chat_async_def split: sum.splits)
  have es: "es = ch_out (chat_turn env (\<lambda>_. raws) c prompt eph allowed db n)"
    using assms(2) c by (simp add: on_chat_def turn_of_def Let_def)
  from background_matches_foreground [OF assms(3) [unfolded es]] obtain b
    where b: "map_of (cc_streams (run_task env (\<lambda>_. raws) task n db1)) stream = Some b" "buffered b es"
    unfolding started run_task_def es by auto
  have len: "length (sb_events b) = length es" using b(2) by (auto simp: buffered_def)
  have "numbered b" using b(2) by (simp add: buffered_def numbered_def len)
  from poll_all_drains [OF b(1) this _ _ assms(4), of fuel]
  have "poll_all fuel stream limit (run_task env (\<lambda>_. raws) task n db1) = Some (sb_events b)"
    using b(2) assms(5) len by (simp add: buffered_def)
  then show ?thesis using b(2) by (simp add: started(1) buffered_def)
qed

lemma async_chat_delivers_witness:
  "map_option length (poll_all 4 ''z'' (Some 1)
     (let (r, task, db) = on_chat_async ''chat'' ''Hello'' None ''z'' demo_claude
      in run_task demo_env (\<lambda>_. demo_raws) (the task) 0 db)) = Some 3"
proof -
  have name: "cf_name demo_config = ''chat''" "session_get_by_name demo_claude ''chat'' = Inr demo_config" by code_simp+
  obtain k db where a: "on_chat_async ''chat'' ''Hello'' None ''z'' demo_claude = (Inr (''z'', cf_id demo_config), Some k, db)"
    by (simp add: on_chat_async_def name)
  have es: "fst (on_chat demo_env (\<lambda>_. demo_raws) ''chat'' ''Hello'' None None 0 demo_claude) = ch_out demo_turn"
    by (simp add: on_chat_def turn_of_def name demo_turn_def Let_def)
  from async_chat_delivers [OF a refl, of demo_env demo_raws None 0 "Some 1" 4] obtain got
    where "poll_all 4 ''z'' (Some 1) (run_task demo_env (\<lambda>_. demo_raws) k 0 db) = Some got" "map be_event got = ch_out demo_turn"
    unfolding es by (auto simp: demo_out)
  moreover from this(2) have "length got = 3" using length_map [of be_event got] by (simp add: demo_out)
  ultimately show ?thesis using a by simp
qed

subsection \<open>New sessions and forks\<close>

text \<open>The tree of a new session holds its root and nothing else.\<close>

definition only_root :: "arbor_db \<Rightarrow> arbor_id \<Rightarrow> arbor_id \<Rightarrow> bool" where
  "only_root a t r \<longleftrightarrow> map_sum id at_root (tree_get a t) = Inr r \<and>
     (\<exists>row. filter (\<lambda>x. nr_tree x = t) (ar_nodes a) = [row] \<and> nr_id row = r \<and> nr_parent row = None \<and> nr_data row = Text_Node [])"

lemma tree_created:
  assumes "arbor_ok a" and "tree_create metadata owner t r a = (Inr t', a')"
  shows "t' = t \<and> only_root a' t r \<and> (\<forall>x \<in> set (ar_nodes a). nr_id x \<noteq> r \<and> nr_tree x \<noteq> t)"
proof -
  have new: "t \<notin> tr_id ` set (ar_trees a)" "r \<notin> nr_id ` set (ar_nodes a)"
    using assms(2) by (auto simp: tree_create_def tree_create_with_id_def Let_def tree_row_def node_row_def row_by_None_iff split: if_splits)
  then have old: "\<forall>x \<in> set (ar_nodes a). nr_id x \<noteq> r \<and> nr_tree x \<noteq> t" using assms(1) by (auto simp: arbor_ok_def nodes_ok_def)
  then have "filter (\<lambda>x. nr_tree x = t) (ar_nodes a) = []" by (simp add: filter_empty_conv)
  moreover have a': "t' = t" "ar_nodes a' = ar_nodes a @ [\<lparr>nr_id = r, nr_tree = t, nr_parent = None, nr_ref_count = 1, nr_state = ''active'',
        nr_scheduled_at = None, nr_archived_at = None, nr_data = Text_Node [], nr_created_at = ar_clock a, nr_metadata = None\<rparr>]"
      "\<exists>row. ar_trees a' = ar_trees a @ [row] \<and> tr_id row = t \<and> tr_root row = r \<and> tr_state row = ''active''"
    using assms(2) by (auto simp: tree_create_def tree_create_with_id_def Let_def split: if_splits)
  ultimately have "\<exists>row. filter (\<lambda>x. nr_tree x = t) (ar_nodes a') = [row] \<and> nr_id row = r \<and> nr_parent row = None \<and> nr_data row = Text_Node []"
    by simp
  moreover from a'(3) obtain row where "tree_row a' t = Some row" "tr_root row = r" "tr_state row = ''active''"
    using row_by_None_iff [of tr_id t "ar_trees a"] new(1) by (auto simp: tree_row_def row_by_append)
  then have "map_sum id at_root (tree_get a' t) = Inr r"
    by (simp add: tree_get_def tree_get_internal_def read_state_def resource_state_of_str_def)
  ultimately show ?thesis using old a'(1) by (simp add: only_root_def)
qed

lemma only_root_path:
  assumes "only_root a t r"
  shows "node_get_path a t i = Some (if i = r then Inr [r] else Inl (Arbor_Node_Not_Found i t))"
    and "conversation jc a \<lparr>ps_tree = t, ps_node = r\<rparr> r []"
proof -
  obtain row where row: "filter (\<lambda>x. nr_tree x = t) (ar_nodes a) = [row]" "nr_id row = r" "nr_parent row = None" "nr_data row = Text_Node []"
    using assms by (auto simp: only_root_def)
  have "find (\<lambda>x. nr_tree x = t \<and> nr_id x = k) xs = find (\<lambda>x. nr_id x = k) (filter (\<lambda>x. nr_tree x = t) xs)" for k and xs :: "arbor_node_row list"
    by (induction xs) auto
  then have f: "find (\<lambda>x. nr_tree x = t \<and> nr_id x = k) (ar_nodes a) = (if k = r then Some row else None)" for k
    using row by auto
  have root: "lineage (parent_in a t) r [r] None" by (rule lineage.root) (simp add: parent_in_def f row)
  moreover have "lineage (parent_in a t) i [] (Some i)" if "i \<noteq> r" by (rule lineage.unknown) (simp add: parent_in_def f that)
  ultimately show path: "node_get_path a t i = Some (if i = r then Inr [r] else Inl (Arbor_Node_Not_Found i t))"
    using node_get_path_lineage by (cases "i = r") fastforce+
  have "node_get_path a t r = Some (Inr [r])" using node_get_path_lineage [OF root] by simp
  moreover have "\<exists>n. node_get a t r = Inr n \<and> an_data n = Text_Node []" by (simp add: node_get_row f row)
  ultimately have "path_data a t r [r] [Text_Node []]" by (simp add: path_data_def)
  moreover have "render_data jc [Text_Node []] ([], None, []) = Inr ([], None, [])" by (simp add: render_node_data_def trim_def trim_end_def trim_start.simps trim_rev.simps)
  ultimately show "conversation jc a \<lparr>ps_tree = t, ps_node = r\<rparr> r []" unfolding conversation_def position.select_convs by blast
qed

text \<open>What \<open>session_create\<close> leaves behind.\<close>

lemma session_created:
  assumes ok: "arbor_ok (cc_arbor db)" "claude_ok db"
    and c: "session_create name wd model prompt mcp lb cid lid metadata sid t r db = (Inr c, db')"
  shows "claude_ok db' \<and> session_get db' sid = Inr c \<and> cf_id c = sid \<and> cf_head c = \<lparr>ps_tree = t, ps_node = r\<rparr> \<and>
    only_root (cc_arbor db') t r \<and> (\<forall>x \<in> set (ar_nodes (cc_arbor db)). nr_id x \<noteq> r \<and> nr_tree x \<noteq> t)"
proof -
  obtain x a where tc: "tree_create metadata sid t r (cc_arbor db) = (x, a)" by fastforce
  then obtain t' where x: "x = Inr t'" using c by (cases x) (auto simp: session_create_def in_arbor_def)
  from tree_created [OF ok(1) tc [unfolded x]] have tree: "t' = t" "only_root a t r"
    "\<forall>x \<in> set (ar_nodes (cc_arbor db)). nr_id x \<noteq> r \<and> nr_tree x \<noteq> t" by blast+
  obtain tr where got: "tree_get a t = Inr tr" "at_root tr = r" using tree(2) by (cases "tree_get a t") (auto simp: only_root_def)
  define row where "row = \<lparr>se_id = sid, se_name = name, se_claude_id = cid, se_loopback_id = lid, se_tree = t,
          se_head = r, se_working_dir = wd, se_model = model_str model, se_prompt = prompt,
          se_mcp = mcp, se_loopback = lb, se_metadata = metadata, se_created_at = ar_clock a, se_updated_at = ar_clock a\<rparr>"
  define config where "config = \<lparr>cf_id = sid, cf_name = name, cf_claude_id = cid, cf_loopback_id = lid,
          cf_head = \<lparr>ps_tree = t, ps_node = r\<rparr>, cf_working_dir = wd, cf_model = model,
          cf_prompt = prompt, cf_mcp = mcp, cf_loopback = lb, cf_metadata = metadata,
          cf_created_at = ar_clock a, cf_updated_at = ar_clock a\<rparr>"
  have store: "store_session row config (db\<lparr>cc_arbor := a\<rparr>) = (Inr c, db')"
    using c tc got by (simp add: session_create_def in_arbor_def x tree(1) cc_now_def row_def config_def)
  have get: "session_get (db\<lparr>cc_arbor := a, cc_sessions := cc_sessions db @ [row\<lparr>se_name := n\<rparr>]\<rparr>) sid = Inr (config\<lparr>cf_name := n\<rparr>)"
    if "sid \<notin> se_id ` set (cc_sessions db)" for n
    using that by (simp add: session_get_def row_by_append row_by_None_iff [THEN iffD2] row_def config_def row_to_config_def)
  have "row\<lparr>se_name := name\<rparr> = row" "config\<lparr>cf_name := name\<rparr> = config" by (simp_all add: row_def config_def)
  moreover have ids: "se_id row = sid" "se_name row = name" by (simp_all add: row_def)
  ultimately have "session_get db' sid = Inr c \<and> cc_arbor db' = a \<and> (\<exists>n. c = config\<lparr>cf_name := n\<rparr>)"
    using store get [of name] get [of "name @ ''#'' @ sid"]
    by (auto simp: store_session_def insert_session_def Let_def split: if_splits) (metis \<open>config\<lparr>cf_name := name\<rparr> = config\<close>)+
  moreover have "claude_ok db'" using session_create_ok [OF ok(2)] c by (metis snd_conv)
  ultimately show ?thesis using tree by (auto simp: config_def)
qed

lemma head_updated:
  assumes ok: "claude_ok db" and get: "session_get db sid = Inr c" and up: "session_update_head sid i None db = (Inr (), db')"
  shows "cc_arbor db' = cc_arbor db \<and> claude_ok db' \<and>
    session_get db' sid = Inr (c\<lparr>cf_head := \<lparr>ps_tree = ps_tree (cf_head c), ps_node = i\<rparr>, cf_updated_at := cc_now db\<rparr>)"
proof -
  obtain row where row: "row_by se_id sid (cc_sessions db) = Some row" "row_to_config row = Inr c"
    using get by (auto simp: session_get_def split: option.splits)
  have db': "db' = update_session sid (\<lambda>r. r\<lparr>se_head := i, se_updated_at := cc_now db\<rparr>) db"
    using up by (simp add: session_update_head_def split: if_splits)
  then have "session_get db' sid = row_to_config (row\<lparr>se_head := i, se_updated_at := cc_now db\<rparr>)"
    using row(1) by (simp add: session_get_def update_session_def row_by_update_where)
  moreover have "claude_ok db'" using head_ok [OF ok, of sid i None] up by simp
  ultimately show ?thesis using row(2) db' by (auto simp: row_to_config_def update_session_def split: option.splits)
qed

text \<open>
  A session that \<open>create\<close> has made is there at once: the gate opens for its id, its configuration has the
  head that was answered, and its conversation is empty, both abstractly and as \<open>render_context\<close>
  shows it.
\<close>

theorem new_session_is_empty:
  assumes "arbor_ok (cc_arbor db)" and "claude_ok db" and "parse_uuid sid = Some sid"
    and "on_create canonicalize unreachable name wd model prompt loopback lid sid t r db = (Inr (i, head), db')"
  shows "\<exists>c. i = sid \<and> session_gate parse_uuid i db' = Some i \<and> gate_get i db' = Inr c \<and> cf_head c = head \<and>
     conversation jc (cc_arbor db') head r [] \<and> on_render_context jc (cf_name c) None None db' = Some (Inr [])"
proof -
  obtain wd' c where "session_create name wd' model prompt None (loopback = Some True) None lid None sid t r db = (Inr c, db')"
    and i: "i = cf_id c" "head = cf_head c"
    using assms(4) by (auto simp: on_create_def Let_def answer_def split: sum.splits option.splits prod.splits)
  from session_created [OF assms(1,2) this(1)] have ok: "claude_ok db'" and get: "session_get db' sid = Inr c"
    and c: "cf_id c = sid" "cf_head c = \<lparr>ps_tree = t, ps_node = r\<rparr>" and root: "only_root (cc_arbor db') t r" by blast+
  have "session_exists db' sid" using get by (auto simp: session_get_def session_exists_def split: option.splits dest!: row_by_Some_in)
  then have gate: "session_gate parse_uuid sid db' = Some sid" by (simp add: session_gate_def assms(3))
  have conv: "conversation jc (cc_arbor db') head r []" using only_root_path(2) [OF root] c i by simp
  have "map_sum arbor_error_text at_root (tree_get (cc_arbor db') t) = Inr r"
    using root by (cases "tree_get (cc_arbor db') t") (simp_all add: only_root_def)
  then have "on_render_context jc (cf_name c) None None db' = Some (Inr [])"
    using conversation_render [OF conv] get_by_exact_name [OF ok get] c i by (simp add: on_render_context_def)
  then show ?thesis using gate get c i conv by (auto simp: gate_get_def)
qed

lemma new_session_is_empty_witness:
  "on_render_context demo_codec (cf_name (projr (gate_get ''s'' demo_claude))) None None demo_claude = Some (Inr [])"
proof -
  have ok: "arbor_ok (cc_arbor (empty_claude 5))" "claude_ok (empty_claude 5)"
    using empty_ok by (simp_all add: empty_claude_def claude_ok_def)
  obtain res db where c: "on_create Inr None ''chat'' ''/w'' Sonnet None None None ''s'' ''t'' ''r'' (empty_claude 5) = (res, db)" by fastforce
  have "(res, db) = (Inr (''s'', \<lparr>ps_tree = ''t'', ps_node = ''r''\<rparr>), demo_claude)" unfolding c [symmetric] by code_simp
  with c have "on_create Inr None ''chat'' ''/w'' Sonnet None None None ''s'' ''t'' ''r'' (empty_claude 5) =
      (Inr (''s'', \<lparr>ps_tree = ''t'', ps_node = ''r''\<rparr>), demo_claude)" by simp
  from new_session_is_empty [OF ok _ this, of Some demo_codec] show ?thesis by auto
qed

text \<open>
  C29. A fork loses its conversation: right after a successful \<open>fork\<close> the answer names the head of the parent,
  but the stored head of the new session combines the node of the parent with the tree of the new
  session, in which that node does not exist, so that \<open>render_context\<close> fails for the fork, while the
  position that was answered still holds the parent's conversation.
\<close>

theorem fork_loses_conversation:
  assumes "arbor_ok (cc_arbor db)" and "claude_ok db" and "session_get_by_name db name = Inr p"
    and "conversation jc (cc_arbor db) (cf_head p) root ms"
    and "on_fork name new_name sid t r db = (Inr (i, head), db')"
  shows "\<exists>c. i = sid \<and> head = cf_head p \<and> session_get db' sid = Inr c \<and>
     cf_head c = \<lparr>ps_tree = t, ps_node = ps_node head\<rparr> \<and> ps_tree head \<noteq> t \<and>
     on_render_context jc (cf_name c) None None db' =
       Some (Inl (claude_error_text (Claude_Arbor (arbor_error_text (Arbor_Node_Not_Found (ps_node head) t)))))"
proof -
  obtain c db1 where sc: "session_create new_name (cf_working_dir p) (cf_model p) (cf_prompt p) (cf_mcp p) (cf_loopback p)
      None None None sid t r db = (Inr c, db1)"
    and up: "session_update_head (cf_id c) (ps_node (cf_head p)) None db1 = (Inr (), db')" and i: "i = cf_id c" "head = cf_head p"
    using assms(3,5) by (auto simp: on_fork_def answer_def split: sum.splits prod.splits)
  from session_created [OF assms(1,2) sc] have ok: "claude_ok db1" and get: "session_get db1 sid = Inr c"
    and c: "cf_id c = sid" "cf_head c = \<lparr>ps_tree = t, ps_node = r\<rparr>" and root: "only_root (cc_arbor db1) t r"
    and old: "\<forall>x \<in> set (ar_nodes (cc_arbor db)). nr_id x \<noteq> r \<and> nr_tree x \<noteq> t" by blast+
  let ?c = "c\<lparr>cf_head := \<lparr>ps_tree = t, ps_node = ps_node head\<rparr>, cf_updated_at := cc_now db1\<rparr>"
  have a: "cc_arbor db' = cc_arbor db1" and ok': "claude_ok db'" and new: "session_get db' sid = Inr ?c"
    using head_updated [OF ok get, of "ps_node (cf_head p)" db'] up c i(2) by simp_all
  obtain ids ds where path: "path_data (cc_arbor db) (ps_tree head) (ps_node head) (root # ids) ds"
    using assms(4) i(2) by (auto simp: conversation_def)
  then have "lineage (parent_in (cc_arbor db) (ps_tree head)) (ps_node head) (rev (root # ids)) None"
    unfolding path_data_def using node_get_path_ok [OF assms(1)] by blast
  then have "parent_in (cc_arbor db) (ps_tree head) (ps_node head) \<noteq> None" by (cases rule: lineage.cases) simp_all
  then obtain x where "find (\<lambda>r. nr_tree r = ps_tree head \<and> nr_id r = ps_node head) (ar_nodes (cc_arbor db)) = Some x"
    by (auto simp: parent_in_def)
  then have "x \<in> set (ar_nodes (cc_arbor db)) \<and> nr_tree x = ps_tree head \<and> nr_id x = ps_node head"
    using find_in by fastforce
  then have differ: "ps_node head \<noteq> r" "ps_tree head \<noteq> t" using old by auto
  have "node_get_path (cc_arbor db1) t (ps_node head) = Some (Inl (Arbor_Node_Not_Found (ps_node head) t))"
    using only_root_path(1) [OF root] differ(1) by simp
  moreover have "map_sum arbor_error_text at_root (tree_get (cc_arbor db1) t) = Inr r"
    using root by (cases "tree_get (cc_arbor db1) t") (simp_all add: only_root_def)
  ultimately have "on_render_context jc (cf_name ?c) None None db' =
      Some (Inl (claude_error_text (Claude_Arbor (arbor_error_text (Arbor_Node_Not_Found (ps_node head) t)))))"
    using get_by_exact_name [OF ok' new] by (simp add: on_render_context_def render_messages_def a Let_def)
  then show ?thesis using new differ(2) i c by (intro exI [of _ ?c]) simp
qed

lemma fork_loses_conversation_witness:
  "on_render_context demo_codec ''fork'' None None (snd (on_fork ''chat'' ''fork'' ''s2'' ''t2'' ''r2'' demo_claude)) =
     Some (Inl (claude_error_text (Claude_Arbor (arbor_error_text (Arbor_Node_Not_Found ''r'' ''t2'')))))"
proof -
  have conf: "session_get_by_name demo_claude ''chat'' = Inr demo_config" by code_simp
  have ok: "claude_ok demo_claude" by (rule claude_reachable_ok [OF demo_claude_reachable])
  obtain res db where f: "on_fork ''chat'' ''fork'' ''s2'' ''t2'' ''r2'' demo_claude = (res, db)" by fastforce
  have "fst (on_fork ''chat'' ''fork'' ''s2'' ''t2'' ''r2'' demo_claude) = Inr (''s2'', \<lparr>ps_tree = ''t'', ps_node = ''r''\<rparr>)"
    "cf_name (projr (session_get (snd (on_fork ''chat'' ''fork'' ''s2'' ''t2'' ''r2'' demo_claude)) ''s2'')) = ''fork''" by code_simp+
  with f have g: "on_fork ''chat'' ''fork'' ''s2'' ''t2'' ''r2'' demo_claude = (Inr (''s2'', \<lparr>ps_tree = ''t'', ps_node = ''r''\<rparr>), db)"
    "cf_name (projr (session_get db ''s2'')) = ''fork''" by simp_all
  from fork_loses_conversation [OF demo_arbor ok conf demo_conversation g(1)] g(2) show ?thesis by (auto simp: f)
qed

end
