(* ===== verification/Claude_Files.thy ===== *)
theory Claude_Files
  imports Claude_Render
begin

text \<open>
  The session files of the Claude program, \<^verbatim>\<open>src/src/activations/claudecode/sessions.rs\<close>: their
  events with the JSON form that the \<open>serde\<close> attributes define, the operations on the files, and the
  import into Arbor and export from it.

  The file system is the association list of the paths and contents of its files; a path is a text, as
  \<open>PathBuf::join\<close> builds it. Errors of the operating system other than a missing file are not
  modelled; \<open>create_dir_all\<close> has no counterpart because a directory is just a common prefix.
\<close>

subsection \<open>Events of a session file\<close>

datatype file_block =
    File_Text string
  | File_Tool_Use string string json
  | File_Tool_Result string string "bool option"
  | File_Thinking string "string option"

datatype assistant_message =
    Full_Message string "file_block list" "string option" "string option" "string option" "json option"
  | Simple_Message string

record user_event =
  ur_uuid :: string
  ur_parent :: "string option"
  ur_session :: string
  ur_timestamp :: string
  ur_cwd :: string
  ur_role :: string
  ur_content :: string
  ur_sidechain :: "bool option"
  ur_branch :: "string option"

record assistant_event =
  as_uuid :: string
  as_parent :: "string option"
  as_session :: string
  as_timestamp :: string
  as_cwd :: "string option"
  as_body :: assistant_message
  as_request :: "string option"

record system_event =
  sy_uuid :: string
  sy_session :: string
  sy_timestamp :: string
  sy_message :: string

datatype session_event =
    Session_User user_event
  | Session_Assistant assistant_event
  | Session_System system_event
  | File_Snapshot "string option"
  | Queue_Operation string string string
  | Session_Unknown

subsection \<open>Writing them\<close>

fun file_block_json :: "file_block \<Rightarrow> json" where
  "file_block_json (File_Text t) = JObj [(''type'', JStr ''text''), (''text'', JStr t)]"
| "file_block_json (File_Tool_Use i n v) =
     JObj [(''type'', JStr ''tool_use''), (''id'', JStr i), (''name'', JStr n), (''input'', v)]"
| "file_block_json (File_Tool_Result i c e) =
     JObj [(''type'', JStr ''tool_result''), (''tool_use_id'', JStr i), (''content'', JStr c), (''is_error'', opt_json JBool e)]"
| "file_block_json (File_Thinking t s) =
     JObj [(''type'', JStr ''thinking''), (''thinking'', JStr t), (''signature'', opt_json JStr s)]"

fun assistant_message_json :: "assistant_message \<Rightarrow> json" where
  "assistant_message_json (Full_Message r bs m i s u) =
     JObj [(''role'', JStr r), (''content'', JArr (map file_block_json bs)), (''model'', opt_json JStr m),
       (''id'', opt_json JStr i), (''stop_reason'', opt_json JStr s), (''usage'', opt_json (\<lambda>v. v) u)]"
| "assistant_message_json (Simple_Message t) = JStr t"

fun session_event_json :: "session_event \<Rightarrow> json" where
  "session_event_json (Session_User u) = JObj
     [(''type'', JStr ''user''), (''uuid'', JStr (ur_uuid u)), (''parentUuid'', opt_json JStr (ur_parent u)),
      (''sessionId'', JStr (ur_session u)), (''timestamp'', JStr (ur_timestamp u)), (''cwd'', JStr (ur_cwd u)),
      (''message'', JObj [(''role'', JStr (ur_role u)), (''content'', JStr (ur_content u))]),
      (''isSidechain'', opt_json JBool (ur_sidechain u)), (''gitBranch'', opt_json JStr (ur_branch u))]"
| "session_event_json (Session_Assistant a) = JObj
     [(''type'', JStr ''assistant''), (''uuid'', JStr (as_uuid a)), (''parentUuid'', opt_json JStr (as_parent a)),
      (''sessionId'', JStr (as_session a)), (''timestamp'', JStr (as_timestamp a)), (''cwd'', opt_json JStr (as_cwd a)),
      (''message'', assistant_message_json (as_body a)), (''requestId'', opt_json JStr (as_request a))]"
| "session_event_json (Session_System s) = JObj
     [(''type'', JStr ''system''), (''uuid'', JStr (sy_uuid s)), (''sessionId'', JStr (sy_session s)),
      (''timestamp'', JStr (sy_timestamp s)), (''message'', JStr (sy_message s))]"
| "session_event_json (File_Snapshot t) = JObj [(''type'', JStr ''file-history-snapshot''), (''timestamp'', opt_json JStr t)]"
| "session_event_json (Queue_Operation op t s) = JObj
     [(''type'', JStr ''queue-operation''), (''operation'', JStr op), (''timestamp'', JStr t), (''sessionId'', JStr s)]"
| "session_event_json Session_Unknown = JObj [(''type'', JStr ''unknown'')]"

subsection \<open>Reading them\<close>

text \<open>
  A struct with a \<open>flatten\<close> field, or a variant of an untagged enum, is only read from an object; the
  other structs from an array as well.
\<close>

fun object_fields :: "json \<Rightarrow> (string \<Rightarrow> json option) option" where
  "object_fields (JObj kvs) = Some (map_of kvs)"
| "object_fields _ = None"

fun all_some :: "'a option list \<Rightarrow> 'a list option" where
  "all_some [] = Some []"
| "all_some (None # xs) = None"
| "all_some (Some x # xs) = map_option (Cons x) (all_some xs)"

definition file_block_of_json :: "json \<Rightarrow> file_block option" where
  "file_block_of_json v = Option.bind (untag v) (\<lambda>(t, body).
     if t = ''text'' then
       Option.bind (fields_of [''text''] body) (\<lambda>f. map_option File_Text (as_str (f ''text'')))
     else if t = ''tool_use'' then
       Option.bind (fields_of [''id'', ''name'', ''input''] body) (\<lambda>f.
       Option.bind (as_str (f ''id'')) (\<lambda>i. Option.bind (as_str (f ''name'')) (\<lambda>n.
       map_option (File_Tool_Use i n) (f ''input''))))
     else if t = ''tool_result'' then
       Option.bind (fields_of [''tool_use_id'', ''content'', ''is_error''] body) (\<lambda>f.
       Option.bind (as_str (f ''tool_use_id'')) (\<lambda>i. Option.bind (as_str (f ''content'')) (\<lambda>c.
       map_option (File_Tool_Result i c) (as_opt as_bool (f ''is_error'')))))
     else if t = ''thinking'' then
       Option.bind (fields_of [''thinking'', ''signature''] body) (\<lambda>f.
       Option.bind (as_str (f ''thinking'')) (\<lambda>s. map_option (File_Thinking s) (as_opt as_str (f ''signature''))))
     else None)"

fun blocks_of_json :: "json option \<Rightarrow> file_block list option" where
  "blocks_of_json (Some (JArr vs)) = all_some (map file_block_of_json vs)"
| "blocks_of_json _ = None"

definition full_message_of_json :: "json \<Rightarrow> assistant_message option" where
  "full_message_of_json v = Option.bind (object_fields v) (\<lambda>f.
     Option.bind (as_str (f ''role'')) (\<lambda>r. Option.bind (blocks_of_json (f ''content'')) (\<lambda>bs.
     Option.bind (as_opt as_str (f ''model'')) (\<lambda>m. Option.bind (as_opt as_str (f ''id'')) (\<lambda>i.
     Option.bind (as_opt as_str (f ''stop_reason'')) (\<lambda>s. Option.bind (as_opt (\<lambda>x. x) (f ''usage'')) (\<lambda>u.
       Some (Full_Message r bs m i s u))))))))"

definition assistant_message_of_json :: "json \<Rightarrow> assistant_message option" where
  "assistant_message_of_json v =
     (case full_message_of_json v of Some m \<Rightarrow> Some m | None \<Rightarrow> map_option Simple_Message (as_str (Some v)))"

definition user_message_of_json :: "json \<Rightarrow> (string \<times> string) option" where
  "user_message_of_json v = Option.bind (fields_of [''role'', ''content''] v) (\<lambda>f.
     Option.bind (as_str (f ''role'')) (\<lambda>r. map_option (Pair r) (as_str (f ''content''))))"

definition user_event_of_json :: "json \<Rightarrow> user_event option" where
  "user_event_of_json v = Option.bind (object_fields v) (\<lambda>f.
     Option.bind (as_str (f ''uuid'')) (\<lambda>u. Option.bind (as_opt as_str (f ''parentUuid'')) (\<lambda>p.
     Option.bind (as_str (f ''sessionId'')) (\<lambda>s. Option.bind (as_str (f ''timestamp'')) (\<lambda>t.
     Option.bind (as_str (f ''cwd'')) (\<lambda>w. Option.bind (Option.bind (f ''message'') user_message_of_json) (\<lambda>(r, c).
     Option.bind (as_opt as_bool (f ''isSidechain'')) (\<lambda>b. Option.bind (as_opt as_str (f ''gitBranch'')) (\<lambda>g.
       Some \<lparr>ur_uuid = u, ur_parent = p, ur_session = s, ur_timestamp = t, ur_cwd = w, ur_role = r, ur_content = c,
         ur_sidechain = b, ur_branch = g\<rparr>)))))))))"

definition assistant_event_of_json :: "json \<Rightarrow> assistant_event option" where
  "assistant_event_of_json v = Option.bind (object_fields v) (\<lambda>f.
     Option.bind (as_str (f ''uuid'')) (\<lambda>u. Option.bind (as_opt as_str (f ''parentUuid'')) (\<lambda>p.
     Option.bind (as_str (f ''sessionId'')) (\<lambda>s. Option.bind (as_str (f ''timestamp'')) (\<lambda>t.
     Option.bind (as_opt as_str (f ''cwd'')) (\<lambda>w. Option.bind (Option.bind (f ''message'') assistant_message_of_json) (\<lambda>m.
     Option.bind (as_opt as_str (f ''requestId'')) (\<lambda>q.
       Some \<lparr>as_uuid = u, as_parent = p, as_session = s, as_timestamp = t, as_cwd = w, as_body = m, as_request = q\<rparr>))))))))"

definition system_event_of_json :: "json \<Rightarrow> system_event option" where
  "system_event_of_json v = Option.bind (object_fields v) (\<lambda>f.
     Option.bind (as_str (f ''uuid'')) (\<lambda>u. Option.bind (as_str (f ''sessionId'')) (\<lambda>s.
     Option.bind (as_str (f ''timestamp'')) (\<lambda>t. Option.bind (as_str (f ''message'')) (\<lambda>m.
       Some \<lparr>sy_uuid = u, sy_session = s, sy_timestamp = t, sy_message = m\<rparr>)))))"

definition session_event_of_json :: "json \<Rightarrow> session_event option" where
  "session_event_of_json v = Option.bind (untag v) (\<lambda>(t, body).
     if t = ''user'' then map_option Session_User (user_event_of_json body)
     else if t = ''assistant'' then map_option Session_Assistant (assistant_event_of_json body)
     else if t = ''system'' then map_option Session_System (system_event_of_json body)
     else if t = ''file-history-snapshot'' then
       Option.bind (fields_of [''timestamp''] body) (\<lambda>f. map_option File_Snapshot (as_opt as_str (f ''timestamp'')))
     else if t = ''queue-operation'' then
       Option.bind (fields_of [''operation'', ''timestamp'', ''sessionId''] body) (\<lambda>f.
       Option.bind (as_str (f ''operation'')) (\<lambda>op. Option.bind (as_str (f ''timestamp'')) (\<lambda>t.
       map_option (Queue_Operation op t) (as_str (f ''sessionId'')))))
     else Some Session_Unknown)"

lemma as_opt_read [simp]:
  "as_opt as_str (Some (opt_json JStr x)) = Some x"
  "as_opt as_bool (Some (opt_json JBool b)) = Some b"
  by (cases x; cases b; simp add: opt_json_def)+

lemma file_block_roundtrip [simp]: "file_block_of_json (file_block_json b) = Some b"
  by (cases b) (simp_all add: file_block_of_json_def)

lemma all_some_map [simp]: "all_some (map (\<lambda>x. Some (f x)) xs) = Some (map f xs)"
  by (induction xs) simp_all

text \<open>The one event that does not survive: a \<open>usage\<close> that is present but \<open>null\<close> reads as absent.\<close>

fun carried :: "session_event \<Rightarrow> bool" where
  "carried (Session_Assistant a) = (case as_body a of Full_Message r bs m i s u \<Rightarrow> u \<noteq> Some JNull | _ \<Rightarrow> True)"
| "carried _ = True"

lemma message_roundtrip:
  assumes "case m of Full_Message r bs md i s u \<Rightarrow> u \<noteq> Some JNull | _ \<Rightarrow> True"
  shows "assistant_message_of_json (assistant_message_json m) = Some m"
proof (cases m)
  case (Full_Message r bs md i s u)
  have "as_opt (\<lambda>x. x) (Some (opt_json (\<lambda>v. v) u)) = Some u"
  proof (cases u)
    case (Some v)
    then show ?thesis using assms Full_Message by (cases v) (simp_all add: opt_json_def)
  qed (simp add: opt_json_def)
  then show ?thesis by (simp add: Full_Message assistant_message_of_json_def full_message_of_json_def comp_def)
qed (simp add: assistant_message_of_json_def full_message_of_json_def)

lemma session_event_roundtrip:
  assumes "carried e"
  shows "session_event_of_json (session_event_json e) = Some e"
proof (cases e)
  case (Session_Assistant a)
  then show ?thesis using assms
    by (simp add: session_event_of_json_def assistant_event_of_json_def message_roundtrip)
qed (simp_all add: session_event_of_json_def user_event_of_json_def user_message_of_json_def system_event_of_json_def)

end
