(* ===== verification/Claude_Transfer.thy ===== *)
theory Claude_Transfer
  imports Claude_Files Arbor_Views
begin

text \<open>
  Session files and Arbor: reading, appending to, listing and deleting the files, and the two
  directions of the transfer, \<open>import_to_arbor\<close> and \<open>export_from_arbor\<close>
  (\<^verbatim>\<open>src/src/activations/claudecode/sessions.rs\<close>). New UUIDs, the time stamps and the working
  directory that an export writes are arguments.
\<close>

subsection \<open>Paths and files\<close>

type_synonym session_files = "(string \<times> string) list"

definition path_join :: "string \<Rightarrow> string \<Rightarrow> string" where
  "path_join base p =
     (if starts_with ''/'' p then p
      else if base = [] \<or> last base = CHR ''/'' then base @ p else base @ ''/'' @ p)"

definition get_sessions_base_dir :: "string \<Rightarrow> string" where
  "get_sessions_base_dir home = path_join (path_join home ''.claude'') ''projects''"

definition get_session_path :: "string \<Rightarrow> string \<Rightarrow> string \<Rightarrow> string" where
  "get_session_path home project sid = path_join (path_join (get_sessions_base_dir home) project) (sid @ ''.jsonl'')"

definition not_found :: "string \<Rightarrow> string" where
  "not_found sid = ''Session not found: '' @ sid"

text \<open>The sessions of a project: the stems of the files with the extension \<open>jsonl\<close> in its directory.\<close>

definition strip_suffix :: "string \<Rightarrow> string \<Rightarrow> string option" where
  "strip_suffix p s = map_option rev (strip_prefix (rev p) (rev s))"

definition jsonl_stem :: "string \<Rightarrow> string option" where
  "jsonl_stem name = (case strip_suffix ''.jsonl'' name of Some (c # cs) \<Rightarrow> Some (c # cs) | _ \<Rightarrow> None)"

definition entry_of :: "string \<Rightarrow> string \<Rightarrow> string option" where
  "entry_of dir path =
     (case strip_prefix (path_join dir []) path of
        Some name \<Rightarrow> if CHR ''/'' \<in> set name then None else Some name
      | None \<Rightarrow> None)"

definition list_sessions :: "string \<Rightarrow> session_files \<Rightarrow> string \<Rightarrow> string list" where
  "list_sessions home fs project =
     List.map_filter (\<lambda>(p, c). Option.bind (entry_of (path_join (get_sessions_base_dir home) project) p) jsonl_stem) fs"

text \<open>
  A line that does not parse is reported with its first hundred bytes and skipped. The slice panics when byte 100
  lies inside a character: \<open>None\<close>, here and in what reads a file.
\<close>

definition line_events :: "json_codec \<Rightarrow> string \<Rightarrow> session_event list option" where
  "line_events jc line =
     (if trim line = [] then Some []
      else case Option.bind (jc_parse jc line) session_event_of_json of
        Some e \<Rightarrow> Some [e]
      | None \<Rightarrow> (case slice_to (min (length line) 100) line of Ret shown \<Rightarrow> Some [] | _ \<Rightarrow> None))"

definition read_session ::
  "json_codec \<Rightarrow> string \<Rightarrow> session_files \<Rightarrow> string \<Rightarrow> string \<Rightarrow> (string + session_event list) option" where
  "read_session jc home fs project sid =
     (case map_of fs (get_session_path home project sid) of
        None \<Rightarrow> Some (Inl (not_found sid))
      | Some text \<Rightarrow> map_option (Inr \<circ> concat) (all_some (map (line_events jc) (text_lines text))))"

definition append_to_session :: "json_codec \<Rightarrow> string \<Rightarrow> string \<Rightarrow> string \<Rightarrow> session_event \<Rightarrow> session_files \<Rightarrow> session_files" where
  "append_to_session jc home project sid e fs =
     (let path = get_session_path home project sid;
          old = (case map_of fs path of Some s \<Rightarrow> s | None \<Rightarrow> [])
      in AList.update path (old @ jc_print jc (session_event_json e) @ newline) fs)"

definition delete_session :: "string \<Rightarrow> string \<Rightarrow> string \<Rightarrow> session_files \<Rightarrow> (string + unit) \<times> session_files" where
  "delete_session home project sid fs =
     (let path = get_session_path home project sid
      in if map_of fs path = None then (Inl (not_found sid), fs) else (Inr (), AList.delete path fs))"

subsection \<open>Import\<close>

definition file_block_event :: "file_block \<Rightarrow> node_event" where
  "file_block_event b = (case b of
      File_Text t \<Rightarrow> Content_Text t
    | File_Tool_Use i n v \<Rightarrow> Content_Tool_Use i n v
    | File_Tool_Result i c e \<Rightarrow> User_Tool_Result i c (e = Some True)
    | File_Thinking t s \<Rightarrow> Content_Thinking t)"

definition message_events :: "assistant_message \<Rightarrow> node_event list" where
  "message_events m = (case m of Full_Message r bs md i s u \<Rightarrow> map file_block_event bs | Simple_Message t \<Rightarrow> [])"

definition import_events :: "session_event \<Rightarrow> node_event list" where
  "import_events e = (case e of
      Session_User u \<Rightarrow> [User_Message (ur_content u)]
    | Session_Assistant a \<Rightarrow> Assistant_Start # message_events (as_body a) @ [Assistant_Complete None]
    | _ \<Rightarrow> [])"

text \<open>Every node goes below the one before it.\<close>

fun create_chain ::
  "json_codec \<Rightarrow> arbor_id \<Rightarrow> (nat \<Rightarrow> arbor_id) \<Rightarrow> nat \<Rightarrow> arbor_id \<Rightarrow> node_event list \<Rightarrow> arbor_db \<Rightarrow> (string, arbor_id, arbor_db) outcome" where
  "create_chain jc t ids n parent [] a = (Inr parent, a)"
| "create_chain jc t ids n parent (e # es) a =
     bind_res (create_event_node jc t parent e (ids n) a) (\<lambda>i a. create_chain jc t ids (n + 1) i es a)"

definition import_metadata :: "string \<Rightarrow> string \<Rightarrow> json" where
  "import_metadata project sid = JObj
     [(''source'', JStr ''claude_session_import''), (''session_id'', JStr sid), (''project_path'', JStr project)]"

definition text_error :: "(arbor_error + 'a) \<Rightarrow> string + 'a" where
  "text_error r = (case r of Inl e \<Rightarrow> Inl (arbor_error_text e) | Inr x \<Rightarrow> Inr x)"

definition import_to_arbor ::
  "json_codec \<Rightarrow> string \<Rightarrow> session_files \<Rightarrow> string \<Rightarrow> string \<Rightarrow> string \<Rightarrow> (nat \<Rightarrow> arbor_id) \<Rightarrow> nat \<Rightarrow> arbor_db \<Rightarrow>
   (string, arbor_id, arbor_db) outcome option" where
  "import_to_arbor jc home fs project sid owner ids n a =
     (case read_session jc home fs project sid of
        None \<Rightarrow> None
      | Some (Inl e) \<Rightarrow> Some (Inl e, a)
      | Some (Inr events) \<Rightarrow> Some (
          bind_res (map_prod text_error id (tree_create (Some (import_metadata project sid)) owner (ids n) (ids (n + 1)) a)) (\<lambda>t a.
          bind_res (text_error (tree_get a t), a) (\<lambda>tree a.
          bind_res (create_chain jc t ids (n + 2) (at_root tree) (concat (map import_events events)) a) (\<lambda>_ a. (Inr t, a))))))"

subsection \<open>Export\<close>

text \<open>
  The traversal with an explicit stack, its top in front. \<open>None\<close>: it does not end, or a child is not
  in the map of nodes and \<open>unwrap\<close> panics.
\<close>

partial_function (option) dfs_loop :: "(arbor_id \<Rightarrow> arbor_id list) \<Rightarrow> arbor_id list \<Rightarrow> arbor_id list \<Rightarrow> arbor_id list option" where
  "dfs_loop children stack visited =
     (if stack = [] then Some visited
      else dfs_loop children (children (hd stack) @ tl stack) (visited @ [hd stack]))"

declare dfs_loop.simps [code]

lemma dfs_loop_cases:
  "dfs_loop children [] visited = Some visited"
  "dfs_loop children (i # stack) visited = dfs_loop children (children i @ stack) (visited @ [i])"
  by (simp_all add: dfs_loop.simps)

record export_env =
  xe_new_id :: "nat \<Rightarrow> string"
  xe_time :: "nat \<Rightarrow> string"
  xe_cwd :: "string option"

text \<open>The events written so far, the blocks of the open message, and whether one is open.\<close>

type_synonym export_state = "session_event list \<times> file_block list \<times> bool"

definition build_assistant_event :: "export_env \<Rightarrow> string \<Rightarrow> nat \<Rightarrow> file_block list \<Rightarrow> session_event" where
  "build_assistant_event env sid k bs = Session_Assistant
     \<lparr>as_uuid = xe_new_id env k, as_parent = None, as_session = sid, as_timestamp = xe_time env k, as_cwd = xe_cwd env,
      as_body = Full_Message ''assistant'' bs None None None None, as_request = None\<rparr>"

definition build_user_event :: "export_env \<Rightarrow> string \<Rightarrow> nat \<Rightarrow> string \<Rightarrow> session_event" where
  "build_user_event env sid k content = Session_User
     \<lparr>ur_uuid = xe_new_id env k, ur_parent = None, ur_session = sid, ur_timestamp = xe_time env k,
      ur_cwd = (case xe_cwd env of Some w \<Rightarrow> w | None \<Rightarrow> []), ur_role = ''user'', ur_content = content,
      ur_sidechain = None, ur_branch = None\<rparr>"

definition close_message :: "export_env \<Rightarrow> string \<Rightarrow> export_state \<Rightarrow> export_state" where
  "close_message env sid st = (case st of (es, bs, open) \<Rightarrow>
     if open \<and> bs \<noteq> [] then (es @ [build_assistant_event env sid (length es) bs], [], False) else st)"

definition add_user :: "export_env \<Rightarrow> string \<Rightarrow> string \<Rightarrow> export_state \<Rightarrow> export_state" where
  "add_user env sid content st = (case st of (es, bs, open) \<Rightarrow>
     (es @ [build_user_event env sid (length es) content], bs, open))"

definition add_file_block :: "file_block \<Rightarrow> export_state \<Rightarrow> export_state" where
  "add_file_block b st = (case st of (es, bs, open) \<Rightarrow> (es, if open then bs @ [b] else bs, open))"

fun export_event :: "json_codec \<Rightarrow> export_env \<Rightarrow> string \<Rightarrow> node_event \<Rightarrow> export_state \<Rightarrow> export_state" where
  "export_event jc env sid (User_Message c) st = add_user env sid c (close_message env sid st)"
| "export_event jc env sid Assistant_Start st = (fst st, [], True)"
| "export_event jc env sid (Content_Text t) st = add_file_block (File_Text t) st"
| "export_event jc env sid (Content_Tool_Use i n v) st = add_file_block (File_Tool_Use i n v) st"
| "export_event jc env sid (Content_Thinking t) st = add_file_block (File_Thinking t None) st"
| "export_event jc env sid (User_Tool_Result i c e) st =
     add_user env sid (jc_print jc (JArr [file_block_json (File_Tool_Result i c (Some e))])) (close_message env sid st)"
| "export_event jc env sid (Assistant_Complete u) st = close_message env sid st"
| "export_event jc env sid (Launch_Command c) st = st"
| "export_event jc env sid (Claude_Stderr t) st = st"

definition export_data :: "json_codec \<Rightarrow> export_env \<Rightarrow> string \<Rightarrow> arbor_node_type \<Rightarrow> export_state \<Rightarrow> export_state" where
  "export_data jc env sid d st =
     (case d of
        External_Node h \<Rightarrow> st
      | Text_Node content \<Rightarrow>
          if content = [] then st
          else case read_event jc content of None \<Rightarrow> st | Some e \<Rightarrow> export_event jc env sid e st)"

definition exported :: "json_codec \<Rightarrow> export_env \<Rightarrow> string \<Rightarrow> arbor_node_type list \<Rightarrow> session_event list" where
  "exported jc env sid ds = fst (close_message env sid (fold (export_data jc env sid) ds ([], [], False)))"

definition export_from_arbor ::
  "json_codec \<Rightarrow> export_env \<Rightarrow> string \<Rightarrow> arbor_db \<Rightarrow> arbor_id \<Rightarrow> string \<Rightarrow> string \<Rightarrow> session_files \<Rightarrow>
   ((string + unit) \<times> session_files) option" where
  "export_from_arbor jc env home a t project sid fs =
     (case tree_get a t of
        Inl e \<Rightarrow> Some (Inl (arbor_error_text e), fs)
      | Inr tree \<Rightarrow>
          Option.bind (dfs_loop (build_child_map tree) [at_root tree] []) (\<lambda>ids.
          Option.bind (all_some (map (tree_node tree) ids)) (\<lambda>nodes.
            Some (Inr (), fold (append_to_session jc home project sid) (exported jc env sid (map an_data nodes)) fs))))"

subsection \<open>The methods\<close>

definition on_sessions_list :: "string \<Rightarrow> session_files \<Rightarrow> string \<Rightarrow> string list" where
  "on_sessions_list home fs project = list_sessions home fs project"

definition on_sessions_get ::
  "json_codec \<Rightarrow> string \<Rightarrow> session_files \<Rightarrow> string \<Rightarrow> string \<Rightarrow> (string + string \<times> nat \<times> json list) option" where
  "on_sessions_get jc home fs project sid =
     map_option (map_sum id (\<lambda>es. (sid, length es, map session_event_json es))) (read_session jc home fs project sid)"

definition on_sessions_import ::
  "json_codec \<Rightarrow> string \<Rightarrow> session_files \<Rightarrow> string \<Rightarrow> string \<Rightarrow> string option \<Rightarrow> (nat \<Rightarrow> arbor_id) \<Rightarrow> nat \<Rightarrow> arbor_db \<Rightarrow>
   (string, arbor_id \<times> string, arbor_db) outcome option" where
  "on_sessions_import jc home fs project sid owner ids n a =
     map_option (\<lambda>r. bind_res r (\<lambda>t a. (Inr (t, sid), a)))
       (import_to_arbor jc home fs project sid (case owner of Some w \<Rightarrow> w | None \<Rightarrow> ''claudecode'') ids n a)"

definition on_sessions_export ::
  "json_codec \<Rightarrow> export_env \<Rightarrow> string \<Rightarrow> arbor_db \<Rightarrow> arbor_id \<Rightarrow> string \<Rightarrow> string \<Rightarrow> session_files \<Rightarrow>
   ((string + arbor_id \<times> string) \<times> session_files) option" where
  "on_sessions_export jc env home a t project sid fs =
     map_option (\<lambda>(r, fs). (map_sum id (\<lambda>_. (t, sid)) r, fs)) (export_from_arbor jc env home a t project sid fs)"

definition on_sessions_delete :: "string \<Rightarrow> string \<Rightarrow> string \<Rightarrow> session_files \<Rightarrow> (string + string \<times> bool) \<times> session_files" where
  "on_sessions_delete home project sid fs =
     (case delete_session home project sid fs of (r, fs) \<Rightarrow> (map_sum id (\<lambda>_. (sid, True)) r, fs))"

end
