(* ===== verification/Claude_Transfer_Props.thy ===== *)
theory Claude_Transfer_Props
  imports Claude_Transfer Claude_Conversation
begin

text \<open>
  The transfer between session files and Arbor keeps what a session says: the context rendered from an
  imported tree, and the file exported from it, hold the messages of the imported file.
\<close>

subsection \<open>Chains\<close>

text \<open>The nodes of a tree that is one chain, from the root on.\<close>

definition rows_of :: "arbor_db \<Rightarrow> arbor_id \<Rightarrow> arbor_node_row list" where
  "rows_of a t = filter (\<lambda>r. nr_tree r = t) (ar_nodes a)"

definition chain_rows :: "arbor_db \<Rightarrow> arbor_id \<Rightarrow> arbor_id list \<Rightarrow> arbor_node_type list \<Rightarrow> bool" where
  "chain_rows a t ks ds \<longleftrightarrow> ks \<noteq> [] \<and> distinct ks \<and> map nr_id (rows_of a t) = ks \<and> map nr_data (rows_of a t) = ds \<and>
     map nr_parent (rows_of a t) = None # map Some (butlast ks)"

lemma chain_rowsD:
  assumes "chain_rows a t ks ds"
  shows "ks \<noteq> []" "distinct ks" "map nr_id (rows_of a t) = ks" "map nr_data (rows_of a t) = ds"
    "map nr_parent (rows_of a t) = None # map Some (butlast ks)"
  using assms unfolding chain_rows_def by blast+

lemma chain_node:
  assumes "chain_rows a t ks ds" and "create_event_node jc t (last ks) e u a = (Inr i, a')"
  shows "i = u \<and> chain_rows a' t (ks @ [u]) (ds @ [stored_event jc e]) \<and> ar_trees a' = ar_trees a"
proof -
  have new: "u \<notin> nr_id ` set (ar_nodes a)" "i = u" "ar_trees a' = ar_trees a"
    "\<exists>r. ar_nodes a' = ar_nodes a @ [r] \<and> nr_id r = u \<and> nr_tree r = t \<and> nr_parent r = Some (last ks) \<and> nr_data r = stored_event jc e"
    using assms(2)
    by (auto simp: create_event_node_def node_create_text_def insert_node_def link_parent_def add_child_to_parent_def node_row_def
        row_by_None_iff stored_event_def split: if_splits)
  note rows = chain_rowsD [OF assms(1)]
  have "set ks \<subseteq> nr_id ` set (ar_nodes a)" unfolding rows(3) [symmetric] by (auto simp: rows_of_def)
  then have "distinct (ks @ [u])" using rows(2) new(1) by auto
  moreover have "map Some ks = map Some (butlast ks) @ [Some (last ks)]"
    using rows(1) by (metis append_butlast_last_id list.simps(8,9) map_append)
  moreover obtain r where "rows_of a' t = rows_of a t @ [r]" "nr_id r = u" "nr_parent r = Some (last ks)" "nr_data r = stored_event jc e"
    using new(4) by (auto simp: rows_of_def)
  ultimately show ?thesis using new(2,3) rows by (simp add: chain_rows_def)
qed

lemma create_chain_rows:
  assumes "chain_rows a t ks ds" and "create_chain jc t ids n (last ks) es a = (Inr i, a')"
  shows "\<exists>ks'. chain_rows a' t (ks @ ks') (ds @ map (stored_event jc) es) \<and> ar_trees a' = ar_trees a"
  using assms
proof (induction es arbitrary: n a ks ds)
  case Nil
  then show ?case by (intro exI [of _ "[]"]) simp
next
  case (Cons e es)
  obtain r a1 where c: "create_event_node jc t (last ks) e (ids n) a = (r, a1)" by fastforce
  with Cons.prems(2) obtain j where r: "r = Inr j" by (cases r) auto
  from chain_node [OF Cons.prems(1) c [unfolded r]] have j: "j = ids n" "chain_rows a1 t (ks @ [ids n]) (ds @ [stored_event jc e])"
    "ar_trees a1 = ar_trees a" by blast+
  have "create_chain jc t ids (n + 1) (last (ks @ [ids n])) es a1 = (Inr i, a')" using Cons.prems(2) c r j(1) by simp
  from Cons.IH [OF j(2) this] obtain ks' where
    "chain_rows a' t ((ks @ [ids n]) @ ks') ((ds @ [stored_event jc e]) @ map (stored_event jc) es)" "ar_trees a' = ar_trees a1" by blast
  then show ?case using j(3) by (intro exI [of _ "ids n # ks'"]) simp
qed

text \<open>The children of a node of a chain, and the traversal.\<close>

lemma filter_next:
  assumes "distinct (pre @ x # ys)" and "q \<noteq> Some x"
  shows "map fst (filter (\<lambda>(i, p). p = Some x) (zip (pre @ x # ys) (q # map Some (butlast (pre @ x # ys))))) = take 1 ys"
  using assms
proof (induction pre arbitrary: q)
  case Nil
  have none: "filter (\<lambda>(i, p). p = Some x) (zip zs (map Some (butlast us))) = []" if "x \<notin> set us" for zs us
    using that by (auto simp: filter_empty_conv dest!: set_zip_rightD in_set_butlastD)
  show ?case
  proof (cases ys)
    case (Cons y zs)
    have "butlast (x # y # zs) = x # butlast (y # zs)" by simp
    then show ?thesis using none [of "y # zs" zs] Nil Cons by (simp del: butlast.simps)
  qed (use Nil in simp)
next
  case (Cons z pre)
  have "butlast (z # pre @ x # ys) = z # butlast (pre @ x # ys)" by simp
  then show ?case using Cons.IH [of "Some z"] Cons.prems by auto
qed

lemma zip_rows: "zip (map f xs) (map g xs) = map (\<lambda>x. (f x, g x)) xs"
  by (induction xs) simp_all

lemma chain_children:
  assumes "chain_rows a t (pre @ x # ys) ds" and "tree_get a t = Inr tree"
  shows "build_child_map tree x = take 1 ys"
proof -
  let ?ks = "pre @ x # ys"
  define rows where "rows = rows_of a t"
  note rows = chain_rowsD [OF assms(1), folded rows_def]
  have nodes: "at_nodes tree = map (\<lambda>r. (nr_id r, node_of_row a r)) rows"
    using tree_get_internal_nodes [of a t False tree] assms(2) by (simp add: tree_get_def get_nodes_for_tree_def rows_def rows_of_def)
  have "build_child_map tree x = map nr_id (filter (\<lambda>r. nr_parent r = Some x) rows)"
    by (simp add: build_child_map_def nodes filter_map comp_def node_of_row_def split_def)
  also have "\<dots> = map fst (filter (\<lambda>(i, p). p = Some x) (zip (map nr_id rows) (map nr_parent rows)))"
    by (simp only: zip_rows) (simp add: filter_map comp_def)
  also have "\<dots> = take 1 ys" unfolding rows(3,5) by (rule filter_next [OF rows(2)]) simp
  finally show ?thesis .
qed

lemma chain_dfs:
  assumes "\<And>pre x ys. ks = pre @ x # ys \<Longrightarrow> children x = take 1 ys"
  shows "ks = pre @ x # ys \<Longrightarrow> dfs_loop children [x] visited = Some (visited @ x # ys)"
proof (induction ys arbitrary: pre x visited)
  case Nil
  then show ?case using assms [of pre x "[]"] by (simp add: dfs_loop_cases)
next
  case (Cons y ys)
  have "children x = [y]" using assms [OF Cons.prems] by simp
  then show ?case using Cons.IH [of "pre @ [x]" y "visited @ [x]"] Cons.prems by (simp add: dfs_loop_cases)
qed

lemma chain_tree_nodes:
  assumes "chain_rows a t ks ds" and "tree_get a t = Inr tree"
  shows "\<exists>nodes. all_some (map (tree_node tree) ks) = Some nodes \<and> map an_data nodes = ds"
proof -
  define rows where "rows = rows_of a t"
  note rows = chain_rowsD [OF assms(1), folded rows_def]
  have nodes: "at_nodes tree = map (\<lambda>r. (nr_id r, node_of_row a r)) rows"
    using tree_get_internal_nodes [of a t False tree] assms(2) by (simp add: tree_get_def get_nodes_for_tree_def rows_def rows_of_def)
  have "map_of (at_nodes tree) (nr_id r) = Some (node_of_row a r)" if "r \<in> set rows" for r
    unfolding nodes using rows(2,3) that by (intro map_of_is_SomeI) (simp_all add: comp_def)
  then have "map (tree_node tree) ks = map (\<lambda>r. Some (node_of_row a r)) rows"
    unfolding rows(3) [symmetric] by (simp add: tree_node_def)
  then show ?thesis using rows(4) by (simp add: comp_def node_of_row_def)
qed

text \<open>The path of a node of a chain.\<close>

lemma chain_row:
  assumes "chain_rows a t ks ds" and "k < length ks"
  shows "\<exists>r. find (\<lambda>r. nr_tree r = t \<and> nr_id r = ks ! k) (ar_nodes a) = Some r \<and> nr_data r = ds ! k \<and>
    nr_parent r = (if k = 0 then None else Some (ks ! (k - 1)))"
proof -
  define rows where "rows = rows_of a t"
  note rows = chain_rowsD [OF assms(1), folded rows_def]
  have len: "length rows = length ks" unfolding rows(3) [symmetric] by simp
  have "find (\<lambda>r. nr_tree r = t \<and> nr_id r = i) xs = row_by nr_id i (filter (\<lambda>r. nr_tree r = t) xs)" for i and xs :: "arbor_node_row list"
    by (induction xs) auto
  moreover have "row_by nr_id (nr_id (rows ! k)) rows = Some (rows ! k)" using row_by_unique [of nr_id rows "rows ! k"] rows(2,3) assms(2) len by simp
  moreover have "nr_id (rows ! k) = ks ! k" "nr_data (rows ! k) = ds ! k"
    unfolding rows(3,4) [symmetric] using assms(2) len by simp_all
  moreover have "nr_parent (rows ! k) = (None # map Some (butlast ks)) ! k" unfolding rows(5) [symmetric] using assms(2) len by simp
  then have "nr_parent (rows ! k) = (if k = 0 then None else Some (ks ! (k - 1)))"
    using assms(2) by (cases k) (simp_all add: nth_butlast)
  ultimately show ?thesis by (simp add: rows_def rows_of_def)
qed

lemma chain_path:
  assumes chain: "chain_rows a t ks ds"
  shows "path_data a t (last ks) ks ds"
proof -
  have ne: "ks \<noteq> []" using chain by (simp add: chain_rows_def)
  have line: "k < length ks \<Longrightarrow> lineage (parent_in a t) (ks ! k) (rev (take (Suc k) ks)) None" for k
  proof (induction k)
    case 0
    then have "parent_in a t (ks ! 0) = Some None" using chain_row [OF chain, of 0] by (auto simp: parent_in_def)
    moreover have "take (Suc 0) ks = [ks ! 0]" using ne by (cases ks) simp_all
    ultimately show ?case using lineage.root [of "parent_in a t"] by simp
  next
    case (Suc k)
    then have "parent_in a t (ks ! Suc k) = Some (Some (ks ! k))" using chain_row [OF chain, of "Suc k"] by (auto simp: parent_in_def)
    then show ?case using Suc lineage.child [of "parent_in a t"] by (simp add: take_Suc_conv_app_nth [of "Suc k"])
  qed
  have "lineage (parent_in a t) (last ks) (rev ks) None" using line [of "length ks - 1"] ne by (simp add: last_conv_nth)
  then have "node_get_path a t (last ks) = Some (Inr ks)" using node_get_path_lineage by fastforce
  moreover have "length ds = length ks" using chain by (auto simp: chain_rows_def dest!: arg_cong [of _ _ length])
  then have "list_all2 (\<lambda>k d. \<exists>n. node_get a t k = Inr n \<and> an_data n = d) ks ds"
    unfolding list_all2_conv_all_nth node_get_row using chain_row [OF chain] by auto
  ultimately show ?thesis by (simp add: path_data_def)
qed

subsection \<open>What a session file says\<close>

definition block_of_file :: "file_block \<Rightarrow> content_block" where
  "block_of_file b = (case b of
      File_Text t \<Rightarrow> Block_Text t
    | File_Tool_Use i n v \<Rightarrow> Block_Tool_Use i n v
    | File_Tool_Result i c e \<Rightarrow> Block_Tool_Result i c (e = Some True)
    | File_Thinking t s \<Rightarrow> Block_Thinking t)"

definition message_content :: "assistant_message \<Rightarrow> file_block list" where
  "message_content m = (case m of Full_Message r bs md i s u \<Rightarrow> bs | Simple_Message t \<Rightarrow> [])"

text \<open>The messages of the conversation, without UUIDs, time stamps and signatures.\<close>

definition says :: "session_event \<Rightarrow> claude_message list" where
  "says e = (case e of
      Session_User u \<Rightarrow> as_message ''user'' [Block_Text (ur_content u)]
    | Session_Assistant a \<Rightarrow> as_message ''assistant'' (map block_of_file (message_content (as_body a)))
    | _ \<Rightarrow> [])"

fun plain_block :: "file_block \<Rightarrow> bool" where
  "plain_block (File_Tool_Result i c e) = False"
| "plain_block _ = True"

definition plain :: "session_event \<Rightarrow> bool" where
  "plain e \<longleftrightarrow> (case e of Session_Assistant a \<Rightarrow> list_all plain_block (message_content (as_body a)) | _ \<Rightarrow> True)"

lemma message_events_content: "message_events m = map file_block_event (message_content m)"
  by (cases m) (simp_all add: message_events_def message_content_def)

text \<open>Rendering the events of an import.\<close>

lemma render_file_blocks:
  "list_all plain_block bs \<Longrightarrow> fold render_event (map file_block_event bs) (ms, r, xs) = (ms, r, xs @ map block_of_file bs)"
proof (induction bs arbitrary: xs)
  case (Cons b bs)
  then show ?case by (cases b) (simp_all add: file_block_event_def block_of_file_def)
qed simp

lemma render_import_event:
  assumes "plain e" and "flush st = (ms, None, [])"
  shows "flush (fold render_event (import_events e) st) = (ms @ says e, None, [])"
proof (cases e)
  case (Session_Assistant a)
  then have "list_all plain_block (message_content (as_body a))" using assms(1) by (simp add: plain_def)
  then show ?thesis using assms(2) Session_Assistant
    by (simp add: import_events_def message_events_content render_file_blocks says_def as_message_def)
qed (use assms(2) in \<open>simp_all add: import_events_def says_def as_message_def\<close>)

lemma render_import:
  assumes "list_all plain es" and "flush st = (ms, None, [])"
  shows "flush (fold render_event (concat (map import_events es)) st) = (ms @ concat (map says es), None, [])"
  using assms
proof (induction es arbitrary: st ms)
  case (Cons e es)
  then show ?case using render_import_event [of e st ms] Cons.IH [of "fold render_event (import_events e) st"] by simp
qed simp

text \<open>Exporting them.\<close>

definition settled :: "export_state \<Rightarrow> bool" where
  "settled st \<longleftrightarrow> snd (snd st) \<longrightarrow> fst (snd st) = []"

lemma close_settled: "settled st \<Longrightarrow> close_message env sid st = st"
  by (auto simp: close_message_def settled_def split: prod.splits)

definition exported_block :: "file_block \<Rightarrow> file_block" where
  "exported_block b = (case b of File_Thinking t s \<Rightarrow> File_Thinking t None | _ \<Rightarrow> b)"

lemma block_of_exported [simp]: "block_of_file (exported_block b) = block_of_file b"
  by (cases b) (simp_all add: block_of_file_def exported_block_def)

lemma export_file_blocks:
  "list_all plain_block bs \<Longrightarrow>
     fold (export_event jc env sid) (map file_block_event bs) (out, xs, True) = (out, xs @ map exported_block bs, True)"
proof (induction bs arbitrary: xs)
  case (Cons b bs)
  then show ?case by (cases b) (simp_all add: file_block_event_def exported_block_def add_file_block_def)
qed simp

definition said_by :: "session_event list \<Rightarrow> claude_message list" where
  "said_by es = concat (map says es)"

lemma export_import_event:
  assumes "plain e" and "settled st"
  shows "settled (fold (export_event jc env sid) (import_events e) st) \<and>
    said_by (fst (fold (export_event jc env sid) (import_events e) st)) = said_by (fst st) @ says e"
proof (cases e)
  case (Session_User u)
  then show ?thesis using assms(2)
    by (auto simp: import_events_def close_settled add_user_def settled_def said_by_def says_def build_user_event_def split: prod.splits)
next
  case (Session_Assistant a)
  then have "list_all plain_block (message_content (as_body a))" using assms(1) by (simp add: plain_def)
  then show ?thesis using Session_Assistant
    by (simp add: import_events_def message_events_content export_file_blocks close_message_def settled_def said_by_def says_def
        build_assistant_event_def message_content_def as_message_def comp_def)
qed (use assms(2) in \<open>simp_all add: import_events_def says_def\<close>)

lemma export_import:
  assumes "list_all plain es" and "settled st"
  shows "settled (fold (export_event jc env sid) (concat (map import_events es)) st) \<and>
    said_by (fst (fold (export_event jc env sid) (concat (map import_events es)) st)) = said_by (fst st) @ said_by es"
  using assms
proof (induction es arbitrary: st)
  case (Cons e es)
  let ?st = "fold (export_event jc env sid) (import_events e) st"
  have s: "settled ?st" "said_by (fst ?st) = said_by (fst st) @ says e" using export_import_event [of e st] Cons.prems by simp_all
  show ?case using Cons.IH [OF _ s(1)] Cons.prems(1) s(2) by (simp add: said_by_def)
qed (simp add: said_by_def)

lemma export_stored:
  assumes "\<forall>e \<in> set es. readable jc e"
  shows "fold (export_data jc env sid) (map (stored_event jc) es) st = fold (export_event jc env sid) es st"
  using assms
proof (induction es arbitrary: st)
  case (Cons e es)
  have "write_event jc e \<noteq> []"
  proof
    assume "write_event jc e = []"
    moreover have "trim [] = []" by (simp add: trim_def trim_end_def trim_start.simps trim_rev.simps)
    ultimately show False using Cons.prems by (simp add: readable_def)
  qed
  then have "export_data jc env sid (stored_event jc e) st = export_event jc env sid e st"
    using Cons.prems by (simp add: export_data_def stored_event_def read_event_def readable_def event_json_roundtrip)
  then show ?case using Cons by simp
qed simp

subsection \<open>Lines\<close>

text \<open>An event whose JSON text is one line that reads back.\<close>

definition one_line :: "json_codec \<Rightarrow> session_event \<Rightarrow> bool" where
  "one_line jc e \<longleftrightarrow> (let s = jc_print jc (session_event_json e)
     in CHR 0x0A \<notin> set s \<and> trim s \<noteq> [] \<and> strip_cr s = s \<and> jc_parse jc s = Some (session_event_json e) \<and> carried e)"

definition file_lines :: "json_codec \<Rightarrow> session_event list \<Rightarrow> string" where
  "file_lines jc es = concat (map (\<lambda>e. jc_print jc (session_event_json e) @ newline) es)"

lemma text_lines_line:
  assumes "CHR 0x0A \<notin> set s"
  shows "text_lines (s @ newline @ rest) = strip_cr s # text_lines rest"
proof -
  have "takeWhile (\<lambda>c. c \<noteq> CHR 0x0A) (s @ newline @ rest) = s" "dropWhile (\<lambda>c. c \<noteq> CHR 0x0A) (s @ newline @ rest) = newline @ rest"
    using assms by (induction s) (auto simp: newline_def)
  then show ?thesis by (subst text_lines.simps) (simp add: newline_def)
qed

lemma read_lines: "\<forall>e \<in> set es. one_line jc e \<Longrightarrow>
    map_option concat (all_some (map (line_events jc) (text_lines (file_lines jc es)))) = Some es"
proof (induction es)
  case (Cons e es)
  then have "line_events jc (jc_print jc (session_event_json e)) = Some [e]" "strip_cr (jc_print jc (session_event_json e)) = jc_print jc (session_event_json e)"
    "CHR 0x0A \<notin> set (jc_print jc (session_event_json e))"
    by (simp_all add: one_line_def Let_def line_events_def session_event_roundtrip)
  then show ?case using Cons by (auto simp: file_lines_def text_lines_line)
qed (simp add: file_lines_def text_lines.simps)

lemma append_all:
  "map_of (fold (append_to_session jc home project sid) es fs) (get_session_path home project sid) =
     (if es = [] then map_of fs (get_session_path home project sid)
      else Some ((case map_of fs (get_session_path home project sid) of Some s \<Rightarrow> s | None \<Rightarrow> []) @ file_lines jc es))"
proof (induction es arbitrary: fs)
  case (Cons e es)
  have "map_of (append_to_session jc home project sid e fs) (get_session_path home project sid) =
      Some ((case map_of fs (get_session_path home project sid) of Some s \<Rightarrow> s | None \<Rightarrow> []) @ jc_print jc (session_event_json e) @ newline)"
    by (simp add: append_to_session_def Let_def update_conv')
  with Cons [of "append_to_session jc home project sid e fs"] show ?case by (simp add: file_lines_def)
qed simp

subsection \<open>The round trip\<close>

lemma imported_chain:
  assumes ok: "arbor_ok a" and read: "read_session jc home fs project sid = Some (Inr es)"
    and imp: "import_to_arbor jc home fs project sid owner ids n a = Some (Inr t, a')"
  shows "\<exists>tree ks. tree_get a' t = Inr tree \<and> chain_rows a' t (at_root tree # ks)
    (Text_Node [] # map (stored_event jc) (concat (map import_events es)))"
proof -
  obtain r a1 where tc: "tree_create (Some (import_metadata project sid)) owner (ids n) (ids (n + 1)) a = (r, a1)" by fastforce
  obtain t1 where r: "r = Inr t1" using imp read tc by (cases r) (auto simp: import_to_arbor_def text_error_def)
  have ta: "t1 = ids n" "ar_nodes a1 = ar_nodes a @ [\<lparr>nr_id = ids (n + 1), nr_tree = ids n, nr_parent = None, nr_ref_count = 1, nr_state = ''active'',
        nr_scheduled_at = None, nr_archived_at = None, nr_data = Text_Node [], nr_created_at = ar_clock a, nr_metadata = None\<rparr>]"
      "ids n \<notin> tr_id ` set (ar_trees a)"
    using tc r by (auto simp: tree_create_def tree_create_with_id_def Let_def tree_row_def row_by_None_iff split: if_splits)
  have "\<forall>x \<in> set (ar_nodes a). nr_tree x \<in> tr_id ` set (ar_trees a)" using ok by (simp add: arbor_ok_def nodes_ok_def)
  then have "filter (\<lambda>x. nr_tree x = ids n) (ar_nodes a) = []" using ta(3) by (force simp: filter_empty_conv)
  then have root: "chain_rows a1 (ids n) [ids (n + 1)] [Text_Node []]" using ta(2) by (simp add: chain_rows_def rows_of_def)
  obtain tree1 where tree1: "tree_get a1 (ids n) = Inr tree1"
    using imp read tc r ta(1) by (cases "tree_get a1 (ids n)") (auto simp: import_to_arbor_def text_error_def)
  have "at_root tree1 = ids (n + 1)"
  proof -
    obtain row where "ar_trees a1 = ar_trees a @ [row]" "tr_id row = ids n" "tr_root row = ids (n + 1)"
      using tc r by (auto simp: tree_create_def tree_create_with_id_def Let_def split: if_splits)
    then have "tree_row a1 (ids n) = Some row" using ta(3) row_by_None_iff [of tr_id "ids n" "ar_trees a"] by (simp add: tree_row_def row_by_append)
    then show ?thesis using tree1 \<open>tr_root row = ids (n + 1)\<close> by (auto simp: tree_get_def tree_get_internal_def Let_def split: if_splits)
  qed
  then obtain i where "create_chain jc (ids n) ids (n + 2) (last [ids (n + 1)]) (concat (map import_events es)) a1 = (Inr i, a')"
    and t: "t = ids n"
    using imp read tc r ta(1) tree1
    by (cases "create_chain jc (ids n) ids (n + 2) (ids (n + 1)) (concat (map import_events es)) a1"; cases "fst (create_chain jc (ids n) ids (n + 2) (ids (n + 1)) (concat (map import_events es)) a1)")
       (auto simp: import_to_arbor_def text_error_def)
  from create_chain_rows [OF root this(1)] obtain ks
    where ks: "chain_rows a' t ([ids (n + 1)] @ ks) ([Text_Node []] @ map (stored_event jc) (concat (map import_events es)))"
      "ar_trees a' = ar_trees a1" unfolding t by blast
  have "map_sum id at_root (tree_get a' t) = map_sum id at_root (tree_get a1 t)"
    using ks(2) by (simp add: tree_get_def tree_get_internal_def tree_row_def Let_def split: option.split)
  then obtain tree where "tree_get a' t = Inr tree" "at_root tree = ids (n + 1)"
    using tree1 t \<open>at_root tree1 = ids (n + 1)\<close> by (cases "tree_get a' t") auto
  then show ?thesis using ks(1) by auto
qed

text \<open>
  C28. What a session says survives the transfer. When a session file without tool results in its assistant
  messages has been read (reading panics when a line that does not parse has byte 100 inside a character) and
  imported into Arbor, then \<open>render_messages\<close> from the root of the new tree to its last
  node gives exactly the messages of the file; and exporting that tree to a session that has no file
  yet succeeds, and the new file reads back to events with the same messages. The codec must carry the
  events that are stored and keep the exported ones on one line each.
\<close>

theorem session_file_roundtrip:
  assumes "arbor_ok a" and "read_session jc home fs project sid = Some (Inr es)" and "list_all plain es" and "concat (map says es) \<noteq> []"
    and "import_to_arbor jc home fs project sid owner ids n a = Some (Inr t, a')"
    and "\<forall>e \<in> set (concat (map import_events es)). readable jc e"
    and "map_of fs (get_session_path home project' sid') = None"
    and "\<forall>e \<in> set (exported jc env sid' (Text_Node [] # map (stored_event jc) (concat (map import_events es)))). one_line jc e"
  shows "\<exists>root head fs' es'. map_sum id at_root (tree_get a' t) = Inr root \<and>
     render_messages jc a' t root head = Some (Inr (concat (map says es))) \<and>
     export_from_arbor jc env home a' t project' sid' fs = Some (Inr (), fs') \<and>
     read_session jc home fs' project' sid' = Some (Inr es') \<and> concat (map says es') = concat (map says es)"
proof -
  let ?E = "concat (map import_events es)" and ?path = "get_session_path home project' sid'"
  let ?ds = "Text_Node [] # map (stored_event jc) ?E"
  have empty: "trim [] = []" by (simp add: trim_def trim_end_def trim_start.simps trim_rev.simps)
  from imported_chain [OF assms(1,2,5)] obtain tree ks where tree: "tree_get a' t = Inr tree"
    and chain: "chain_rows a' t (at_root tree # ks) ?ds" by blast
  let ?ks = "at_root tree # ks"
  have path: "path_data a' t (last ?ks) ?ks ?ds" by (rule chain_path [OF chain])
  have "render_data jc ?ds ([], None, []) = Inr (fold render_event ?E ([], None, []))"
    using render_stored_events [OF assms(6)] empty by (simp add: render_node_data_def)
  moreover have "flush (fold render_event ?E ([], None, [])) = (concat (map says es), None, [])"
    using render_import [OF assms(3), of "([], None, [])" "[]"] by simp
  moreover have "render_nodes jc a' t ?ks ([], None, []) = render_data jc ?ds ([], None, [])"
    using path by (intro render_nodes_data) (simp add: path_data_def)
  ultimately have nodes: "render_nodes jc a' t ?ks ([], None, []) = Inr (fold render_event ?E ([], None, []))"
    "fst (flush (fold render_event ?E ([], None, []))) = concat (map says es)" by simp_all
  have rendered: "render_messages jc a' t (at_root tree) (last ?ks) = Some (Inr (concat (map says es)))"
    using path nodes by (simp add: path_data_def render_messages_def del: render_nodes.simps last.simps)
  define out where "out = exported jc env sid' ?ds"
  have "fold (export_data jc env sid') ?ds ([], [], False) = fold (export_event jc env sid') ?E ([], [], False)"
    using export_stored [OF assms(6)] by (simp add: export_data_def)
  then have same: "said_by out = said_by es"
    using export_import [OF assms(3), of "([], [], False)" jc env sid'] by (simp add: out_def exported_def close_settled) (simp add: settled_def said_by_def close_settled)
  then have ne: "out \<noteq> []" using assms(4) by (auto simp: said_by_def)
  have kids: "build_child_map tree x = take 1 ys" if "?ks = pre @ x # ys" for pre x ys
    by (rule chain_children [OF chain [unfolded that] tree])
  have "dfs_loop (build_child_map tree) [at_root tree] [] = Some ([] @ ?ks)"
    by (rule chain_dfs [where pre = "[]" and ks = ?ks, OF kids]) simp_all
  moreover obtain ns where "all_some (map (tree_node tree) ?ks) = Some ns" "map an_data ns = ?ds"
    using chain_tree_nodes [OF chain tree] by (elim exE conjE)
  ultimately have ex: "export_from_arbor jc env home a' t project' sid' fs = Some (Inr (), fold (append_to_session jc home project' sid') out fs)"
    using tree by (simp add: export_from_arbor_def out_def del: all_some.simps list.map)
  have "read_session jc home (fold (append_to_session jc home project' sid') out fs) project' sid' = Some (Inr out)"
    using read_lines [OF assms(8) [folded out_def]] by (simp add: read_session_def append_all ne assms(7))
  then show ?thesis using tree rendered ex same unfolding said_by_def by auto
qed

text \<open>A codec that knows a table of texts, for one concrete file.\<close>

definition table_codec :: "(string \<times> json) list \<Rightarrow> json_codec" where
  "table_codec tab = \<lparr>jc_print = (\<lambda>v. case find (\<lambda>e. snd e = v) tab of Some e \<Rightarrow> fst e | None \<Rightarrow> []),
     jc_parse = map_of tab, jc_f64 = (\<lambda>_. 0)\<rparr>"

definition file_user :: "string \<Rightarrow> session_event" where
  "file_user s = Session_User \<lparr>ur_uuid = ''u'', ur_parent = None, ur_session = s, ur_timestamp = ''t'', ur_cwd = ''/w'',
     ur_role = ''user'', ur_content = ''Hello'', ur_sidechain = None, ur_branch = None\<rparr>"

definition file_assistant :: "string \<Rightarrow> session_event" where
  "file_assistant s = Session_Assistant \<lparr>as_uuid = ''u'', as_parent = None, as_session = s, as_timestamp = ''t'', as_cwd = Some ''/w'',
     as_body = Full_Message ''assistant'' [File_Text ''Hi''] None None None None, as_request = None\<rparr>"

definition file_codec :: json_codec where
  "file_codec = table_codec
     [(''U'', session_event_json (file_user ''old'')), (''A'', session_event_json (file_assistant ''old'')),
      (''V'', session_event_json (file_user ''new'')), (''B'', session_event_json (file_assistant ''new'')),
      (''m'', node_event_json (User_Message ''Hello'')), (''s'', node_event_json Assistant_Start),
      (''x'', node_event_json (Content_Text ''Hi'')), (''c'', node_event_json (Assistant_Complete None))]"

definition file_env :: export_env where
  "file_env = \<lparr>xe_new_id = (\<lambda>_. ''u''), xe_time = (\<lambda>_. ''t''), xe_cwd = Some ''/w''\<rparr>"

definition demo_files :: session_files where
  "demo_files = [(''/h/.claude/projects/p/old.jsonl'', ''U'' @ newline @ ''A'' @ newline)]"

definition demo_import :: "(string, arbor_id, arbor_db) outcome" where
  "demo_import = the (import_to_arbor file_codec ''/h'' demo_files ''p'' ''old'' ''claudecode'' (\<lambda>n. replicate (n + 1) CHR ''n'') 0 (empty_arbor 5))"

lemma session_file_roundtrip_witness:
  "map_option (\<lambda>(r, fs). map_option (map_sum id (\<lambda>es. concat (map says es))) (read_session file_codec ''/h'' fs ''p'' ''new''))
     (export_from_arbor file_codec file_env ''/h'' (snd demo_import) ''n'' ''p'' ''new'' demo_files) =
   Some (Some (Inr [\<lparr>cm_role = ''user'', cm_content = [Block_Text ''Hello'']\<rparr>, \<lparr>cm_role = ''assistant'', cm_content = [Block_Text ''Hi'']\<rparr>]))"
proof -
  let ?es = "[file_user ''old'', file_assistant ''old'']"
  have read: "read_session file_codec ''/h'' demo_files ''p'' ''old'' = Some (Inr ?es)" by code_simp
  have plain: "list_all plain ?es" "map_of demo_files (get_session_path ''/h'' ''p'' ''new'') = None" by code_simp+
  have says: "concat (map says ?es) =
      [\<lparr>cm_role = ''user'', cm_content = [Block_Text ''Hello'']\<rparr>, \<lparr>cm_role = ''assistant'', cm_content = [Block_Text ''Hi'']\<rparr>]" by code_simp
  let ?imp = "import_to_arbor file_codec ''/h'' demo_files ''p'' ''old'' ''claudecode'' (\<lambda>n. replicate (n + 1) CHR ''n'') 0 (empty_arbor 5)"
  have "case ?imp of None \<Rightarrow> False | Some (r, _) \<Rightarrow> r = Inr ''n''" by code_simp
  then have imp: "?imp = Some (Inr ''n'', snd demo_import)" unfolding demo_import_def by (auto split: option.splits)
  have carried: "\<forall>e \<in> set (concat (map import_events ?es)). readable file_codec e" by code_simp
  have lines: "\<forall>e \<in> set (exported file_codec file_env ''new''
      (Text_Node [] # map (stored_event file_codec) (concat (map import_events ?es)))). one_line file_codec e" by code_simp
  have ne: "concat (map says ?es) \<noteq> []" unfolding says by simp
  obtain fs' es' where "export_from_arbor file_codec file_env ''/h'' (snd demo_import) ''n'' ''p'' ''new'' demo_files = Some (Inr (), fs')"
    "read_session file_codec ''/h'' fs' ''p'' ''new'' = Some (Inr es')" "concat (map says es') = concat (map says ?es)"
    using session_file_roundtrip [OF empty_ok read plain(1) ne imp carried plain(2) lines] by blast
  then show ?thesis unfolding says by simp
qed

end
