(* ===== verification/Orcha_Sessions.thy ===== *)
theory Orcha_Sessions
  imports Claude_Render "HOL-Library.Word"
begin

text \<open>
  The session store of Orcha: \<^verbatim>\<open>src/src/activations/orcha/storage.rs\<close> with its types of
  \<^verbatim>\<open>src/src/activations/orcha/types.rs\<close>. Sessions live twice, as rows of a table and as a cache in
  memory that answers the reads; agents live in a table only. The state of a session is stored as
  a tag and the text of a JSON value; \<^typ>\<open>json_codec\<close> is \<open>serde_json\<close>. Counters of 32 and 64 bits are words
  (a release build wraps around), the columns of the tables integers. Foreign keys are on. The error of a
  refused query is the message of SQLite. \<open>od_now\<close> is the clock in seconds.
\<close>

subsection \<open>Types\<close>

datatype session_state =
    Session_Idle
  | Session_Running (running_stream: string) (running_sequence: "64 word")
      (running_active: "32 word") (running_completed: "32 word") (running_failed: "32 word")
  | Session_Waiting string
  | Session_Validating string
  | Session_Complete
  | Session_Failed string

datatype agent_mode = Agent_Single | Agent_Multi

datatype agent_state =
    Agent_Idle
  | Agent_Running "64 word"
  | Agent_Waiting string
  | Agent_Validating string
  | Agent_Complete
  | Agent_Failed string

record session_info =
  oi_id :: string
  oi_model :: string
  oi_created_at :: int
  oi_last_activity :: int
  oi_state :: session_state
  oi_retry_count :: "32 word"
  oi_max_retries :: "32 word"
  oi_mode :: agent_mode
  oi_primary :: "string option"
  oi_tree :: "string option"

record agent_info =
  ai_id :: string
  ai_session :: string
  ai_claude :: string
  ai_subtask :: string
  ai_state :: agent_state
  ai_primary :: bool
  ai_parent :: "string option"
  ai_created_at :: int
  ai_last_activity :: int
  ai_completed_at :: "int option"
  ai_error :: "string option"

record orcha_row =
  or_id :: string
  or_model :: string
  or_working_dir :: string
  or_rules :: "string option"
  or_max_retries :: int
  or_retry_count :: int
  or_created_at :: int
  or_last_activity :: int
  or_state_type :: string
  or_state_data :: "string option"
  or_mode :: string
  or_primary :: "string option"
  or_tree :: "string option"

record agent_row =
  ag_id :: string
  ag_session :: string
  ag_claude :: string
  ag_subtask :: string
  ag_state_type :: string
  ag_state_data :: "string option"
  ag_primary :: int
  ag_parent :: "string option"
  ag_created_at :: int
  ag_last_activity :: int
  ag_completed_at :: "int option"
  ag_error :: "string option"

record orcha_db =
  od_sessions :: "orcha_row list"
  od_agents :: "agent_row list"
  od_cache :: "(string \<times> session_info) list"
  od_now :: int

type_synonym 'a orcha_op = "orcha_db \<Rightarrow> (string, 'a, orcha_db) outcome"

definition empty_orcha :: "int \<Rightarrow> orcha_db" where
  "empty_orcha now = \<lparr>od_sessions = [], od_agents = [], od_cache = [], od_now = now\<rparr>"

subsection \<open>Stored states\<close>

text \<open>An object of the \<open>json!\<close> macro lists its keys in order.\<close>

definition one_entry :: "json_codec \<Rightarrow> string \<Rightarrow> json \<Rightarrow> string" where
  "one_entry jc k v = jc_print jc (JObj [(k, v)])"

definition word_json :: "'a::len word \<Rightarrow> json" where
  "word_json w = JNum (Int_Number (uint w))"

definition running_json :: "string \<Rightarrow> 64 word \<Rightarrow> 32 word \<Rightarrow> 32 word \<Rightarrow> 32 word \<Rightarrow> json" where
  "running_json stream sequence active completed failed = JObj
     [(''active_agents'', word_json active), (''completed_agents'', word_json completed),
      (''failed_agents'', word_json failed), (''sequence'', word_json sequence), (''stream_id'', JStr stream)]"

fun serialize_state :: "json_codec \<Rightarrow> session_state \<Rightarrow> string \<times> string option" where
  "serialize_state jc Session_Idle = (''idle'', None)"
| "serialize_state jc (Session_Running stream sequence active completed failed) =
     (''running'', Some (jc_print jc (running_json stream sequence active completed failed)))"
| "serialize_state jc (Session_Waiting a) = (''waiting_approval'', Some (one_entry jc ''approval_id'' (JStr a)))"
| "serialize_state jc (Session_Validating c) = (''validating'', Some (one_entry jc ''test_command'' (JStr c)))"
| "serialize_state jc Session_Complete = (''complete'', None)"
| "serialize_state jc (Session_Failed e) = (''failed'', Some (one_entry jc ''error'' (JStr e)))"

fun serialize_agent_state :: "json_codec \<Rightarrow> agent_state \<Rightarrow> string \<times> string option" where
  "serialize_agent_state jc Agent_Idle = (''idle'', None)"
| "serialize_agent_state jc (Agent_Running sequence) = (''running'', Some (one_entry jc ''sequence'' (word_json sequence)))"
| "serialize_agent_state jc (Agent_Waiting a) = (''waiting_approval'', Some (one_entry jc ''approval_id'' (JStr a)))"
| "serialize_agent_state jc (Agent_Validating c) = (''validating'', Some (one_entry jc ''test_command'' (JStr c)))"
| "serialize_agent_state jc Agent_Complete = (''complete'', None)"
| "serialize_agent_state jc (Agent_Failed e) = (''failed'', Some (one_entry jc ''error'' (JStr e)))"

text \<open>
  \<open>from_str(data.unwrap_or("{}"))\<close>; \<open>parse_error\<close> is the error of \<open>serde_json\<close> for the text. An
  absent or ill-typed entry reads as the default; a number of 64 bits is cut to 32 (\<open>as u32\<close>).
\<close>

definition parse_error :: "string \<Rightarrow> string \<Rightarrow> string" where
  "parse_error what s = ''Failed to parse '' @ what @ '' state: '' @ s"

definition state_data :: "json_codec \<Rightarrow> string \<Rightarrow> string option \<Rightarrow> string + json" where
  "state_data jc what data =
     (let s = (case data of Some s \<Rightarrow> s | None \<Rightarrow> ''{}'')
      in case jc_parse jc s of None \<Rightarrow> Inl (parse_error what s) | Some v \<Rightarrow> Inr v)"

definition text_entry :: "string \<Rightarrow> string \<Rightarrow> json \<Rightarrow> string" where
  "text_entry k other v = (case as_str (json_get k v) of Some s \<Rightarrow> s | None \<Rightarrow> other)"

definition number_entry :: "string \<Rightarrow> json \<Rightarrow> nat" where
  "number_entry k v = (case as_u64 (json_get k v) of Some n \<Rightarrow> n | None \<Rightarrow> 0)"

definition deserialize_state :: "json_codec \<Rightarrow> string \<Rightarrow> string option \<Rightarrow> string + session_state" where
  "deserialize_state jc state_type data =
     (if state_type = ''idle'' then Inr Session_Idle
      else if state_type = ''running'' then
        map_sum id (\<lambda>v. Session_Running (text_entry ''stream_id'' [] v) (of_nat (number_entry ''sequence'' v))
          (of_nat (number_entry ''active_agents'' v)) (of_nat (number_entry ''completed_agents'' v))
          (of_nat (number_entry ''failed_agents'' v))) (state_data jc ''running'' data)
      else if state_type = ''waiting_approval'' then
        map_sum id (\<lambda>v. Session_Waiting (text_entry ''approval_id'' [] v)) (state_data jc ''waiting_approval'' data)
      else if state_type = ''validating'' then
        map_sum id (\<lambda>v. Session_Validating (text_entry ''test_command'' [] v)) (state_data jc ''validating'' data)
      else if state_type = ''complete'' then Inr Session_Complete
      else if state_type = ''failed'' then
        map_sum id (\<lambda>v. Session_Failed (text_entry ''error'' ''Unknown error'' v)) (state_data jc ''failed'' data)
      else Inl (''Unknown state type: '' @ state_type))"

definition deserialize_agent_state :: "json_codec \<Rightarrow> string \<Rightarrow> string option \<Rightarrow> string + agent_state" where
  "deserialize_agent_state jc state_type data =
     (if state_type = ''idle'' then Inr Agent_Idle
      else if state_type = ''running'' then
        map_sum id (\<lambda>v. Agent_Running (of_nat (number_entry ''sequence'' v))) (state_data jc ''running'' data)
      else if state_type = ''waiting_approval'' then
        map_sum id (\<lambda>v. Agent_Waiting (text_entry ''approval_id'' [] v)) (state_data jc ''waiting_approval'' data)
      else if state_type = ''validating'' then
        map_sum id (\<lambda>v. Agent_Validating (text_entry ''test_command'' [] v)) (state_data jc ''validating'' data)
      else if state_type = ''complete'' then Inr Agent_Complete
      else if state_type = ''failed'' then
        map_sum id (\<lambda>v. Agent_Failed (text_entry ''error'' ''Unknown error'' v)) (state_data jc ''failed'' data)
      else Inl (''Unknown agent state type: '' @ state_type))"

subsection \<open>Starting up\<close>

fun agent_mode_str :: "agent_mode \<Rightarrow> string" where
  "agent_mode_str Agent_Single = ''single''"
| "agent_mode_str Agent_Multi = ''multi''"

text \<open>The derived reader of \<open>AgentMode\<close> on the text in quotes, \<open>Single\<close> where it fails.\<close>

definition quoted :: "string \<Rightarrow> string" where
  "quoted s = [CHR 0x22] @ s @ [CHR 0x22]"

definition agent_mode_of_str :: "json_codec \<Rightarrow> string \<Rightarrow> agent_mode" where
  "agent_mode_of_str jc s = (if jc_parse jc (quoted s) = Some (JStr ''multi'') then Agent_Multi else Agent_Single)"

definition session_of_row :: "json_codec \<Rightarrow> orcha_row \<Rightarrow> string + session_info" where
  "session_of_row jc r =
     map_sum id (\<lambda>state.
       \<lparr>oi_id = or_id r, oi_model = or_model r, oi_created_at = or_created_at r, oi_last_activity = or_last_activity r,
        oi_state = state, oi_retry_count = word_of_int (or_retry_count r), oi_max_retries = word_of_int (or_max_retries r),
        oi_mode = agent_mode_of_str jc (or_mode r), oi_primary = or_primary r, oi_tree = or_tree r\<rparr>)
       (deserialize_state jc (or_state_type r) (or_state_data r))"

fun load_sessions :: "json_codec \<Rightarrow> orcha_row list \<Rightarrow> (string \<times> session_info) list \<Rightarrow> string + (string \<times> session_info) list" where
  "load_sessions jc [] cache = Inr cache"
| "load_sessions jc (r # rs) cache =
     (case session_of_row jc r of
        Inl e \<Rightarrow> Inl e
      | Inr info \<Rightarrow> load_sessions jc rs (AList.update (or_id r) info cache))"

text \<open>\<open>OrchaStorage::new\<close> on the tables that an earlier process has left.\<close>

definition open_storage :: "json_codec \<Rightarrow> orcha_db \<Rightarrow> string + orcha_db" where
  "open_storage jc db = map_sum id (\<lambda>cache. db\<lparr>od_cache := cache\<rparr>) (load_sessions jc (od_sessions db) [])"

subsection \<open>Sessions\<close>

definition create_session ::
  "string \<Rightarrow> string \<Rightarrow> string \<Rightarrow> string option \<Rightarrow> 32 word \<Rightarrow> agent_mode \<Rightarrow> string option \<Rightarrow> session_info orcha_op" where
  "create_session sid model working_dir rules max_retries mode tree db =
     (let info = \<lparr>oi_id = sid, oi_model = model, oi_created_at = od_now db, oi_last_activity = od_now db,
            oi_state = Session_Idle, oi_retry_count = 0, oi_max_retries = max_retries, oi_mode = mode,
            oi_primary = None, oi_tree = tree\<rparr>;
          row = \<lparr>or_id = sid, or_model = model, or_working_dir = working_dir, or_rules = rules,
            or_max_retries = uint max_retries, or_retry_count = 0, or_created_at = od_now db,
            or_last_activity = od_now db, or_state_type = ''idle'', or_state_data = None,
            or_mode = agent_mode_str mode, or_primary = None, or_tree = tree\<rparr>
      in if row_by or_id sid (od_sessions db) \<noteq> None
         then (Inl ''Failed to create session: UNIQUE constraint failed: orcha_sessions.session_id'', db)
         else (Inr info, db\<lparr>od_sessions := od_sessions db @ [row], od_cache := AList.update sid info (od_cache db)\<rparr>))"

definition get_session :: "orcha_db \<Rightarrow> string \<Rightarrow> string + session_info" where
  "get_session db sid =
     (case map_of (od_cache db) sid of None \<Rightarrow> Inl (''Session not found: '' @ sid) | Some info \<Rightarrow> Inr info)"

definition change_cached :: "string \<Rightarrow> (session_info \<Rightarrow> session_info) \<Rightarrow> orcha_db \<Rightarrow> orcha_db" where
  "change_cached sid f db = db\<lparr>od_cache := AList.map_entry sid f (od_cache db)\<rparr>"

definition update_state :: "json_codec \<Rightarrow> string \<Rightarrow> session_state \<Rightarrow> orcha_db \<Rightarrow> orcha_db" where
  "update_state jc sid state db =
     (case serialize_state jc state of (state_type, data) \<Rightarrow>
        change_cached sid (\<lambda>i. i\<lparr>oi_state := state, oi_last_activity := od_now db\<rparr>)
          (db\<lparr>od_sessions := update_where (\<lambda>r. or_id r = sid)
            (\<lambda>r. r\<lparr>or_state_type := state_type, or_state_data := data, or_last_activity := od_now db\<rparr>) (od_sessions db)\<rparr>))"

definition increment_retry :: "string \<Rightarrow> (32 word) orcha_op" where
  "increment_retry sid db =
     (let db = db\<lparr>od_sessions := update_where (\<lambda>r. or_id r = sid) (\<lambda>r. r\<lparr>or_retry_count := or_retry_count r + 1\<rparr>)
            (od_sessions db)\<rparr>
      in case map_of (od_cache db) sid of
           None \<Rightarrow> (Inl (''Session not found: '' @ sid), db)
         | Some info \<Rightarrow>
             (Inr (oi_retry_count info + 1), change_cached sid (\<lambda>i. i\<lparr>oi_retry_count := oi_retry_count i + 1\<rparr>) db))"

text \<open>The order of a hash map is not specified; here it is the order of creation.\<close>

definition list_sessions :: "orcha_db \<Rightarrow> session_info list" where
  "list_sessions db = map snd (od_cache db)"

text \<open>The agents of the session go with it; an agent of another session loses its parent.\<close>

definition drop_agents :: "string \<Rightarrow> agent_row list \<Rightarrow> agent_row list" where
  "drop_agents sid rows =
     (let gone = ag_id ` set (filter (\<lambda>r. ag_session r = sid) rows)
      in update_where (\<lambda>r. \<exists>p \<in> gone. ag_parent r = Some p) (\<lambda>r. r\<lparr>ag_parent := None\<rparr>)
           (filter (\<lambda>r. ag_session r \<noteq> sid) rows))"

definition delete_session :: "string \<Rightarrow> orcha_db \<Rightarrow> orcha_db" where
  "delete_session sid db =
     db\<lparr>od_sessions := filter (\<lambda>r. or_id r \<noteq> sid) (od_sessions db), od_agents := drop_agents sid (od_agents db),
        od_cache := AList.delete sid (od_cache db)\<rparr>"

subsection \<open>Agents\<close>

definition create_agent ::
  "string \<Rightarrow> string \<Rightarrow> string \<Rightarrow> bool \<Rightarrow> string option \<Rightarrow> string \<Rightarrow> agent_info orcha_op" where
  "create_agent sid claude subtask is_primary parent uuid db =
     (let aid = ''agent-'' @ uuid
      in if row_by ag_id aid (od_agents db) \<noteq> None
         then (Inl ''Failed to create agent: UNIQUE constraint failed: orcha_agents.agent_id'', db)
         else if row_by or_id sid (od_sessions db) = None \<or>
           (case parent of None \<Rightarrow> False | Some p \<Rightarrow> p \<noteq> aid \<and> row_by ag_id p (od_agents db) = None)
         then (Inl ''Failed to create agent: FOREIGN KEY constraint failed'', db)
         else (Inr \<lparr>ai_id = aid, ai_session = sid, ai_claude = claude, ai_subtask = subtask, ai_state = Agent_Idle,
                 ai_primary = is_primary, ai_parent = parent, ai_created_at = od_now db, ai_last_activity = od_now db,
                 ai_completed_at = None, ai_error = None\<rparr>,
               db\<lparr>od_agents := od_agents db @
                 [\<lparr>ag_id = aid, ag_session = sid, ag_claude = claude, ag_subtask = subtask, ag_state_type = ''idle'',
                   ag_state_data = None, ag_primary = (if is_primary then 1 else 0), ag_parent = parent,
                   ag_created_at = od_now db, ag_last_activity = od_now db, ag_completed_at = None, ag_error = None\<rparr>]\<rparr>))"

definition row_to_agent :: "json_codec \<Rightarrow> agent_row \<Rightarrow> string + agent_info" where
  "row_to_agent jc r =
     map_sum id (\<lambda>state.
       \<lparr>ai_id = ag_id r, ai_session = ag_session r, ai_claude = ag_claude r, ai_subtask = ag_subtask r, ai_state = state,
        ai_primary = (ag_primary r = 1), ai_parent = ag_parent r, ai_created_at = ag_created_at r,
        ai_last_activity = ag_last_activity r, ai_completed_at = ag_completed_at r, ai_error = ag_error r\<rparr>)
       (deserialize_agent_state jc (ag_state_type r) (ag_state_data r))"

definition get_agent :: "json_codec \<Rightarrow> orcha_db \<Rightarrow> string \<Rightarrow> string + agent_info" where
  "get_agent jc db aid =
     (case row_by ag_id aid (od_agents db) of
        None \<Rightarrow> Inl (''Agent not found: '' @ aid)
      | Some r \<Rightarrow> row_to_agent jc r)"

definition list_agents :: "json_codec \<Rightarrow> orcha_db \<Rightarrow> string \<Rightarrow> string + agent_info list" where
  "list_agents jc db sid =
     collect_results (map (row_to_agent jc) (sort_key ag_created_at (filter (\<lambda>r. ag_session r = sid) (od_agents db))))"

fun agent_ended :: "agent_state \<Rightarrow> bool" where
  "agent_ended Agent_Complete = True"
| "agent_ended (Agent_Failed _) = True"
| "agent_ended _ = False"

fun agent_error :: "agent_state \<Rightarrow> string option" where
  "agent_error (Agent_Failed e) = Some e"
| "agent_error _ = None"

definition update_agent_state :: "json_codec \<Rightarrow> string \<Rightarrow> agent_state \<Rightarrow> orcha_db \<Rightarrow> orcha_db" where
  "update_agent_state jc aid state db =
     (case serialize_agent_state jc state of (state_type, data) \<Rightarrow>
        db\<lparr>od_agents := update_where (\<lambda>r. ag_id r = aid)
          (if agent_ended state
           then (\<lambda>r. r\<lparr>ag_state_type := state_type, ag_state_data := data, ag_last_activity := od_now db,
                  ag_completed_at := Some (od_now db), ag_error := agent_error state\<rparr>)
           else (\<lambda>r. r\<lparr>ag_state_type := state_type, ag_state_data := data, ag_last_activity := od_now db\<rparr>))
          (od_agents db)\<rparr>)"

definition get_agent_counts :: "orcha_db \<Rightarrow> string \<Rightarrow> 32 word \<times> 32 word \<times> 32 word" where
  "get_agent_counts db sid =
     (let rows = filter (\<lambda>r. ag_session r = sid) (od_agents db)
      in (of_nat (count_where (\<lambda>r. ag_state_type r \<in> {''idle'', ''running'', ''waiting_approval'', ''validating''}) rows),
          of_nat (count_where (\<lambda>r. ag_state_type r = ''complete'') rows),
          of_nat (count_where (\<lambda>r. ag_state_type r = ''failed'') rows)))"

end
