(* ===== verification/Orcha_Artifact.thy ===== *)
theory Orcha_Artifact
  imports Claude_Render
begin

text \<open>
  The validation request that an agent writes into its answer:
  \<open>extract_validation_artifact\<close> in \<^verbatim>\<open>src/src/activations/orcha/orchestrator.rs\<close>, with the regular
  expression of the code written out as a parser, and the way the callers feed it: on the text so far,
  after every piece, until it finds something.
\<close>

record validation_artifact =
  va_test_command :: string
  va_cwd :: string

text \<open>
  \<^verbatim>\<open>\{"orcha_validate"\s*:\s*(\{[^}]+\})\}\<close>, anchored: the tag, a colon with white space around it, and
  the text in braces up to the first closing brace, which another one must follow. Only one way to
  match is left to the expression: \<open>\s*\<close> ends at the colon or the brace, \<open>[^}]+\<close> at the first closing
  brace.
\<close>

definition marker_tag :: string where
  "marker_tag = CHR ''{'' # [CHR 0x22] @ ''orcha_validate'' @ [CHR 0x22]"

definition before_brace :: "string \<Rightarrow> string" where
  "before_brace = takeWhile (\<lambda>c. c \<noteq> CHR ''}'')"

definition from_brace :: "string \<Rightarrow> string" where
  "from_brace = dropWhile (\<lambda>c. c \<noteq> CHR ''}'')"

definition braced :: "string \<Rightarrow> string option" where
  "braced s =
     Option.bind (strip_prefix ''{'' s) (\<lambda>s.
       if before_brace s \<noteq> [] \<and> starts_with ''}}'' (from_brace s) then Some (''{'' @ before_brace s @ ''}'') else None)"

definition match_marker :: "string \<Rightarrow> string option" where
  "match_marker s =
     Option.bind (strip_prefix marker_tag s) (\<lambda>s.
     Option.bind (strip_prefix '':'' (trim_start s)) (\<lambda>s. braced (trim_start s)))"

text \<open>The leftmost match.\<close>

fun find_marker :: "string \<Rightarrow> string option" where
  "find_marker [] = None"
| "find_marker (c # cs) = (case match_marker (c # cs) of Some j \<Rightarrow> Some j | None \<Rightarrow> find_marker cs)"

definition artifact_of_json :: "json \<Rightarrow> validation_artifact option" where
  "artifact_of_json v =
     Option.bind (fields_of [''test_command'', ''cwd''] v) (\<lambda>f.
     Option.bind (as_str (f ''test_command'')) (\<lambda>c.
     map_option (\<lambda>d. \<lparr>va_test_command = c, va_cwd = d\<rparr>) (as_str (f ''cwd''))))"

definition extract_validation_artifact :: "json_codec \<Rightarrow> string \<Rightarrow> validation_artifact option" where
  "extract_validation_artifact jc s = Option.bind (find_marker s) (\<lambda>j. Option.bind (jc_parse jc j) artifact_of_json)"

text \<open>One piece of the answer: the text so far and what has been found.\<close>

definition hear :: "json_codec \<Rightarrow> string \<Rightarrow> string \<times> validation_artifact option \<Rightarrow> string \<times> validation_artifact option" where
  "hear jc piece st =
     (let heard = fst st @ piece
      in (heard, case snd st of Some a \<Rightarrow> Some a | None \<Rightarrow> extract_validation_artifact jc heard))"

subsection \<open>More text does not change a match\<close>

lemma strip_prefix_more: "strip_prefix p s = Some r \<Longrightarrow> strip_prefix p (s @ t) = Some (r @ t)"
  by (simp add: strip_prefix_iff)

definition solid :: "char \<Rightarrow> bool" where
  "solid c \<longleftrightarrow> byte c < 128 \<and> \<not> space1 (byte c)"

lemma space_len_solid [simp]: "solid c \<Longrightarrow> space_len (c # s) = 0"
  by (induction "c # s" rule: space_len.induct) (auto simp: solid_def space2_def space3_def)

lemma solid_not_continued: "solid d \<Longrightarrow> \<not> space2 b (byte d)" "solid d \<Longrightarrow> \<not> space3 a b (byte d)" "solid d \<Longrightarrow> \<not> space3 a (byte d) b"
  by (auto simp: solid_def space2_def space3_def)

text \<open>A solid character ends the white space before it, whatever follows.\<close>

lemma space_len_before:
  assumes "solid c"
  shows "space_len (x @ c # w) = space_len (x @ [c]) \<and> space_len (x @ [c]) \<le> length x"
proof (cases x)
  case Cons
  note assms [THEN solid_not_continued(1)] assms [THEN solid_not_continued(2)] assms [THEN solid_not_continued(3)]
  then show ?thesis using assms Cons
    by (cases x rule: space_len.cases; cases w; cases "tl w") (auto simp: solid_def)
qed (use assms in \<open>simp add: solid_def\<close>)

lemma trim_start_before:
  assumes "solid c"
  shows "\<exists>q. set q \<subseteq> set x \<and> (\<forall>w. trim_start (x @ c # w) = q @ c # w)"
proof (induction "length x" arbitrary: x rule: less_induct)
  case less
  note len = space_len_before [OF assms, of x]
  show ?case
  proof (cases "space_len (x @ [c]) = 0")
    case True
    then have "trim_start (x @ c # w) = x @ c # w" for w using len by (subst trim_start.simps) simp
    then show ?thesis by blast
  next
    case False
    let ?y = "drop (space_len (x @ [c])) x"
    have step: "trim_start (x @ c # w) = trim_start (?y @ c # w)" for w
      using False len [of w] trim_start.simps [of "x @ c # w"] by auto
    have "length ?y < length x" using False len by (cases x) auto
    then obtain q where "set q \<subseteq> set ?y" "\<forall>w. trim_start (?y @ c # w) = q @ c # w" using less by blast
    then show ?thesis using step set_drop_subset [of "space_len (x @ [c])" x] by (intro exI [of _ q]) auto
  qed
qed

lemma strip_prefix_before: "c \<notin> set p \<Longrightarrow> strip_prefix p (u @ c # w) = map_option (\<lambda>r. r @ c # w) (strip_prefix p u)"
  by (induction p u rule: strip_prefix.induct) auto

lemma solid_marks [simp]: "solid CHR ''}''" "solid CHR '':''" "solid CHR ''{''"
  by (simp_all add: solid_def space1_def byte_def)

text \<open>Of a text with a closing brace, a match sees nothing behind the character after the first one.\<close>

lemma braced_cut:
  assumes "CHR ''}'' \<notin> set q"
  shows "braced (q @ CHR ''}'' # x # w) = braced (q @ [CHR ''}'', x])"
proof -
  have "starts_with ''}}'' (CHR ''}'' # x # w) = starts_with ''}}'' [CHR ''}'', x]" by (simp add: starts_with_def)
  moreover have "before_brace (r @ CHR ''}'' # y) = r" "from_brace (r @ CHR ''}'' # y) = CHR ''}'' # y"
    if "strip_prefix ''{'' q = Some r" for r y
    using that assms by (auto simp: strip_prefix_iff before_brace_def from_brace_def takeWhile_append dropWhile_append)
  ultimately show ?thesis by (cases "strip_prefix ''{'' q") (simp_all add: braced_def strip_prefix_before)
qed

lemma no_brace_in_tag [simp]: "CHR ''}'' \<notin> set marker_tag"
  by (simp add: marker_tag_def)

lemma match_marker_cut:
  assumes "CHR ''}'' \<notin> set u"
  shows "match_marker (u @ CHR ''}'' # x # w) = match_marker (u @ [CHR ''}'', x])"
proof (cases "strip_prefix marker_tag u")
  case None
  then show ?thesis by (simp add: match_marker_def strip_prefix_before)
next
  case (Some u1)
  then have u1: "CHR ''}'' \<notin> set u1" using assms by (auto simp: strip_prefix_iff)
  obtain q1 where q1: "set q1 \<subseteq> set u1" "\<forall>w. trim_start (u1 @ CHR ''}'' # w) = q1 @ CHR ''}'' # w"
    using trim_start_before [OF solid_marks(1), of u1] by (elim exE conjE)
  show ?thesis
  proof (cases "strip_prefix '':'' q1")
    case None
    with Some q1(2) show ?thesis by (simp add: match_marker_def strip_prefix_before)
  next
    case (Some u2)
    then have "CHR ''}'' \<notin> set u2" using u1 q1(1) by (auto simp: strip_prefix_iff)
    moreover obtain q2 where q2: "set q2 \<subseteq> set u2" "\<forall>w. trim_start (u2 @ CHR ''}'' # w) = q2 @ CHR ''}'' # w"
      using trim_start_before [OF solid_marks(1), of u2] by (elim exE conjE)
    ultimately have "CHR ''}'' \<notin> set q2" by blast
    then have cut: "braced (q2 @ CHR ''}'' # y # v) = braced (q2 @ [CHR ''}'', y])" for y v by (rule braced_cut)
    have "match_marker (u @ CHR ''}'' # y # v) = braced (q2 @ CHR ''}'' # y # v)" for y v
      using Some \<open>strip_prefix marker_tag u = Some u1\<close>
      by (simp add: match_marker_def strip_prefix_before q1(2) q2(2) del: strip_prefix.simps)
    then show ?thesis using cut by metis
  qed
qed

subsection \<open>The leftmost match is stable\<close>

lemma trim_start_suffix: "\<exists>p. s = p @ trim_start s"
proof (induction s rule: trim_start.induct)
  case (1 s)
  show ?case
  proof (cases "space_len s = 0")
    case True then show ?thesis by (simp add: trim_start.simps [of s])
  next
    case False
    then obtain p where "drop (space_len s) s = p @ trim_start (drop (space_len s) s)" using 1 by blast
    then have "s = (take (space_len s) s @ p) @ trim_start s"
      using False append_take_drop_id [of "space_len s" s] by (simp add: trim_start.simps [of s])
    then show ?thesis by blast
  qed
qed

lemma match_marker_closed: "match_marker s = Some j \<Longrightarrow> \<exists>u w. s = u @ ''}}'' @ w"
proof -
  assume "match_marker s = Some j"
  then obtain r1 r2 r3 where r: "s = marker_tag @ r1" "trim_start r1 = CHR '':'' # r2" "trim_start r2 = CHR ''{'' # r3"
    "starts_with ''}}'' (from_brace r3)"
    by (auto simp: match_marker_def braced_def bind_eq_Some_conv strip_prefix_iff split: if_splits)
  obtain p1 p2 where "r1 = p1 @ trim_start r1" "r2 = p2 @ trim_start r2" using trim_start_suffix by meson
  moreover obtain w where "from_brace r3 = ''}}'' @ w" using r(4) by (auto simp: starts_with_def strip_prefix_iff)
  moreover have "r3 = before_brace r3 @ from_brace r3" by (simp add: before_brace_def from_brace_def)
  ultimately have "s = (marker_tag @ p1 @ '':'' @ p2 @ ''{'' @ before_brace r3) @ ''}}'' @ w" using r(1-3) by simp
  then show ?thesis by blast
qed

lemma find_marker_closed: "find_marker s = Some j \<Longrightarrow> \<exists>u w. s = u @ ''}}'' @ w"
proof (induction s)
  case (Cons c cs)
  show ?case
  proof (cases "match_marker (c # cs)")
    case None
    with Cons obtain u w where "cs = u @ ''}}'' @ w" by auto
    then have "c # cs = (c # u) @ ''}}'' @ w" by simp
    then show ?thesis by blast
  qed (use match_marker_closed in blast)
qed simp

lemma first_brace: "s = u @ ''}}'' @ w \<Longrightarrow> \<exists>p x r. s = p @ CHR ''}'' # x # r \<and> CHR ''}'' \<notin> set p"
proof -
  assume s: "s = u @ ''}}'' @ w"
  then have "CHR ''}'' \<in> set s" by simp
  from split_list_first [OF this] obtain p r where pr: "s = p @ CHR ''}'' # r" "CHR ''}'' \<notin> set p" by blast
  have "r \<noteq> []"
  proof
    assume "r = []"
    with pr(1) have "butlast s = p" by simp
    moreover have "CHR ''}'' \<in> set (butlast s)" unfolding s by (simp add: butlast_append)
    ultimately show False using pr(2) by simp
  qed
  with pr show ?thesis by (cases r) auto
qed

lemma match_marker_more: "s = u @ ''}}'' @ w \<Longrightarrow> match_marker (s @ t) = match_marker s"
proof -
  assume "s = u @ ''}}'' @ w"
  from first_brace [OF this] obtain p x r where s: "s = p @ CHR ''}'' # x # r" and p: "CHR ''}'' \<notin> set p" by blast
  show ?thesis unfolding s using match_marker_cut [OF p, of x "r @ t"] match_marker_cut [OF p, of x r] by simp
qed

lemma find_marker_more: "find_marker s = Some j \<Longrightarrow> find_marker (s @ t) = Some j"
proof (induction s)
  case (Cons c cs)
  obtain u w where "c # cs = u @ ''}}'' @ w" using find_marker_closed [OF Cons.prems] by blast
  from match_marker_more [OF this, of t] have same: "match_marker (c # cs @ t) = match_marker (c # cs)" by simp
  show ?case
  proof (cases "match_marker (c # cs)")
    case None
    with Cons same show ?thesis by simp
  qed (use Cons.prems same in simp)
qed simp

lemma hear_all:
  "fold (hear jc) pieces (s, extract_validation_artifact jc s) = (s @ concat pieces, extract_validation_artifact jc (s @ concat pieces))"
proof (induction pieces arbitrary: s)
  case (Cons p ps)
  have "hear jc p (s, extract_validation_artifact jc s) = (s @ p, extract_validation_artifact jc (s @ p))"
  proof (cases "extract_validation_artifact jc s")
    case (Some a)
    then obtain j where j: "find_marker s = Some j" by (auto simp: extract_validation_artifact_def bind_eq_Some_conv)
    have "extract_validation_artifact jc (s @ p) = extract_validation_artifact jc s"
      unfolding extract_validation_artifact_def j find_marker_more [OF j] ..
    then show ?thesis using Some by (simp add: hear_def)
  qed (simp add: hear_def Let_def)
  then show ?case using Cons.IH [of "s @ p"] by simp
qed simp

end
