(* ===== verification/Orcha_Task.thy ===== *)
theory Orcha_Task
  imports Orcha_Sessions Orcha_Artifact Claude_Activation Loopback
begin

text \<open>
  Running a task with Claude and validating its result:
  \<^verbatim>\<open>src/src/activations/orcha/orchestrator.rs\<close> and the log that a task keeps in an Arbor tree,
  \<^verbatim>\<open>src/src/activations/orcha/context.rs\<close>. The state of a task holds the stores that the code shares (Arbor is
  part of \<^typ>\<open>claude_db\<close>), the local variables and the events yielded so far. What lies outside the
  program is part of the environment: the Claude program and the test command, once per attempt, and
  the sequences of new UUIDs. Tasks that the code spawns are listed as jobs.
\<close>

subsection \<open>State\<close>

record task_request =
  tq_model :: string
  tq_task :: string
  tq_dir :: string
  tq_rules :: "string option"
  tq_max_retries :: "32 word"
  tq_verbose :: bool
  tq_auto :: bool

record validation_result =
  vr_success :: bool
  vr_output :: string
  vr_exit :: "int option"

datatype task_event =
    Task_State string session_state
  | Task_Output string
  | Task_Tool_Use string string json
  | Task_Tool_Result string string bool
  | Task_Artifact string string
  | Task_Validating string
  | Task_Validated bool string
  | Task_Retry nat nat string
  | Task_Complete string
  | Task_Failed string string
  | Task_Progress string "nat option"

text \<open>The arguments of a spawned \<open>handle_tool_approval\<close>.\<close>

record approval_job =
  aj_orcha :: string
  aj_claude :: string
  aj_tool :: string
  aj_tool_use :: string
  aj_input :: json
  aj_task :: string
  aj_auto :: bool

text \<open>
  \<open>shell k cmd dir\<close> is what \<open>sh -c cmd\<close> answers in \<open>dir\<close> in attempt \<open>k\<close>: success, the two outputs as texts and
  the exit code, or the error of starting it.
\<close>

record task_env =
  te_json :: json_codec
  te_new_id :: "nat \<Rightarrow> string"
  te_canonicalize :: "string \<Rightarrow> string + string"
  te_unreachable :: "string option"
  te_chat :: "nat \<Rightarrow> chat_env"
  te_claude :: "nat \<Rightarrow> launch_config \<Rightarrow> raw_event list"
  te_shell :: "nat \<Rightarrow> string \<Rightarrow> string \<Rightarrow> string + bool \<times> string \<times> string \<times> int option"

record task_world =
  tw_orcha :: orcha_db
  tw_claude :: claude_db
  tw_loopback :: loopback
  tw_next :: nat
  tw_last :: "arbor_id option"
  tw_jobs :: "approval_job list"
  tw_out :: "task_event list"

definition say :: "task_event \<Rightarrow> task_world \<Rightarrow> task_world" where
  "say e w = w\<lparr>tw_out := tw_out w @ [e]\<rparr>"

definition when_verbose :: "task_request \<Rightarrow> task_event \<Rightarrow> task_world \<Rightarrow> task_world" where
  "when_verbose rq e w = (if tq_verbose rq then say e w else w)"

definition set_state :: "task_env \<Rightarrow> string \<Rightarrow> session_state \<Rightarrow> task_world \<Rightarrow> task_world" where
  "set_state env sid state w = w\<lparr>tw_orcha := update_state (te_json env) sid state (tw_orcha w)\<rparr>"

subsection \<open>The log\<close>

definition lines_of :: "string list \<Rightarrow> string" where
  "lines_of = join_with newline"

text \<open>A node that cannot be written is skipped. The first node has no parent.\<close>

definition write_node :: "task_env \<Rightarrow> arbor_id \<Rightarrow> string \<Rightarrow> json \<Rightarrow> task_world \<Rightarrow> task_world" where
  "write_node env t content metadata w =
     (case node_create_text t (tw_last w) content (Some metadata) (te_new_id env (tw_next w)) (cc_arbor (tw_claude w)) of
        (r, a) \<Rightarrow>
          let w = w\<lparr>tw_claude := (tw_claude w)\<lparr>cc_arbor := a\<rparr>, tw_next := tw_next w + 1\<rparr>
          in case r of Inr i \<Rightarrow> w\<lparr>tw_last := Some i\<rparr> | Inl _ \<Rightarrow> w)"

text \<open>The entries before and behind the name of the event, in the order of the keys.\<close>

definition event_json :: "(string \<times> json) list \<Rightarrow> string \<Rightarrow> (string \<times> json) list \<Rightarrow> json" where
  "event_json entries name others = JObj (entries @ (''event'', JStr name) # others)"

definition context_new ::
  "task_env \<Rightarrow> string \<Rightarrow> string \<Rightarrow> string \<Rightarrow> task_world \<Rightarrow> (string + arbor_id) \<times> task_world" where
  "context_new env sid task model w =
     (case tree_create (Some (JObj [(''model'', JStr model), (''session_id'', JStr sid), (''task'', JStr task)])) ''orcha''
         (te_new_id env (tw_next w)) (te_new_id env (tw_next w + 1)) (cc_arbor (tw_claude w)) of
        (r, a) \<Rightarrow>
          let w = w\<lparr>tw_claude := (tw_claude w)\<lparr>cc_arbor := a\<rparr>, tw_next := tw_next w + 2\<rparr>
          in case r of
               Inl e \<Rightarrow> (Inl (''Failed to create arbor tree: '' @ arbor_error_text e), w)
             | Inr t \<Rightarrow>
                 (Inr t, write_node env t
                    (lines_of [''session_started: '' @ sid, ''task: '' @ task, ''model: '' @ model])
                    (event_json [] ''session_started'' [(''session_id'', JStr sid)]) (w\<lparr>tw_last := None\<rparr>)))"

definition claude_session_created :: "task_env \<Rightarrow> arbor_id \<Rightarrow> string \<Rightarrow> string \<Rightarrow> task_world \<Rightarrow> task_world" where
  "claude_session_created env t cid name =
     write_node env t (lines_of [''claude_session_created: '' @ cid, ''session_name: '' @ name])
       (event_json [(''claude_session_id'', JStr cid)] ''claude_session_started'' [(''session_name'', JStr name)])"

definition prompt_created :: "task_env \<Rightarrow> arbor_id \<Rightarrow> string \<Rightarrow> nat \<Rightarrow> task_world \<Rightarrow> task_world" where
  "prompt_created env t prompt retry =
     write_node env t (lines_of [''prompt_created (retry '' @ nat_text retry @ ''):'', prompt])
       (event_json [] ''prompt_created'' [(''prompt'', JStr prompt), (''retry_count'', nat_json retry)])"

definition claude_session_complete :: "task_env \<Rightarrow> arbor_id \<Rightarrow> string \<Rightarrow> task_world \<Rightarrow> task_world" where
  "claude_session_complete env t cid =
     write_node env t (''claude_session_complete: '' @ cid)
       (event_json [(''claude_session_id'', JStr cid)] ''claude_session_complete'' [])"

definition validation_started :: "task_env \<Rightarrow> arbor_id \<Rightarrow> string \<Rightarrow> string \<Rightarrow> task_world \<Rightarrow> task_world" where
  "validation_started env t command cwd =
     write_node env t (lines_of [''validation_started:'', command])
       (event_json [(''cwd'', JStr cwd)] ''validation_started'' [(''test_command'', JStr command)])"

definition log_validation :: "task_env \<Rightarrow> arbor_id \<Rightarrow> bool \<Rightarrow> string \<Rightarrow> task_world \<Rightarrow> task_world" where
  "log_validation env t ok output =
     write_node env t
       (lines_of [''validation_result: '' @ (if ok then ''SUCCESS'' else ''FAILED''), ''output:'', output])
       (event_json [] ''validation_result'' [(''output'', JStr output), (''success'', JBool ok)])"

definition log_complete :: "task_env \<Rightarrow> arbor_id \<Rightarrow> string \<Rightarrow> string \<Rightarrow> task_world \<Rightarrow> task_world" where
  "log_complete env t sid status =
     write_node env t (''session_complete: '' @ sid @ '' status='' @ status)
       (event_json [] ''session_complete'' [(''status'', JStr status)])"

subsection \<open>One attempt\<close>

definition task_model :: "string \<Rightarrow> claude_model" where
  "task_model s = (if s = ''opus'' then Opus else if s = ''haiku'' then Haiku else Sonnet)"

definition retry_prompt :: "string \<Rightarrow> string \<Rightarrow> nat \<Rightarrow> nat \<Rightarrow> string" where
  "retry_prompt task hint retry max_retries =
     (if 0 < retry
      then task @ newline @ newline @ ''[RETRY '' @ nat_text retry @ ''/'' @ nat_text max_retries @ ''] '' @ hint
      else task)"

definition running :: "string \<Rightarrow> session_state" where
  "running name = Session_Running name 0 0 0 0"

text \<open>
  One event of the chat; the answer heard so far and the artifact found are the second component.
  \<open>None\<close> goes on, \<open>Some None\<close> is the end of the chat, \<open>Some (Some m)\<close> its error.
\<close>

type_synonym heard = "string \<times> validation_artifact option"

definition hear_text :: "task_env \<Rightarrow> task_request \<Rightarrow> string \<Rightarrow> task_world \<times> heard \<Rightarrow> task_world \<times> heard" where
  "hear_text env rq s = (\<lambda>(w, h).
     let w = when_verbose rq (Task_Output s) w; h' = hear (te_json env) s h
      in (case (snd h, snd h') of
            (None, Some a) \<Rightarrow> (when_verbose rq (Task_Artifact (va_test_command a) (va_cwd a)) w, h')
          | _ \<Rightarrow> (w, h')))"

definition request_approval :: "task_request \<Rightarrow> string \<Rightarrow> string \<Rightarrow> string \<Rightarrow> string \<Rightarrow> json \<Rightarrow> task_world \<Rightarrow> task_world" where
  "request_approval rq sid cid tool tool_use input w =
     w\<lparr>tw_loopback := register_tool_session tool_use cid (tw_loopback w),
       tw_jobs := tw_jobs w @ [\<lparr>aj_orcha = sid, aj_claude = cid, aj_tool = tool, aj_tool_use = tool_use, aj_input = input,
         aj_task = tq_task rq, aj_auto = tq_auto rq\<rparr>]\<rparr>"

fun task_chat_event ::
  "task_env \<Rightarrow> task_request \<Rightarrow> arbor_id \<Rightarrow> string \<Rightarrow> string \<Rightarrow> chat_event \<Rightarrow> task_world \<times> heard \<Rightarrow>
   string option option \<times> task_world \<times> heard" where
  "task_chat_event env rq t sid cid (Chat_Start _ _) (w, h) =
     (None, when_verbose rq (Task_Progress ''Agent started processing task'' (Some 40)) w, h)"
| "task_chat_event env rq t sid cid (Chat_Content s) (w, h) = (None, hear_text env rq s (w, h))"
| "task_chat_event env rq t sid cid (Chat_Tool_Use name use_id input) (w, h) =
     (None, when_verbose rq (Task_Tool_Use use_id name input) (request_approval rq sid cid name use_id input w), h)"
| "task_chat_event env rq t sid cid (Chat_Tool_Result use_id output is_error) (w, h) =
     (None, when_verbose rq (Task_Tool_Result use_id output is_error) w, h)"
| "task_chat_event env rq t sid cid (Chat_Complete _ _ _) (w, h) =
     (Some None, when_verbose rq (Task_Progress ''Agent completed task'' (Some 70)) (claude_session_complete env t cid w), h)"
| "task_chat_event env rq t sid cid (Chat_Err m) (w, h) = (Some (Some m), w, h)"
| "task_chat_event env rq t sid cid _ (w, h) = (None, w, h)"

fun task_chat_events ::
  "task_env \<Rightarrow> task_request \<Rightarrow> arbor_id \<Rightarrow> string \<Rightarrow> string \<Rightarrow> chat_event list \<Rightarrow> task_world \<times> heard \<Rightarrow>
   string option \<times> task_world \<times> heard" where
  "task_chat_events env rq t sid cid [] st = (None, st)"
| "task_chat_events env rq t sid cid (e # es) st =
     (case task_chat_event env rq t sid cid e st of
        (None, st) \<Rightarrow> task_chat_events env rq t sid cid es st
      | (Some err, st) \<Rightarrow> (err, st))"

definition run_validation_test :: "(string \<Rightarrow> string \<Rightarrow> string + bool \<times> string \<times> string \<times> int option) \<Rightarrow> validation_artifact \<Rightarrow> validation_result" where
  "run_validation_test shell a =
     (case shell (va_test_command a) (va_cwd a) of
        Inr (ok, out, err, code) \<Rightarrow> \<lparr>vr_success = ok, vr_output = out @ err, vr_exit = code\<rparr>
      | Inl e \<Rightarrow> \<lparr>vr_success = False, vr_output = ''Failed to execute command: '' @ e, vr_exit = None\<rparr>)"

definition task_done :: "task_env \<Rightarrow> task_request \<Rightarrow> arbor_id \<Rightarrow> string \<Rightarrow> string \<Rightarrow> task_world \<Rightarrow> task_world" where
  "task_done env rq t sid status w =
     say (Task_Complete sid) (when_verbose rq (Task_State sid Session_Complete)
       (log_complete env t sid status (set_state env sid Session_Complete w)))"

definition validation_failure :: "nat \<Rightarrow> string" where
  "validation_failure n = ''Validation failed after '' @ nat_text n @ '' retries''"

text \<open>Everything after the chat; true when the loop goes on with the next attempt.\<close>

definition judge ::
  "task_env \<Rightarrow> task_request \<Rightarrow> arbor_id \<Rightarrow> string \<Rightarrow> nat \<Rightarrow> validation_artifact \<Rightarrow> task_world \<Rightarrow> bool \<times> task_world" where
  "judge env rq t sid retry a w =
     (let w = when_verbose rq (Task_Validating (va_test_command a)) w;
          w = set_state env sid (Session_Validating (va_test_command a)) w;
          w = validation_started env t (va_test_command a) (va_cwd a) w;
          v = run_validation_test (te_shell env retry) a;
          w = log_validation env t (vr_success v) (vr_output v) w;
          w = when_verbose rq (Task_Validated (vr_success v) (vr_output v)) w
      in if vr_success v then (False, task_done env rq t sid ''success'' w)
         else if unat (tq_max_retries rq) \<le> Suc retry
         then (False, say (Task_Failed sid (validation_failure (Suc retry)))
                (set_state env sid (Session_Failed (validation_failure (Suc retry))) w))
         else (True, when_verbose rq (Task_Retry (Suc retry) (unat (tq_max_retries rq)) ''Validation test failed'')
                (w\<lparr>tw_orcha := snd (increment_retry sid (tw_orcha w))\<rparr>)))"

definition attempt ::
  "task_env \<Rightarrow> task_request \<Rightarrow> arbor_id \<Rightarrow> string \<Rightarrow> string \<Rightarrow> string \<Rightarrow> nat \<Rightarrow> task_world \<Rightarrow> bool \<times> task_world" where
  "attempt env rq t sid name cid retry w =
     (let w = when_verbose rq (Task_Progress ''Starting task execution'' (Some 30)) w;
          prompt = retry_prompt (tq_task rq) ''The previous attempt failed validation. Please fix the issues and try again.''
            retry (unat (tq_max_retries rq));
          w = prompt_created env t prompt retry w;
          w = when_verbose rq (Task_State sid (running name)) (set_state env sid (running name) w)
      in case on_chat (te_chat env retry) (te_claude env retry) name prompt None None 0 (tw_claude w) of
           (events, db) \<Rightarrow>
             (case task_chat_events env rq t sid cid events (w\<lparr>tw_claude := db\<rparr>, [], None) of
                (Some m, w, _) \<Rightarrow> (False, say (Task_Failed sid (''Chat error: '' @ m)) w)
              | (None, w, _, Some a) \<Rightarrow> judge env rq t sid retry a w
              | (None, w, _, None) \<Rightarrow> (False, task_done env rq t sid ''success_no_validation'' w)))"

lemma attempt_again: "(True, w') = attempt env rq t sid name cid retry w \<Longrightarrow> Suc retry < unat (tq_max_retries rq)"
  by (auto simp: attempt_def judge_def Let_def split: prod.splits option.splits if_splits)

function attempts ::
  "task_env \<Rightarrow> task_request \<Rightarrow> arbor_id \<Rightarrow> string \<Rightarrow> string \<Rightarrow> string \<Rightarrow> nat \<Rightarrow> task_world \<Rightarrow> task_world" where
  "attempts env rq t sid name cid retry w =
     (case attempt env rq t sid name cid retry w of
        (again, w') \<Rightarrow> if again then attempts env rq t sid name cid (Suc retry) w' else w')"
  by pat_completeness auto
termination
  by (relation "measure (\<lambda>(env, rq, t, sid, name, cid, retry, w). unat (tq_max_retries rq) - retry)")
     (auto dest: attempt_again)

declare attempts.simps [simp del]

subsection \<open>The whole task\<close>

definition claude_created :: "task_env \<Rightarrow> task_request \<Rightarrow> arbor_id \<Rightarrow> string \<Rightarrow> string \<Rightarrow> string \<Rightarrow> task_world \<Rightarrow> task_world" where
  "claude_created env rq t sid name cid w =
     when_verbose rq (Task_Progress (''Created Claude Code session: '' @ cid) (Some 20))
       (claude_session_created env t cid name
         (w\<lparr>tw_loopback := register_session_parent cid sid (tw_loopback w),
            tw_claude := session_update_loopback_id cid cid (tw_claude w)\<rparr>))"

text \<open>From the Claude session on.\<close>

definition run_with_claude :: "task_env \<Rightarrow> task_request \<Rightarrow> arbor_id \<Rightarrow> string \<Rightarrow> string \<Rightarrow> task_world \<Rightarrow> task_world" where
  "run_with_claude env rq t sid name w =
     (case on_create (te_canonicalize env) (te_unreachable env) name (tq_dir rq) (task_model (tq_model rq)) None
         (Some True) None (te_new_id env (tw_next w)) (te_new_id env (tw_next w + 1)) (te_new_id env (tw_next w + 2))
         (tw_claude w) of
       (Inl m, db) \<Rightarrow> say (Task_Failed sid (''Failed to create Claude Code session: '' @ m)) (w\<lparr>tw_claude := db\<rparr>)
     | (Inr (cid, _), db) \<Rightarrow>
         attempts env rq t sid name cid 0
           (claude_created env rq t sid name cid (w\<lparr>tw_claude := db, tw_next := tw_next w + 3\<rparr>)))"

definition run_orchestration_task :: "task_env \<Rightarrow> task_request \<Rightarrow> string \<Rightarrow> task_world \<Rightarrow> task_world" where
  "run_orchestration_task env rq sid w =
     (case context_new env sid (tq_task rq) (tq_model rq) w of
        (Inl e, w) \<Rightarrow> say (Task_Failed sid e) w
      | (Inr t, w) \<Rightarrow>
          (case create_session sid (tq_model rq) (tq_dir rq) (tq_rules rq) (tq_max_retries rq) Agent_Single (Some t) (tw_orcha w) of
             (Inl e, od) \<Rightarrow> say (Task_Failed sid (''Failed to create orcha session: '' @ e)) (w\<lparr>tw_orcha := od\<rparr>)
           | (Inr _, od) \<Rightarrow>
               let name = sid @ ''-cc''
               in run_with_claude env rq t sid name
                    (when_verbose rq (Task_Progress (''Creating Claude Code session: '' @ name) (Some 10))
                      (when_verbose rq (Task_State sid Session_Idle) (w\<lparr>tw_orcha := od\<rparr>)))))"

end
