(* ===== verification/Orcha_Agents.thy ===== *)
theory Orcha_Agents
  imports Orcha_Task
begin

text \<open>
  Approval by a judge and the tasks of several agents:
  \<^verbatim>\<open>src/src/activations/orcha/orchestrator.rs\<close>. A chat of an agent is run first and its events are
  handled afterwards; what a handler does in between (it only adds sessions and agents) does not touch
  the chat. Waiting is explicit: \<open>find_approval\<close> is one look at the pending requests.
\<close>

subsection \<open>Approving tools\<close>

definition find_approval :: "approval_job \<Rightarrow> loopback \<Rightarrow> string option" where
  "find_approval job lb =
     map_option ap_id (find (\<lambda>a. ap_tool_use a = aj_tool_use job) (get_pending_approvals lb (aj_claude job)))"

text \<open>
  \<open>to_uppercase\<close>, as far as the letters of \<open>APPROVE\<close> are concerned: no character but the small letter
  has one of them (followed by the next) as its capital form.
\<close>

definition upper_char :: "char \<Rightarrow> char" where
  "upper_char c = (if 97 \<le> byte c \<and> byte c \<le> 122 then char_of (byte c - 32) else c)"

definition text_contains :: "string \<Rightarrow> string \<Rightarrow> bool" where
  "text_contains p s \<longleftrightarrow> list_ex (starts_with p) (suffixes_of s)"

definition approves :: "string \<Rightarrow> bool" where
  "approves decision \<longleftrightarrow> text_contains ''APPROVE'' (map upper_char (trim decision))"

fun content_text :: "chat_event \<Rightarrow> string" where
  "content_text (Chat_Content s) = s"
| "content_text _ = []"

text \<open>\<open>pj_pretty\<close> prints a JSON value in several lines.\<close>

record judge_env =
  pj_canonicalize :: "string \<Rightarrow> string + string"
  pj_chat :: chat_env
  pj_claude :: "launch_config \<Rightarrow> raw_event list"
  pj_pretty :: "json \<Rightarrow> string"
  pj_new_id :: "nat \<Rightarrow> string"

definition judge_prompt :: "judge_env \<Rightarrow> approval_job \<Rightarrow> string" where
  "judge_prompt env job =
     (let q = [CHR 0x22] in lines_of
       [''You are an approval agent for an autonomous orcha orchestration system.'', [],
        ''The main task is: '' @ q @ aj_task job @ q, [],
        ''The agent is requesting permission to use this tool:'', ''- Tool: '' @ aj_tool job,
        ''- Input: '' @ pj_pretty env (aj_input job), [],
        ''Decide whether to APPROVE or DENY this tool use.'',
        ''Respond with EXACTLY ONE WORD: either '' @ q @ ''APPROVE'' @ q @ '' or '' @ q @ ''DENY'' @ q @ ''.'', [],
        ''Guidelines:'', ''- APPROVE if the tool use is safe and relevant to the task'',
        ''- DENY if the tool could be dangerous, destructive, or irrelevant'',
        ''- DENY any attempts to access sensitive files, run dangerous commands, or modify system files'',
        ''- APPROVE standard development operations like Write, Read, Edit, Bash for build/test commands''])"

text \<open>The decision on a found request. What \<open>resolve_approval\<close> answers is only logged.\<close>

definition decide_approval :: "judge_env \<Rightarrow> approval_job \<Rightarrow> string \<Rightarrow> claude_db \<times> loopback \<Rightarrow> claude_db \<times> loopback" where
  "decide_approval env job aid = (\<lambda>(db, lb).
     if \<not> aj_auto job then (db, lb)
     else
       let name = ''orcha-approval-'' @ pj_new_id env 0; loopback_id = aj_orcha job @ ''-approval-'' @ pj_new_id env 1
       in case on_create (pj_canonicalize env) None name ''/workspace'' Haiku None (Some False) (Some loopback_id)
              (pj_new_id env 2) (pj_new_id env 3) (pj_new_id env 4) db of
            (Inl _, db) \<Rightarrow> (db, snd (resolve_approval aid False (Some ''Failed to create approval decision session'') lb))
          | (Inr _, db) \<Rightarrow>
              (case on_chat (pj_chat env) (pj_claude env) name (judge_prompt env job) (Some True) None 0 db of
                 (events, db) \<Rightarrow>
                   let decision = concat (map content_text events); approved = approves decision;
                       message = (if approved then ''Approved'' else ''Denied'') @ '' by orcha approval agent: '' @ trim decision
                   in (db, snd (resolve_approval aid approved (Some message) lb))))"

text \<open>The notifier exists from the beginning; the decision follows when the request is there.\<close>

definition handle_tool_approval :: "judge_env \<Rightarrow> approval_job \<Rightarrow> claude_db \<times> loopback \<Rightarrow> (claude_db \<times> loopback) option" where
  "handle_tool_approval env job = (\<lambda>(db, lb).
     let lb = session_notifier (aj_claude job) lb
     in map_option (\<lambda>aid. decide_approval env job aid (db, lb)) (find_approval job lb))"

subsection \<open>Agents\<close>

record agent_config =
  gc_model :: claude_model
  gc_dir :: string
  gc_max_retries :: "32 word"
  gc_context :: string
  gc_auto :: bool

datatype agent_task_result = Agent_Success "validation_result option" | Agent_Task_Failed string

record agent_world =
  gw_orcha :: orcha_db
  gw_claude :: claude_db
  gw_loopback :: loopback
  gw_next :: nat
  gw_jobs :: "approval_job list"
  gw_spawned :: "(agent_info \<times> string \<times> agent_config) list"

definition set_agent :: "task_env \<Rightarrow> agent_info \<Rightarrow> agent_state \<Rightarrow> agent_world \<Rightarrow> agent_world" where
  "set_agent env agent state w = w\<lparr>gw_orcha := update_agent_state (te_json env) (ai_id agent) state (gw_orcha w)\<rparr>"

definition add_helper ::
  "agent_info \<Rightarrow> string \<Rightarrow> string \<Rightarrow> string \<Rightarrow> agent_config \<Rightarrow> agent_world \<Rightarrow> agent_world" where
  "add_helper parent name subtask uuid config w =
     (case create_agent (ai_session parent) name subtask False (Some (ai_id parent)) uuid (gw_orcha w) of
        (Inl _, od) \<Rightarrow> w\<lparr>gw_orcha := od\<rparr>
      | (Inr agent, od) \<Rightarrow> w\<lparr>gw_orcha := od, gw_spawned := gw_spawned w @ [(agent, subtask, config)]\<rparr>)"

definition handle_agent_spawn_request :: "task_env \<Rightarrow> agent_info \<Rightarrow> json \<Rightarrow> string \<Rightarrow> agent_world \<Rightarrow> agent_world" where
  "handle_agent_spawn_request env parent input context_text w =
     (case Option.bind (json_get ''subtask'' input) json_as_str of
        None \<Rightarrow> w
      | Some subtask \<Rightarrow>
          (case get_session (gw_orcha w) (ai_session parent) of
             Inl _ \<Rightarrow> w
           | Inr s \<Rightarrow>
               let model = task_model (oi_model s); i = te_new_id env; n = gw_next w; name = ''orcha-agent-'' @ i n
               in case on_create (te_canonicalize env) (te_unreachable env) name ''/workspace'' model None (Some True)
                      (Some (oi_id s)) (i (n + 1)) (i (n + 2)) (i (n + 3)) (gw_claude w) of
                    (Inl _, db) \<Rightarrow> w\<lparr>gw_claude := db, gw_next := n + 4\<rparr>
                  | (Inr _, db) \<Rightarrow>
                      add_helper parent name subtask (i (n + 4))
                        \<lparr>gc_model = model, gc_dir = ''/workspace'', gc_max_retries = oi_max_retries s,
                         gc_context = context_text, gc_auto = True\<rparr>
                        (w\<lparr>gw_claude := db, gw_next := n + 5\<rparr>)))"

definition agent_approval :: "agent_config \<Rightarrow> agent_info \<Rightarrow> string \<Rightarrow> string \<Rightarrow> json \<Rightarrow> agent_world \<Rightarrow> agent_world" where
  "agent_approval config agent tool tool_use input w =
     w\<lparr>gw_loopback := register_tool_session tool_use (ai_session agent) (gw_loopback w),
       gw_jobs := gw_jobs w @ [\<lparr>aj_orcha = ai_session agent, aj_claude = ai_session agent, aj_tool = tool,
         aj_tool_use = tool_use, aj_input = input, aj_task = gc_context config, aj_auto = gc_auto config\<rparr>]\<rparr>"

text \<open>One event of the chat, as in the orchestrated task.\<close>

fun agent_chat_event ::
  "task_env \<Rightarrow> agent_info \<Rightarrow> agent_config \<Rightarrow> chat_event \<Rightarrow> agent_world \<times> heard \<Rightarrow> string option option \<times> agent_world \<times> heard" where
  "agent_chat_event env agent config (Chat_Content s) (w, h) = (None, w, hear (te_json env) s h)"
| "agent_chat_event env agent config (Chat_Tool_Use name use_id input) (w, h) =
     (None, (if name = ''spawn_helper_agent'' then handle_agent_spawn_request env agent input (gc_context config) w
             else agent_approval config agent name use_id input w), h)"
| "agent_chat_event env agent config (Chat_Complete _ _ _) (w, h) = (Some None, w, h)"
| "agent_chat_event env agent config (Chat_Err m) (w, h) = (Some (Some m), w, h)"
| "agent_chat_event env agent config _ (w, h) = (None, w, h)"

fun agent_chat_events ::
  "task_env \<Rightarrow> agent_info \<Rightarrow> agent_config \<Rightarrow> chat_event list \<Rightarrow> agent_world \<times> heard \<Rightarrow> string option \<times> agent_world \<times> heard" where
  "agent_chat_events env agent config [] st = (None, st)"
| "agent_chat_events env agent config (e # es) st =
     (case agent_chat_event env agent config e st of
        (None, st) \<Rightarrow> agent_chat_events env agent config es st
      | (Some err, st) \<Rightarrow> (err, st))"

type_synonym agent_outcome = "agent_task_result option \<times> agent_world"

definition judge_agent :: "task_env \<Rightarrow> agent_info \<Rightarrow> agent_config \<Rightarrow> nat \<Rightarrow> validation_artifact \<Rightarrow> agent_world \<Rightarrow> bool \<times> agent_outcome" where
  "judge_agent env agent config retry a w =
     (let w = set_agent env agent (Agent_Validating (va_test_command a)) w;
          v = run_validation_test (te_shell env retry) a
      in if vr_success v then (False, Some (Agent_Success (Some v)), set_agent env agent Agent_Complete w)
         else if unat (gc_max_retries config) \<le> Suc retry
         then (False, Some (Agent_Task_Failed (validation_failure (Suc retry))),
               set_agent env agent (Agent_Failed (validation_failure (Suc retry))) w)
         else (True, None, w))"

definition agent_attempt ::
  "task_env \<Rightarrow> agent_info \<Rightarrow> string \<Rightarrow> agent_config \<Rightarrow> nat \<Rightarrow> agent_outcome \<Rightarrow> bool \<times> agent_outcome" where
  "agent_attempt env agent task config retry out =
     (let w = set_agent env agent (Agent_Running 0) (snd out);
          prompt = retry_prompt task ''Previous validation failed. Fix issues and try again.'' retry (unat (gc_max_retries config))
      in case on_chat (te_chat env retry) (te_claude env retry) (ai_claude agent) prompt None None 0 (gw_claude w) of
           (events, db) \<Rightarrow>
             (case agent_chat_events env agent config events (w\<lparr>gw_claude := db\<rparr>, [], None) of
                (Some m, w, _) \<Rightarrow> (False, Some (Agent_Task_Failed m), set_agent env agent (Agent_Failed (''Chat error: '' @ m)) w)
              | (None, w, _, Some a) \<Rightarrow> judge_agent env agent config retry a w
              | (None, w, _, None) \<Rightarrow> (False, Some (Agent_Success None), set_agent env agent Agent_Complete w)))"

lemma agent_attempt_again:
  "(True, out') = agent_attempt env agent task config retry out \<Longrightarrow> Suc retry < unat (gc_max_retries config)"
  by (auto simp: agent_attempt_def judge_agent_def Let_def split: prod.splits option.splits if_splits)

function agent_attempts :: "task_env \<Rightarrow> agent_info \<Rightarrow> string \<Rightarrow> agent_config \<Rightarrow> nat \<Rightarrow> agent_outcome \<Rightarrow> agent_outcome" where
  "agent_attempts env agent task config retry out =
     (case agent_attempt env agent task config retry out of
        (again, out') \<Rightarrow> if again then agent_attempts env agent task config (Suc retry) out' else out')"
  by pat_completeness auto
termination
  by (relation "measure (\<lambda>(env, agent, task, config, retry, out). unat (gc_max_retries config) - retry)")
     (auto dest: agent_attempt_again)

declare agent_attempts.simps [simp del]

definition run_agent_task :: "task_env \<Rightarrow> agent_info \<Rightarrow> string \<Rightarrow> agent_config \<Rightarrow> agent_world \<Rightarrow> agent_outcome" where
  "run_agent_task env agent task config w = agent_attempts env agent task config 0 (None, w)"

subsection \<open>The end of a session\<close>

definition check_session_completion :: "json_codec \<Rightarrow> string \<Rightarrow> orcha_db \<Rightarrow> orcha_db" where
  "check_session_completion jc sid db =
     (case get_agent_counts db sid of (active, completed, failed) \<Rightarrow>
        if active = 0 then
          (case get_session db sid of
             Inl _ \<Rightarrow> db
           | Inr s \<Rightarrow>
               if oi_mode s \<noteq> Agent_Multi then db
               else if 0 < completed \<and> failed = 0 then update_state jc sid Session_Complete db
               else if 0 < failed \<and> completed = 0
               then update_state jc sid (Session_Failed (nat_text (unat failed) @ '' agents failed'')) db
               else update_state jc sid Session_Complete db)
        else
          (case get_session db sid of
             Inl _ \<Rightarrow> db
           | Inr s \<Rightarrow>
               (case oi_state s of
                  Session_Running stream _ _ _ _ \<Rightarrow> update_state jc sid (Session_Running stream 0 active completed failed) db
                | _ \<Rightarrow> db)))"

text \<open>The background task of an agent.\<close>

definition spawn_agent_task :: "task_env \<Rightarrow> agent_info \<Rightarrow> string \<Rightarrow> agent_config \<Rightarrow> agent_world \<Rightarrow> agent_world" where
  "spawn_agent_task env agent task config w =
     (let w = snd (run_agent_task env agent task config w)
      in w\<lparr>gw_orcha := check_session_completion (te_json env) (ai_session agent) (gw_orcha w)\<rparr>)"

end
