(* ===== verification/Orcha_Sessions_Props.thy ===== *)
theory Orcha_Sessions_Props
  imports Orcha_Sessions "HOL-Library.Multiset"
begin

text \<open>
  The cache of the session store and its table say the same: what the code answers from memory is what
  a new process rebuilds from the table. The counts of the agents are those of the listed agents.
\<close>

subsection \<open>Reading back states\<close>

fun state_value :: "session_state \<Rightarrow> json option" where
  "state_value (Session_Running stream sequence active completed failed) =
     Some (running_json stream sequence active completed failed)"
| "state_value (Session_Waiting a) = Some (JObj [(''approval_id'', JStr a)])"
| "state_value (Session_Validating c) = Some (JObj [(''test_command'', JStr c)])"
| "state_value (Session_Failed e) = Some (JObj [(''error'', JStr e)])"
| "state_value _ = None"

fun agent_value :: "agent_state \<Rightarrow> json option" where
  "agent_value (Agent_Running sequence) = Some (JObj [(''sequence'', word_json sequence)])"
| "agent_value (Agent_Waiting a) = Some (JObj [(''approval_id'', JStr a)])"
| "agent_value (Agent_Validating c) = Some (JObj [(''test_command'', JStr c)])"
| "agent_value (Agent_Failed e) = Some (JObj [(''error'', JStr e)])"
| "agent_value _ = None"

text \<open>The codec reads back what it has printed for these values, and the names of the modes.\<close>

definition carries :: "json_codec \<Rightarrow> json option \<Rightarrow> bool" where
  "carries jc v = (case v of None \<Rightarrow> True | Some j \<Rightarrow> jc_parse jc (jc_print jc j) = Some j)"

definition carries_modes :: "json_codec \<Rightarrow> bool" where
  "carries_modes jc \<longleftrightarrow> (\<forall>m. jc_parse jc (quoted (agent_mode_str m)) = Some (JStr (agent_mode_str m)))"

lemma carries_simps [simp]:
  "carries jc None"
  "carries jc (Some j) \<longleftrightarrow> jc_parse jc (jc_print jc j) = Some j"
  by (simp_all add: carries_def)

lemma mode_reads_back [simp]: "carries_modes jc \<Longrightarrow> agent_mode_of_str jc (agent_mode_str m) = m"
  by (cases m) (auto simp: carries_modes_def agent_mode_of_str_def dest: spec [of _ m])

lemma number_entry_word:
  fixes w :: "'a::len word"
  assumes "json_get k v = Some (word_json w)" and "LENGTH('a) \<le> 64"
  shows "number_entry k v = unat w"
proof -
  have "uint w < 2 ^ LENGTH('a)" by (rule uint_lt2p)
  also have "(2::int) ^ LENGTH('a) \<le> 2 ^ 64" using assms(2) by (intro power_increasing) simp_all
  finally show ?thesis using assms(1) by (simp add: number_entry_def word_json_def)
qed

lemma deserialize_tags:
  "deserialize_state jc ''running'' data =
     map_sum id (\<lambda>v. Session_Running (text_entry ''stream_id'' [] v) (of_nat (number_entry ''sequence'' v))
       (of_nat (number_entry ''active_agents'' v)) (of_nat (number_entry ''completed_agents'' v))
       (of_nat (number_entry ''failed_agents'' v))) (state_data jc ''running'' data)"
  "deserialize_state jc ''waiting_approval'' data =
     map_sum id (\<lambda>v. Session_Waiting (text_entry ''approval_id'' [] v)) (state_data jc ''waiting_approval'' data)"
  "deserialize_state jc ''validating'' data =
     map_sum id (\<lambda>v. Session_Validating (text_entry ''test_command'' [] v)) (state_data jc ''validating'' data)"
  "deserialize_state jc ''complete'' data = Inr Session_Complete"
  "deserialize_state jc ''failed'' data =
     map_sum id (\<lambda>v. Session_Failed (text_entry ''error'' ''Unknown error'' v)) (state_data jc ''failed'' data)"
  by (simp_all add: deserialize_state_def)

lemma deserialize_agent_tags:
  "deserialize_agent_state jc ''running'' data =
     map_sum id (\<lambda>v. Agent_Running (of_nat (number_entry ''sequence'' v))) (state_data jc ''running'' data)"
  "deserialize_agent_state jc ''waiting_approval'' data =
     map_sum id (\<lambda>v. Agent_Waiting (text_entry ''approval_id'' [] v)) (state_data jc ''waiting_approval'' data)"
  "deserialize_agent_state jc ''validating'' data =
     map_sum id (\<lambda>v. Agent_Validating (text_entry ''test_command'' [] v)) (state_data jc ''validating'' data)"
  "deserialize_agent_state jc ''complete'' data = Inr Agent_Complete"
  "deserialize_agent_state jc ''failed'' data =
     map_sum id (\<lambda>v. Agent_Failed (text_entry ''error'' ''Unknown error'' v)) (state_data jc ''failed'' data)"
  by (simp_all add: deserialize_agent_state_def)

lemma state_data_carried [simp]:
  "jc_parse jc (jc_print jc v) = Some v \<Longrightarrow> state_data jc what (Some (jc_print jc v)) = Inr v"
  by (simp add: state_data_def)

lemma text_entry_single [simp]: "text_entry k other (JObj [(k, JStr s)]) = s"
  by (simp add: text_entry_def)

lemma number_entry_single [simp]: "LENGTH('a) \<le> 64 \<Longrightarrow> number_entry k (JObj [(k, word_json (w :: 'a::len word))]) = unat w"
  by (rule number_entry_word) simp_all

lemma state_reads_back:
  assumes "carries jc (state_value state)"
  shows "deserialize_state jc (fst (serialize_state jc state)) (snd (serialize_state jc state)) = Inr state"
proof (cases state)
  case (Session_Running stream sequence active completed failed)
  let ?v = "running_json stream sequence active completed failed"
  have "number_entry ''sequence'' ?v = unat sequence" "number_entry ''active_agents'' ?v = unat active"
    "number_entry ''completed_agents'' ?v = unat completed" "number_entry ''failed_agents'' ?v = unat failed"
    by (rule number_entry_word; simp add: running_json_def)+
  moreover have "text_entry ''stream_id'' [] ?v = stream" by (simp add: running_json_def text_entry_def)
  ultimately show ?thesis
    using assms Session_Running by (simp add: deserialize_tags)
qed (use assms in \<open>simp_all add: deserialize_tags one_entry_def deserialize_state_def [of _ "''idle''"]\<close>)

lemma agent_state_reads_back:
  assumes "carries jc (agent_value state)"
  shows "deserialize_agent_state jc (fst (serialize_agent_state jc state)) (snd (serialize_agent_state jc state)) = Inr state"
  using assms
  by (cases state) (simp_all add: deserialize_agent_tags one_entry_def deserialize_agent_state_def [of _ "''idle''"])

lemma deserialize_idle [simp]:
  "deserialize_state jc ''idle'' data = Inr Session_Idle"
  "deserialize_agent_state jc ''idle'' data = Inr Agent_Idle"
  by (simp_all add: deserialize_state_def deserialize_agent_state_def)

subsection \<open>Steps\<close>

inductive orcha_step :: "json_codec \<Rightarrow> orcha_db \<Rightarrow> orcha_db \<Rightarrow> bool" for jc where
  Step_Create: "orcha_step jc db (snd (create_session sid model dir rules max_retries mode tree db))"
| Step_Update: "carries jc (state_value state) \<Longrightarrow> orcha_step jc db (update_state jc sid state db)"
| Step_Retry: "orcha_step jc db (snd (increment_retry sid db))"
| Step_Delete: "orcha_step jc db (delete_session sid db)"
| Step_Agent: "orcha_step jc db (snd (create_agent sid claude subtask is_primary parent uuid db))"
| Step_Agent_State: "carries jc (agent_value astate) \<Longrightarrow> orcha_step jc db (update_agent_state jc aid astate db)"
| Step_Time: "orcha_step jc db (db\<lparr>od_now := now\<rparr>)"
| Step_Restart: "open_storage jc db = Inr db' \<Longrightarrow> orcha_step jc db db'"

definition orcha_reachable :: "json_codec \<Rightarrow> orcha_db \<Rightarrow> bool" where
  "orcha_reachable jc db \<longleftrightarrow> (\<exists>now. (orcha_step jc)\<^sup>*\<^sup>* (empty_orcha now) db)"

text \<open>Row by row, the cache is what the table says.\<close>

definition mirrors :: "json_codec \<Rightarrow> orcha_row list \<Rightarrow> (string \<times> session_info) list \<Rightarrow> bool" where
  "mirrors jc = list_all2 (\<lambda>r (k, i). k = or_id r \<and> session_of_row jc r = Inr i)"

definition agent_row_ok :: "json_codec \<Rightarrow> agent_row \<Rightarrow> bool" where
  "agent_row_ok jc r \<longleftrightarrow> (\<exists>s. carries jc (agent_value s) \<and> serialize_agent_state jc s = (ag_state_type r, ag_state_data r))"

definition orcha_ok :: "json_codec \<Rightarrow> orcha_db \<Rightarrow> bool" where
  "orcha_ok jc db \<longleftrightarrow> distinct (map or_id (od_sessions db)) \<and> mirrors jc (od_sessions db) (od_cache db)
     \<and> (\<forall>r \<in> set (od_agents db). agent_row_ok jc r)"

lemma mirrors_simps [simp]:
  "mirrors jc [] c \<longleftrightarrow> c = []"
  "mirrors jc (r # rs) c \<longleftrightarrow> (\<exists>i c'. c = (or_id r, i) # c' \<and> session_of_row jc r = Inr i \<and> mirrors jc rs c')"
  unfolding mirrors_def by (auto simp: list_all2_Cons1)

lemma mirrors_keys: "mirrors jc rows cache \<Longrightarrow> map fst cache = map or_id rows"
  by (induction rows arbitrary: cache) auto

lemma mirrors_append: "mirrors jc rows cache \<Longrightarrow> session_of_row jc r = Inr i \<Longrightarrow> mirrors jc (rows @ [r]) (cache @ [(or_id r, i)])"
  by (induction rows arbitrary: cache) auto

lemma update_new_key: "k \<notin> fst ` set al \<Longrightarrow> AList.update k v al = al @ [(k, v)]"
  by (induction al) auto

lemma mirrors_change:
  assumes "mirrors jc rows cache" and "\<And>r. or_id (f r) = or_id r"
    and "\<And>r i. session_of_row jc r = Inr i \<Longrightarrow> or_id r = sid \<Longrightarrow> session_of_row jc (f r) = Inr (g i)"
    and "distinct (map or_id rows)"
  shows "mirrors jc (update_where (\<lambda>r. or_id r = sid) f rows) (AList.map_entry sid g cache)"
  using assms(1,4)
proof (induction rows arbitrary: cache)
  case (Cons r rs)
  then obtain i c' where c: "cache = (or_id r, i) # c'" "session_of_row jc r = Inr i" "mirrors jc rs c'" by auto
  show ?case
  proof (cases "or_id r = sid")
    case True
    then have "or_id r' \<noteq> sid" if "r' \<in> set rs" for r' using Cons.prems(2) that by (auto simp: rev_image_eqI)
    then have "update_where (\<lambda>r. or_id r = sid) f rs = rs" by (intro update_where_id) blast
    then show ?thesis using c True assms(2,3) by auto
  next
    case False then show ?thesis using c Cons by auto
  qed
qed simp

lemma mirrors_delete:
  "mirrors jc rows cache \<Longrightarrow> mirrors jc (filter (\<lambda>r. or_id r \<noteq> sid) rows) (AList.delete sid cache)"
  by (induction rows arbitrary: cache) (auto simp: AList.delete_eq)

lemma load_mirror:
  assumes "mirrors jc rows new" and "distinct (map or_id rows)" and "fst ` set old \<inter> or_id ` set rows = {}"
  shows "load_sessions jc rows old = Inr (old @ new)"
  using assms
proof (induction rows arbitrary: old new)
  case (Cons r rs)
  then obtain i c' where c: "new = (or_id r, i) # c'" "session_of_row jc r = Inr i" "mirrors jc rs c'" by auto
  have "load_sessions jc rs (old @ [(or_id r, i)]) = Inr ((old @ [(or_id r, i)]) @ c')"
    using Cons.prems c by (intro Cons.IH) auto
  then show ?case using c Cons.prems(3) by (simp add: update_new_key)
qed simp

lemma open_storage_ok: "orcha_ok jc db \<Longrightarrow> open_storage jc db = Inr db"
  using load_mirror [of jc "od_sessions db" "od_cache db" "[]"] by (simp add: open_storage_def orcha_ok_def)

subsection \<open>The invariant\<close>

lemma create_session_ok:
  assumes "carries_modes jc" and "orcha_ok jc db"
  shows "orcha_ok jc (snd (create_session sid model dir rules max_retries mode tree db))"
proof (cases "row_by or_id sid (od_sessions db) = None")
  case True
  then have new: "sid \<notin> or_id ` set (od_sessions db)" by (simp add: row_by_None_iff)
  moreover have "fst ` set (od_cache db) = or_id ` set (od_sessions db)"
    using assms(2) mirrors_keys [of jc "od_sessions db" "od_cache db"] by (simp add: orcha_ok_def flip: set_map)
  ultimately have "sid \<notin> fst ` set (od_cache db)" by simp
  then show ?thesis
    using assms new True mirrors_append [of jc "od_sessions db" "od_cache db"
        "\<lparr>or_id = sid, or_model = model, or_working_dir = dir, or_rules = rules, or_max_retries = uint max_retries,
          or_retry_count = 0, or_created_at = od_now db, or_last_activity = od_now db, or_state_type = ''idle'',
          or_state_data = None, or_mode = agent_mode_str mode, or_primary = None, or_tree = tree\<rparr>"]
    by (auto simp: create_session_def Let_def orcha_ok_def update_new_key session_of_row_def)
qed (use assms in \<open>auto simp: create_session_def Let_def\<close>)

lemma update_state_ok:
  assumes "carries jc (state_value state)" and "orcha_ok jc db"
  shows "orcha_ok jc (update_state jc sid state db)"
proof -
  obtain ty data where s: "serialize_state jc state = (ty, data)" by (cases "serialize_state jc state")
  note read = state_reads_back [OF assms(1), unfolded s fst_conv snd_conv]
  let ?f = "\<lambda>r. r\<lparr>or_state_type := ty, or_state_data := data, or_last_activity := od_now db\<rparr>"
  let ?g = "\<lambda>i. i\<lparr>oi_state := state, oi_last_activity := od_now db\<rparr>"
  have "session_of_row jc r = Inr i \<Longrightarrow> session_of_row jc (?f r) = Inr (?g i)" for r i
    using read by (cases "deserialize_state jc (or_state_type r) (or_state_data r)") (auto simp: session_of_row_def)
  then have "mirrors jc (update_where (\<lambda>r. or_id r = sid) ?f (od_sessions db)) (AList.map_entry sid ?g (od_cache db))"
    using assms(2) by (intro mirrors_change) (auto simp: orcha_ok_def)
  then show ?thesis
    using assms(2) by (simp add: update_state_def s change_cached_def orcha_ok_def map_key_update_where)
qed

lemma increment_retry_ok:
  assumes "orcha_ok jc db"
  shows "orcha_ok jc (snd (increment_retry sid db))"
proof -
  let ?f = "\<lambda>r. r\<lparr>or_retry_count := or_retry_count r + 1\<rparr>" and ?g = "\<lambda>i. i\<lparr>oi_retry_count := oi_retry_count i + 1\<rparr>"
  have "session_of_row jc r = Inr i \<Longrightarrow> session_of_row jc (?f r) = Inr (?g i)" for r i
    by (cases "deserialize_state jc (or_state_type r) (or_state_data r)") (auto simp: session_of_row_def)
  then have m: "mirrors jc (update_where (\<lambda>r. or_id r = sid) ?f (od_sessions db)) (AList.map_entry sid ?g (od_cache db))"
    using assms by (intro mirrors_change) (auto simp: orcha_ok_def)
  have keys: "map fst (od_cache db) = map or_id (od_sessions db)"
    using assms mirrors_keys [of jc "od_sessions db" "od_cache db"] by (simp add: orcha_ok_def)
  have "map_of (od_cache db) sid = None \<Longrightarrow> update_where (\<lambda>r. or_id r = sid) ?f (od_sessions db) = od_sessions db"
    using arg_cong [OF keys, of set] by (intro update_where_id) (auto simp: map_of_eq_None_iff)
  then show ?thesis
    using assms m by (auto simp: increment_retry_def Let_def change_cached_def orcha_ok_def map_key_update_where split: option.splits)
qed

lemma delete_session_ok: "orcha_ok jc db \<Longrightarrow> orcha_ok jc (delete_session sid db)"
  by (auto simp: delete_session_def orcha_ok_def mirrors_delete distinct_map_filter drop_agents_def Let_def
      update_where_def agent_row_ok_def)

lemma create_agent_ok: "orcha_ok jc db \<Longrightarrow> orcha_ok jc (snd (create_agent sid claude subtask is_primary parent uuid db))"
  by (auto simp: create_agent_def Let_def orcha_ok_def agent_row_ok_def intro!: exI [of _ Agent_Idle] split: if_splits)

lemma update_agent_state_ok:
  assumes "carries jc (agent_value state)" and "orcha_ok jc db"
  shows "orcha_ok jc (update_agent_state jc aid state db)"
  using assms
  by (cases "serialize_agent_state jc state")
     (auto simp: update_agent_state_def orcha_ok_def agent_row_ok_def update_where_def)

lemma orcha_step_ok: "orcha_step jc db db' \<Longrightarrow> carries_modes jc \<Longrightarrow> orcha_ok jc db \<Longrightarrow> orcha_ok jc db'"
proof (induction rule: orcha_step.induct)
  case (Step_Time db now) then show ?case by (simp add: orcha_ok_def)
next
  case (Step_Restart db db') then show ?case by (simp add: open_storage_ok)
qed (simp_all add: create_session_ok update_state_ok increment_retry_ok delete_session_ok create_agent_ok update_agent_state_ok)

lemma orcha_reachable_ok:
  assumes "orcha_reachable jc db" and "carries_modes jc"
  shows "orcha_ok jc db"
proof -
  obtain now where "(orcha_step jc)\<^sup>*\<^sup>* (empty_orcha now) db" using assms(1) by (auto simp: orcha_reachable_def)
  then show ?thesis
  proof (induction rule: rtranclp_induct)
    case base show ?case by (simp add: empty_orcha_def orcha_ok_def)
  next
    case (step db db') then show ?case using assms(2) orcha_step_ok by blast
  qed
qed

subsection \<open>Properties\<close>

definition demo_mode_codec :: json_codec where
  "demo_mode_codec =
     \<lparr>jc_print = (\<lambda>v. case v of JObj [(k, JStr t)] \<Rightarrow> CHR ''{'' # t | _ \<Rightarrow> []),
      jc_parse = (\<lambda>s. case s of [] \<Rightarrow> None
                 | c # t \<Rightarrow> if c = CHR 0x22 then Some (JStr (butlast t)) else Some (JObj [(''error'', JStr t)])),
      jc_f64 = (\<lambda>_. 0)\<rparr>"

lemma demo_carries_modes: "carries_modes demo_mode_codec"
  by (auto simp: carries_modes_def demo_mode_codec_def quoted_def)

lemma demo_carries_failure: "carries demo_mode_codec (state_value (Session_Failed e))" "carries demo_mode_codec (agent_value (Agent_Failed e))"
  by (simp_all add: demo_mode_codec_def)

definition demo_orcha :: orcha_db where
  "demo_orcha =
     update_agent_state demo_mode_codec ''agent-1'' (Agent_Failed ''no'')
       (snd (create_agent ''s'' ''cc'' ''part'' True None ''1''
         (update_state demo_mode_codec ''s'' (Session_Failed ''tests'')
           (snd (increment_retry ''s'' (snd (create_session ''s'' ''opus'' ''/w'' None 3 Agent_Multi None (empty_orcha 7))))))))"

lemma demo_orcha_reachable: "orcha_reachable demo_mode_codec demo_orcha"
  unfolding orcha_reachable_def demo_orcha_def
  by (rule exI, (rule rtranclp.rtrancl_into_rtrancl, rule rtranclp.rtrancl_into_rtrancl, rule rtranclp.rtrancl_into_rtrancl,
      rule rtranclp.rtrancl_into_rtrancl, rule rtranclp.rtrancl_into_rtrancl, rule rtranclp.rtrancl_refl),
      rule Step_Create, rule Step_Retry, rule Step_Update, rule demo_carries_failure, rule Step_Agent,
      rule Step_Agent_State, rule demo_carries_failure)

text \<open>
  C35. A restart loses nothing: on the tables that any sequence of session and agent operations (with
  restarts in between) has left, a new process starts without an error, and its cache is the cache of
  the old one: the same sessions with the same states, counters (as 32-bit numbers) and modes. The
  codec must carry the stored states and the names of the modes.
\<close>

theorem restart_keeps_sessions:
  assumes "orcha_reachable jc db" and "carries_modes jc"
  shows "open_storage jc db = Inr db"
  using orcha_reachable_ok [OF assms] by (rule open_storage_ok)

lemma restart_keeps_sessions_witness:
  "open_storage demo_mode_codec demo_orcha = Inr demo_orcha \<and>
   map (\<lambda>(k, i). (k, oi_state i, oi_retry_count i, oi_mode i)) (od_cache demo_orcha) =
     [(''s'', Session_Failed ''tests'', 1, Agent_Multi)]"
proof
  show "open_storage demo_mode_codec demo_orcha = Inr demo_orcha"
    by (rule restart_keeps_sessions [OF demo_orcha_reachable demo_carries_modes])
qed (simp add: demo_orcha_def update_agent_state_def create_agent_def update_state_def increment_retry_def create_session_def
    empty_orcha_def change_cached_def Let_def)

lemma agent_row_read:
  assumes "agent_row_ok jc r"
  shows "\<exists>a. row_to_agent jc r = Inr a \<and> ag_state_type r = fst (serialize_agent_state jc (ai_state a)) \<and> ai_id a = ag_id r"
proof -
  obtain s where s: "carries jc (agent_value s)" "serialize_agent_state jc s = (ag_state_type r, ag_state_data r)"
    using assms by (auto simp: agent_row_ok_def)
  then show ?thesis using agent_state_reads_back [OF s(1)] by (simp add: row_to_agent_def)
qed

lemma agent_tags:
  "fst (serialize_agent_state jc s) \<in> {''idle'', ''running'', ''waiting_approval'', ''validating''} \<longleftrightarrow> \<not> agent_ended s"
  "fst (serialize_agent_state jc s) = ''complete'' \<longleftrightarrow> s = Agent_Complete"
  "fst (serialize_agent_state jc s) = ''failed'' \<longleftrightarrow> (\<exists>e. s = Agent_Failed e)"
  by (cases s; simp)+

lemma count_where_mset: "count_where p xs = size (filter_mset p (mset xs))"
  by (metis count_where_def mset_filter size_mset)

lemma count_where_sort: "count_where p (sort_key f xs) = count_where p xs"
  by (simp add: count_where_mset)

lemma read_agents:
  assumes "\<forall>r \<in> set rows. agent_row_ok jc r"
  shows "\<exists>ags. collect_results (map (row_to_agent jc) rows) = Inr ags \<and> map ai_id ags = map ag_id rows
    \<and> map (\<lambda>a. fst (serialize_agent_state jc (ai_state a))) ags = map ag_state_type rows"
  using assms
proof (induction rows)
  case (Cons r rs)
  then obtain ags where "collect_results (map (row_to_agent jc) rs) = Inr ags" "map ai_id ags = map ag_id rs"
    "map (\<lambda>a. fst (serialize_agent_state jc (ai_state a))) ags = map ag_state_type rs" by auto
  moreover obtain a where "row_to_agent jc r = Inr a" "ag_state_type r = fst (serialize_agent_state jc (ai_state a))"
    "ai_id a = ag_id r" using agent_row_read Cons.prems by fastforce
  ultimately show ?case by (intro exI [of _ "a # ags"]) simp
qed simp

lemma count_where_map: "count_where p (map f xs) = count_where (\<lambda>x. p (f x)) xs"
  by (induction xs) simp_all

lemma agent_counts:
  assumes "orcha_reachable jc db" and "carries_modes jc"
  shows "\<exists>ags. list_agents jc db sid = Inr ags
    \<and> mset (map ai_id ags) = mset (map ag_id (filter (\<lambda>r. ag_session r = sid) (od_agents db)))
    \<and> get_agent_counts db sid =
        (of_nat (count_where (\<lambda>a. \<not> agent_ended (ai_state a)) ags),
         of_nat (count_where (\<lambda>a. ai_state a = Agent_Complete) ags),
         of_nat (count_where (\<lambda>a. agent_error (ai_state a) \<noteq> None) ags))"
proof -
  let ?rows = "filter (\<lambda>r. ag_session r = sid) (od_agents db)"
  let ?tag = "\<lambda>a. fst (serialize_agent_state jc (ai_state a))"
  have "\<forall>r \<in> set (sort_key ag_created_at ?rows). agent_row_ok jc r"
    using orcha_reachable_ok [OF assms] by (auto simp: orcha_ok_def)
  from read_agents [OF this] obtain ags where ags: "list_agents jc db sid = Inr ags"
    "map ai_id ags = map ag_id (sort_key ag_created_at ?rows)" "map ?tag ags = map ag_state_type (sort_key ag_created_at ?rows)"
    by (auto simp: list_agents_def)
  have count: "count_where (\<lambda>r. p (ag_state_type r)) ?rows = count_where (\<lambda>a. p (?tag a)) ags" for p
    using arg_cong [OF ags(3), of "count_where p"] by (simp add: count_where_map count_where_sort)
  have "mset (map ai_id ags) = mset (map ag_id ?rows)" using arg_cong [OF ags(2), of mset] by simp
  moreover have failed: "(agent_error (ai_state a) \<noteq> None) = (?tag a = ''failed'')" for a
    unfolding agent_tags by (cases "ai_state a") simp_all
  have "get_agent_counts db sid =
      (of_nat (count_where (\<lambda>a. \<not> agent_ended (ai_state a)) ags), of_nat (count_where (\<lambda>a. ai_state a = Agent_Complete) ags),
       of_nat (count_where (\<lambda>a. agent_error (ai_state a) \<noteq> None) ags))"
    by (simp only: get_agent_counts_def Let_def failed flip: agent_tags(1,2) [of jc])
      (simp only: count [of "\<lambda>t. t \<in> {''idle'', ''running'', ''waiting_approval'', ''validating''}"]
        count [of "\<lambda>t. t = ''complete''"] count [of "\<lambda>t. t = ''failed''"])
  ultimately show ?thesis using ags(1) by blast
qed

text \<open>
  The agents of a session can always be listed, and the counts that decide whether the session is
  over are those of the listed agents: the agents that have not ended, the complete ones and the
  failed ones (modulo 2 to the 32, the width of the counters).
\<close>

theorem counts_match_agents:
  assumes "orcha_reachable jc db" and "carries_modes jc"
  shows "\<exists>ags. list_agents jc db sid = Inr ags
    \<and> mset (map ai_id ags) = mset (map ag_id (filter (\<lambda>r. ag_session r = sid) (od_agents db)))
    \<and> get_agent_counts db sid =
        (of_nat (count_where (\<lambda>a. \<not> agent_ended (ai_state a)) ags),
         of_nat (count_where (\<lambda>a. ai_state a = Agent_Complete) ags),
         of_nat (count_where (\<lambda>a. agent_error (ai_state a) \<noteq> None) ags))"
  using agent_counts [OF assms] .

lemma counts_match_agents_witness:
  "\<exists>ags. list_agents demo_mode_codec demo_orcha ''s'' = Inr ags \<and> length ags = 1 \<and> get_agent_counts demo_orcha ''s'' = (0, 0, 1)"
proof -
  let ?ids = "map ag_id (filter (\<lambda>r. ag_session r = ''s'') (od_agents demo_orcha))"
  have ids: "?ids = [''agent-1'']"
    by (simp add: demo_orcha_def update_agent_state_def create_agent_def update_state_def increment_retry_def
        create_session_def empty_orcha_def change_cached_def Let_def)
  from counts_match_agents [OF demo_orcha_reachable demo_carries_modes, of "''s''"] obtain ags
    where ags: "list_agents demo_mode_codec demo_orcha ''s'' = Inr ags" "mset (map ai_id ags) = mset ?ids" by blast
  have "length ags = 1" using arg_cong [OF ags(2), of size] unfolding ids by simp
  moreover have "get_agent_counts demo_orcha ''s'' = (0, 0, 1)"
    by (simp add: demo_orcha_def update_agent_state_def create_agent_def update_state_def increment_retry_def
        create_session_def empty_orcha_def change_cached_def Let_def get_agent_counts_def)
  ultimately show ?thesis using ags(1) by blast
qed

end
