(* ===== verification/Retry_Interface.thy ===== *)
theory Retry_Interface
  imports Main
begin

text \<open>
  The interface of a bounded retry loop: a step says whether to go on, and it never does so once the
  limit is reached. The orchestrated task and the task of an agent are such loops.
\<close>

text \<open>The run of \<open>n\<close> steps, numbered from \<open>k\<close>, of which all but the last say to go on.\<close>

inductive step_chain :: "(nat \<Rightarrow> 's \<Rightarrow> bool \<times> 's) \<Rightarrow> nat \<Rightarrow> 's \<Rightarrow> nat \<Rightarrow> 's \<Rightarrow> bool" for step where
  chain_last: "step k s = (False, s') \<Longrightarrow> step_chain step k s 1 s'"
| chain_more: "step k s = (True, s1) \<Longrightarrow> step_chain step (Suc k) s1 n s' \<Longrightarrow> step_chain step k s (Suc n) s'"

lemma step_chain_local:
  "step_chain step k s n s' \<Longrightarrow> (\<And>j t. k \<le> j \<Longrightarrow> j < k + n \<Longrightarrow> step j t = step' j t) \<Longrightarrow> step_chain step' k s n s'"
proof (induction rule: step_chain.induct)
  case (chain_more k s s1 n s')
  have "step' k s = (True, s1)" using chain_more.hyps(1) chain_more.prems [of k s] by simp
  moreover have "step_chain step' (Suc k) s1 n s'" using chain_more.prems by (intro chain_more.IH) simp
  ultimately show ?case by (rule step_chain.chain_more)
qed (simp add: chain_last del: One_nat_def)

text \<open>An invariant of the steps that go on, and what the last one makes of it.\<close>

lemma step_chain_rule:
  assumes "step_chain step k s n s'" and "I k s"
    and go_on: "\<And>k s s'. I k s \<Longrightarrow> step k s = (True, s') \<Longrightarrow> I (Suc k) s'"
    and stop: "\<And>k s s'. I k s \<Longrightarrow> step k s = (False, s') \<Longrightarrow> Q k s'"
  shows "0 < n \<and> Q (k + n - 1) s'"
  using assms(1,2)
proof (induction rule: step_chain.induct)
  case (chain_more k s s1 n s')
  then show ?case using go_on [of k s s1] by auto
qed (use stop in auto)

locale retry_loop =
  fixes step :: "nat \<Rightarrow> 's \<Rightarrow> bool \<times> 's" and run :: "nat \<Rightarrow> 's \<Rightarrow> 's" and limit :: nat
  assumes unfold: "run k s = (case step k s of (again, s') \<Rightarrow> if again then run (Suc k) s' else s')"
    and bounded: "fst (step k s) \<Longrightarrow> Suc k < limit"
begin

text \<open>An invariant of the steps that go on, and what the last step makes of it.\<close>

lemma run_invariant:
  assumes "I k s"
    and go_on: "\<And>k s s'. I k s \<Longrightarrow> step k s = (True, s') \<Longrightarrow> I (Suc k) s'"
    and stop: "\<And>k s s'. I k s \<Longrightarrow> step k s = (False, s') \<Longrightarrow> Q s'"
  shows "Q (run k s)"
  using assms(1)
proof (induction "limit - k" arbitrary: k s rule: less_induct)
  case less
  obtain again s' where s: "step k s = (again, s')" by (cases "step k s")
  show ?case
  proof (cases again)
    case True
    then have "Suc k < limit" using bounded [of k s] s by simp
    then have "Q (run (Suc k) s')" using less go_on [OF less.prems] s True by simp
    then show ?thesis using s True by (simp add: unfold [of k s])
  next
    case False
    then show ?thesis using stop [OF less.prems] s by (simp add: unfold [of k s])
  qed
qed

text \<open>A run makes at least one step, and no more than the limit.\<close>

lemma run_chain: "\<exists>n. 0 < n \<and> k + n \<le> max (Suc k) limit \<and> step_chain step k s n (run k s)"
proof (induction "limit - k" arbitrary: k s rule: less_induct)
  case less
  obtain again s' where s: "step k s = (again, s')" by (cases "step k s")
  show ?case
  proof (cases again)
    case True
    then have "Suc k < limit" using bounded [of k s] s by simp
    then obtain n where "Suc k + n \<le> max (Suc (Suc k)) limit" "step_chain step (Suc k) s' n (run (Suc k) s')"
      using less.hyps [of "Suc k" s'] diff_less_mono2 [of k "Suc k" limit] by auto
    then show ?thesis using s True \<open>Suc k < limit\<close>
      by (intro exI [of _ "Suc n"]) (auto simp: unfold [of k s] intro: step_chain.chain_more)
  next
    case False
    then show ?thesis using s by (intro exI [of _ 1]) (simp add: unfold [of k s] step_chain.chain_last del: One_nat_def)
  qed
qed

lemma chain_run: "step_chain step k s n s' \<Longrightarrow> run k s = s'"
  by (induction rule: step_chain.induct) (simp_all add: unfold)

end

end
