(* ===== verification/Orcha_Task_Props.thy ===== *)
theory Orcha_Task_Props
  imports Orcha_Agents Orcha_Sessions_Props Retry_Interface
begin

text \<open>
  What a task promises its caller: one final event, a stored state that agrees with it, a bounded number
  of attempts; and that the artifact found does not depend on how the answer is cut into pieces.
\<close>

interpretation tasks: retry_loop "attempt env rq t sid name cid" "attempts env rq t sid name cid" "unat (tq_max_retries rq)"
  for env rq t sid name cid
proof (unfold_locales, goal_cases)
  case (2 k s)
  then show ?case by (cases "attempt env rq t sid name cid k s") (auto intro: attempt_again [OF sym])
qed (rule attempts.simps)

interpretation agents: retry_loop "agent_attempt env agent task config" "agent_attempts env agent task config" "unat (gc_max_retries config)"
  for env agent task config
proof (unfold_locales, goal_cases)
  case (2 k s)
  then show ?case by (cases "agent_attempt env agent task config k s") (auto intro: agent_attempt_again [OF sym])
qed (rule agent_attempts.simps)

subsection \<open>Progress and final events\<close>

fun final_task_event :: "task_event \<Rightarrow> bool" where
  "final_task_event (Task_Complete _) = True"
| "final_task_event (Task_Failed _ _) = True"
| "final_task_event _ = False"

text \<open>
  What a step of a task may do before the end: add progress events, leave the session store and the
  other sessions alone.
\<close>

definition quiet :: "task_world \<Rightarrow> task_world \<Rightarrow> bool" where
  "quiet w w' \<longleftrightarrow> (\<exists>es. tw_out w' = tw_out w @ es \<and> list_all (\<lambda>e. \<not> final_task_event e) es)"

named_theorems quiet_intros

lemma set_state_simps [simp]:
  "tw_out (set_state env sid st w) = tw_out w"
  "tw_orcha (set_state env sid st w) = update_state (te_json env) sid st (tw_orcha w)"
  by (simp_all add: set_state_def)

lemma quiet_refl [quiet_intros]: "quiet w w"
  by (simp add: quiet_def)

lemma quiet_trans: "quiet u v \<Longrightarrow> quiet v w \<Longrightarrow> quiet u w"
  by (auto simp: quiet_def)

lemma quiet_out: "tw_out w' = tw_out w \<Longrightarrow> quiet w w'"
  by (simp add: quiet_def)

lemma write_node_out [simp]: "tw_out (write_node env t c m w) = tw_out w"
  and write_node_orcha [simp]: "tw_orcha (write_node env t c m w) = tw_orcha w"
  by (simp_all add: write_node_def Let_def split: prod.splits sum.splits)

lemmas log_defs = prompt_created_def claude_session_complete_def claude_session_created_def validation_started_def
  log_validation_def log_complete_def

lemma log_out [simp]:
  "tw_out (prompt_created env t p n w) = tw_out w" "tw_orcha (prompt_created env t p n w) = tw_orcha w"
  "tw_out (claude_session_complete env t c w) = tw_out w" "tw_orcha (claude_session_complete env t c w) = tw_orcha w"
  "tw_out (claude_session_created env t c s w) = tw_out w" "tw_orcha (claude_session_created env t c s w) = tw_orcha w"
  "tw_out (validation_started env t c d w) = tw_out w" "tw_orcha (validation_started env t c d w) = tw_orcha w"
  "tw_out (log_validation env t b v w) = tw_out w" "tw_orcha (log_validation env t b v w) = tw_orcha w"
  "tw_out (log_complete env t s v w) = tw_out w" "tw_orcha (log_complete env t s v w) = tw_orcha w"
  by (simp_all add: log_defs)

lemma verbose_orcha [simp]: "tw_orcha (when_verbose rq e w) = tw_orcha w" "tw_orcha (say e w) = tw_orcha w"
  by (simp_all add: when_verbose_def say_def)

lemma quiet_verbose: "\<not> final_task_event e \<Longrightarrow> quiet w (when_verbose rq e w)"
  by (simp add: quiet_def when_verbose_def say_def)

text \<open>A world under construction is quiet when each layer is.\<close>

lemma quiet_logs [simp]:
  "quiet w (prompt_created env t p n w') = quiet w w'"
  "quiet w (claude_session_complete env t c w') = quiet w w'"
  "quiet w (claude_session_created env t c s w') = quiet w w'"
  "quiet w (validation_started env t c d w') = quiet w w'"
  "quiet w (log_validation env t b v w') = quiet w w'"
  "quiet w (log_complete env t s v w') = quiet w w'"
  "quiet w (set_state env sid st w') = quiet w w'"
  by (simp_all add: quiet_def)

lemma quiet_layer:
  "\<not> final_task_event e \<Longrightarrow> quiet w w' \<Longrightarrow> quiet w (when_verbose rq e w')"
  "quiet w w' \<Longrightarrow> tw_out w'' = tw_out w' \<Longrightarrow> quiet w w''"
  by (auto simp: quiet_def when_verbose_def say_def)

subsection \<open>One attempt\<close>

lemma chat_event_quiet:
  "task_chat_event env rq t sid cid e (w, h) = (r, w', h') \<Longrightarrow> quiet w w' \<and> tw_orcha w' = tw_orcha w"
  by (cases e) (auto simp: hear_text_def Let_def request_approval_def when_verbose_def say_def quiet_def
      split: option.splits if_splits)

lemma chat_events_quiet:
  "task_chat_events env rq t sid cid es (w, h) = (r, w', h') \<Longrightarrow> quiet w w' \<and> tw_orcha w' = tw_orcha w"
proof (induction es arbitrary: w h)
  case (Cons e es)
  obtain r1 w1 h1 where e: "task_chat_event env rq t sid cid e (w, h) = (r1, w1, h1)"
    by (cases "task_chat_event env rq t sid cid e (w, h)")
  note q = chat_event_quiet [OF e]
  show ?case
  proof (cases r1)
    case None
    then have "quiet w1 w' \<and> tw_orcha w' = tw_orcha w1" using Cons.IH [of w1 h1] Cons.prems e by simp
    then show ?thesis using q quiet_trans by auto
  next
    case (Some x)
    then show ?thesis using Cons.prems e q by simp
  qed
qed (simp add: quiet_refl)

text \<open>The cached session, and what the end of a task leaves there.\<close>

definition stored :: "string \<Rightarrow> task_world \<Rightarrow> session_info option" where
  "stored sid w = map_of (od_cache (tw_orcha w)) sid"

lemma stored_changes [simp]:
  "map_of (od_cache (update_state jc sid st od)) sid = map_option (\<lambda>i. i\<lparr>oi_state := st, oi_last_activity := od_now od\<rparr>) (map_of (od_cache od) sid)"
  "map_of (od_cache (snd (increment_retry sid od))) sid = map_option (\<lambda>i. i\<lparr>oi_retry_count := oi_retry_count i + 1\<rparr>) (map_of (od_cache od) sid)"
  by (auto simp: update_state_def increment_retry_def change_cached_def map_of_map_entry Let_def split: prod.splits option.splits)

text \<open>
  The states that the final event of attempt \<open>k\<close> goes with: a failed validation reports the number of attempts
  made and stores the same text; a chat error leaves the session running.
\<close>

definition settled :: "string \<Rightarrow> string \<Rightarrow> nat \<Rightarrow> task_event \<Rightarrow> session_state \<Rightarrow> bool" where
  "settled sid name k e st \<longleftrightarrow>
     e = Task_Complete sid \<and> st = Session_Complete \<or>
     e = Task_Failed sid (validation_failure (Suc k)) \<and> st = Session_Failed (validation_failure (Suc k)) \<or>
     (\<exists>m. e = Task_Failed sid (''Chat error: '' @ m) \<and> st = running name)"

lemma settled_intros:
  "settled sid name k (Task_Complete sid) Session_Complete"
  "settled sid name k (Task_Failed sid (validation_failure (Suc k))) (Session_Failed (validation_failure (Suc k)))"
  "settled sid name k (Task_Failed sid (''Chat error: '' @ m)) (running name)"
  unfolding settled_def by blast+

definition finished :: "string \<Rightarrow> string \<Rightarrow> task_world \<Rightarrow> nat \<Rightarrow> task_world \<Rightarrow> bool" where
  "finished sid name w k w' \<longleftrightarrow> (\<exists>es e i.
     tw_out w' = tw_out w @ es @ [e] \<and> list_all (\<lambda>e. \<not> final_task_event e) es \<and>
     stored sid w' = Some i \<and> settled sid name k e (oi_state i) \<and> oi_retry_count i = of_nat k)"

definition going :: "task_request \<Rightarrow> string \<Rightarrow> task_world \<Rightarrow> nat \<Rightarrow> task_world \<Rightarrow> bool" where
  "going rq sid w k w' \<longleftrightarrow> quiet w w' \<and> k < max 1 (unat (tq_max_retries rq)) \<and>
     (\<exists>i. stored sid w' = Some i \<and> oi_retry_count i = of_nat k)"

lemma word_small: "n < 2 ^ 32 \<Longrightarrow> unat (of_nat n :: 32 word) = n"
  by (simp add: unsigned_of_nat take_bit_nat_eq_self)

lemma finish:
  assumes "quiet w v" and "tw_out w' = tw_out v @ [e]" and "stored sid w' = Some i"
    and "settled sid name k e (oi_state i)" and "oi_retry_count i = of_nat k"
  shows "finished sid name w k w'"
proof -
  obtain es where "tw_out v = tw_out w @ es" "list_all (\<lambda>e. \<not> final_task_event e) es" using assms(1) by (auto simp: quiet_def)
  then show ?thesis
    unfolding finished_def using assms(2-) by (intro exI [of _ es] exI [of _ e] exI [of _ i]) simp
qed

lemma task_done_finished:
  assumes "quiet w v" and "stored sid v = Some i" and "oi_retry_count i = of_nat k"
  shows "finished sid name w k (task_done env rq t sid status v)"
proof (rule finish)
  let ?v = "when_verbose rq (Task_State sid Session_Complete) (log_complete env t sid status (set_state env sid Session_Complete v))"
  show "quiet w ?v" using assms(1) by (auto intro!: quiet_layer(1))
  show "tw_out (task_done env rq t sid status v) = tw_out ?v @ [Task_Complete sid]"
    by (simp add: task_done_def say_def)
  show "stored sid (task_done env rq t sid status v) = Some (i\<lparr>oi_state := Session_Complete, oi_last_activity := od_now (tw_orcha v)\<rparr>)"
    using assms(2) by (simp add: task_done_def stored_def)
qed (use assms(3) in \<open>simp_all add: settled_def\<close>)

lemma judge_ends:
  assumes "going rq sid w k v" and j: "judge env rq t sid k a v = (again, w')"
  shows "if again then going rq sid w (Suc k) w' else finished sid name w k w'"
proof -
  obtain i where i: "stored sid v = Some i" "oi_retry_count i = of_nat k" and q: "quiet w v" and k: "k < max 1 (unat (tq_max_retries rq))"
    using assms(1) by (auto simp: going_def)
  let ?r = "run_validation_test (te_shell env k) a"
  let ?v = "when_verbose rq (Task_Validated (vr_success ?r) (vr_output ?r)) (log_validation env t (vr_success ?r) (vr_output ?r)
     (validation_started env t (va_test_command a) (va_cwd a) (set_state env sid (Session_Validating (va_test_command a))
       (when_verbose rq (Task_Validating (va_test_command a)) v))))"
  let ?i = "i\<lparr>oi_state := Session_Validating (va_test_command a), oi_last_activity := od_now (tw_orcha v)\<rparr>"
  have v: "quiet w ?v" using q by (auto intro!: quiet_layer(1))
  have s: "stored sid ?v = Some ?i" using i(1) by (simp add: stored_def)
  have count: "oi_retry_count ?i = of_nat k" using i(2) by simp
  consider (ok) "vr_success ?r" "again = False" "w' = task_done env rq t sid ''success'' ?v"
    | (fail) "again = False" "w' = say (Task_Failed sid (validation_failure (Suc k))) (set_state env sid (Session_Failed (validation_failure (Suc k))) ?v)"
    | (again) "again = True" "Suc k < unat (tq_max_retries rq)"
        "w' = when_verbose rq (Task_Retry (Suc k) (unat (tq_max_retries rq)) ''Validation test failed'')
           (?v\<lparr>tw_orcha := snd (increment_retry sid (tw_orcha ?v))\<rparr>)"
    using j by (auto simp: judge_def Let_def split: if_splits)
  then show ?thesis
  proof cases
    case ok then show ?thesis using task_done_finished [OF v s count] by simp
  next
    case fail
    have "finished sid name w k w'" unfolding fail(2)
    proof (rule finish)
      let ?u = "set_state env sid (Session_Failed (validation_failure (Suc k))) ?v"
      show "quiet w ?u" using v by (rule quiet_layer(2)) simp
      show "tw_out (say (Task_Failed sid (validation_failure (Suc k))) ?u) = tw_out ?u @ [Task_Failed sid (validation_failure (Suc k))]"
        by (simp add: say_def)
      show "stored sid (say (Task_Failed sid (validation_failure (Suc k))) ?u) =
        Some (?i\<lparr>oi_state := Session_Failed (validation_failure (Suc k)), oi_last_activity := od_now (tw_orcha ?v)\<rparr>)"
        using i(1) by (simp add: stored_def)
    qed (use count in \<open>simp_all add: settled_def\<close>)
    then show ?thesis using fail(1) by simp
  next
    case again
    have "quiet w w'" unfolding again(3) by (rule quiet_layer(1), simp, rule quiet_layer(2) [OF v]) simp
    moreover have "stored sid w' = Some (?i\<lparr>oi_retry_count := oi_retry_count ?i + 1\<rparr>)"
      using i(1) unfolding again(3) by (simp add: stored_def)
    ultimately show ?thesis using again(1,2) i(2) by (simp add: going_def add.commute)
  qed
qed

lemma attempt_ends:
  assumes "going rq sid w k v" and a: "attempt env rq t sid name cid k v = (again, w')"
  shows "if again then going rq sid w (Suc k) w' else finished sid name w k w'"
proof -
  obtain i where i: "stored sid v = Some i" "oi_retry_count i = of_nat k" and q: "quiet w v" and k: "k < max 1 (unat (tq_max_retries rq))"
    using assms(1) by (auto simp: going_def)
  let ?prompt = "retry_prompt (tq_task rq) ''The previous attempt failed validation. Please fix the issues and try again.'' k (unat (tq_max_retries rq))"
  let ?u = "when_verbose rq (Task_State sid (running name)) (set_state env sid (running name)
    (prompt_created env t ?prompt k (when_verbose rq (Task_Progress ''Starting task execution'' (Some 30)) v)))"
  let ?i = "i\<lparr>oi_state := running name, oi_last_activity := od_now (tw_orcha v)\<rparr>"
  have u: "quiet w ?u" using q by (auto intro!: quiet_layer(1))
  obtain events db where chat: "on_chat (te_chat env k) (te_claude env k) name ?prompt None None 0 (tw_claude ?u) = (events, db)"
    by (cases "on_chat (te_chat env k) (te_claude env k) name ?prompt None None 0 (tw_claude ?u)")
  obtain r x h where c: "task_chat_events env rq t sid cid events (?u\<lparr>tw_claude := db\<rparr>, [], None) = (r, x, h)"
    by (cases "task_chat_events env rq t sid cid events (?u\<lparr>tw_claude := db\<rparr>, [], None)")
  have "quiet w (?u\<lparr>tw_claude := db\<rparr>)" using u by (rule quiet_layer(2)) simp
  then have qx: "quiet w x" and "tw_orcha x = tw_orcha ?u" using chat_events_quiet [OF c] quiet_trans by auto
  then have s: "stored sid x = Some ?i" using i(1) by (simp add: stored_def)
  have count: "oi_retry_count ?i = of_nat k" using i(2) by simp
  have state_i: "oi_state ?i = running name" by simp
  have att: "(again, w') = (case r of Some m \<Rightarrow> (False, say (Task_Failed sid (''Chat error: '' @ m)) x)
      | None \<Rightarrow> (case snd h of Some a \<Rightarrow> judge env rq t sid k a x | None \<Rightarrow> (False, task_done env rq t sid ''success_no_validation'' x)))"
    using a chat c by (cases h) (auto simp: attempt_def Let_def split: option.splits)
  show ?thesis
  proof (cases r)
    case (Some m)
    have "finished sid name w k (say (Task_Failed sid (''Chat error: '' @ m)) x)"
    proof (rule finish [OF qx])
      show "stored sid (say (Task_Failed sid (''Chat error: '' @ m)) x) = Some ?i" using s by (simp add: stored_def)
      show "settled sid name k (Task_Failed sid (''Chat error: '' @ m)) (oi_state ?i)"
        unfolding state_i by (rule settled_intros(3))
    qed (use count in \<open>simp_all add: say_def\<close>)
    then show ?thesis using att Some by simp
  next
    case None
    show ?thesis
    proof (cases "snd h")
      case None
      then show ?thesis using att \<open>r = None\<close> task_done_finished [OF qx s count] by simp
    next
      case (Some a)
      have "going rq sid w k x" using qx k s i(2) by (simp add: going_def)
      from judge_ends [OF this, of env t a again w' name] show ?thesis using att \<open>r = None\<close> Some by simp
    qed
  qed
qed

text \<open>The attempts that a task makes: as many as the last one's number says.\<close>

lemma attempts_counted:
  assumes "going rq sid w 0 v"
  shows "\<exists>n. 0 < n \<and> n \<le> max 1 (unat (tq_max_retries rq)) \<and>
    step_chain (attempt env rq t sid name cid) 0 v n (attempts env rq t sid name cid 0 v) \<and>
    finished sid name w (n - 1) (attempts env rq t sid name cid 0 v)"
proof -
  obtain n where n: "0 < n" "0 + n \<le> max (Suc 0) (unat (tq_max_retries rq))"
    and chain: "step_chain (attempt env rq t sid name cid) 0 v n (attempts env rq t sid name cid 0 v)"
    using tasks.run_chain [of 0 rq env t sid name cid v] by (elim exE conjE)
  have "0 < n \<and> finished sid name w (0 + n - 1) (attempts env rq t sid name cid 0 v)"
  proof (rule step_chain_rule [OF chain, where I = "going rq sid w"])
    show "going rq sid w 0 v" by fact
  next
    fix k s s' assume g: "going rq sid w k s"
    show "going rq sid w (Suc k) s'" if "attempt env rq t sid name cid k s = (True, s')"
      using attempt_ends [OF g that] by simp
    show "finished sid name w k s'" if "attempt env rq t sid name cid k s = (False, s')"
      using attempt_ends [OF g that] by simp
  qed
  then show ?thesis using n chain by auto
qed

subsection \<open>Whole tasks\<close>

text \<open>
  How a task leaves the session, told by its final event: as its attempts have settled it (the retry count of the
  session is then the number of the last attempt, counted from 0); or, when the Claude session cannot be created,
  idle; or, when the tree or the session cannot be created, as it was.
\<close>

definition task_left :: "string \<Rightarrow> nat \<Rightarrow> task_event \<Rightarrow> session_info option \<Rightarrow> session_info option \<Rightarrow> bool" where
  "task_left sid limit e before after \<longleftrightarrow>
     (\<exists>k i. k < limit \<and> after = Some i \<and> settled sid (sid @ ''-cc'') k e (oi_state i) \<and> oi_retry_count i = of_nat k) \<or>
     (\<exists>m i. e = Task_Failed sid (''Failed to create Claude Code session: '' @ m) \<and>
        after = Some i \<and> oi_state i = Session_Idle \<and> oi_retry_count i = 0) \<or>
     (\<exists>m. e = Task_Failed sid (''Failed to create orcha session: '' @ m) \<and> after = before) \<or>
     (\<exists>m. e = Task_Failed sid (''Failed to create arbor tree: '' @ m) \<and> after = before)"

lemma context_new_quiet: "context_new env sid task model w = (r, w') \<Longrightarrow> quiet w w' \<and> tw_orcha w' = tw_orcha w"
  by (auto simp: context_new_def Let_def quiet_def split: prod.splits sum.splits)

lemma context_new_error:
  assumes "context_new env sid task model w = (Inl e, w')"
  shows "\<exists>m. e = ''Failed to create arbor tree: '' @ m"
proof -
  obtain r a where tc: "tree_create (Some (JObj [(''model'', JStr model), (''session_id'', JStr sid), (''task'', JStr task)])) ''orcha''
      (te_new_id env (tw_next w)) (te_new_id env (tw_next w + 1)) (cc_arbor (tw_claude w)) = (r, a)" by fastforce
  show ?thesis
  proof (cases r)
    case (Inl x)
    from assms show ?thesis
      unfolding context_new_def tc Inl prod.case sum.case Let_def prod.inject sum.inject by blast
  next
    case (Inr t)
    from assms show ?thesis unfolding context_new_def tc Inr prod.case sum.case Let_def prod.inject by blast
  qed
qed

lemma created_cached: "create_session sid model dir rules m mode tree od = (Inr x, od') \<Longrightarrow>
    \<exists>i. map_of (od_cache od') sid = Some i \<and> oi_state i = Session_Idle \<and> oi_retry_count i = 0"
  by (auto simp: create_session_def Let_def update_conv' split: if_splits)

lemma refused_session: "create_session sid model dir rules m mode tree od = (Inl x, od') \<Longrightarrow> od' = od"
  by (auto simp: create_session_def Let_def split: if_splits)

definition task_ended :: "string \<Rightarrow> nat \<Rightarrow> task_world \<Rightarrow> task_world \<Rightarrow> bool" where
  "task_ended sid limit w w' \<longleftrightarrow> (\<exists>es e. tw_out w' = tw_out w @ es @ [e]
     \<and> list_all (\<lambda>e. \<not> final_task_event e) es \<and> final_task_event e \<and> task_left sid limit e (stored sid w) (stored sid w'))"

lemma refused_ends:
  assumes "quiet w v" and "task_left sid limit (Task_Failed sid m) (stored sid w) (stored sid v)"
  shows "task_ended sid limit w (say (Task_Failed sid m) v)"
proof -
  obtain es where "tw_out v = tw_out w @ es" "list_all (\<lambda>e. \<not> final_task_event e) es" using assms(1) by (auto simp: quiet_def)
  moreover have "stored sid (say (Task_Failed sid m) v) = stored sid v" by (simp add: stored_def)
  ultimately show ?thesis unfolding task_ended_def
    using assms(2) by (intro exI [of _ es] exI [of _ "Task_Failed sid m"]) (simp add: say_def)
qed

lemma finished_ends:
  assumes "finished sid (sid @ ''-cc'') w k w'" and "k < limit"
  shows "task_ended sid limit w w'"
proof -
  obtain es e i where out: "tw_out w' = tw_out w @ es @ [e]" "list_all (\<lambda>e. \<not> final_task_event e) es"
    and left: "stored sid w' = Some i" "settled sid (sid @ ''-cc'') k e (oi_state i)" "oi_retry_count i = of_nat k"
    using assms(1) by (auto simp: finished_def)
  then have "task_left sid limit e (stored sid w) (stored sid w')" using assms(2) by (auto simp: task_left_def)
  moreover have "final_task_event e" using left(2) by (auto simp: settled_def)
  ultimately show ?thesis using out by (auto simp: task_ended_def)
qed

lemma with_claude_ends:
  assumes q: "quiet w v" and i: "stored sid v = Some i" "oi_state i = Session_Idle" "oi_retry_count i = 0"
  shows "task_ended sid (max 1 (unat (tq_max_retries rq))) w (run_with_claude env rq t sid (sid @ ''-cc'') v)"
proof -
  obtain r db where o: "on_create (te_canonicalize env) (te_unreachable env) (sid @ ''-cc'') (tq_dir rq)
      (task_model (tq_model rq)) None (Some True) None (te_new_id env (tw_next v)) (te_new_id env (tw_next v + 1))
      (te_new_id env (tw_next v + 2)) (tw_claude v) = (r, db)"
    by (metis surj_pair)
  show ?thesis
  proof (cases r)
    case (Inl m)
    have "task_ended sid (max 1 (unat (tq_max_retries rq))) w (say (Task_Failed sid (''Failed to create Claude Code session: '' @ m)) (v\<lparr>tw_claude := db\<rparr>))"
      using q i by (intro refused_ends) (auto simp: quiet_def stored_def task_left_def)
    then show ?thesis unfolding run_with_claude_def o Inl by simp
  next
    case (Inr y)
    obtain cid pos where y: "y = (cid, pos)" by (cases y)
    let ?v = "claude_created env rq t sid (sid @ ''-cc'') cid (v\<lparr>tw_claude := db, tw_next := tw_next v + 3\<rparr>)"
    have "quiet w ?v" unfolding claude_created_def
      by (rule quiet_layer(1), simp, simp only: quiet_logs, rule quiet_layer(2) [OF q]) simp
    moreover have "stored sid ?v = Some i" using i(1) by (simp add: claude_created_def stored_def)
    ultimately have "going rq sid w 0 ?v" using i(3) by (simp add: going_def)
    from attempts_counted [OF this, of env t "sid @ ''-cc''" cid] obtain n where "0 < n" "n \<le> max 1 (unat (tq_max_retries rq))"
      "finished sid (sid @ ''-cc'') w (n - 1) (attempts env rq t sid (sid @ ''-cc'') cid 0 ?v)" by (elim exE conjE)
    then have "n - 1 < max 1 (unat (tq_max_retries rq))" by simp
    from finished_ends [OF \<open>finished _ _ _ _ _\<close> this] show ?thesis unfolding run_with_claude_def o Inr y by simp
  qed
qed

text \<open>
  C30. Whatever the program, the file system and the test command do, a task ends: it yields progress
  events and then exactly one final event, \<open>Complete\<close> or \<open>Failed\<close>, and this event tells how the session is
  stored. After \<open>Complete\<close> it is complete; after the failure of the last validation it is failed with the same
  text, which counts the attempts made; in both cases its retry count is the number of the last attempt. After
  a chat error it is still running, although the task has failed; when the Claude session could not be created it
  is idle, and when the tree or the session itself could not be created it is as it was before the task.
\<close>

theorem task_ends_once:
  "\<exists>es e. tw_out (run_orchestration_task env rq sid w) = tw_out w @ es @ [e]
     \<and> list_all (\<lambda>e. \<not> final_task_event e) es \<and> final_task_event e
     \<and> task_left sid (max 1 (unat (tq_max_retries rq))) e (stored sid w) (stored sid (run_orchestration_task env rq sid w))"
proof -
  let ?limit = "max 1 (unat (tq_max_retries rq))"
  obtain r1 w1 where c: "context_new env sid (tq_task rq) (tq_model rq) w = (r1, w1)" by fastforce
  have w1: "quiet w w1" "tw_orcha w1 = tw_orcha w" using context_new_quiet [OF c] by auto
  have "task_ended sid ?limit w (run_orchestration_task env rq sid w)"
  proof (cases r1)
    case (Inl e)
    then obtain m where "e = ''Failed to create arbor tree: '' @ m" using context_new_error c by blast
    then have "task_left sid ?limit (Task_Failed sid e) (stored sid w) (stored sid w1)"
      unfolding task_left_def by (simp add: stored_def w1(2))
    then show ?thesis unfolding run_orchestration_task_def c Inl by (simp add: refused_ends [OF w1(1)])
  next
    case (Inr t)
    obtain r2 od where s: "create_session sid (tq_model rq) (tq_dir rq) (tq_rules rq) (tq_max_retries rq) Agent_Single (Some t)
        (tw_orcha w1) = (r2, od)" by fastforce
    have q: "quiet w (w1\<lparr>tw_orcha := od\<rparr>)" using w1(1) by (simp add: quiet_def)
    show ?thesis
    proof (cases r2)
      case (Inl m)
      have "stored sid (w1\<lparr>tw_orcha := od\<rparr>) = stored sid w" using refused_session [OF s [unfolded Inl]] w1(2) by (simp add: stored_def)
      then have "task_left sid ?limit (Task_Failed sid (''Failed to create orcha session: '' @ m)) (stored sid w) (stored sid (w1\<lparr>tw_orcha := od\<rparr>))"
        unfolding task_left_def by blast
      then show ?thesis unfolding run_orchestration_task_def c Inr prod.case sum.case s Inl
        by (rule refused_ends [OF q])
    next
      case (Inr x)
      obtain i where i: "map_of (od_cache od) sid = Some i" "oi_state i = Session_Idle" "oi_retry_count i = 0"
        using created_cached [OF s [unfolded Inr]] by blast
      show ?thesis
        unfolding run_orchestration_task_def c \<open>r1 = Inr t\<close> prod.case sum.case s Inr Let_def
        by (rule with_claude_ends [of _ _ _ i]) (use i q in \<open>auto intro!: quiet_layer(1) simp: stored_def\<close>)
    qed
  qed
  then show ?thesis by (simp add: task_ended_def)
qed

lemma same_logs:
  assumes "te_new_id env' = te_new_id env"
  shows "write_node env' = write_node env"
  using assms by (intro ext) (simp add: write_node_def)

lemma same_chat:
  assumes "te_json env' = te_json env" and "te_new_id env' = te_new_id env"
  shows "task_chat_events env' rq t sid cid es st = task_chat_events env rq t sid cid es st"
proof (induction es arbitrary: st)
  case (Cons e es)
  have "task_chat_event env' rq t sid cid e st = task_chat_event env rq t sid cid e st"
    by (cases st; cases e) (simp_all add: hear_text_def assms log_defs same_logs [OF assms(2)])
  then show ?case using Cons.IH by (simp split: prod.splits option.splits)
qed simp

text \<open>The environment with other answers of the program and the test command.\<close>

definition answering :: "(nat \<Rightarrow> chat_env) \<times> (nat \<Rightarrow> launch_config \<Rightarrow> raw_event list) \<times>
    (nat \<Rightarrow> string \<Rightarrow> string \<Rightarrow> string + bool \<times> string \<times> string \<times> int option) \<Rightarrow> task_env \<Rightarrow> task_env" where
  "answering ans env = (case ans of (chat, claude, shell) \<Rightarrow> env\<lparr>te_chat := chat, te_claude := claude, te_shell := shell\<rparr>)"

definition answers_alike :: "nat \<Rightarrow> task_env \<Rightarrow> task_env \<Rightarrow> bool" where
  "answers_alike n env env' \<longleftrightarrow>
     (\<forall>k < n. te_chat env' k = te_chat env k \<and> te_claude env' k = te_claude env k \<and> te_shell env' k = te_shell env k)"

lemma answering_simps [simp]:
  "te_json (answering ans env) = te_json env" "te_new_id (answering ans env) = te_new_id env"
  "te_canonicalize (answering ans env) = te_canonicalize env" "te_unreachable (answering ans env) = te_unreachable env"
  by (simp_all add: answering_def split: prod.splits)

lemma answering_logs [simp]: "write_node (answering ans env) = write_node env" "set_state (answering ans env) = set_state env"
  by (rule same_logs, simp) (simp add: set_state_def fun_eq_iff)

lemma answering_attempt:
  assumes "answers_alike n env (answering ans env)" and "k < n"
  shows "attempt (answering ans env) rq t sid name cid k v = attempt env rq t sid name cid k v"
proof -
  have same: "te_chat (answering ans env) k = te_chat env k" "te_claude (answering ans env) k = te_claude env k"
    "te_shell (answering ans env) k = te_shell env k" using assms by (simp_all add: answers_alike_def)
  then have judge: "judge (answering ans env) rq t sid k a v = judge env rq t sid k a v" for a v
    by (simp add: judge_def task_done_def log_defs Let_def)
  show ?thesis
    by (simp add: attempt_def task_done_def log_defs judge same same_chat [of "answering ans env" env] Let_def
        split: prod.split option.split)
qed

text \<open>Before its first attempt a task does not ask the program or the test command.\<close>

lemma claude_phases:
  assumes q: "quiet w v" and i: "stored sid v = Some i" "oi_retry_count i = 0"
  shows "(\<exists>m v'. \<forall>ans. run_with_claude (answering ans env) rq t sid name v = say (Task_Failed sid (''Failed to create '' @ m)) v') \<or>
    (\<exists>t' cid v'. going rq sid w 0 v' \<and>
      (\<forall>ans. run_with_claude (answering ans env) rq t sid name v = attempts (answering ans env) rq t' sid name cid 0 v'))"
proof -
  obtain r db where o: "on_create (te_canonicalize env) (te_unreachable env) name (tq_dir rq)
      (task_model (tq_model rq)) None (Some True) None (te_new_id env (tw_next v)) (te_new_id env (tw_next v + 1))
      (te_new_id env (tw_next v + 2)) (tw_claude v) = (r, db)"
    by (metis surj_pair)
  show ?thesis
  proof (cases r)
    case (Inl m)
    have "''Failed to create Claude Code session: '' @ m = ''Failed to create '' @ ''Claude Code session: '' @ m" by simp
    then show ?thesis unfolding run_with_claude_def answering_simps o Inl prod.case sum.case
      by (intro disjI1 exI [of _ "''Claude Code session: '' @ m"] exI [of _ "v\<lparr>tw_claude := db\<rparr>"] allI) (simp only:)
  next
    case (Inr y)
    obtain cid pos where y: "y = (cid, pos)" by (cases y)
    let ?v = "claude_created env rq t sid name cid (v\<lparr>tw_claude := db, tw_next := tw_next v + 3\<rparr>)"
    have "quiet w ?v" unfolding claude_created_def
      by (rule quiet_layer(1), simp, simp only: quiet_logs, rule quiet_layer(2) [OF q]) simp
    moreover have "stored sid ?v = Some i" using i(1) by (simp add: claude_created_def stored_def)
    ultimately have "going rq sid w 0 ?v" using i(2) by (simp add: going_def)
    moreover have "claude_created (answering ans env) rq t sid name cid = claude_created env rq t sid name cid" for ans
      by (intro ext) (simp add: claude_created_def log_defs)
    then have "run_with_claude (answering ans env) rq t sid name v = attempts (answering ans env) rq t sid name cid 0 ?v" for ans
      unfolding run_with_claude_def answering_simps o Inr y prod.case sum.case by simp
    ultimately show ?thesis by blast
  qed
qed

lemma task_phases:
  "(\<exists>m v. \<forall>ans. run_orchestration_task (answering ans env) rq sid w = say (Task_Failed sid (''Failed to create '' @ m)) v) \<or>
   (\<exists>t cid v. going rq sid w 0 v \<and>
      (\<forall>ans. run_orchestration_task (answering ans env) rq sid w = attempts (answering ans env) rq t sid (sid @ ''-cc'') cid 0 v))"
proof -
  obtain r1 w1 where c: "context_new env sid (tq_task rq) (tq_model rq) w = (r1, w1)" by fastforce
  have c': "context_new (answering ans env) sid (tq_task rq) (tq_model rq) w = (r1, w1)" for ans
    using c unfolding context_new_def answering_simps answering_logs .
  have w1: "quiet w w1" using context_new_quiet [OF c] by auto
  show ?thesis
  proof (cases r1)
    case (Inl e)
    then obtain m where "e = ''Failed to create arbor tree: '' @ m" using context_new_error c by blast
    moreover have "''Failed to create arbor tree: '' @ m = ''Failed to create '' @ ''arbor tree: '' @ m" by simp
    ultimately have e: "e = ''Failed to create '' @ ''arbor tree: '' @ m" by (rule trans)
    show ?thesis unfolding run_orchestration_task_def c' Inl prod.case sum.case e
      by (intro disjI1 exI [of _ "''arbor tree: '' @ m"] exI [of _ w1] allI refl)
  next
    case (Inr t)
    obtain r2 od where s: "create_session sid (tq_model rq) (tq_dir rq) (tq_rules rq) (tq_max_retries rq) Agent_Single (Some t)
        (tw_orcha w1) = (r2, od)" by fastforce
    show ?thesis
    proof (cases r2)
      case (Inl m)
      have "''Failed to create orcha session: '' @ m = ''Failed to create '' @ ''orcha session: '' @ m" by simp
      then show ?thesis unfolding run_orchestration_task_def c' Inr prod.case sum.case s Inl
        by (intro disjI1 exI [of _ "''orcha session: '' @ m"] exI [of _ "w1\<lparr>tw_orcha := od\<rparr>"] allI) (simp only:)
    next
      case (Inr x)
      obtain i where i: "map_of (od_cache od) sid = Some i" "oi_retry_count i = 0"
        using created_cached [OF s [unfolded Inr]] by blast
      define v where "v = when_verbose rq (Task_Progress (''Creating Claude Code session: '' @ sid @ ''-cc'') (Some 10))
        (when_verbose rq (Task_State sid Session_Idle) (w1\<lparr>tw_orcha := od\<rparr>))"
      have run: "run_orchestration_task (answering ans env) rq sid w = run_with_claude (answering ans env) rq t sid (sid @ ''-cc'') v" for ans
        unfolding run_orchestration_task_def c' \<open>r1 = Inr t\<close> prod.case sum.case s Inr Let_def v_def ..
      have "quiet w (w1\<lparr>tw_orcha := od\<rparr>)" using w1 by (simp add: quiet_def)
      then have "quiet w v" unfolding v_def by (intro quiet_layer(1)) simp_all
      moreover have "stored sid v = Some i" using i(1) by (simp add: v_def stored_def)
      ultimately show ?thesis unfolding run by (rule claude_phases) (rule i(2))
    qed
  qed
qed

text \<open>
  C31. A task makes \<open>n\<close> attempts, a call of the program and, where it names a test, one of the test command each:
  none when the tree, the session or the Claude session cannot be created, which its last event then reports;
  otherwise at least one and at most \<open>max_retries\<close> (one if \<open>max_retries\<close> is 0), each but the last ended by a
  validation that failed. The stored retry count is then the number of attempts after the first, and what the
  program and the test command would answer to later attempts does not matter.
\<close>

theorem attempts_bounded:
  "\<exists>n. n \<le> max 1 (unat (tq_max_retries rq)) \<and>
     (if n = 0 then \<exists>m. last (tw_out (run_orchestration_task env rq sid w)) = Task_Failed sid (''Failed to create '' @ m)
      else (\<exists>i. stored sid (run_orchestration_task env rq sid w) = Some i \<and> oi_retry_count i = of_nat (n - 1)) \<and>
        (\<exists>t cid v. step_chain (attempt env rq t sid (sid @ ''-cc'') cid) 0 v n (run_orchestration_task env rq sid w))) \<and>
     (\<forall>ans. answers_alike n env (answering ans env) \<longrightarrow>
        run_orchestration_task (answering ans env) rq sid w = run_orchestration_task env rq sid w)"
proof -
  have env: "answering (te_chat env, te_claude env, te_shell env) env = env" by (simp add: answering_def)
  from task_phases [of env rq sid w] show ?thesis
  proof (elim disjE exE conjE)
    fix m v assume all: "\<forall>ans. run_orchestration_task (answering ans env) rq sid w = say (Task_Failed sid (''Failed to create '' @ m)) v"
    then have "run_orchestration_task env rq sid w = say (Task_Failed sid (''Failed to create '' @ m)) v" using env by metis
    then show ?thesis using all by (intro exI [of _ 0]) (simp add: say_def)
  next
    fix t cid v assume going: "going rq sid w 0 v"
      and all: "\<forall>ans. run_orchestration_task (answering ans env) rq sid w = attempts (answering ans env) rq t sid (sid @ ''-cc'') cid 0 v"
    then have run: "run_orchestration_task env rq sid w = attempts env rq t sid (sid @ ''-cc'') cid 0 v" using env by metis
    obtain n where n: "0 < n" "n \<le> max 1 (unat (tq_max_retries rq))"
      and chain: "step_chain (attempt env rq t sid (sid @ ''-cc'') cid) 0 v n (attempts env rq t sid (sid @ ''-cc'') cid 0 v)"
      and fin: "finished sid (sid @ ''-cc'') w (n - 1) (attempts env rq t sid (sid @ ''-cc'') cid 0 v)"
      using attempts_counted [OF going] by blast
    have "attempts (answering ans env) rq t sid (sid @ ''-cc'') cid 0 v = attempts env rq t sid (sid @ ''-cc'') cid 0 v"
      if "answers_alike n env (answering ans env)" for ans
      by (rule tasks.chain_run, rule step_chain_local [OF chain]) (use answering_attempt [OF that] in simp)
    then show ?thesis using n chain fin all run by (intro exI [of _ n]) (auto simp: finished_def)
  qed
qed

text \<open>
  C32. How the answer of the agent is cut into pieces does not matter: the artifact that is found while
  listening, with a look at the text so far after every piece, is the one in the whole answer.
\<close>

theorem artifact_of_pieces:
  "fold (hear jc) pieces ([], None) = (concat pieces, extract_validation_artifact jc (concat pieces))"
proof -
  have "extract_validation_artifact jc [] = None" by (simp add: extract_validation_artifact_def)
  then show ?thesis using hear_all [of jc pieces "[]"] by simp
qed

subsection \<open>Agents\<close>

text \<open>The row of an agent, and its state as it is read back.\<close>

definition agent_at :: "json_codec \<Rightarrow> orcha_db \<Rightarrow> string \<Rightarrow> agent_state \<Rightarrow> bool" where
  "agent_at jc od aid state \<longleftrightarrow> (\<exists>r. row_by ag_id aid (od_agents od) = Some r \<and> (ag_state_type r, ag_state_data r) = serialize_agent_state jc state)"

lemma agent_at_update:
  "row_by ag_id aid (od_agents od) \<noteq> None \<Longrightarrow> agent_at jc (update_agent_state jc aid state od) aid state"
  by (cases "serialize_agent_state jc state") (auto simp: agent_at_def update_agent_state_def row_by_update_where)

lemma agent_at_read: "agent_at jc od aid state \<Longrightarrow> carries jc (agent_value state) \<Longrightarrow> \<exists>a. get_agent jc od aid = Inr a \<and> ai_state a = state"
  using agent_state_reads_back [of jc state] by (auto simp: agent_at_def get_agent_def row_to_agent_def dest!: sym [of "(_, _)"])

definition agent_known :: "string \<Rightarrow> agent_world \<Rightarrow> bool" where
  "agent_known aid w \<longleftrightarrow> row_by ag_id aid (od_agents (gw_orcha w)) \<noteq> None"

lemma agent_known_simps [simp]:
  "agent_known aid (set_agent env agent state w) = agent_known aid w"
  "agent_known aid (w\<lparr>gw_claude := db\<rparr>) = agent_known aid w"
  "agent_known aid (w\<lparr>gw_claude := db, gw_next := n\<rparr>) = agent_known aid w"
  "agent_known aid (agent_approval config agent' tool tool_use input w) = agent_known aid w"
  by (auto simp: agent_known_def set_agent_def agent_approval_def update_agent_state_def row_by_None_iff image_key_update_where split: prod.splits)

lemma agent_known_helper: "agent_known aid w \<Longrightarrow> agent_known aid (add_helper parent name subtask uuid config w)"
  by (auto simp: agent_known_def add_helper_def create_agent_def Let_def row_by_append split: option.splits)

lemma agent_known_spawn: "agent_known aid w \<Longrightarrow> agent_known aid (handle_agent_spawn_request env parent input ctx w)"
  by (auto simp: handle_agent_spawn_request_def Let_def intro!: agent_known_helper split: option.splits sum.splits prod.splits)

lemma agent_known_event: "agent_chat_event env agent config e (w, h) = (r, w', h') \<Longrightarrow> agent_known aid w \<Longrightarrow> agent_known aid w'"
  by (cases e) (auto intro: agent_known_spawn)

lemma agent_known_events: "agent_chat_events env agent config es (w, h) = (r, w', h') \<Longrightarrow> agent_known aid w \<Longrightarrow> agent_known aid w'"
proof (induction es arbitrary: w h)
  case (Cons e es)
  obtain r1 w1 h1 where e: "agent_chat_event env agent config e (w, h) = (r1, w1, h1)" by (metis prod_cases3)
  from agent_known_event [OF e Cons.prems(2)] have "agent_known aid w1" .
  then show ?case using Cons e by (cases r1) auto
qed simp

text \<open>The state that goes with the result of an agent.\<close>

fun result_state :: "agent_task_result \<Rightarrow> agent_state \<Rightarrow> bool" where
  "result_state (Agent_Success _) s = (s = Agent_Complete)"
| "result_state (Agent_Task_Failed m) s = (s = Agent_Failed m \<or> s = Agent_Failed (''Chat error: '' @ m))"

definition agent_settled :: "json_codec \<Rightarrow> string \<Rightarrow> agent_outcome \<Rightarrow> bool" where
  "agent_settled jc aid out \<longleftrightarrow> (\<exists>r s. fst out = Some r \<and> result_state r s \<and> agent_at jc (gw_orcha (snd out)) aid s)"

lemma settled_by: "agent_known (ai_id agent) w \<Longrightarrow> result_state r s \<Longrightarrow>
    agent_settled (te_json env) (ai_id agent) (Some r, set_agent env agent s w)"
  by (auto simp: agent_settled_def agent_known_def set_agent_def intro!: exI [of _ s] agent_at_update)

lemma judge_agent_ends:
  assumes "agent_known (ai_id agent) w" and "judge_agent env agent config k a w = (again, out)"
  shows "if again then agent_known (ai_id agent) (snd out) else agent_settled (te_json env) (ai_id agent) out"
  using assms by (auto simp: judge_agent_def Let_def intro!: settled_by split: if_splits)

lemma agent_attempt_ends:
  assumes known: "agent_known (ai_id agent) (snd out)" and a: "agent_attempt env agent task config k out = (again, out')"
  shows "if again then agent_known (ai_id agent) (snd out') else agent_settled (te_json env) (ai_id agent) out'"
proof -
  let ?w = "set_agent env agent (Agent_Running 0) (snd out)"
  let ?p = "retry_prompt task ''Previous validation failed. Fix issues and try again.'' k (unat (gc_max_retries config))"
  obtain es db where chat: "on_chat (te_chat env k) (te_claude env k) (ai_claude agent) ?p None None 0 (gw_claude ?w) = (es, db)"
    by (metis surj_pair)
  obtain r x h where c: "agent_chat_events env agent config es (?w\<lparr>gw_claude := db\<rparr>, [], None) = (r, x, h)" by (metis prod_cases3)
  have x: "agent_known (ai_id agent) x" using agent_known_events [OF c] known by simp
  have att: "(again, out') = (case r of Some m \<Rightarrow> (False, Some (Agent_Task_Failed m), set_agent env agent (Agent_Failed (''Chat error: '' @ m)) x)
      | None \<Rightarrow> (case snd h of Some a \<Rightarrow> judge_agent env agent config k a x
                | None \<Rightarrow> (False, Some (Agent_Success None), set_agent env agent Agent_Complete x)))"
    using a chat c by (cases h) (auto simp: agent_attempt_def Let_def split: option.splits)
  show ?thesis
  proof (cases r)
    case (Some m)
    then show ?thesis using att settled_by [OF x, of "Agent_Task_Failed m" "Agent_Failed (''Chat error: '' @ m)"] by simp
  next
    case None
    show ?thesis
    proof (cases "snd h")
      case None
      then show ?thesis using att \<open>r = None\<close> settled_by [OF x, of "Agent_Success None" Agent_Complete] by simp
    next
      case (Some a)
      from judge_agent_ends [OF x, of env config k a again out'] show ?thesis using att \<open>r = None\<close> Some by simp
    qed
  qed
qed

text \<open>
  C33. An agent that is known to the store always ends with a result, and the stored state agrees with
  it: complete for a success, failed with the message (of a chat error, with its kind in front)
  otherwise.
\<close>

theorem agent_result_stored:
  assumes "agent_known (ai_id agent) w" and "run_agent_task env agent task config w = (res, w')"
    and "\<And>e. carries (te_json env) (agent_value (Agent_Failed e))"
  shows "\<exists>r a. res = Some r \<and> get_agent (te_json env) (gw_orcha w') (ai_id agent) = Inr a \<and> result_state r (ai_state a)"
proof -
  have "agent_settled (te_json env) (ai_id agent) (agent_attempts env agent task config 0 (None, w))"
  proof (rule agents.run_invariant [where I = "\<lambda>k out. agent_known (ai_id agent) (snd out)"])
    show "agent_known (ai_id agent) (snd (None, w))" using assms(1) by simp
  qed (use agent_attempt_ends in fastforce)+
  then obtain r s where r: "res = Some r" "result_state r s" "agent_at (te_json env) (gw_orcha w') (ai_id agent) s"
    using assms(2) by (auto simp: run_agent_task_def agent_settled_def)
  have "carries (te_json env) (agent_value s)" using r(2) assms(3) by (cases r) auto
  from agent_at_read [OF r(3) this] r(1,2) show ?thesis by auto
qed

lemma cached_update: "get_session db sid = Inr i \<Longrightarrow>
    get_session (update_state jc sid st db) sid = Inr (i\<lparr>oi_state := st, oi_last_activity := od_now db\<rparr>)"
  by (auto simp: get_session_def split: option.splits)

text \<open>
  C34. Once every agent of a session in multi-agent mode has ended, the check closes the session: it
  fails when there are agents and none of them has completed, and is complete in every other case
  (also when only some of the agents have completed).
\<close>

theorem session_closes:
  assumes "orcha_reachable jc db" and "carries_modes jc" and ags: "list_agents jc db sid = Inr ags"
    and "length ags < 2 ^ 32" and ended: "list_all (\<lambda>a. agent_ended (ai_state a)) ags"
    and i: "get_session db sid = Inr i" "oi_mode i = Agent_Multi"
  shows "get_session (check_session_completion jc sid db) sid = Inr
    (i\<lparr>oi_state := (if ags \<noteq> [] \<and> list_all (\<lambda>a. ai_state a \<noteq> Agent_Complete) ags
                    then Session_Failed (nat_text (length ags) @ '' agents failed'') else Session_Complete),
       oi_last_activity := od_now db\<rparr>)"
proof -
  let ?done = "count_where (\<lambda>a. ai_state a = Agent_Complete) ags" and ?lost = "count_where (\<lambda>a. agent_error (ai_state a) \<noteq> None) ags"
  have counts: "get_agent_counts db sid = (0, of_nat ?done, of_nat ?lost)"
    using agent_counts [OF assms(1,2), of sid] ags ended by (auto simp: count_where_def list_all_iff)
  have split: "?done + ?lost = length ags"
    using ended
  proof (induction ags)
    case (Cons a as) then show ?case by (cases "ai_state a") auto
  qed simp
  have "?done < 2 ^ 32" "?lost < 2 ^ 32" using split assms(4) by linarith+
  note small = this [THEN word_small]
  have zero: "(of_nat n :: 32 word) = 0 \<longleftrightarrow> n = 0" if "unat (of_nat n :: 32 word) = n" for n
  proof
    assume z: "(of_nat n :: 32 word) = 0"
    have "n = unat (of_nat n :: 32 word)" using that by (rule sym)
    also have "\<dots> = 0" unfolding z by simp
    finally show "n = 0" .
  qed simp
  have none: "?done = 0 \<longleftrightarrow> list_all (\<lambda>a. ai_state a \<noteq> Agent_Complete) ags"
    by (auto simp: count_where_def list_all_iff filter_empty_conv)
  let ?st = "if ags \<noteq> [] \<and> list_all (\<lambda>a. ai_state a \<noteq> Agent_Complete) ags
    then Session_Failed (nat_text (length ags) @ '' agents failed'') else Session_Complete"
  have cond: "(0 < (of_nat ?lost :: 32 word) \<and> of_nat ?done = (0 :: 32 word)) \<longleftrightarrow> (ags \<noteq> [] \<and> list_all (\<lambda>a. ai_state a \<noteq> Agent_Complete) ags)"
  proof -
    have "0 < (of_nat ?lost :: 32 word) \<longleftrightarrow> ?lost \<noteq> 0" using zero [OF small(2)] unfolding word_gt_0 by metis
    moreover have "?done = 0 \<longrightarrow> (?lost \<noteq> 0) = (ags \<noteq> [])"
      using split by (auto simp only: add_0 length_0_conv [symmetric])
    ultimately show ?thesis using zero [OF small(1)] none by satx
  qed
  have len: "unat (of_nat ?lost :: 32 word) = length ags" if "list_all (\<lambda>a. ai_state a \<noteq> Agent_Complete) ags"
    using that none split small(2) by simp
  have "check_session_completion jc sid db = update_state jc sid ?st db"
  proof (cases "ags \<noteq> [] \<and> list_all (\<lambda>a. ai_state a \<noteq> Agent_Complete) ags")
    case True
    then have "0 < (of_nat ?lost :: 32 word)" "of_nat ?done = (0 :: 32 word)" using cond by blast+
    then show ?thesis using True i len by (simp add: check_session_completion_def counts)
  next
    case False
    then have "\<not> (0 < (of_nat ?lost :: 32 word) \<and> of_nat ?done = (0 :: 32 word))" using cond by blast
    then have "check_session_completion jc sid db = update_state jc sid Session_Complete db"
      using i by (auto simp: check_session_completion_def counts)
    then show ?thesis unfolding if_not_P [OF False] .
  qed
  then show ?thesis by (simp only: cached_update [OF i(1)])
qed

subsection \<open>Witnesses\<close>

definition demo_task_env :: task_env where
  "demo_task_env =
     \<lparr>te_json = demo_mode_codec, te_new_id = (\<lambda>n. replicate (n + 1) CHR ''n''), te_canonicalize = Inr, te_unreachable = None,
      te_chat = (\<lambda>_. \<lparr>ce_json = demo_mode_codec, ce_new_id = (\<lambda>n. replicate (n + 1) CHR ''m''), ce_plugin_id = ''p''\<rparr>),
      te_claude = (\<lambda>_ _. []), te_shell = (\<lambda>_ _ _. Inl ''no shell'')\<rparr>"

definition demo_request :: task_request where
  "demo_request = \<lparr>tq_model = ''opus'', tq_task = ''go'', tq_dir = ''/w'', tq_rules = None, tq_max_retries = 2,
     tq_verbose = True, tq_auto = False\<rparr>"

definition demo_task_world :: task_world where
  "demo_task_world = \<lparr>tw_orcha = empty_orcha 0, tw_claude = empty_claude 0, tw_loopback = empty_loopback, tw_next = 0,
     tw_last = None, tw_jobs = [], tw_out = []\<rparr>"

definition late_answers :: "(nat \<Rightarrow> chat_env) \<times> (nat \<Rightarrow> launch_config \<Rightarrow> raw_event list) \<times>
    (nat \<Rightarrow> string \<Rightarrow> string \<Rightarrow> string + bool \<times> string \<times> string \<times> int option)" where
  "late_answers = (te_chat demo_task_env, \<lambda>k. if k < 2 then \<lambda>_. [] else (\<lambda>_. [Raw_Stderr ''late'']), te_shell demo_task_env)"

theorem attempts_bounded_witness:
  "run_orchestration_task (answering late_answers demo_task_env) demo_request ''o'' demo_task_world =
   run_orchestration_task demo_task_env demo_request ''o'' demo_task_world"
proof -
  have "unat (tq_max_retries demo_request) = 2" by (simp add: demo_request_def)
  then have "answers_alike n demo_task_env (answering late_answers demo_task_env)"
    if "n \<le> max 1 (unat (tq_max_retries demo_request))" for n
    using that by (simp add: answers_alike_def answering_def late_answers_def demo_task_env_def)
  then show ?thesis using attempts_bounded [of demo_request demo_task_env "''o''" demo_task_world] by blast
qed

definition demo_agent :: agent_info where
  "demo_agent = \<lparr>ai_id = ''agent-1'', ai_session = ''s'', ai_claude = ''cc'', ai_subtask = ''part'', ai_state = Agent_Idle,
     ai_primary = True, ai_parent = None, ai_created_at = 7, ai_last_activity = 7, ai_completed_at = None, ai_error = None\<rparr>"

definition demo_agent_world :: agent_world where
  "demo_agent_world = \<lparr>gw_orcha = demo_orcha, gw_claude = empty_claude 0, gw_loopback = empty_loopback, gw_next = 0,
     gw_jobs = [], gw_spawned = []\<rparr>"

definition demo_config :: agent_config where
  "demo_config = \<lparr>gc_model = Opus, gc_dir = ''/w'', gc_max_retries = 2, gc_context = ''go'', gc_auto = True\<rparr>"

lemmas demo_orcha_defs = demo_orcha_def update_agent_state_def create_agent_def update_state_def increment_retry_def
  create_session_def empty_orcha_def change_cached_def Let_def

lemma agent_result_stored_witness:
  "\<exists>r a. fst (run_agent_task demo_task_env demo_agent ''part'' demo_config demo_agent_world) = Some r \<and>
     get_agent demo_mode_codec (gw_orcha (snd (run_agent_task demo_task_env demo_agent ''part'' demo_config demo_agent_world))) ''agent-1'' = Inr a \<and>
     result_state r (ai_state a)"
proof -
  have "agent_known (ai_id demo_agent) demo_agent_world"
    by (simp add: agent_known_def demo_agent_def demo_agent_world_def demo_orcha_defs)
  moreover have "carries (te_json demo_task_env) (agent_value (Agent_Failed e))" for e
    using demo_carries_failure by (simp add: demo_task_env_def)
  ultimately show ?thesis
    using agent_result_stored [of demo_agent demo_agent_world demo_task_env "''part''" demo_config
        "fst (run_agent_task demo_task_env demo_agent ''part'' demo_config demo_agent_world)"
        "snd (run_agent_task demo_task_env demo_agent ''part'' demo_config demo_agent_world)"]
    by (simp add: demo_agent_def demo_task_env_def)
qed

lemma session_closes_witness:
  "\<exists>i. get_session (check_session_completion demo_mode_codec ''s'' demo_orcha) ''s'' = Inr i \<and>
       oi_state i = Session_Failed ''1 agents failed''"
proof -
  define r where "r = hd (od_agents demo_orcha)"
  have rows: "filter (\<lambda>r. ag_session r = ''s'') (od_agents demo_orcha) = [r]" "(ag_state_type r, ag_state_data r) = serialize_agent_state demo_mode_codec (Agent_Failed ''no'')"
    by (simp_all add: r_def demo_orcha_defs demo_mode_codec_def)
  have read: "deserialize_agent_state demo_mode_codec (ag_state_type r) (ag_state_data r) = Inr (Agent_Failed ''no'')"
    using agent_state_reads_back [OF demo_carries_failure(2), of "''no''"] rows(2) [symmetric] by simp
  obtain a where a: "list_agents demo_mode_codec demo_orcha ''s'' = Inr [a]" "ai_state a = Agent_Failed ''no''"
    by (simp add: list_agents_def rows(1) row_to_agent_def read)
  obtain i where i: "get_session demo_orcha ''s'' = Inr i" "oi_mode i = Agent_Multi"
    by (simp add: get_session_def demo_orcha_defs)
  have "nat_text 1 = ''1''" by code_simp
  then show ?thesis using session_closes [OF demo_orcha_reachable demo_carries_modes a(1) _ _ i] a(2) by simp
qed

end
