(* ===== verification/Orcha_Pm.thy ===== *)
theory Orcha_Pm
  imports Orcha_Graph Substrate_Text Claude_Render "HOL-Library.Word"
begin

text \<open>
  The project view of graph runs: which tickets a graph was built from, and what has become of them.
  \<^verbatim>\<open>src/src/activations/orcha/pm/storage.rs\<close> (tables) and \<^verbatim>\<open>src/src/activations/orcha/pm/activation.rs\<close> (the
  methods; each answers once, \<open>Inl\<close> is its \<open>Err\<close> variant). A \<open>HashMap\<close> is the list of its entries, here
  in the order of the rows. \<open>pm_now\<close> is the clock that fills the column \<open>created_at\<close>.
\<close>

subsection \<open>Tables\<close>

record ticket_map_row =
  tm_graph :: graph_id
  tm_ticket :: string
  tm_node :: node_id
  tm_created_at :: int

record ticket_source_row =
  ts_graph :: graph_id
  ts_source :: string
  ts_created_at :: int

record node_log_row =
  nl_graph :: graph_id
  nl_node :: node_id
  nl_ticket :: "string option"
  nl_seq :: int
  nl_type :: string
  nl_data :: string
  nl_created_at :: int

record pm_db =
  pm_maps :: "ticket_map_row list"
  pm_sources :: "ticket_source_row list"
  pm_logs :: "node_log_row list"
  pm_now :: int

record node_log_entry =
  ne_seq :: int
  ne_type :: string
  ne_data :: string
  ne_created_at :: int

text \<open>\<open>INSERT OR REPLACE\<close>: a row with the same key goes, the new row comes last.\<close>

definition put_ticket :: "graph_id \<Rightarrow> string \<times> node_id \<Rightarrow> pm_db \<Rightarrow> pm_db" where
  "put_ticket g = (\<lambda>(t, n) pm.
     pm\<lparr>pm_maps := filter (\<lambda>r. \<not> (tm_graph r = g \<and> tm_ticket r = t)) (pm_maps pm) @
       [\<lparr>tm_graph = g, tm_ticket = t, tm_node = n, tm_created_at = pm_now pm\<rparr>]\<rparr>)"

definition save_ticket_map :: "graph_id \<Rightarrow> (string \<times> node_id) list \<Rightarrow> pm_db \<Rightarrow> pm_db" where
  "save_ticket_map g entries pm = fold (put_ticket g) entries pm"

definition get_ticket_map :: "pm_db \<Rightarrow> graph_id \<Rightarrow> (string \<times> node_id) list" where
  "get_ticket_map pm g = map (\<lambda>r. (tm_ticket r, tm_node r)) (filter (\<lambda>r. tm_graph r = g) (pm_maps pm))"

text \<open>\<open>LIMIT ?\<close> with the limit cast to \<open>i64\<close>: a negative number is no limit.\<close>

definition sql_limit :: "64 word \<Rightarrow> 'a list \<Rightarrow> 'a list" where
  "sql_limit n xs = (if sint n < 0 then xs else take (unat n) xs)"

definition list_ticket_maps :: "64 word \<Rightarrow> pm_db \<Rightarrow> (graph_id \<times> int) list" where
  "list_ticket_maps limit pm =
     sql_limit limit (sort_key (\<lambda>e. - snd e)
       (map (\<lambda>g. (g, Min (set (map tm_created_at (filter (\<lambda>r. tm_graph r = g) (pm_maps pm))))))
         (remdups (map tm_graph (pm_maps pm)))))"

definition save_ticket_source :: "graph_id \<Rightarrow> string \<Rightarrow> pm_db \<Rightarrow> pm_db" where
  "save_ticket_source g source pm =
     pm\<lparr>pm_sources := filter (\<lambda>r. ts_graph r \<noteq> g) (pm_sources pm) @
       [\<lparr>ts_graph = g, ts_source = source, ts_created_at = pm_now pm\<rparr>]\<rparr>"

definition get_ticket_source :: "pm_db \<Rightarrow> graph_id \<Rightarrow> string option" where
  "get_ticket_source pm g = map_option ts_source (row_by ts_graph g (pm_sources pm))"

definition get_ticket_for_node :: "pm_db \<Rightarrow> graph_id \<Rightarrow> node_id \<Rightarrow> string option" where
  "get_ticket_for_node pm g n = map_option tm_ticket (find (\<lambda>r. tm_graph r = g \<and> tm_node r = n) (pm_maps pm))"

definition append_node_log ::
  "graph_id \<Rightarrow> node_id \<Rightarrow> string option \<Rightarrow> int \<Rightarrow> string \<Rightarrow> string \<Rightarrow> pm_db \<Rightarrow> pm_db" where
  "append_node_log g n ticket seq event_type event_data pm =
     pm\<lparr>pm_logs := pm_logs pm @
       [\<lparr>nl_graph = g, nl_node = n, nl_ticket = ticket, nl_seq = seq, nl_type = event_type, nl_data = event_data,
         nl_created_at = pm_now pm\<rparr>]\<rparr>"

definition get_node_log :: "pm_db \<Rightarrow> graph_id \<Rightarrow> node_id \<Rightarrow> node_log_entry list" where
  "get_node_log pm g n =
     map (\<lambda>r. \<lparr>ne_seq = nl_seq r, ne_type = nl_type r, ne_data = nl_data r, ne_created_at = nl_created_at r\<rparr>)
       (sort_key nl_seq (filter (\<lambda>r. nl_graph r = g \<and> nl_node r = n) (pm_logs pm)))"

text \<open>What Orcha calls.\<close>

definition list_all_graph_ids :: "pm_db \<Rightarrow> graph_id list" where
  "list_all_graph_ids pm = map fst (list_ticket_maps (- 1) pm)"

definition log_node_event ::
  "json_codec \<Rightarrow> graph_id \<Rightarrow> node_id \<Rightarrow> string option \<Rightarrow> int \<Rightarrow> string \<Rightarrow> json \<Rightarrow> pm_db \<Rightarrow> pm_db" where
  "log_node_event jc g n ticket seq event_type event_data pm =
     append_node_log g n ticket seq event_type (jc_print jc event_data) pm"

text \<open>The entries that the run of a task writes, in turn.\<close>

definition log_entries ::
  "json_codec \<Rightarrow> graph_id \<Rightarrow> node_id \<Rightarrow> string option \<Rightarrow> (nat \<times> string \<times> json) list \<Rightarrow> pm_db \<Rightarrow> pm_db" where
  "log_entries jc g n ticket logs pm = fold (\<lambda>(seq, kind, payload). log_node_event jc g n ticket (int seq) kind payload) logs pm"

subsection \<open>Tickets and their nodes\<close>

record pm_ticket =
  pt_ticket :: string
  pt_node :: node_id
  pt_status :: string
  pt_kind :: string
  pt_label :: "string option"
  pt_child :: "graph_id option"

fun pm_status_str :: "node_status \<Rightarrow> string" where
  "pm_status_str N_Pending = ''pending''"
| "pm_status_str N_Ready = ''ready''"
| "pm_status_str N_Running = ''running''"
| "pm_status_str N_Complete = ''complete''"
| "pm_status_str N_Failed = ''failed''"

fun kind_and_text :: "orcha_node_kind \<Rightarrow> string \<times> string" where
  "kind_and_text (Kind_Task task _) = (''task'', task)"
| "kind_and_text (Kind_Synthesize task _) = (''synthesize'', task)"
| "kind_and_text (Kind_Validate command _ _) = (''validate'', command)"
| "kind_and_text (Kind_Review prompt) = (''review'', prompt)"
| "kind_and_text (Kind_Plan task) = (''plan'', task)"

fun extract_kind_and_label :: "node_spec \<Rightarrow> string \<times> string option" where
  "extract_kind_and_label (Spec_Task data _) =
     (case kind_of_json data of
        Some k \<Rightarrow> (fst (kind_and_text k), Some (take_chars 80 (snd (kind_and_text k))))
      | None \<Rightarrow> (''task'', None))"
| "extract_kind_and_label (Spec_Gather _) = (''gather'', None)"
| "extract_kind_and_label (Spec_Scatter _ _) = (''scatter'', None)"
| "extract_kind_and_label (Spec_SubGraph _) = (''subgraph'', None)"

fun child_graph_of :: "node_output option \<Rightarrow> graph_id option" where
  "child_graph_of (Some (Single t)) =
     (case tk_payload t of
        Some (Payload_Data v) \<Rightarrow> Option.bind (json_get ''child_graph_id'' v) json_as_str
      | _ \<Rightarrow> None)"
| "child_graph_of _ = None"

definition ticket_of :: "string \<Rightarrow> lattice_node \<Rightarrow> graph_id option \<Rightarrow> pm_ticket" where
  "ticket_of ticket node child =
     (case extract_kind_and_label (ln_spec node) of (kind, label) \<Rightarrow>
        \<lparr>pt_ticket = ticket, pt_node = ln_id node, pt_status = pm_status_str (ln_status node), pt_kind = kind,
         pt_label = label, pt_child = child\<rparr>)"

text \<open>The text of a storage error.\<close>

fun lattice_error_text :: "lattice_error \<Rightarrow> string" where
  "lattice_error_text (Sql_Error s) = s"
| "lattice_error_text (Graph_Not_Found g) = ''Graph not found: '' @ g"
| "lattice_error_text (Node_Not_Found n) = ''Node not found: '' @ n"
| "lattice_error_text (Node_Not_In_Graph n g) = ''Node '' @ n @ '' not found in graph '' @ g"

text \<open>The nodes of the tickets, in turn; the first that cannot be read ends the loop.\<close>

fun ticket_nodes :: "lattice_db \<Rightarrow> (string \<times> node_id) list \<Rightarrow> string + (string \<times> lattice_node) list" where
  "ticket_nodes db [] = Inr []"
| "ticket_nodes db ((t, n) # entries) =
     (case get_node db n of
        Inl e \<Rightarrow> Inl (''Failed to get node '' @ n @ '': '' @ lattice_error_text e)
      | Inr node \<Rightarrow> map_sum id (\<lambda>ns. (t, node) # ns) (ticket_nodes db entries))"

definition overall_status :: "node_status list \<Rightarrow> string" where
  "overall_status sts =
     (if N_Failed \<in> set sts then ''failed''
      else if N_Running \<in> set sts \<or> N_Ready \<in> set sts then ''running''
      else if N_Pending \<in> set sts then ''pending''
      else if list_all (\<lambda>s. s = N_Complete) sts \<and> sts \<noteq> [] then ''complete''
      else ''pending'')"

definition pm_graph_status :: "pm_db \<Rightarrow> lattice_db \<Rightarrow> graph_id \<Rightarrow> bool option \<Rightarrow> string + string \<times> pm_ticket list" where
  "pm_graph_status pm db g recursive =
     map_sum id (\<lambda>ns.
       (overall_status (map (\<lambda>(t, node). ln_status node) ns),
        map (\<lambda>(t, node). ticket_of t node
          (if recursive = Some True \<and> ln_status node = N_Complete then child_graph_of (ln_output node) else None)) ns))
       (ticket_nodes db (get_ticket_map pm g))"

definition what_next :: "pm_db \<Rightarrow> lattice_db \<Rightarrow> graph_id \<Rightarrow> string + pm_ticket list" where
  "what_next pm db g =
     map_sum id (\<lambda>ns. map (\<lambda>(t, node). ticket_of t node None)
       (filter (\<lambda>(t, node). ln_status node = N_Ready \<or> ln_status node = N_Running) ns))
       (ticket_nodes db (get_ticket_map pm g))"

subsection \<open>One ticket\<close>

text \<open>The derived JSON form of an output; \<open>handle_json\<close> is that of the foreign type \<open>Handle\<close>
  (the entries; their order has no meaning in JSON).\<close>

fun color_json :: "token_color \<Rightarrow> json" where
  "color_json Color_Ok = JObj [(''type'', JStr ''ok'')]"
| "color_json Color_Error = JObj [(''type'', JStr ''error'')]"
| "color_json (Color_Named n) = JObj [(''name'', JStr n), (''type'', JStr ''named'')]"

fun payload_json :: "(handle \<Rightarrow> (string \<times> json) list) \<Rightarrow> token_payload \<Rightarrow> json" where
  "payload_json handle_json (Payload_Data v) = JObj [(''type'', JStr ''data''), (''value'', v)]"
| "payload_json handle_json (Payload_Handle h) = JObj ((''type'', JStr ''handle'') # handle_json h)"

definition token_entries :: "(handle \<Rightarrow> (string \<times> json) list) \<Rightarrow> token \<Rightarrow> (string \<times> json) list" where
  "token_entries handle_json t =
     [(''color'', color_json (tk_color t)),
      (''payload'', (case tk_payload t of None \<Rightarrow> JNull | Some p \<Rightarrow> payload_json handle_json p))]"

fun output_json :: "(handle \<Rightarrow> (string \<times> json) list) \<Rightarrow> node_output \<Rightarrow> json" where
  "output_json handle_json (Single t) = JObj (token_entries handle_json t @ [(''type'', JStr ''single'')])"
| "output_json handle_json (Many ts) =
     JObj [(''tokens'', JArr (map (\<lambda>t. JObj (token_entries handle_json t)) ts)), (''type'', JStr ''many'')]"

record pm_inspection =
  pi_ticket :: string
  pi_node :: node_id
  pi_status :: string
  pi_kind :: string
  pi_task :: "string option"
  pi_command :: "string option"
  pi_output :: "json option"
  pi_error :: "string option"
  pi_child :: "graph_id option"

fun kind_details :: "node_spec \<Rightarrow> string \<times> string option \<times> string option" where
  "kind_details (Spec_Task data _) =
     (case kind_of_json data of
        Some (Kind_Task task _) \<Rightarrow> (''task'', Some task, None)
      | Some (Kind_Synthesize task _) \<Rightarrow> (''synthesize'', Some task, None)
      | Some (Kind_Validate command _ _) \<Rightarrow> (''validate'', None, Some command)
      | Some (Kind_Review prompt) \<Rightarrow> (''review'', Some prompt, None)
      | Some (Kind_Plan task) \<Rightarrow> (''plan'', Some task, None)
      | None \<Rightarrow> (''task'', None, None))"
| "kind_details (Spec_Gather _) = (''gather'', None, None)"
| "kind_details _ = (''other'', None, None)"

text \<open>\<open>Inr None\<close> is the answer \<open>NotFound\<close>.\<close>

definition inspect_ticket ::
  "(handle \<Rightarrow> (string \<times> json) list) \<Rightarrow> pm_db \<Rightarrow> lattice_db \<Rightarrow> graph_id \<Rightarrow> string \<Rightarrow> string + pm_inspection option" where
  "inspect_ticket handle_json pm db g t =
     (case map_of (get_ticket_map pm g) t of
        None \<Rightarrow> Inr None
      | Some n \<Rightarrow>
          (case get_node db n of
             Inl e \<Rightarrow> Inl (''Failed to get node: '' @ lattice_error_text e)
           | Inr node \<Rightarrow>
               (let out = map_option (output_json handle_json) (ln_output node);
                    child = Option.bind (Option.bind (Option.bind (Option.bind out (json_get ''payload''))
                      (json_get ''value'')) (json_get ''child_graph_id'')) json_as_str
                in case kind_details (ln_spec node) of (kind, task, command) \<Rightarrow>
                     Inr (Some \<lparr>pi_ticket = t, pi_node = n, pi_status = pm_status_str (ln_status node), pi_kind = kind,
                       pi_task = task, pi_command = command, pi_output = out, pi_error = ln_error node, pi_child = child\<rparr>))))"

definition blocking :: "pm_db \<Rightarrow> lattice_db \<Rightarrow> graph_id \<Rightarrow> node_id \<Rightarrow> pm_ticket option" where
  "blocking pm db g p =
     (case get_node db p of
        Inl _ \<Rightarrow> None
      | Inr node \<Rightarrow>
          if ln_status node = N_Complete then None
          else Some ((ticket_of (case get_ticket_for_node pm g p of Some t \<Rightarrow> t | None \<Rightarrow> p) node None)\<lparr>pt_node := p\<rparr>))"

text \<open>An empty list is the answer \<open>NotBlocked\<close>.\<close>

definition why_blocked :: "pm_db \<Rightarrow> lattice_db \<Rightarrow> graph_id \<Rightarrow> string \<Rightarrow> string + pm_ticket list" where
  "why_blocked pm db g t =
     (case map_of (get_ticket_map pm g) t of
        None \<Rightarrow> Inl (''Ticket not found: '' @ t)
      | Some n \<Rightarrow> Inr (List.map_filter (blocking pm db g) (Lattice_Store.get_inbound_edges db n)))"

subsection \<open>Graphs\<close>

record pm_summary =
  ps_graph :: graph_id
  ps_status :: string
  ps_metadata :: json
  ps_tickets :: nat
  ps_created_at :: int
  ps_source :: "string option"

text \<open>The first 197 bytes and an ellipsis; the slice panics (\<open>None\<close>) inside a character.\<close>

definition short_source :: "string \<Rightarrow> string option" where
  "short_source s =
     (let t = trim s
      in if length t \<le> 200 then Some t
         else if continuation (t ! 197) then None
         else Some (take 197 t @ [CHR 0xE2, CHR 0x80, CHR 0xA6]))"

definition shown_graph :: "string option \<Rightarrow> bool option \<Rightarrow> string option \<Rightarrow> lattice_graph \<Rightarrow> bool" where
  "shown_graph project root_only status lg \<longleftrightarrow>
     \<not> (root_only \<noteq> Some False \<and> lg_parent_graph_id lg \<noteq> None) \<and>
     (case status of None \<Rightarrow> True | Some s \<Rightarrow> graph_status_str (lg_status lg) = s) \<and>
     (case project of None \<Rightarrow> True
      | Some p \<Rightarrow> (case Option.bind (json_get ''project'' (lg_metadata lg)) json_as_str of Some q \<Rightarrow> q | None \<Rightarrow> []) = p)"

definition summary_of :: "pm_db \<Rightarrow> graph_id \<times> int \<Rightarrow> lattice_graph \<Rightarrow> pm_summary option" where
  "summary_of pm = (\<lambda>(g, created_at) lg.
     let make = (\<lambda>source. \<lparr>ps_graph = g, ps_status = graph_status_str (lg_status lg), ps_metadata = lg_metadata lg,
           ps_tickets = length (get_ticket_map pm g), ps_created_at = created_at, ps_source = source\<rparr>)
     in case get_ticket_source pm g of
          None \<Rightarrow> Some (make None)
        | Some s \<Rightarrow> map_option (\<lambda>s. make (Some s)) (short_source s))"

text \<open>The limit comes before the filters. \<open>None\<close> is a panic.\<close>

fun summaries :: "pm_db \<Rightarrow> lattice_db \<Rightarrow> string option \<Rightarrow> bool option \<Rightarrow> string option \<Rightarrow> (graph_id \<times> int) list \<Rightarrow> pm_summary list option" where
  "summaries pm db project root_only status [] = Some []"
| "summaries pm db project root_only status (e # es) =
     (case get_graph db (fst e) of
        Inl _ \<Rightarrow> summaries pm db project root_only status es
      | Inr lg \<Rightarrow>
          if shown_graph project root_only status lg
          then Option.bind (summary_of pm e lg) (\<lambda>s. map_option ((#) s) (summaries pm db project root_only status es))
          else summaries pm db project root_only status es)"

definition pm_list_graphs ::
  "pm_db \<Rightarrow> lattice_db \<Rightarrow> string option \<Rightarrow> 64 word option \<Rightarrow> bool option \<Rightarrow> string option \<Rightarrow> pm_summary list option" where
  "pm_list_graphs pm db project limit root_only status =
     summaries pm db project root_only status
       (list_ticket_maps (case limit of Some n \<Rightarrow> n | None \<Rightarrow> 20) pm)"

definition pm_node_log :: "json_codec \<Rightarrow> pm_db \<Rightarrow> graph_id \<Rightarrow> node_id \<Rightarrow> json list" where
  "pm_node_log jc pm g n =
     map (\<lambda>e. JObj
       [(''created_at'', JNum (Int_Number (ne_created_at e))),
        (''data'', (case jc_parse jc (ne_data e) of Some v \<Rightarrow> v | None \<Rightarrow> JObj [(''raw'', JStr (ne_data e))])),
        (''event_type'', JStr (ne_type e)), (''seq'', JNum (Int_Number (ne_seq e)))])
       (get_node_log pm g n)"

definition pm_ticket_source :: "pm_db \<Rightarrow> graph_id \<Rightarrow> json" where
  "pm_ticket_source pm g =
     (case get_ticket_source pm g of
        Some s \<Rightarrow> JObj [(''source'', JStr s), (''type'', JStr ''ok'')]
      | None \<Rightarrow> JObj [(''graph_id'', JStr g), (''type'', JStr ''not_found'')])"

end
