(* ===== verification/Orcha_Pm_Props.thy ===== *)
theory Orcha_Pm_Props
  imports Orcha_Pm Orcha_Runner_Props Lattice_Props
begin

text \<open>
  Properties of the project view: the tables keep their keys, a saved ticket map and a node log are
  read back, and what the view says of a run agrees with the run.
\<close>

subsection \<open>The tables\<close>

inductive pm_reachable :: "pm_db \<Rightarrow> bool" where
  pm_empty: "pm_reachable \<lparr>pm_maps = [], pm_sources = [], pm_logs = [], pm_now = t\<rparr>"
| pm_clock: "pm_reachable pm \<Longrightarrow> pm_reachable (pm\<lparr>pm_now := t\<rparr>)"
| pm_map: "pm_reachable pm \<Longrightarrow> pm_reachable (save_ticket_map g entries pm)"
| pm_source: "pm_reachable pm \<Longrightarrow> pm_reachable (save_ticket_source g source pm)"
| pm_log: "pm_reachable pm \<Longrightarrow> pm_reachable (append_node_log g n ticket s ty d pm)"

definition pm_keys :: "pm_db \<Rightarrow> bool" where
  "pm_keys pm \<longleftrightarrow> distinct (map (\<lambda>r. (tm_graph r, tm_ticket r)) (pm_maps pm)) \<and> distinct (map ts_graph (pm_sources pm))"

lemma keys_put_ticket: "pm_keys pm \<Longrightarrow> pm_keys (put_ticket g e pm)"
  by (cases e) (auto simp: pm_keys_def put_ticket_def distinct_map inj_on_def)

lemma keys_save_map: "pm_keys pm \<Longrightarrow> pm_keys (save_ticket_map g entries pm)"
  unfolding save_ticket_map_def by (induction entries arbitrary: pm) (auto simp: keys_put_ticket)

lemma pm_reachable_keys: "pm_reachable pm \<Longrightarrow> pm_keys pm"
proof (induction rule: pm_reachable.induct)
  case (pm_map pm g entries)
  then show ?case by (intro keys_save_map)
qed (auto simp: pm_keys_def save_ticket_source_def append_node_log_def distinct_map inj_on_def)

lemma ticket_map_keys: "pm_keys pm \<Longrightarrow> distinct (map fst (get_ticket_map pm g))"
  by (auto simp: pm_keys_def get_ticket_map_def comp_def distinct_map inj_on_def)

subsection \<open>Saved maps\<close>

lemma map_put_ticket:
  "map_of (get_ticket_map (put_ticket g (t, n) pm) g') =
     (if g' = g then (map_of (get_ticket_map pm g))(t \<mapsto> n) else map_of (get_ticket_map pm g'))"
proof -
  let ?entry = "\<lambda>r. (tm_ticket r, tm_node r)" and ?other = "\<lambda>r. \<not> (tm_graph r = g \<and> tm_ticket r = t)"
  let ?rest = "pm\<lparr>pm_maps := filter ?other (pm_maps pm)\<rparr>"
  have f: "map_of (map ?entry (filter (\<lambda>r. tm_graph r = g') (filter ?other rs))) k =
     (if g' = g \<and> k = t then None else map_of (map ?entry (filter (\<lambda>r. tm_graph r = g') rs)) k)" for rs k
    by (induction rs) auto
  have rest: "map_of (get_ticket_map ?rest g') k = (if g' = g \<and> k = t then None else map_of (get_ticket_map pm g') k)" for k
    using f [of "pm_maps pm" k] by (simp add: get_ticket_map_def del: filter_filter)
  have "get_ticket_map (put_ticket g (t, n) pm) g' = get_ticket_map ?rest g' @ (if g' = g then [(t, n)] else [])"
    by (simp add: get_ticket_map_def put_ticket_def del: filter_filter)
  then show ?thesis using rest by (auto simp: map_add_def fun_eq_iff split: option.split)
qed

lemma map_save_tickets:
  "map_of (get_ticket_map (save_ticket_map g entries pm) g') =
     (if g' = g then map_of (get_ticket_map pm g) ++ map_of (rev entries) else map_of (get_ticket_map pm g'))"
  unfolding save_ticket_map_def
  by (induction entries arbitrary: pm) (auto simp: map_put_ticket map_add_def fun_eq_iff split: option.split)

subsection \<open>What is next, and what it waits for\<close>

lemma get_node_status: "get_node db n = Inr node \<Longrightarrow> status_of db n = Some (ln_status node) \<and> ln_id node = n"
  using row_by_Some_in [of node_row.nr_id n "db_nodes db"] by (auto simp: get_node_def status_of_def split: option.splits)

lemma ticket_nodes_read:
  "ticket_nodes db es = Inr ns \<Longrightarrow> (t, node) \<in> set ns \<Longrightarrow> (t, ln_id node) \<in> set es \<and> status_of db (ln_id node) = Some (ln_status node)"
proof (induction db es arbitrary: ns rule: ticket_nodes.induct)
  case (2 db t' n es)
  then obtain m ns' where m: "get_node db n = Inr m" "ticket_nodes db es = Inr ns'" "ns = (t', m) # ns'"
    by (cases "ticket_nodes db es") (auto split: sum.splits)
  show ?case
  proof (cases "(t, node) = (t', m)")
    case False
    then have "(t, node) \<in> set ns'" using 2(3) m by auto
    then show ?thesis using 2(1) [OF m(1,2)] by simp
  qed (use get_node_status [OF m(1)] in simp)
qed simp

lemma ticket_of_fields [simp]:
  "pt_ticket (ticket_of t node child) = t" "pt_node (ticket_of t node child) = ln_id node"
  "pt_status (ticket_of t node child) = pm_status_str (ln_status node)"
  by (simp_all add: ticket_of_def split: prod.split)

lemma what_next_read:
  assumes "what_next pm db g = Inr ts" and "t \<in> set ts"
  shows "(pt_ticket t, pt_node t) \<in> set (get_ticket_map pm g) \<and> status_of db (pt_node t) \<in> {Some N_Ready, Some N_Running}"
  using assms ticket_nodes_read [of db "get_ticket_map pm g"]
  by (cases "ticket_nodes db (get_ticket_map pm g)") (auto simp: what_next_def)

lemma blocking_failed:
  assumes "blocking pm db g p = Some b" and "status_of db p \<in> {Some N_Complete, Some N_Failed}"
  shows "pt_status b = ''failed''"
  using assms get_node_status [of db p] by (auto simp: blocking_def split: sum.splits if_splits)

text \<open>
  C36. The view and the run agree: a ticket that the view offers as next, in whatever state the run is,
  can be asked what blocks it, and the answer names no ticket that still has work to do: what blocks a
  ready or running ticket is at most a failed predecessor whose failure an edge has accepted.
\<close>

theorem next_not_blocked:
  assumes "run_reachable fk db" and "pm_reachable pm" and "what_next pm db g = Inr ts" and "t \<in> set ts"
  shows "\<exists>bs. why_blocked pm db g (pt_ticket t) = Inr bs \<and> list_all (\<lambda>b. pt_status b = ''failed'') bs"
proof -
  have t: "(pt_ticket t, pt_node t) \<in> set (get_ticket_map pm g)" and st: "status_of db (pt_node t) \<noteq> Some N_Pending"
    using what_next_read [OF assms(3,4)] by auto
  have "map_of (get_ticket_map pm g) (pt_ticket t) = Some (pt_node t)"
    using t ticket_map_keys [OF pm_reachable_keys [OF assms(2)]] by simp
  moreover have "pt_status b = ''failed''" if p: "p \<in> set (Lattice_Store.get_inbound_edges db (pt_node t))" "blocking pm db g p = Some b" for p b
  proof -
    obtain e where e: "e \<in> set (db_edges db)" "er_to e = pt_node t" "er_from e = p"
      using p(1) by (auto simp: Lattice_Store.get_inbound_edges_def)
    then have "finished db p" using run_edge_order [OF assms(1) e(1)] st by simp
    then have "status_of db p \<in> {Some N_Complete, Some N_Failed}"
      by (auto simp: finished_def terminal_status_def split: option.splits node_status.splits)
    then show ?thesis using blocking_failed p(2) by blast
  qed
  ultimately show ?thesis by (auto simp: why_blocked_def list_all_iff map_filter_def)
qed

definition demo_pm :: pm_db where
  "demo_pm = save_ticket_map pair_graph [(''A'', ''a''), (''B'', ''b'')] \<lparr>pm_maps = [], pm_sources = [], pm_logs = [], pm_now = 0\<rparr>"

lemma demo_pm_reachable: "pm_reachable demo_pm"
  unfolding demo_pm_def by (intro pm_reachable.intros)

theorem next_not_blocked_witness:
  "(case what_next demo_pm pair_done pair_graph of Inr [t] \<Rightarrow> pt_ticket t = ''B'' | _ \<Rightarrow> False) \<and>
   (\<exists>bs. why_blocked demo_pm pair_done pair_graph ''B'' = Inr bs \<and> list_all (\<lambda>b. pt_status b = ''failed'') bs)"
proof -
  have w: "case what_next demo_pm pair_done pair_graph of Inr [t] \<Rightarrow> pt_ticket t = ''B'' | _ \<Rightarrow> False" by code_simp
  then obtain t where t: "what_next demo_pm pair_done pair_graph = Inr [t]" "pt_ticket t = ''B''"
    by (auto split: sum.splits list.splits)
  show ?thesis using w next_not_blocked [OF pair_done_reachable demo_pm_reachable t(1), of t] t(2) by simp
qed

subsection \<open>The execution log\<close>

definition shown_entry :: "int \<Rightarrow> nat \<times> string \<times> json \<Rightarrow> json" where
  "shown_entry t = (\<lambda>(seq, kind, payload). JObj
     [(''created_at'', JNum (Int_Number t)), (''data'', payload), (''event_type'', JStr kind),
      (''seq'', JNum (Int_Number (int seq)))])"

lemma get_node_log_append:
  "filter (\<lambda>r. nl_graph r = g \<and> nl_node r = n) (pm_logs (log_entries jc g' n' ticket logs pm)) =
     filter (\<lambda>r. nl_graph r = g \<and> nl_node r = n) (pm_logs pm) @
     (if g' = g \<and> n' = n then map (\<lambda>(s, k, v). \<lparr>nl_graph = g, nl_node = n, nl_ticket = ticket, nl_seq = int s, nl_type = k,
        nl_data = jc_print jc v, nl_created_at = pm_now pm\<rparr>) logs else [])"
  unfolding log_entries_def
proof (induction logs arbitrary: pm)
  case (Cons e logs)
  obtain s k v where e: "e = (s, k, v)" by (cases e)
  show ?case by (simp add: e Cons.IH) (simp add: log_node_event_def append_node_log_def)
qed simp

lemma get_node_log_Nil: "get_node_log pm g n = [] \<longleftrightarrow> filter (\<lambda>r. nl_graph r = g \<and> nl_node r = n) (pm_logs pm) = []"
  by (metis (lifting) get_node_log_def length_0_conv length_map length_sort)

text \<open>
  C37. The execution log of a node is read back as it was written: after the first run of a task, the
  project view shows its entries (prompt, tool uses, outcome, whatever happened) in the order in which
  they were logged, with the payloads they had; the logs of other nodes do not change.
\<close>

theorem execution_log_roundtrip:
  assumes "dispatch_task task inputs model wd is_dir cancelled created chat = (res, logs)"
    and "get_node_log pm g n = []"
    and "\<And>s k v. (s, k, v) \<in> set logs \<Longrightarrow> jc_parse jc (jc_print jc v) = Some v"
  shows "pm_node_log jc (log_entries jc g n ticket logs pm) g n = map (shown_entry (pm_now pm)) logs \<and>
    ((g', n') \<noteq> (g, n) \<longrightarrow> pm_node_log jc (log_entries jc g n ticket logs pm) g' n' = pm_node_log jc pm g' n')"
proof -
  let ?row = "\<lambda>(s, k, v). \<lparr>nl_graph = g, nl_node = n, nl_ticket = ticket, nl_seq = int s, nl_type = k,
        nl_data = jc_print jc v, nl_created_at = pm_now pm\<rparr>"
  have "map nl_seq (map ?row logs) = map int (map fst logs)" by (induction logs) auto
  then have "sorted (map nl_seq (map ?row logs))"
    using dispatch_task_spec [OF assms(1)] by (simp add: sorted_wrt_map flip: map_map)
  then have sort: "sort_key nl_seq (map ?row logs) = map ?row logs" by (rule sort_key_id_if_sorted)
  have "get_node_log (log_entries jc g n ticket logs pm) g n =
      map (\<lambda>(s, k, v). \<lparr>ne_seq = int s, ne_type = k, ne_data = jc_print jc v, ne_created_at = pm_now pm\<rparr>) logs"
    using assms(2) sort unfolding get_node_log_Nil get_node_log_def [of "log_entries _ _ _ _ _ _"] get_node_log_append
    by (simp del: map_map) (simp add: case_prod_unfold)
  then have "pm_node_log jc (log_entries jc g n ticket logs pm) g n = map (shown_entry (pm_now pm)) logs"
    using assms(3) by (auto simp: pm_node_log_def shown_entry_def)
  moreover have "get_node_log (log_entries jc g n ticket logs pm) g' n' = get_node_log pm g' n'" if "(g', n') \<noteq> (g, n)"
    using that by (auto simp: get_node_log_def get_node_log_append)
  ultimately show ?thesis by (simp add: pm_node_log_def)
qed

definition name_codec :: json_codec where
  "name_codec = \<lparr>jc_print = (\<lambda>v. case v of JObj ((k, JStr t) # _) \<Rightarrow> t | _ \<Rightarrow> []),
     jc_parse = (\<lambda>t. if t = ''error'' then Some (JObj [(''status'', JStr t), (''error'', JStr no_output)])
       else Some (JObj [(''task'', JStr t), (''model'', JStr ''m''), (''working_directory'', JStr ''/w''),
         (''prior_work_count'', json_nat 0)])), jc_f64 = (\<lambda>_. 0)\<rparr>"

lemma demo_log: "dispatch_task ''t'' [] ''m'' ''/w'' True False None [Chat_Next None] =
   (Some (Inl no_output),
    [(0, ''prompt'', JObj [(''task'', JStr ''t''), (''model'', JStr ''m''), (''working_directory'', JStr ''/w''),
       (''prior_work_count'', json_nat 0)]),
     (1, ''outcome'', JObj [(''status'', JStr ''error''), (''error'', JStr no_output)])])"
  by (simp add: dispatch_task_def Let_def log_event_def finish_task_def task_prompt_def prior_work_def)

theorem execution_log_roundtrip_witness:
  "\<exists>logs. snd (dispatch_task ''t'' [] ''m'' ''/w'' True False None [Chat_Next None]) = logs \<and> length logs = 2 \<and>
     pm_node_log name_codec (log_entries name_codec ''g'' ''n'' None logs demo_pm) ''g'' ''n'' = map (shown_entry 0) logs"
proof -
  let ?logs = "snd (dispatch_task ''t'' [] ''m'' ''/w'' True False None [Chat_Next None])"
  have "get_node_log demo_pm ''g'' ''n'' = []" "pm_now demo_pm = 0" by code_simp+
  moreover have "jc_parse name_codec (jc_print name_codec v) = Some v" if "(s, k, v) \<in> set ?logs" for s k v
    using that by (auto simp: demo_log name_codec_def)
  ultimately have "pm_node_log name_codec (log_entries name_codec ''g'' ''n'' None ?logs demo_pm) ''g'' ''n'' =
      map (shown_entry 0) ?logs"
    using execution_log_roundtrip [OF prod.collapse [symmetric], of demo_pm "''g''" "''n''"] by metis
  moreover have "length ?logs = 2" by (simp add: demo_log)
  ultimately show ?thesis by blast
qed

text \<open>
  Only the first run: every run of a retried task numbers its entries from \<open>0\<close> again, and the log of the
  node, read in the order of the numbers, mixes the runs.
\<close>

lemma retried_log_mixed:
  "map (\<lambda>e. (ne_seq e, ne_type e)) (get_node_log (let logs = snd (dispatch_task ''t'' [] ''m'' ''/w'' True False None [Chat_Next None])
     in log_entries name_codec ''g'' ''n'' None logs (log_entries name_codec ''g'' ''n'' None logs demo_pm)) ''g'' ''n'') =
   [(0, ''prompt''), (0, ''prompt''), (1, ''outcome''), (1, ''outcome'')]"
  unfolding demo_log by code_simp

end
