(* ===== verification/Orcha_Launch.thy ===== *)
theory Orcha_Launch
  imports Orcha_Pm Orcha_Runner Ticket_Compiler Lattice_Stream
begin

text \<open>
  How graph runs are started, cancelled, watched and recovered: the graph methods of
  \<^verbatim>\<open>src/src/activations/orcha/activation.rs\<close>. The state is that of the Lattice storage, of the project view,
  and the registry of cancellation tokens. A call of \<open>run_graph_execution\<close> is the value \<open>launch\<close>; its events
  are those of the dispatcher (\<open>runner_loop\<close>), and \<open>end_launch\<close> is what follows its last event. Whether a
  directory exists and what a file holds are arguments.
\<close>

subsection \<open>State\<close>

record launch =
  la_graph :: graph_id
  la_model :: claude_model
  la_dir :: string
  la_tickets :: "node_id \<rightharpoonup> string"
  la_token :: nat

text \<open>
  Every \<open>watch::channel\<close> is a number; \<open>os_cancel\<close> is the \<open>HashMap\<close> of the senders, \<open>os_cancelled\<close> the channels
  that carry \<open>true\<close>.
\<close>

record orcha_state =
  os_lattice :: lattice_db
  os_pm :: pm_db
  os_cancel :: "graph_id \<rightharpoonup> nat"
  os_next :: nat
  os_cancelled :: "nat list"

text \<open>What a method sends before (or instead of) the events of the run.\<close>

datatype graph_event =
    GE_Started graph_id
  | GE_Failed string string
  | GE_Progress string
  | GE_Cancelled graph_id

text \<open>Whether the caller is sent the events of the run, or they are only logged.\<close>

datatype attachment = Attached | Detached

type_synonym run_answer = "graph_event list \<times> (attachment \<times> launch) option"

definition register_cancel :: "graph_id \<Rightarrow> orcha_state \<Rightarrow> nat \<times> orcha_state" where
  "register_cancel g st = (os_next st, st\<lparr>os_cancel := (os_cancel st)(g \<mapsto> os_next st), os_next := os_next st + 1\<rparr>)"

definition unregister_cancel :: "graph_id \<Rightarrow> orcha_state \<Rightarrow> orcha_state" where
  "unregister_cancel g st = st\<lparr>os_cancel := (os_cancel st)(g := None)\<rparr>"

definition end_launch :: "launch \<Rightarrow> orcha_state \<Rightarrow> orcha_state" where
  "end_launch l st = unregister_cancel (la_graph l) st"

subsection \<open>Building a graph\<close>

fun build_error_text :: "build_error \<Rightarrow> string" where
  "build_error_text (Build_Storage e) = ''Failed to create graph: '' @ lattice_error_text e"
| "build_error_text (Build_Node i e) =
     ''Failed to add node '' @ [CHR 0x27] @ i @ [CHR 0x27] @ '': '' @ lattice_error_text e"
| "build_error_text (Unknown_From i) = ''Unknown node id in edge.from: '' @ [CHR 0x27] @ i @ [CHR 0x27]"
| "build_error_text (Unknown_To i) = ''Unknown node id in edge.to: '' @ [CHR 0x27] @ i @ [CHR 0x27]"
| "build_error_text (Build_Edge i j e) =
     ''Failed to add edge '' @ i @ '' '' @ [CHR 0xE2, CHR 0x86, CHR 0x92] @ '' '' @ j @ '': '' @ lattice_error_text e"

text \<open>The identifiers that the insertions draw.\<close>

record build_ids =
  bi_graph :: string
  bi_node :: "nat \<Rightarrow> node_id"
  bi_edge :: "nat \<Rightarrow> string"

definition build_graph_from_definition ::
  "build_ids \<Rightarrow> json \<Rightarrow> orcha_node_def list \<Rightarrow> orcha_edge_def list \<Rightarrow> lattice_db \<Rightarrow>
   (build_error, graph_id \<times> (string \<rightharpoonup> node_id), lattice_db) outcome" where
  "build_graph_from_definition ids metadata nodes edges db =
     (case runtime_create_graph metadata (bi_graph ids) db of
        (Inl e, db1) \<Rightarrow> (Inl (Build_Storage e), db1)
      | (Inr g, db1) \<Rightarrow>
          bind_res (build_nodes g nodes (bi_node ids) Map.empty db1) (\<lambda>id_map db2.
          bind_res (build_edges g edges (bi_edge ids) id_map db2) (\<lambda>_ db3. (Inr (g, id_map), db3))))"

text \<open>The entries of the \<open>HashMap\<close> from tickets to nodes, and of its inverse.\<close>

definition map_entries :: "orcha_node_def list \<Rightarrow> (string \<rightharpoonup> node_id) \<Rightarrow> (string \<times> node_id) list" where
  "map_entries nodes id_map =
     List.map_filter (\<lambda>t. map_option (\<lambda>n. (t, n)) (id_map t)) (remdups (map nd_id nodes))"

definition node_to_ticket :: "(string \<times> node_id) list \<Rightarrow> node_id \<rightharpoonup> string" where
  "node_to_ticket entries = map_of (rev (map (\<lambda>(t, n). (n, t)) entries))"

subsection \<open>Run configurations\<close>

definition model_of_name :: "string \<Rightarrow> claude_model" where
  "model_of_name s = (if s = ''opus'' then Opus else if s = ''haiku'' then Haiku else Sonnet)"

definition model_name :: "string option \<Rightarrow> string" where
  "model_name model = (case model of None \<Rightarrow> ''sonnet'' | Some m \<Rightarrow> m)"

definition work_dir :: "string option \<Rightarrow> string" where
  "work_dir wd = (case wd of None \<Rightarrow> ''/workspace'' | Some d \<Rightarrow> d)"

definition config_key :: string where
  "config_key = ''_plexus_run_config''"

definition run_config :: "string \<Rightarrow> string \<Rightarrow> json" where
  "run_config model wd = JObj [(''model'', JStr model), (''working_directory'', JStr wd)]"

definition enriched_metadata :: "json \<Rightarrow> string \<Rightarrow> string \<Rightarrow> json" where
  "enriched_metadata metadata model wd =
     (let entries = (case metadata of JObj kvs \<Rightarrow> kvs | _ \<Rightarrow> [])
      in JObj (filter (\<lambda>e. fst e \<noteq> config_key) entries @ [(config_key, run_config model wd)]))"

subsection \<open>Running tickets\<close>

definition compile_error :: "string \<Rightarrow> graph_event" where
  "compile_error e = GE_Failed ''tickets'' (''Ticket compile error: '' @ e)"

text \<open>The graph, its ticket map and its source are stored.\<close>

definition build_and_save ::
  "build_ids \<Rightarrow> string \<Rightarrow> compiled_graph \<Rightarrow> json \<Rightarrow> orcha_state \<Rightarrow>
   (build_error + graph_id \<times> (string \<times> node_id) list) \<times> orcha_state" where
  "build_and_save ids tickets c metadata st =
     (case build_graph_from_definition ids metadata (cg_nodes c) (cg_edges c) (os_lattice st) of
        (Inl e, db) \<Rightarrow> (Inl e, st\<lparr>os_lattice := db\<rparr>)
      | (Inr (g, id_map), db) \<Rightarrow>
          let entries = map_entries (cg_nodes c) id_map
          in (Inr (g, entries),
              st\<lparr>os_lattice := db, os_pm := save_ticket_source g tickets (save_ticket_map g entries (os_pm st))\<rparr>))"

definition start_launch ::
  "graph_id \<Rightarrow> string \<Rightarrow> string \<Rightarrow> (node_id \<rightharpoonup> string) \<Rightarrow> orcha_state \<Rightarrow> launch \<times> orcha_state" where
  "start_launch g model wd tickets st =
     (case register_cancel g st of (token, st1) \<Rightarrow>
        (\<lparr>la_graph = g, la_model = model_of_name model, la_dir = wd, la_tickets = tickets, la_token = token\<rparr>, st1))"

definition missing_dir :: "string \<Rightarrow> graph_event" where
  "missing_dir wd = GE_Failed ''tickets'' (''Working directory does not exist: '' @ [CHR 0x27] @ wd @ [CHR 0x27] @
     ''. Create it before running tickets or pass an existing path.'')"

definition run_tickets ::
  "(string \<Rightarrow> bool) \<Rightarrow> build_ids \<Rightarrow> string \<Rightarrow> json \<Rightarrow> string option \<Rightarrow> string option \<Rightarrow> orcha_state \<Rightarrow>
   run_answer \<times> orcha_state" where
  "run_tickets is_dir ids tickets metadata model wd st =
     (case compile_tickets tickets of
        Inl e \<Rightarrow> (([compile_error e], None), st)
      | Inr c \<Rightarrow>
          (case build_and_save ids tickets c (enriched_metadata metadata (model_name model) (work_dir wd)) st of
             (Inl e, st1) \<Rightarrow> (([GE_Failed ''tickets'' (build_error_text e)], None), st1)
           | (Inr (g, entries), st1) \<Rightarrow>
               if \<not> is_dir (work_dir wd) then (([GE_Started g, missing_dir (work_dir wd)], None), st1)
               else case start_launch g (model_name model) (work_dir wd) (node_to_ticket entries) st1 of
                      (l, st2) \<Rightarrow> (([GE_Started g], Some (Detached, l)), st2)))"

text \<open>Here the directory is tested before anything is built.\<close>

definition run_tickets_async ::
  "(string \<Rightarrow> bool) \<Rightarrow> build_ids \<Rightarrow> string \<Rightarrow> json \<Rightarrow> string option \<Rightarrow> string option \<Rightarrow> orcha_state \<Rightarrow>
   run_answer \<times> orcha_state" where
  "run_tickets_async is_dir ids tickets metadata model wd st =
     (case compile_tickets tickets of
        Inl e \<Rightarrow> (([compile_error e], None), st)
      | Inr c \<Rightarrow>
          if \<not> is_dir (work_dir wd) then (([missing_dir (work_dir wd)], None), st)
          else case build_and_save ids tickets c (enriched_metadata metadata (model_name model) (work_dir wd)) st of
             (Inl e, st1) \<Rightarrow> (([GE_Failed ''tickets'' (build_error_text e)], None), st1)
           | (Inr (g, entries), st1) \<Rightarrow>
               (case start_launch g (model_name model) (work_dir wd) (node_to_ticket entries) st1 of
                  (l, st2) \<Rightarrow> (([GE_Started g], Some (Detached, l)), st2)))"

text \<open>Reading the files, in turn; the first that cannot be read ends the method.\<close>

fun read_files :: "(string \<Rightarrow> string + string) \<Rightarrow> string list \<Rightarrow> string + string list" where
  "read_files read [] = Inr []"
| "read_files read (p # ps) =
     (case read p of
        Inl e \<Rightarrow> Inl (''Failed to read '' @ [CHR 0x27] @ p @ [CHR 0x27] @ '': '' @ e)
      | Inr content \<Rightarrow> map_sum id ((#) content) (read_files read ps))"

definition run_files ::
  "attachment \<Rightarrow> (string \<Rightarrow> string + string) \<Rightarrow> (string \<Rightarrow> bool) \<Rightarrow> build_ids \<Rightarrow> string list \<Rightarrow> json \<Rightarrow> string option \<Rightarrow>
   string option \<Rightarrow> orcha_state \<Rightarrow> run_answer \<times> orcha_state" where
  "run_files att read is_dir ids paths metadata model wd st =
     (case read_files read paths of
        Inl e \<Rightarrow> (([GE_Failed ''tickets'' e], None), st)
      | Inr parts \<Rightarrow>
          let tickets = join_with (newline @ newline) parts
          in case compile_tickets tickets of
               Inl e \<Rightarrow> (([compile_error e], None), st)
             | Inr c \<Rightarrow>
                 (case build_and_save ids tickets c (enriched_metadata metadata (model_name model) (work_dir wd)) st of
                    (Inl e, st1) \<Rightarrow> (([GE_Failed ''tickets'' (build_error_text e)], None), st1)
                  | (Inr (g, entries), st1) \<Rightarrow>
                      if \<not> is_dir (work_dir wd)
                      then (([GE_Started g, GE_Failed ''tickets''
                              (''Working directory does not exist: '' @ [CHR 0x27] @ work_dir wd @ [CHR 0x27])], None), st1)
                      else case start_launch g (model_name model) (work_dir wd) (node_to_ticket entries) st1 of
                             (l, st2) \<Rightarrow> (([GE_Started g], Some (att, l)), st2)))"

definition run_tickets_files ::
  "(string \<Rightarrow> string + string) \<Rightarrow> (string \<Rightarrow> bool) \<Rightarrow> build_ids \<Rightarrow> string list \<Rightarrow> json \<Rightarrow> string option \<Rightarrow>
   string option \<Rightarrow> orcha_state \<Rightarrow> run_answer \<times> orcha_state" where
  "run_tickets_files = run_files Attached"

definition run_tickets_async_files ::
  "(string \<Rightarrow> string + string) \<Rightarrow> (string \<Rightarrow> bool) \<Rightarrow> build_ids \<Rightarrow> string list \<Rightarrow> json \<Rightarrow> string option \<Rightarrow>
   string option \<Rightarrow> orcha_state \<Rightarrow> run_answer \<times> orcha_state" where
  "run_tickets_async_files = run_files Detached"

text \<open>Only builds; the source is not stored.\<close>

definition orcha_build_tickets :: "build_ids \<Rightarrow> string \<Rightarrow> json \<Rightarrow> orcha_state \<Rightarrow> (string + graph_id) \<times> orcha_state" where
  "orcha_build_tickets ids tickets metadata st =
     (case compile_tickets tickets of
        Inl e \<Rightarrow> (Inl (''Ticket compile error: '' @ e), st)
      | Inr c \<Rightarrow>
          (case build_graph_from_definition ids metadata (cg_nodes c) (cg_edges c) (os_lattice st) of
             (Inl e, db) \<Rightarrow> (Inl (build_error_text e), st\<lparr>os_lattice := db\<rparr>)
           | (Inr (g, id_map), db) \<Rightarrow>
               (Inr g, st\<lparr>os_lattice := db, os_pm := save_ticket_map g (map_entries (cg_nodes c) id_map) (os_pm st)\<rparr>)))"

subsection \<open>Other runs\<close>

definition run_graph :: "graph_id \<Rightarrow> string option \<Rightarrow> string option \<Rightarrow> orcha_state \<Rightarrow> run_answer \<times> orcha_state" where
  "run_graph g model wd st =
     (case start_launch g (model_name model) (work_dir wd) Map.empty st of
        (l, st1) \<Rightarrow> (([], Some (Attached, l)), st1))"

definition run_plan ::
  "build_ids \<Rightarrow> string \<Rightarrow> string option \<Rightarrow> string option \<Rightarrow> orcha_state \<Rightarrow> run_answer \<times> orcha_state" where
  "run_plan ids task model wd st =
     (case runtime_create_graph (JObj [(config_key, run_config (model_name model) (work_dir wd))]) (bi_graph ids) (os_lattice st) of
        (Inl e, db) \<Rightarrow> (([GE_Failed [] (lattice_error_text e)], None), st\<lparr>os_lattice := db\<rparr>)
      | (Inr g, db) \<Rightarrow>
          (case add_plan g task (bi_node ids 0) db of
             (Inl e, db1) \<Rightarrow> (([GE_Failed g (lattice_error_text e)], None), st\<lparr>os_lattice := db1\<rparr>)
           | (Inr n, db1) \<Rightarrow>
               (case start_launch g (model_name model) (work_dir wd) [n \<mapsto> ''plan'']
                  (st\<lparr>os_lattice := db1, os_pm := save_ticket_source g task (save_ticket_map g [(''plan'', n)] (os_pm st))\<rparr>) of
                  (l, st1) \<Rightarrow> (([], Some (Attached, l)), st1))))"

definition run_graph_definition ::
  "build_ids \<Rightarrow> json \<Rightarrow> string option \<Rightarrow> string option \<Rightarrow> orcha_node_def list \<Rightarrow> orcha_edge_def list \<Rightarrow> orcha_state \<Rightarrow>
   run_answer \<times> orcha_state" where
  "run_graph_definition ids metadata model wd nodes edges st =
     (case build_graph_from_definition ids metadata nodes edges (os_lattice st) of
        (Inl e, db) \<Rightarrow> (([GE_Failed ''graph_definition'' (build_error_text e)], None), st\<lparr>os_lattice := db\<rparr>)
      | (Inr (g, _), db) \<Rightarrow>
          (case start_launch g (model_name model) (work_dir wd) Map.empty (st\<lparr>os_lattice := db\<rparr>) of
             (l, st1) \<Rightarrow> (([GE_Progress (''Graph '' @ g @ '' ready, starting execution'')], Some (Attached, l)), st1)))"

subsection \<open>Cancelling\<close>

text \<open>
  The breadth-first loop over the child graphs keeps no list of visited graphs; \<open>None\<close>: it does not end.
\<close>

partial_function (option) descendants_loop :: "lattice_db \<Rightarrow> graph_id list \<Rightarrow> graph_id list \<Rightarrow> graph_id list option" where
  "descendants_loop db all to_visit =
     (case to_visit of
        [] \<Rightarrow> Some all
      | g # rest \<Rightarrow> descendants_loop db (all @ [g]) (rest @ map lg_id (get_child_graphs db g)))"

declare descendants_loop.simps [code]

fun cancel_all :: "graph_id list \<Rightarrow> orcha_state \<Rightarrow> orcha_state" where
  "cancel_all [] st = st"
| "cancel_all (g # gs) st =
     cancel_all gs
       (case os_cancel st g of
          None \<Rightarrow> st
        | Some token \<Rightarrow> st\<lparr>os_cancel := (os_cancel st)(g := None), os_cancelled := token # os_cancelled st\<rparr>)"

definition cancel_graph :: "graph_id \<Rightarrow> orcha_state \<Rightarrow> (graph_event \<times> orcha_state) option" where
  "cancel_graph g st =
     map_option (\<lambda>gs.
       (if os_cancel st g \<noteq> None then GE_Cancelled g
        else GE_Failed g ''Graph not found in cancel registry (not running or already finished)'',
        cancel_all gs st))
       (descendants_loop (os_lattice st) [] [g])"

subsection \<open>Watching\<close>

text \<open>
  \<open>subscribe_graph\<close> and \<open>watch_single_graph\<close> send the same: the number of nodes is read once, the completed
  ones are counted from where the subscription starts. The Lattice stream ends with its first terminal event.
\<close>

fun watch_event :: "(nat \<Rightarrow> nat \<Rightarrow> nat) \<Rightarrow> (node_id \<rightharpoonup> string) \<Rightarrow> nat \<Rightarrow> lattice_event \<Rightarrow> nat \<Rightarrow> orcha_event list \<times> nat" where
  "watch_event pct tickets tot (NodeReady n spec) complete =
     ([OE_NodeStarted n (tickets n) (calc_percentage pct complete tot)], complete)"
| "watch_event pct tickets tot (NodeStarted n) complete = ([], complete)"
| "watch_event pct tickets tot (NodeDone n out) complete =
     ([OE_NodeComplete n (tickets n) None (calc_percentage pct (complete + 1) tot)], complete + 1)"
| "watch_event pct tickets tot (NodeFailed n err) complete =
     ([OE_NodeFailed n (tickets n) err (calc_percentage pct (complete + 1) tot)], complete + 1)"
| "watch_event pct tickets tot (GraphDone h) complete = ([OE_Complete h], complete)"
| "watch_event pct tickets tot (GraphFailed h n err) complete =
     ([OE_Failed h (''Node '' @ n @ '' failed: '' @ err)], complete)"

fun watch_events :: "(nat \<Rightarrow> nat \<Rightarrow> nat) \<Rightarrow> (node_id \<rightharpoonup> string) \<Rightarrow> nat \<Rightarrow> lattice_event list \<Rightarrow> nat \<Rightarrow> orcha_event list" where
  "watch_events pct tickets tot [] complete = []"
| "watch_events pct tickets tot (ev # evs) complete =
     (case watch_event pct tickets tot ev complete of (sent, complete1) \<Rightarrow> sent @ watch_events pct tickets tot evs complete1)"

definition subscribe_graph :: "(nat \<Rightarrow> nat \<Rightarrow> nat) \<Rightarrow> orcha_state \<Rightarrow> graph_id \<Rightarrow> lattice_event list \<Rightarrow> orcha_event list" where
  "subscribe_graph pct st g evs =
     watch_events pct (node_to_ticket (get_ticket_map (os_pm st) g)) (count_nodes (os_lattice st) g) evs 0"

text \<open>One round of the discovery of child graphs: the graphs for which a new watcher is spawned, in turn.\<close>

fun new_children :: "graph_id list \<Rightarrow> lattice_graph list \<Rightarrow> graph_id list" where
  "new_children known [] = []"
| "new_children known (c # cs) =
     (if lg_id c \<in> set known then new_children known cs else lg_id c # new_children (lg_id c # known) cs)"

fun discover :: "lattice_db \<Rightarrow> graph_id list \<Rightarrow> graph_id list \<Rightarrow> graph_id list" where
  "discover db known [] = []"
| "discover db known (g # gs) =
     (let new = new_children known (get_child_graphs db g) in new @ discover db (new @ known) gs)"

definition discovery_round :: "lattice_db \<Rightarrow> graph_id list \<Rightarrow> graph_id list" where
  "discovery_round db known = known @ discover db known known"

text \<open>What is forwarded: up to the first terminal event of the root.\<close>

fun root_ends :: "graph_id \<Rightarrow> orcha_event \<Rightarrow> bool" where
  "root_ends root (OE_Complete g) = (g = root)"
| "root_ends root (OE_Failed g _) = (g = root)"
| "root_ends root _ = False"

definition watch_graph_tree :: "graph_id \<Rightarrow> orcha_event list \<Rightarrow> orcha_event list" where
  "watch_graph_tree root received = upto_end (root_ends root) received"

subsection \<open>Building by hand\<close>

definition method_answer :: "(lattice_error, 'a, lattice_db) outcome \<Rightarrow> (string + 'a) \<times> lattice_db" where
  "method_answer r = (case r of (x, db) \<Rightarrow> (map_sum lattice_error_text id x, db))"

definition orcha_create_graph :: "json \<Rightarrow> string \<Rightarrow> lattice_db \<Rightarrow> (string + graph_id) \<times> lattice_db" where
  "orcha_create_graph metadata uuid db = method_answer (runtime_create_graph metadata uuid db)"

definition add_task_node :: "graph_id \<Rightarrow> string \<Rightarrow> node_id \<Rightarrow> lattice_db \<Rightarrow> (string + node_id) \<times> lattice_db" where
  "add_task_node g task uuid db = method_answer (add_task g task None uuid db)"

definition add_synthesize_node :: "graph_id \<Rightarrow> string \<Rightarrow> node_id \<Rightarrow> lattice_db \<Rightarrow> (string + node_id) \<times> lattice_db" where
  "add_synthesize_node g task uuid db = method_answer (add_synthesize g task None uuid db)"

definition add_validate_node ::
  "graph_id \<Rightarrow> string \<Rightarrow> string option \<Rightarrow> node_id \<Rightarrow> lattice_db \<Rightarrow> (string + node_id) \<times> lattice_db" where
  "add_validate_node g command cwd uuid db = method_answer (add_validate g command cwd None uuid db)"

definition add_gather_node ::
  "graph_id \<Rightarrow> gather_strategy \<Rightarrow> node_id \<Rightarrow> lattice_db \<Rightarrow> (string + node_id) \<times> lattice_db" where
  "add_gather_node g strategy uuid db = method_answer (add_gather g strategy uuid db)"

definition add_subgraph_node :: "graph_id \<Rightarrow> graph_id \<Rightarrow> node_id \<Rightarrow> lattice_db \<Rightarrow> (string + node_id) \<times> lattice_db" where
  "add_subgraph_node g child uuid db = method_answer (add_subgraph g child uuid db)"

definition add_dependency ::
  "graph_id \<Rightarrow> node_id \<Rightarrow> node_id \<Rightarrow> string \<Rightarrow> lattice_db \<Rightarrow> (string + unit) \<times> lattice_db" where
  "add_dependency g dependent dependency uuid db = method_answer (depends_on g dependent dependency uuid db)"

subsection \<open>Recovery after a restart\<close>

text \<open>
  The loop over the nodes as they were read; it ends at the first node that was \<open>Ready\<close>. Errors are logged
  and skipped.
\<close>

fun fix_nodes :: "graph_id \<Rightarrow> lattice_node list \<Rightarrow> lattice_db \<Rightarrow> lattice_db" where
  "fix_nodes g [] db = db"
| "fix_nodes g (node # rest) db =
     (case ln_status node of
        N_Running \<Rightarrow> fix_nodes g rest (snd (reset_running_to_ready g (ln_id node) db))
      | N_Ready \<Rightarrow> reemit_ready_nodes g db
      | _ \<Rightarrow> fix_nodes g rest db)"

definition to_recover :: "orcha_state \<Rightarrow> graph_id list" where
  "to_recover st = filter (\<lambda>g. g \<in> set (list_all_graph_ids (os_pm st))) (get_running_graph_ids (os_lattice st))"

definition stored_config :: "lattice_db \<Rightarrow> graph_id \<Rightarrow> json option" where
  "stored_config db g =
     (case get_graph db g of Inl _ \<Rightarrow> None | Inr lg \<Rightarrow> json_get config_key (lg_metadata lg))"

definition config_field :: "string \<Rightarrow> json option \<Rightarrow> string option" where
  "config_field k config = Option.bind (Option.bind config (json_get k)) json_as_str"

definition recovered_model :: "json option \<Rightarrow> claude_model" where
  "recovered_model config = (case config_field ''model'' config of None \<Rightarrow> Sonnet | Some s \<Rightarrow> model_of_name s)"

definition recovered_dir :: "json option \<Rightarrow> string" where
  "recovered_dir config = work_dir (config_field ''working_directory'' config)"

definition recover_graph :: "graph_id \<Rightarrow> orcha_state \<Rightarrow> launch \<times> orcha_state" where
  "recover_graph g st =
     (let db = fix_nodes g (get_nodes (os_lattice st) g) (os_lattice st);
          config = stored_config db g
      in case register_cancel g (st\<lparr>os_lattice := db\<rparr>) of (token, st1) \<Rightarrow>
        (\<lparr>la_graph = g, la_model = recovered_model config, la_dir = recovered_dir config,
          la_tickets = node_to_ticket (get_ticket_map (os_pm st) g), la_token = token\<rparr>, st1))"

fun recover_graphs :: "graph_id list \<Rightarrow> orcha_state \<Rightarrow> launch list \<times> orcha_state" where
  "recover_graphs [] st = ([], st)"
| "recover_graphs (g # gs) st =
     (case recover_graph g st of (l, st1) \<Rightarrow>
        (case recover_graphs gs st1 of (ls, st2) \<Rightarrow> (l # ls, st2)))"

definition recover_running_graphs :: "orcha_state \<Rightarrow> launch list \<times> orcha_state" where
  "recover_running_graphs st = recover_graphs (to_recover st) st"

end
