(* ===== verification/Lattice_Graphs.thy ===== *)
theory Lattice_Graphs
  imports Lattice_Reach Parent_Interface
begin

text \<open>
  The graphs of a Lattice store and their parents: the rows are never removed, and their identifiers,
  metadata and parents never change. Under foreign keys the parents form a forest, which is another
  instance of \<^theory_text>\<open>parent_walk\<close>.
\<close>

subsection \<open>Graph rows only grow\<close>

definition graph_shape :: "graph_row \<Rightarrow> graph_id \<times> json \<times> int \<times> graph_id option" where
  "graph_shape r = (gr_id r, gr_metadata r, gr_created_at r, gr_parent r)"

abbreviation shapes :: "lattice_db \<Rightarrow> (graph_id \<times> json \<times> int \<times> graph_id option) list" where
  "shapes db \<equiv> map graph_shape (db_graphs db)"

text \<open>What all operations but the two that create a graph leave as it is.\<close>

abbreviation static :: "lattice_db \<Rightarrow> (graph_id \<times> json \<times> int \<times> graph_id option) list \<times> bool" where
  "static db \<equiv> (shapes db, db_foreign_keys db)"

lemma shape_status [simp]: "graph_shape (r\<lparr>gr_status := st\<rparr>) = graph_shape r"
  by (simp add: graph_shape_def)

lemma shape_new [simp]:
  "graph_shape \<lparr>gr_id = i, gr_metadata = m, gr_status = st, gr_created_at = c, gr_parent = par\<rparr> = (i, m, c, par)"
  "fst (graph_shape r) = gr_id r"
  by (simp_all add: graph_shape_def)

lemma shapes_status [simp]: "map graph_shape (update_where p (\<lambda>r. r\<lparr>gr_status := st\<rparr>) rows) = map graph_shape rows"
  by (induction rows) (auto simp: update_where_def)

lemma engine_writes_static: "engine_writes db db' \<Longrightarrow> static db' = static db"
proof (induction rule: rtranclp_induct)
  case (step d d')
  from step(2) have "static d' = static d"
  proof (cases rule: engine_write.cases)
    case (write_token e g tok)
    then show ?thesis by (auto dest!: deliver_token_cases)
  qed (auto simp: set_node_status_def update_graph_status_def persist_event_def notify_graph_def Let_def split: option.splits)
  with step show ?case by simp
qed simp

lemma static_via: "static a = static b \<Longrightarrow> engine_writes b c \<Longrightarrow> static c = static a"
  using engine_writes_static [of b c] by simp

lemma static_add_edge: "static (snd (add_edge g from to cond u db)) = static db"
proof -
  let ?db1 = "db\<lparr>db_edges := db_edges db @
    [\<lparr>er_id = u, er_graph = g, er_from = from, er_to = to, er_condition = cond\<rparr>]\<rparr>"
  have "engine_writes ?db1 (snd (bind_res (deliver_all u g cond toks ?db1)
      (\<lambda>_ db2. (Inr (), notify_graph g (snd (check_and_ready g to db2))))))" for toks
    using writes_deliver_all [of ?db1 u g cond toks] writes_check_and_ready
    by (cases "deliver_all u g cond toks ?db1"; cases "fst (deliver_all u g cond toks ?db1)")
      (auto intro!: writes_notify intro: writes_trans)
  then have "static (snd (bind_res (deliver_all u g cond toks ?db1)
      (\<lambda>_ db2. (Inr (), notify_graph g (snd (check_and_ready g to db2)))))) = static db" for toks
    by (intro static_via [of db ?db1]) simp_all
  then show ?thesis by (auto simp: add_edge_def Let_def split: sum.splits)
qed

lemma static_add_node: "static (snd (add_node g hint spec u db)) = static db"
proof -
  have "static (snd (check_and_ready g n d)) = static db" if "static d = static db" for n d
    using static_via [of db d] that writes_check_and_ready by metis
  then show ?thesis by (simp add: add_node_def Let_def)
qed

lemma static_start_graph: "static (start_graph g db) = static db"
proof -
  let ?db1 = "db\<lparr>db_graphs := update_where (\<lambda>r. gr_id r = g \<and> gr_status r = G_Pending)
      (\<lambda>r. r\<lparr>gr_status := G_Running\<rparr>) (db_graphs db)\<rparr>"
  have "engine_writes ?db1 d \<Longrightarrow> static d = static db" for d
    using static_via [of db ?db1 d] by simp
  then show ?thesis by (simp add: start_graph_def Let_def writes_intros writes_seed_roots)
qed

lemma lattice_step_static:
  assumes "lattice_step db db'"
  shows "static db' = static db \<or> (\<exists>m u. db' = snd (create_graph m u db)) \<or> (\<exists>p m u. db' = snd (create_child_graph p m u db))"
  using assms
proof (cases rule: lattice_step.cases)
  case (ls_advance g n out err r)
  then show ?thesis using engine_writes_static [OF writes_advance_graph] by blast
next
  case (ls_reset_running g n)
  then show ?thesis using engine_writes_static [OF writes_reset_running] by blast
next
  case (ls_reemit g)
  then show ?thesis using engine_writes_static [OF writes_reemit] by blast
next
  case (ls_add_node g hint spec u)
  then show ?thesis using static_add_node by blast
next
  case (ls_add_edge g src to cond u)
  then show ?thesis using static_add_edge by blast
next
  case (ls_start g)
  then show ?thesis using static_start_graph by blast
qed (auto simp: cancel_def reset_pending_writes get_or_create_notifier_def set_node_status_def update_graph_status_def
      persist_event_def notify_graph_def Let_def split: option.splits)

lemma create_shapes:
  "\<exists>new. shapes (snd (create_graph m u db)) = shapes db @ new" "\<exists>new. shapes (snd (create_child_graph p m u db)) = shapes db @ new"
  "db_foreign_keys (snd (create_graph m u db)) = db_foreign_keys db"
  "db_foreign_keys (snd (create_child_graph p m u db)) = db_foreign_keys db"
  by (auto simp: create_graph_def create_child_graph_def Let_def)

lemma lattice_step_shapes: "lattice_step db db' \<Longrightarrow> (\<exists>new. shapes db' = shapes db @ new) \<and> db_foreign_keys db' = db_foreign_keys db"
  using lattice_step_static [of db db'] create_shapes by (metis append.right_neutral prod.inject)

lemma lattice_steps_shapes: "lattice_step\<^sup>*\<^sup>* db db' \<Longrightarrow> \<exists>new. shapes db' = shapes db @ new"
proof (induction rule: rtranclp_induct)
  case (step d d')
  then show ?case using lattice_step_shapes [OF step(2)] by auto
qed simp

lemma reachable_keys: "lattice_reachable fk db \<Longrightarrow> db_foreign_keys db = fk"
  by (induction rule: lattice_reachable.induct) (use lattice_step_shapes in \<open>auto simp: empty_db_def\<close>)

text \<open>So the metadata of a graph stay what they were.\<close>

definition metadata_of :: "lattice_db \<Rightarrow> graph_id \<Rightarrow> json option" where
  "metadata_of db g = map_option gr_metadata (row_by gr_id g (db_graphs db))"

lemma metadata_shapes: "metadata_of db g = map_option (fst \<circ> snd) (row_by fst g (shapes db))"
proof -
  have "map_option gr_metadata (row_by gr_id g rows) = map_option (fst \<circ> snd) (row_by fst g (map graph_shape rows))" for rows
    by (induction rows) (auto simp: graph_shape_def)
  then show ?thesis by (simp add: metadata_of_def)
qed

lemma metadata_stays: "lattice_step\<^sup>*\<^sup>* db db' \<Longrightarrow> metadata_of db g = Some m \<Longrightarrow> metadata_of db' g = Some m"
  using lattice_steps_shapes [of db db'] by (auto simp: metadata_shapes row_by_append split: option.splits)

subsection \<open>The forest of graphs\<close>

text \<open>Every parent is listed before its children, unless a graph is its own parent.\<close>

fun known_parents :: "graph_id set \<Rightarrow> (graph_id \<times> json \<times> int \<times> graph_id option) list \<Rightarrow> bool" where
  "known_parents S [] = True"
| "known_parents S ((i, m, c, par) # ss) =
     ((case par of None \<Rightarrow> True | Some p \<Rightarrow> p = i \<or> p \<in> S) \<and> known_parents (insert i S) ss)"

lemma known_parents_append: "known_parents S (xs @ ys) \<longleftrightarrow> known_parents S xs \<and> known_parents (S \<union> fst ` set xs) ys"
  by (induction S xs rule: known_parents.induct) (auto simp: insert_commute)

lemma known_parents_rank:
  assumes "known_parents S ss" and "distinct (map fst ss)" and "(i, m, c, Some p) \<in> set ss" and "p \<noteq> i" and "p \<notin> S"
  shows "length (takeWhile (\<lambda>x. fst x \<noteq> p) ss) < length (takeWhile (\<lambda>x. fst x \<noteq> i) ss)"
  using assms
proof (induction S ss rule: known_parents.induct)
  case (2 S j m' c' par ss)
  show ?case
  proof (cases "i = j")
    case True
    then have "(i, m, c, Some p) \<notin> set ss" using "2.prems"(2) by (auto simp: rev_image_eqI)
    then show ?thesis using "2.prems" True by auto
  next
    case False
    then show ?thesis using 2 by (cases "p = j") auto
  qed
qed simp

lemma grows_known:
  assumes "lattice_reachable True db"
  shows "known_parents {} (shapes db)"
  using assms
proof (induction rule: lattice_reachable.induct)
  case (lr_step db db')
  have "known_parents {} (shapes (snd (create_graph m u db)))" for m u
    using lr_step.IH by (auto simp: create_graph_def Let_def known_parents_append)
  moreover have "known_parents {} (shapes (snd (create_child_graph p m u db)))" for p m u
  proof -
    have "db_foreign_keys db" using reachable_keys [OF lr_step.hyps(1)] by simp
    then show ?thesis
      using lr_step.IH by (auto simp: create_child_graph_def Let_def known_parents_append row_by_None_iff image_image)
  qed
  moreover note lattice_step_static [OF lr_step.hyps(2)]
  ultimately show ?case using lr_step.IH by auto
qed (simp add: empty_db_def)

definition child_of :: "lattice_db \<Rightarrow> (graph_id \<times> graph_id) set" where
  "child_of db = {(p, i). \<exists>m c. (i, m, c, Some p) \<in> set (shapes db)}"

definition graph_rank :: "lattice_db \<Rightarrow> graph_id \<Rightarrow> nat" where
  "graph_rank db g = length (takeWhile (\<lambda>x. fst x \<noteq> g) (shapes db))"

text \<open>No graph is its own parent (its identifier is drawn after the parent is given).\<close>

definition no_self_parent :: "lattice_db \<Rightarrow> bool" where
  "no_self_parent db \<longleftrightarrow> (\<forall>r \<in> set (db_graphs db). gr_parent r \<noteq> Some (gr_id r))"

lemma distinct_shapes: "wf_db db \<Longrightarrow> distinct (map fst (shapes db))"
  using wf_db_distinct_graphs [of db] by (simp add: comp_def graph_shape_def)

lemma graph_rank_less:
  assumes "lattice_reachable True db" and "no_self_parent db" and "(p, i) \<in> child_of db"
  shows "graph_rank db p < graph_rank db i"
proof -
  obtain m c where s: "(i, m, c, Some p) \<in> set (shapes db)" using assms(3) by (auto simp: child_of_def)
  then have "p \<noteq> i" using assms(2) by (auto simp: no_self_parent_def graph_shape_def)
  then show ?thesis unfolding graph_rank_def
    using known_parents_rank [OF grows_known distinct_shapes s] assms(1) lattice_reachable_wf by simp
qed

lemma one_parent: "wf_db db \<Longrightarrow> (p, i) \<in> child_of db \<Longrightarrow> (q, i) \<in> child_of db \<Longrightarrow> p = q"
  using eq_key_imp_eq_value [OF distinct_shapes, of db i] by (fastforce simp: child_of_def)

lemma descendant_rank:
  assumes "lattice_reachable True db" and "no_self_parent db" and "(p, i) \<in> (child_of db)\<^sup>*"
  shows "graph_rank db p \<le> graph_rank db i"
  using assms(3) by (induction rule: rtrancl_induct) (use graph_rank_less [OF assms(1,2)] in \<open>fastforce+\<close>)

interpretation graphs: parent_walk "\<lambda>db g. map_option gr_parent (row_by gr_id g (db_graphs db))"
    "\<lambda>db. lattice_reachable True db \<and> no_self_parent db" graph_rank
proof (unfold_locales, clarsimp)
  fix db k p r q
  assume ok: "lattice_reachable True db" "no_self_parent db" and r: "row_by gr_id k (db_graphs db) = Some r" "gr_parent r = Some p"
  then have "(p, k) \<in> child_of db"
    using row_by_Some_in [OF r(1)] by (force simp: child_of_def graph_shape_def)
  then show "graph_rank db p < graph_rank db k" by (rule graph_rank_less [OF ok])
qed

subsection \<open>Children\<close>

lemma lg_id_counts [simp]: "lg_id (graph_counts db r) = gr_id r"
  by (simp add: graph_counts_def row_to_graph_def)

lemma children_set: "set (map lg_id (get_child_graphs db g)) = {h. (g, h) \<in> child_of db}"
  by (force simp: get_child_graphs_def child_of_def graph_shape_def)

lemma children_distinct: "wf_db db \<Longrightarrow> distinct (map lg_id (get_child_graphs db g))"
  using wf_db_distinct_graphs [of db] by (simp add: get_child_graphs_def comp_def distinct_map inj_on_def)

end
