(* ===== verification/Lattice_Logged.thy ===== *)
theory Lattice_Logged
  imports Lattice_Run Lattice_Stream
begin

text \<open>
  What the event log says of the present state, when every report names the graph of its node (as Orcha's
  graph handles do): a node that is \<open>Ready\<close> or \<open>Running\<close> (and no Gather node) has been announced by a
  \<open>NodeReady\<close> event of its graph, and a graph that has not ended has no terminal event. So a dispatcher that
  replays the log of a running graph meets every node that it must take up.
\<close>

subsection \<open>The invariant\<close>

definition announced :: "lattice_db \<Rightarrow> node_id \<Rightarrow> bool" where
  "announced db n \<longleftrightarrow> (\<exists>r \<in> set (db_events db). graph_of db n = Some (ev_graph r) \<and> (\<exists>sp. ev_event r = NodeReady n sp))"

definition ended :: "lattice_db \<Rightarrow> graph_id \<Rightarrow> bool" where
  "ended db g \<longleftrightarrow> gstatus_of db g \<notin> {None, Some G_Pending, Some G_Running}"

definition logged :: "lattice_db \<Rightarrow> bool" where
  "logged db \<longleftrightarrow>
     (\<forall>n. handed_out db n \<longrightarrow> \<not> gather_node db n \<longrightarrow> announced db n) \<and>
     (\<forall>r \<in> set (db_events db). ends_stream (ev_event r) \<longrightarrow> ended db (ev_graph r))"

lemma announced_mono: "frame db db' \<Longrightarrow> announced db n \<Longrightarrow> announced db' n"
proof -
  assume f: "frame db db'" and a: "announced db n"
  have "set (db_events db) \<subseteq> set (db_events db')" using f by (auto simp: frame_def)
  then show "announced db' n" using a by (fastforce simp: announced_def frame_graph_of [OF f])
qed

lemma logged_views:
  assumes "logged db" and "frame db db'" and "db_events db' = db_events db @ evs"
    and "\<And>n. handed_out db' n \<Longrightarrow> handed_out db n \<or> gather_node db n \<or> announced db' n"
    and "\<And>g. ended db g \<Longrightarrow> ended db' g"
    and "\<And>r. r \<in> set evs \<Longrightarrow> ends_stream (ev_event r) \<Longrightarrow> ended db' (ev_graph r)"
  shows "logged db'"
proof -
  have "announced db' n" if "handed_out db' n" "\<not> gather_node db' n" for n
    using that assms(1) assms(4) [of n] announced_mono [OF assms(2), of n] by (auto simp: logged_def frame_gather [OF assms(2)])
  moreover have "ended db' (ev_graph r)" if "r \<in> set (db_events db')" "ends_stream (ev_event r)" for r
    using that assms(1,5,6) by (auto simp: logged_def assms(3))
  ultimately show ?thesis by (simp add: logged_def)
qed

lemma ended_writes [simp]:
  "ended (set_node_status m st out err db) g = ended db g" "ended (persist_event g' ev db) g = ended db g"
  "ended (notify_graph g' db) g = ended db g"
  by (simp_all add: ended_def views)

lemma logged_writes [simp]:
  "db_events (set_node_status m st out err db) = db_events db" "db_events (update_graph_status g gst db) = db_events db"
  "db_events (notify_graph g db) = db_events db"
  by (simp_all add: set_node_status_def update_graph_status_def notify_graph_def Let_def split: option.splits)

lemma handed_out_set:
  "handed_out (set_node_status m st out err db) n =
     (if m = n \<and> node_exists db n then st = N_Ready \<or> st = N_Running else handed_out db n)"
  by (simp add: handed_out_def status)

lemma handed_out_same: "status_of db' n = status_of db n \<Longrightarrow> handed_out db' n = handed_out db n"
  by (simp add: handed_out_def)

lemma logged_set:
  assumes "logged db" and "terminal_status st \<or> gather_node db n \<or> announced db n"
  shows "logged (set_node_status n st out err db)"
proof (rule logged_views [OF assms(1), of _ "[]"])
  show f: "frame db (set_node_status n st out err db)" by (intro engine_writes_frame writes_intros)
  show "handed_out db m \<or> gather_node db m \<or> announced (set_node_status n st out err db) m"
    if "handed_out (set_node_status n st out err db) m" for m
    using that assms(2) announced_mono [OF f]
    by (auto simp: handed_out_set terminal_status_def split: if_splits)
qed simp_all

lemma logged_event:
  assumes "logged db" and "ends_stream ev \<Longrightarrow> ended db g"
  shows "logged (persist_event g ev db)"
proof (rule logged_views [OF assms(1)])
  show "frame db (persist_event g ev db)" by (intro engine_writes_frame writes_intros)
  show "db_events (persist_event g ev db) = db_events db @
     [\<lparr>ev_seq = db_next_seq db, ev_graph = g, ev_event = ev, ev_created_at = db_clock db\<rparr>]"
    by (simp add: persist_event_def)
qed (use assms(2) in \<open>auto simp: handed_out_def status\<close>)

lemma logged_notify: "logged db \<Longrightarrow> logged (notify_graph g db)"
  by (rule logged_views [of db _ "[]"]) (auto simp: handed_out_def status intro!: engine_writes_frame writes_intros)

lemma logged_deliver:
  assumes "logged db" and "deliver_token e g tok (count_tokens_on_edge db e + 1) db = (Inr (), db')"
  shows "logged db'"
proof (rule logged_views [OF assms(1), of _ "[]"])
  show "frame db db'" using assms(2) by (auto intro: engine_writes_frame write_token)
qed (use assms(2) in \<open>auto dest!: deliver_token_cases simp: handed_out_def status_of_def ended_def gstatus_of_def\<close>)

lemma logged_ready:
  assumes "logged db" and "graph_of db n = Some g"
  shows "logged (make_ready g n spec db)"
proof (rule logged_views [OF assms(1)])
  show f: "frame db (make_ready g n spec db)" by (intro engine_writes_frame writes_make_ready writes_refl)
  show ev: "db_events (make_ready g n spec db) = db_events db @ [\<lparr>ev_seq = db_next_seq (set_node_status n N_Ready None None db),
      ev_graph = g, ev_event = NodeReady n spec, ev_created_at = db_clock (set_node_status n N_Ready None None db)\<rparr>]"
    by (simp add: make_ready_def persist_event_def)
  have "announced (make_ready g n spec db) n"
    using assms(2) unfolding announced_def ev frame_graph_of [OF f] by auto
  then show "handed_out db m \<or> gather_node db m \<or> announced (make_ready g n spec db) m"
    if "handed_out (make_ready g n spec db) m" for m
    using that by (auto simp: handed_out_def status split: if_splits)
qed (auto simp: ended_def views)

lemma ended_update: "ended (update_graph_status g st db) g' =
    (if g' = g \<and> gstatus_of db g \<noteq> None then st \<noteq> G_Pending \<and> st \<noteq> G_Running else ended db g')"
  by (auto simp: ended_def views)

lemma logged_update: "logged db \<Longrightarrow> st \<noteq> G_Pending \<Longrightarrow> st \<noteq> G_Running \<Longrightarrow> logged (update_graph_status g st db)"
  by (rule logged_views [of db _ "[]"])
     (auto simp: handed_out_def status ended_update intro!: engine_writes_frame writes_intros)

text \<open>A terminal event follows the status that it reports.\<close>

lemma logged_end:
  assumes "logged db" and "gstatus_of db g \<noteq> None" and "st \<noteq> G_Pending" and "st \<noteq> G_Running"
  shows "logged (persist_event g ev (update_graph_status g st db))"
  using assms by (intro logged_event logged_update) (simp_all add: ended_update)

lemma logged_fail: "logged db \<Longrightarrow> gstatus_of db g \<noteq> None \<Longrightarrow> logged (fail_graph g n msg db)"
  unfolding fail_graph_def by (intro logged_notify logged_end) simp_all

lemma logged_complete: "logged db \<Longrightarrow> gstatus_of db g \<noteq> None \<Longrightarrow> logged (complete_if_all_done g db)"
  unfolding complete_if_all_done_def Let_def by (auto intro: logged_notify logged_end)

lemma logged_record: "logged db \<Longrightarrow> logged (record_outcome g n out err db)"
  by (auto simp: record_outcome_def terminal_status_def intro!: logged_event logged_set split: option.splits)

subsection \<open>Reports\<close>

lemma node_gather: "get_node db n = Inr node \<Longrightarrow> is_gather (ln_spec node) \<longleftrightarrow> gather_node db n"
  by (auto simp: get_node_def gather_node_def spec_of_def split: option.splits)

lemma frame_gstatus_None:
  assumes "frame db db'"
  shows "gstatus_of db' g = None \<longleftrightarrow> gstatus_of db g = None"
proof -
  have "gr_id ` set (db_graphs db') = gr_id ` set (db_graphs db)"
    using assms unfolding frame_def by (metis list.set_map)
  then show ?thesis by (simp add: gstatus_of_def row_by_None_iff)
qed

lemma logged_check: "logged db \<Longrightarrow> graph_of db n = Some g \<Longrightarrow> logged (snd (check_and_ready g n db))"
  by (rule check_and_ready_keeps_at) (auto simp: node_gather intro: logged_set logged_ready)

lemma logged_route:
  assumes "logged db" and "\<forall>x \<in> set es. graph_of db (fst (snd x)) = Some g"
  shows "logged (snd (route_tokens g toks es acc db))"
proof -
  let ?P = "\<lambda>d. frame db d \<and> logged d"
  have set: "?P (set_node_status n N_Running None None d)"
    if "?P d" "get_node d n = Inr node" "is_gather (ln_spec node)" for d n node
    using that node_gather [OF that(2)]
    by (auto intro!: logged_set intro: frame_trans engine_writes_frame writes_intros)
  have ready: "?P (make_ready g n spec d)" if "?P d" "n \<in> (fst \<circ> snd) ` set es" for d n spec
  proof -
    have "graph_of d n = Some g" using that assms(2) frame_graph_of [of db d n] by auto
    moreover have "frame d (make_ready g n spec d)" by (intro engine_writes_frame writes_make_ready writes_refl)
    ultimately show ?thesis using that(1) by (blast intro: logged_ready frame_trans)
  qed
  have token: "?P d'" if "?P d" "deliver_token e g tok (count_tokens_on_edge d e + 1) d = (Inr (), d')" for d e tok d'
    using that logged_deliver [of d e g tok d'] by (blast intro: frame_trans engine_write_frame write_token)
  have "?P (snd (route_tokens g toks es acc db))"
    by (rule route_tokens_keeps_at [where P = ?P]) (use assms(1) frame_refl set ready token in blast)+
  then show ?thesis by simp
qed

lemma outbound_targets:
  assumes "wf_db db" and "graph_of db n = Some g" and "x \<in> set (get_outbound_edges_with_conditions db n)"
  shows "graph_of db (fst (snd x)) = Some g"
  using assms edge_same_graph [OF assms(1)] by (fastforce simp: get_outbound_edges_with_conditions_def)

lemma logged_step:
  assumes wf: "wf_db db" and log: "logged db" and n: "graph_of db n = Some g" and g: "gstatus_of db g \<noteq> None"
  shows "logged (outcome_db (advance_step g (n, out, err) queue db))"
proof -
  let ?db1 = "record_outcome g n out err db" and ?toks = "produce_tokens out err"
  let ?es = "get_outbound_edges_with_conditions ?db1 n"
  have f: "frame db ?db1" by (rule engine_writes_frame) (rule writes_record_outcome)
  have "wf_db ?db1" using wf engine_writes_wf [OF writes_record_outcome] by blast
  moreover have "graph_of ?db1 n = Some g" using n by (simp add: frame_graph_of [OF f])
  ultimately have "\<forall>x \<in> set ?es. graph_of ?db1 (fst (snd x)) = Some g" using outbound_targets by blast
  then have r: "logged (snd (route_tokens g ?toks ?es (queue, False) ?db1))"
    by (intro logged_route logged_record log)
  have f2: "frame ?db1 (snd (route_tokens g ?toks ?es (queue, False) ?db1))"
    by (rule engine_writes_frame) (rule writes_route_tokens)
  have "gstatus_of (snd (route_tokens g ?toks ?es (queue, False) ?db1)) g \<noteq> None"
    unfolding frame_gstatus_None [OF f2] frame_gstatus_None [OF f] by (rule g)
  with r show ?thesis
    using log by (auto simp: advance_step_def Let_def logged_fail split: sum.splits prod.splits)
qed

lemma logged_advance:
  assumes "wf_db db" and "logged db" and "graph_of db n = Some g" and "gstatus_of db g \<noteq> None"
    and "advance_graph g n out err db = Some (r, db')"
  shows "logged db'"
proof (rule advance_loop_rule [where I = "\<lambda>q d. wf_db d \<and> logged d \<and> gstatus_of d g \<noteq> None \<and>
    (\<forall>w \<in> set q. graph_of d (fst w) = Some g)" and Q = "\<lambda>_ d. logged d"])
  show "advance_loop g [(n, out, err)] db = Some (r, db')" using assms(5) by (simp add: advance_graph_def)
next
  fix w rest d q1 d1
  assume I: "wf_db d \<and> logged d \<and> gstatus_of d g \<noteq> None \<and> (\<forall>w \<in> set (w # rest). graph_of d (fst w) = Some g)"
    and c: "advance_step g w rest d = Continue q1 d1"
  obtain n out err where w: "w = (n, out, err)" by (cases w)
  have f: "frame d d1" and wf1: "wf_db d1"
    using writes_advance_step [of d g w rest] c I engine_writes_wf by (auto intro: engine_writes_frame)
  obtain p where p: "q1 = p @ rest" "\<forall>(m, out, err) \<in> set p. err = None \<and> (n, m) \<in> gather_edges d"
    using advance_step_pushes c unfolding w by blast
  have "graph_of d m = Some g" if "(n, m) \<in> gather_edges d" for m
    using that I edge_same_graph [of d] by (fastforce simp: gather_edges_def w)
  then have "\<forall>w \<in> set q1. graph_of d (fst w) = Some g" using p I by fastforce
  then show "wf_db d1 \<and> logged d1 \<and> gstatus_of d1 g \<noteq> None \<and> (\<forall>w \<in> set q1. graph_of d1 (fst w) = Some g)"
    using logged_step [of d n g out err rest] I c wf1 frame_gstatus_None [OF f] by (simp add: w frame_graph_of [OF f])
next
  fix w rest d r d1
  assume I: "wf_db d \<and> logged d \<and> gstatus_of d g \<noteq> None \<and> (\<forall>w \<in> set (w # rest). graph_of d (fst w) = Some g)"
    and c: "advance_step g w rest d = Return r d1"
  obtain n out err where w: "w = (n, out, err)" by (cases w)
  show "logged d1" using logged_step [of d n g out err rest] I c by (simp add: w)
qed (use assms logged_complete in auto)

subsection \<open>Growing and starting graphs\<close>

lemma logged_fields:
  assumes "logged db" and "db_nodes db' = db_nodes db" and "db_events db' = db_events db" and "\<And>g. ended db g \<Longrightarrow> ended db' g"
  shows "logged db'"
  using assms(1,4) by (simp add: logged_def handed_out_def gather_node_def announced_def assms(3) views_eq_fields [OF assms(2)])

lemma logged_more_graphs: "logged db \<Longrightarrow> logged (db\<lparr>db_graphs := db_graphs db @ [r]\<rparr>)"
  by (rule logged_fields) (auto simp: ended_def gstatus_of_def row_by_append split: option.splits)

lemma logged_more_nodes:
  assumes "logged db" and "row_by nr_id (nr_id r) (db_nodes db) = None" and "nr_status r = N_Pending"
  shows "logged (db\<lparr>db_nodes := db_nodes db @ [r]\<rparr>)"
proof -
  let ?db = "db\<lparr>db_nodes := db_nodes db @ [r]\<rparr>"
  have "row_by nr_id n (db_nodes ?db) = (if n = nr_id r then Some r else row_by nr_id n (db_nodes db))" for n
    using assms(2) by (auto simp: row_by_append split: option.splits)
  then have "handed_out ?db n \<longleftrightarrow> handed_out db n \<and> n \<noteq> nr_id r" "n \<noteq> nr_id r \<Longrightarrow> gather_node ?db n = gather_node db n"
    "n \<noteq> nr_id r \<Longrightarrow> announced ?db n = announced db n" for n
    using assms(3) by (auto simp: handed_out_def status_of_def gather_node_def spec_of_def announced_def graph_of_def)
  then show ?thesis using assms(1) by (simp add: logged_def ended_def gstatus_of_def)
qed

lemma logged_add_node: "wf_db db \<Longrightarrow> logged db \<Longrightarrow> logged (snd (add_node g hint spec u db))"
  using add_node_result [of db g hint spec u] logged_more_nodes [of db "fresh_node i g spec db" for i] by (auto simp: fresh_node_def)

lemma logged_deliver_all: "logged db \<Longrightarrow> logged (snd (deliver_all e g cond toks db))"
proof (induction toks arbitrary: db)
  case (Cons tok toks)
  obtain r db1 where d: "deliver_token e g tok (count_tokens_on_edge db e + 1) db = (r, db1)" by fastforce
  have "logged db1" using deliver_token_cases [OF d] logged_deliver Cons.prems d by blast
  then show ?case using Cons d by (cases r) auto
qed simp

lemma in_graph_of: "wf_db db \<Longrightarrow> node_in_graph db n g \<Longrightarrow> graph_of db n = Some g"
  using row_by_unique [of node_row.nr_id "db_nodes db"]
  by (fastforce simp: node_in_graph_def count_where_pos_iff graph_of_def wf_db_def keys_distinct_def)

lemma logged_add_edge:
  assumes wf: "wf_db db" and log: "logged db"
  shows "logged (snd (add_edge g from to cond u db))"
proof -
  let ?db1 = "db\<lparr>db_edges := db_edges db @ [\<lparr>er_id = u, er_graph = g, er_from = from, er_to = to, er_condition = cond\<rparr>]\<rparr>"
  have 1: "logged ?db1" by (rule logged_fields [OF log]) (simp_all add: ended_def gstatus_of_def)
  have "logged (snd (bind_res (deliver_all u g cond toks ?db1)
      (\<lambda>_ db2. (Inr (), notify_graph g (snd (check_and_ready g to db2))))))" if "node_in_graph db to g" for toks
  proof -
    obtain r db2 where d: "deliver_all u g cond toks ?db1 = (r, db2)" by fastforce
    have "logged db2" using logged_deliver_all [OF 1, of u g cond toks] d by simp
    moreover have "graph_of db2 to = Some g"
    proof -
      have "frame ?db1 db2" using writes_deliver_all [of ?db1 u g cond toks] d by (auto intro: engine_writes_frame)
      from frame_graph_of [OF this] show ?thesis using in_graph_of [OF wf that] by (simp add: graph_of_def)
    qed
    ultimately show ?thesis using d by (cases r) (simp_all add: logged_notify logged_check)
  qed
  then show ?thesis using 1 log by (auto simp: add_edge_def Let_def split: sum.splits)
qed

lemma logged_seed: "logged db \<Longrightarrow> \<forall>nd \<in> set roots. graph_of db (ln_id nd) = Some g \<Longrightarrow> logged (seed_roots g roots db)"
proof (induction roots arbitrary: db)
  case (Cons nd roots)
  let ?db1 = "make_ready g (ln_id nd) (ln_spec nd) db"
  have f: "frame db ?db1" by (intro engine_writes_frame writes_make_ready) simp
  have "logged ?db1" using Cons.prems by (simp add: logged_ready)
  then have "logged (seed_roots g roots ?db1)" using Cons by (simp add: frame_graph_of [OF f])
  then show ?case using Cons by simp
qed simp

lemma own_node: "wf_db db \<Longrightarrow> nd \<in> set (get_nodes db g) \<Longrightarrow> graph_of db (ln_id nd) = Some g"
  by (auto simp: get_nodes_def node_in_graph_def count_where_pos_iff intro!: in_graph_of)

lemma logged_start:
  assumes wf: "wf_db db" and log: "logged db"
  shows "logged (start_graph g db)"
proof (cases "count_where (\<lambda>r. gr_id r = g \<and> gr_status r = G_Pending) (db_graphs db) = 0")
  case False
  let ?db1 = "db\<lparr>db_graphs := update_where (\<lambda>r. gr_id r = g \<and> gr_status r = G_Pending)
                      (\<lambda>r. r\<lparr>gr_status := G_Running\<rparr>) (db_graphs db)\<rparr>"
  have gst: "gstatus_of ?db1 g' = map_option (\<lambda>st. if g' = g \<and> st = G_Pending then G_Running else st) (gstatus_of db g')" for g'
    using row_by_Some_in [of gr_id g' "db_graphs db"]
    by (cases "row_by gr_id g' (db_graphs db)") (auto simp: gstatus_of_def row_by_update_where_gen)
  have 1: "logged ?db1" by (rule logged_fields [OF log]) (auto simp: ended_def gst)
  have wf1: "wf_db ?db1" using wf by (simp add: wf_db_graphs wf_db_distinct_graphs map_key_update_where)
  obtain r where "r \<in> set (db_graphs db)" "gr_id r = g" using False unfolding neq0_conv count_where_pos_iff by blast
  then have "row_by gr_id g (db_graphs db) \<noteq> None" by (auto simp: row_by_None_iff)
  then have ex: "gstatus_of ?db1 g \<noteq> None" by (auto simp: gst) (simp add: gstatus_of_def)
  have "\<forall>nd \<in> set (get_nodes_with_no_predecessors ?db1 g). graph_of ?db1 (ln_id nd) = Some g"
    using in_graph_of [OF wf1] by (auto simp: get_nodes_with_no_predecessors_def node_in_graph_def count_where_pos_iff)
  then have "logged (seed_roots g (get_nodes_with_no_predecessors ?db1 g) ?db1)" by (rule logged_seed [OF 1])
  moreover have "logged (persist_event g (GraphDone g) (update_graph_status g G_Complete ?db1))"
    by (rule logged_end [OF 1 ex]) simp_all
  ultimately show ?thesis using False by (simp add: start_graph_def Let_def logged_notify)
qed (use log in \<open>simp add: start_graph_def\<close>)

lemma logged_emit: "logged db \<Longrightarrow> logged (emit_ready g ns db)"
proof (induction ns arbitrary: db)
  case (Cons node ns)
  have "logged (persist_event g (NodeReady (ln_id node) (ln_spec node)) db)"
    by (rule logged_event [OF Cons.prems]) simp
  then show ?case using Cons by simp
qed simp

lemma logged_start_node: "logged db \<Longrightarrow> status_of db n = Some N_Ready \<Longrightarrow> logged (start_node g n db)"
  unfolding start_node_def
  by (intro logged_notify logged_event logged_set) (auto simp: logged_def handed_out_def)

lemma logged_reset: "logged db \<Longrightarrow> graph_of db n = Some g \<Longrightarrow> logged (snd (reset_running_to_ready g n db))"
  by (auto simp: reset_running_to_ready_def intro!: logged_notify logged_ready split: sum.splits)

subsection \<open>Runs with graph handles\<close>

inductive own_step :: "lattice_db \<Rightarrow> lattice_db \<Rightarrow> bool" where
  own_create_graph: "own_step db (snd (create_graph m u db))"
| own_create_child: "own_step db (snd (create_child_graph p m u db))"
| own_add_node: "own_step db (snd (add_node g hint spec u db))"
| own_add_edge: "from \<noteq> to \<Longrightarrow> status_of db to = Some N_Pending \<Longrightarrow> own_step db (snd (add_edge g from to cond u db))"
| own_start: "own_step db (start_graph g db)"
| own_start_node: "status_of db n = Some N_Ready \<Longrightarrow> graph_of db n = Some g \<Longrightarrow> own_step db (start_node g n db)"
| own_outcome: "handed_out db n \<Longrightarrow> graph_of db n = Some g \<Longrightarrow> advance_graph g n out err db = Some (r, db') \<Longrightarrow>
    own_step db db'"
| own_reset: "graph_of db n = Some g \<Longrightarrow> own_step db (snd (reset_running_to_ready g n db))"
| own_reemit: "own_step db (reemit_ready_nodes g db)"
| own_cancel: "own_step db (cancel g db)"
| own_notifier: "own_step db (get_or_create_notifier g db)"
| own_clock: "own_step db (db\<lparr>db_clock := t\<rparr>)"

inductive own_run :: "bool \<Rightarrow> lattice_db \<Rightarrow> bool" for fk where
  own_init: "own_run fk (empty_db fk)"
| own_more: "own_run fk db \<Longrightarrow> own_step db db' \<Longrightarrow> own_run fk db'"

lemma own_step_run: "own_step db db' \<Longrightarrow> run_step db db'"
  by (induction rule: own_step.induct) (auto intro: run_step.intros)

lemma own_run_reachable: "own_run fk db \<Longrightarrow> run_reachable fk db"
  by (induction rule: own_run.induct) (auto intro: run_reachable.intros own_step_run)

lemma own_step_logged: "own_step db db' \<Longrightarrow> wf_db db \<Longrightarrow> safe_db db \<Longrightarrow> logged db \<Longrightarrow> logged db'"
proof (induction rule: own_step.induct)
  case (own_create_graph db m u)
  then show ?case by (simp add: create_graph_def Let_def logged_more_graphs)
next
  case (own_create_child db p m u)
  then show ?case by (simp add: create_child_graph_def Let_def logged_more_graphs)
next
  case (own_outcome db n g out err r db')
  have "started db n" using own_outcome(1) by (auto simp: handed_out_def started_def)
  then have "gstatus_of db g \<noteq> None" using own_outcome by (auto simp: safe_db_def graph_open_def)
  then show ?case using own_outcome by (blast intro: logged_advance)
next
  case (own_reemit db g)
  then show ?case by (simp add: reemit_ready_nodes_def logged_notify logged_emit)
next
  case (own_cancel db g)
  then show ?case by (simp add: cancel_def logged_update)
next
  case (own_notifier db g)
  then show ?case by (auto simp: get_or_create_notifier_def ended_def gstatus_of_def split: option.splits
      intro: logged_fields [of db])
next
  case (own_clock db t)
  then show ?case by (auto simp: ended_def gstatus_of_def intro: logged_fields [of db])
qed (auto intro: logged_add_node logged_add_edge logged_start logged_start_node logged_reset)

lemma own_run_logged: "own_run fk db \<Longrightarrow> logged db"
proof (induction rule: own_run.induct)
  case own_init
  show ?case by (simp add: logged_def empty_db_def handed_out_def status_of_def)
next
  case (own_more db db')
  then show ?case using own_run_reachable run_reachable_wf run_reachable_safe own_step_logged by blast
qed

end
