(* ===== verification/Orcha_Launch_Props.thy ===== *)
theory Orcha_Launch_Props
  imports Orcha_Launch Lattice_Graphs Lattice_Logged Orcha_Pm_Props
begin

text \<open>
  Starting, cancelling and recovering runs: a cancellation reaches exactly the descendants of a graph, a
  recovered run is handed every interrupted node, and with the configuration it was started with.
\<close>

subsection \<open>Cancelling\<close>

text \<open>The state of the breadth-first loop that started at \<open>root\<close>.\<close>

definition visiting :: "lattice_db \<Rightarrow> graph_id \<Rightarrow> graph_id list \<Rightarrow> graph_id list \<Rightarrow> bool" where
  "visiting db root all queue \<longleftrightarrow>
     distinct (all @ queue) \<and> root \<in> set (all @ queue) \<and>
     set (all @ queue) \<subseteq> {h. (root, h) \<in> (child_of db)\<^sup>*} \<and>
     (\<forall>p \<in> set all. \<forall>h. (p, h) \<in> child_of db \<longrightarrow> h \<in> set (all @ queue)) \<and>
     (\<forall>h \<in> set (all @ queue). h \<noteq> root \<longrightarrow> (\<exists>p \<in> set all. (p, h) \<in> child_of db))"

lemma visiting_end: "visiting db root all [] \<Longrightarrow> set all = {h. (root, h) \<in> (child_of db)\<^sup>*}"
proof -
  assume v: "visiting db root all []"
  have "h \<in> set all" if "(root, h) \<in> (child_of db)\<^sup>*" for h
    using that by (induction rule: rtrancl_induct) (use v in \<open>auto simp: visiting_def\<close>)
  then show ?thesis using v by (auto simp: visiting_def)
qed

lemma visiting_step:
  assumes ok: "lattice_reachable True db" "no_self_parent db" and v: "visiting db root all (g # rest)"
  shows "visiting db root (all @ [g]) (rest @ map lg_id (get_child_graphs db g))"
proof -
  let ?kids = "map lg_id (get_child_graphs db g)"
  have wf: "wf_db db" by (rule lattice_reachable_wf [OF ok(1)])
  have kids: "set ?kids = {h. (g, h) \<in> child_of db}" by (rule children_set)
  have reach: "(root, g) \<in> (child_of db)\<^sup>*" and fresh: "g \<notin> set all" using v by (auto simp: visiting_def)
  have new: "h \<notin> set (all @ g # rest)" if "(g, h) \<in> child_of db" for h
  proof
    assume h: "h \<in> set (all @ g # rest)"
    show False
    proof (cases "h = root")
      case True
      then show ?thesis using graph_rank_less [OF ok that] descendant_rank [OF ok reach] by simp
    next
      case False
      then obtain p where "p \<in> set all" "(p, h) \<in> child_of db" using v h unfolding visiting_def by blast
      then show ?thesis using one_parent [OF wf that] fresh by blast
    qed
  qed
  have "distinct (all @ g # rest)" using v by (simp add: visiting_def)
  then have "distinct (all @ [g] @ rest @ ?kids)" using new children_distinct [OF wf, of g] kids by auto
  moreover have "(root, h) \<in> (child_of db)\<^sup>*" if "(g, h) \<in> child_of db" for h
    using reach that by (rule rtrancl_into_rtrancl)
  ultimately show ?thesis using v kids unfolding visiting_def by auto
qed

lemma descendants_return:
  assumes ok: "lattice_reachable True db" "no_self_parent db" and v: "visiting db root all queue"
  shows "\<exists>gs. descendants_loop db all queue = Some gs \<and> set gs = {h. (root, h) \<in> (child_of db)\<^sup>*}"
proof -
  let ?U = "{h. (root, h) \<in> (child_of db)\<^sup>*}"
  have "h \<in> insert root (fst ` set (shapes db))" if "(root, h) \<in> (child_of db)\<^sup>*" for h
    using that
  proof (cases rule: rtranclE)
    case (step p)
    then obtain m c where "(h, m, c, Some p) \<in> set (shapes db)" by (auto simp: child_of_def)
    from imageI [OF this, of fst] show ?thesis by simp
  qed simp
  then have "?U \<subseteq> insert root (fst ` set (shapes db))" by blast
  then have fin: "finite ?U" by (rule finite_subset) simp
  show ?thesis
    using v
  proof (induction "card (?U - set all)" arbitrary: all queue rule: less_induct)
    case less
    show ?case
    proof (cases queue)
      case Nil
      then show ?thesis using visiting_end less.prems by (simp add: descendants_loop.simps)
    next
      case (Cons g rest)
      have "g \<in> ?U - set all" using less.prems Cons by (auto simp: visiting_def)
      then have "card (?U - set (all @ [g])) < card (?U - set all)"
        using fin by (intro psubset_card_mono) auto
      then show ?thesis
        using less.hyps visiting_step [OF ok] less.prems Cons by (simp add: descendants_loop.simps [of db all "g # rest"])
    qed
  qed
qed

lemma cancel_all_fields:
  "os_cancel (cancel_all gs st) h = (if h \<in> set gs then None else os_cancel st h)"
  "os_lattice (cancel_all gs st) = os_lattice st" "os_pm (cancel_all gs st) = os_pm st"
  by (induction gs st rule: cancel_all.induct) (auto split: option.splits)

lemma cancel_all_tokens:
  "t \<in> set (os_cancelled (cancel_all gs st)) \<longleftrightarrow> t \<in> set (os_cancelled st) \<or> (\<exists>h \<in> set gs. os_cancel st h = Some t)"
proof (induction gs st rule: cancel_all.induct)
  case (2 g gs st)
  show ?case
  proof (cases "os_cancel st g")
    case (Some token)
    have "(\<exists>h \<in> set gs. h \<noteq> g \<and> os_cancel st h = Some t) \<or> t = token \<longleftrightarrow> (\<exists>h \<in> set (g # gs). os_cancel st h = Some t)"
      using Some by (auto, metis option.inject)
    then show ?thesis using 2 Some by auto
  qed (use 2 in simp)
qed simp

text \<open>
  C38. Cancelling ends and reaches exactly the tree below the graph: the tokens of all its registered
  descendants are set and their entries removed, whether or not the graph itself is registered (only the
  answer depends on that); no other entry changes, and the stores do not.
\<close>

theorem cancel_reaches_descendants:
  assumes "lattice_reachable True (os_lattice st)" and "no_self_parent (os_lattice st)"
  shows "\<exists>ev st'. cancel_graph g st = Some (ev, st') \<and> (ev = GE_Cancelled g \<longleftrightarrow> os_cancel st g \<noteq> None) \<and>
    (\<forall>h. os_cancel st' h = (if (g, h) \<in> (child_of (os_lattice st))\<^sup>* then None else os_cancel st h)) \<and>
    set (os_cancelled st') = set (os_cancelled st) \<union> {t. \<exists>h. (g, h) \<in> (child_of (os_lattice st))\<^sup>* \<and> os_cancel st h = Some t} \<and>
    os_lattice st' = os_lattice st \<and> os_pm st' = os_pm st"
proof -
  have "visiting (os_lattice st) g [] [g]" by (simp add: visiting_def)
  then obtain gs where gs: "descendants_loop (os_lattice st) [] [g] = Some gs"
      "set gs = {h. (g, h) \<in> (child_of (os_lattice st))\<^sup>*}"
    using descendants_return [OF assms] by blast
  then show ?thesis by (auto simp: cancel_graph_def cancel_all_fields cancel_all_tokens)
qed

text \<open>A graph, a graph that its plan node has built, and the run of both.\<close>

definition family :: lattice_db where
  "family = snd (create_child_graph ''lattice-p'' JNull ''c'' (snd (create_graph JNull ''p'' (empty_db True))))"

lemma family_reachable: "lattice_reachable True family"
  unfolding family_def by (intro lr_step [OF _ ls_create_child] lr_step [OF _ ls_create_graph] lr_init)

definition family_run :: orcha_state where
  "family_run = \<lparr>os_lattice = family, os_pm = demo_pm, os_cancel = [''lattice-p'' \<mapsto> 0, ''lattice-c'' \<mapsto> 1, ''x'' \<mapsto> 2],
     os_next = 3, os_cancelled = []\<rparr>"

theorem cancel_reaches_descendants_witness:
  "\<exists>st'. cancel_graph ''lattice-p'' family_run = Some (GE_Cancelled ''lattice-p'', st') \<and>
     os_cancel st' ''lattice-c'' = None \<and> os_cancel st' ''x'' = Some 2 \<and> 1 \<in> set (os_cancelled st')"
proof -
  let ?R = "{(''lattice-p'', ''lattice-c'')}\<^sup>*"
  have l: "os_lattice family_run = family"
    and c: "os_cancel family_run ''lattice-p'' = Some 0" "os_cancel family_run ''lattice-c'' = Some 1" "os_cancel family_run ''x'' = Some 2"
    by (simp_all add: family_run_def)
  have r: "child_of family = {(''lattice-p'', ''lattice-c'')}"
    by (auto simp: child_of_def family_def create_graph_def create_child_graph_def Let_def empty_db_def graph_shape_def)
  have ok: "lattice_reachable True (os_lattice family_run)" "no_self_parent (os_lattice family_run)"
    unfolding l by (rule family_reachable, code_simp)
  have in_r: "(''lattice-p'', ''lattice-c'') \<in> ?R" "(''lattice-p'', ''x'') \<notin> ?R" by (blast, auto elim: rtranclE)
  obtain ev st' where e: "cancel_graph ''lattice-p'' family_run = Some (ev, st')" "ev = GE_Cancelled ''lattice-p''"
      and h: "\<forall>h. os_cancel st' h = (if (''lattice-p'', h) \<in> ?R then None else os_cancel family_run h)"
      and t: "set (os_cancelled st') = set (os_cancelled family_run) \<union> {t. \<exists>h. (''lattice-p'', h) \<in> ?R \<and> os_cancel family_run h = Some t}"
    using cancel_reaches_descendants [OF ok, of "''lattice-p''"] unfolding l r c(1) by blast
  have "os_cancel st' ''lattice-c'' = None" "os_cancel st' ''x'' = Some 2" using h in_r c by simp_all
  moreover have "1 \<in> set (os_cancelled st')" using t in_r(1) c(2) by blast
  ultimately show ?thesis using e by blast
qed

end
