(* ===== verification/Orcha_Recovery_Props.thy ===== *)
theory Orcha_Recovery_Props
  imports Orcha_Launch_Props Ticket_Props
begin

text \<open>
  Recovery after a restart: the interrupted nodes of a running graph are handed out again, and its run has
  the configuration with which it was started.
\<close>

subsection \<open>Resetting nodes\<close>

lemma reset_status:
  "status_of (snd (reset_running_to_ready g n db)) m =
     (if m = n \<and> status_of db n = Some N_Running then Some N_Ready else status_of db m)"
proof (cases "row_by node_row.nr_id n (db_nodes db)")
  case None
  then show ?thesis by (auto simp: reset_running_to_ready_def get_node_def status_of_def)
next
  case (Some r)
  then have "status_of db n = Some (nr_status r)" "node_exists db n" by (simp_all add: status_of_def node_exists_def)
  then show ?thesis using Some by (simp add: reset_running_to_ready_def get_node_def status)
qed

lemma reset_graphs: "gstatus_of (snd (reset_running_to_ready g n db)) h = gstatus_of db h"
  by (auto simp: reset_running_to_ready_def views split: sum.splits)

lemma reemit_status: "status_of (reemit_ready_nodes g db) n = status_of db n"
proof -
  have "status_of (emit_ready g ns db) n = status_of db n" for ns
    by (induction ns arbitrary: db) (auto simp: status)
  then show ?thesis by (simp add: reemit_ready_nodes_def status)
qed

lemma reemit_graphs: "gstatus_of (reemit_ready_nodes g db) h = gstatus_of db h"
  by (simp add: reemit_ready_nodes_def views emit_ready_frame(5))

lemma fix_nodes_writes: "engine_writes db (fix_nodes g ns db)"
proof (induction ns arbitrary: db)
  case (Cons node ns)
  have "engine_writes db (fix_nodes g ns (snd (reset_running_to_ready g (ln_id node) db)))"
    using writes_reset_running Cons by (rule writes_trans)
  then show ?case using Cons writes_reemit by (auto split: node_status.split)
qed simp

lemma fix_nodes_status:
  "status_of (fix_nodes g ns db) n = status_of db n \<or>
     (status_of db n = Some N_Running \<and> status_of (fix_nodes g ns db) n = Some N_Ready)"
proof (induction ns arbitrary: db)
  case (Cons node ns)
  show ?case using Cons.IH [of "snd (reset_running_to_ready g (ln_id node) db)"] Cons.IH [of db]
    by (auto simp: reemit_status reset_status split: node_status.split if_splits)
qed simp

lemma fix_nodes_graphs: "gstatus_of (fix_nodes g ns db) h = gstatus_of db h"
  by (induction ns arbitrary: db) (auto simp: reset_graphs reemit_graphs split: node_status.split)

lemma fix_nodes_run:
  assumes "own_run fk db" and "\<forall>node \<in> set ns. graph_of db (ln_id node) = Some g"
  shows "own_run fk (fix_nodes g ns db)"
  using assms
proof (induction ns arbitrary: db)
  case (Cons node ns)
  let ?db1 = "snd (reset_running_to_ready g (ln_id node) db)"
  have "own_run fk ?db1" using Cons.prems by (intro own_more [OF _ own_reset]) auto
  moreover have "frame db ?db1" by (intro engine_writes_frame writes_reset_running)
  ultimately have "own_run fk (fix_nodes g ns ?db1)" using Cons by (simp add: frame_graph_of)
  then show ?case using Cons by (auto intro: own_more [OF _ own_reemit] split: node_status.split)
qed simp

subsection \<open>What the new dispatcher finds\<close>

lemma log_events:
  assumes "log_ok db"
  shows "set (map snd (get_events_after db g 0)) = ev_event ` {r \<in> set (db_events db). ev_graph r = g}"
proof -
  have c: "cursor_ok 0" by (simp add: cursor_ok_def)
  have "0 < ev_seq r" if "r \<in> set (db_events db)" for r using log_seqs [OF assms that] by simp
  then show ?thesis by (auto simp: events_after_filter [OF assms c])
qed

lemma terminal_ids:
  assumes "wf_db db"
  shows "n \<in> set (get_terminal_node_ids db g) \<longleftrightarrow> graph_of db n = Some g \<and> finished db n"
proof -
  have u: "row_by node_row.nr_id (node_row.nr_id r) (db_nodes db) = Some r" if "r \<in> set (db_nodes db)" for r
    using that assms by (intro row_by_unique) (simp_all add: wf_db_def keys_distinct_def)
  let ?found = "\<lambda>r. r \<in> set (db_nodes db) \<and> node_row.nr_id r = n \<and> nr_graph r = g \<and> terminal_status (nr_status r)"
  have "n \<in> set (get_terminal_node_ids db g) \<longleftrightarrow> (\<exists>r. ?found r)"
    by (auto simp: get_terminal_node_ids_def get_nodes_def terminal_status_def image_iff)
  also have "\<dots> \<longleftrightarrow> (\<exists>r. row_by node_row.nr_id n (db_nodes db) = Some r \<and> nr_graph r = g \<and> terminal_status (nr_status r))"
    using u row_by_Some_in [of node_row.nr_id n "db_nodes db"] by blast
  also have "\<dots> \<longleftrightarrow> graph_of db n = Some g \<and> finished db n"
    by (auto simp: graph_of_def finished_def status_of_def split: option.splits)
  finally show ?thesis .
qed

subsection \<open>Recovered graphs\<close>

lemma recover_graph_parts:
  assumes "recover_graph g st = (l, st')"
  shows "os_lattice st' = fix_nodes g (get_nodes (os_lattice st) g) (os_lattice st)" "la_graph l = g"
    "la_model l = recovered_model (stored_config (os_lattice st') g)" "la_dir l = recovered_dir (stored_config (os_lattice st') g)"
    "la_tickets l = node_to_ticket (get_ticket_map (os_pm st) g)" "os_pm st' = os_pm st"
  using assms by (auto simp: recover_graph_def register_cancel_def Let_def)

lemma to_recover_running:
  assumes "wf_db (os_lattice st)" and "g \<in> set (to_recover st)"
  shows "gstatus_of (os_lattice st) g = Some G_Running"
proof -
  obtain r where r: "r \<in> set (db_graphs (os_lattice st))" "gr_id r = g" "gr_status r = G_Running"
    using assms(2) by (auto simp: to_recover_def get_running_graph_ids_def)
  then have "row_by gr_id g (db_graphs (os_lattice st)) = Some r"
    using row_by_unique [of gr_id] wf_db_distinct_graphs [OF assms(1)] by blast
  then show ?thesis using r by (simp add: gstatus_of_def)
qed

lemma handed_terminal: "handed_out db n \<Longrightarrow> \<not> finished db n"
  by (auto simp: handed_out_def finished_def terminal_status_def)

text \<open>
  C39. A crash loses no work. Whatever state a run was in, once the graph is recovered the new dispatcher, which
  replays the log of the graph, hands out every node that was \<open>Ready\<close> or \<open>Running\<close> (Gather nodes apart,
  which the engine runs itself), each once; it hands out none that had finished, and it goes on listening.
  This holds although the recovery stops at the first \<open>Ready\<close> node.
\<close>

theorem recovery_redispatches:
  assumes "own_run fk (os_lattice st)" and "g \<in> set (to_recover st)" and "recover_graph g st = (l, st')"
    and "int (length (db_events (os_lattice st'))) < 2 ^ 63"
    and "map snd evs = map snd (get_events_after (os_lattice st') g 0)"
    and "runner_loop pct (la_tickets l) g evs (runner_start (os_lattice st') g) = (sent, nodes, r)"
  shows "distinct nodes \<and> rn_running r \<and>
    (\<forall>n. graph_of (os_lattice st) n = Some g \<and> handed_out (os_lattice st) n \<and> \<not> gather_node (os_lattice st) n \<longrightarrow> n \<in> set nodes) \<and>
    (\<forall>n \<in> set nodes. \<not> (graph_of (os_lattice st) n = Some g \<and> finished (os_lattice st) n))"
proof -
  let ?db = "os_lattice st" and ?db' = "os_lattice st'"
  have wf: "wf_db ?db" using assms(1) by (intro run_reachable_wf own_run_reachable)
  have db': "?db' = fix_nodes g (get_nodes ?db g) ?db" by (rule recover_graph_parts [OF assms(3)])
  have run': "own_run fk ?db'" unfolding db' using assms(1) own_node [OF wf] by (intro fix_nodes_run) auto
  have wf': "wf_db ?db'" using run' by (intro run_reachable_wf own_run_reachable)
  have log: "log_ok ?db'" using wf' assms(4) by (simp add: log_ok_def)
  have f: "frame ?db ?db'" unfolding db' by (rule engine_writes_frame [OF fix_nodes_writes])
  have st: "handed_out ?db' n = handed_out ?db n" "finished ?db' n = finished ?db n" for n
    using fix_nodes_status [of g "get_nodes ?db g" ?db n] unfolding db'
    by (auto simp: handed_out_def finished_def terminal_status_def)
  have "\<not> ended ?db' g" using to_recover_running [OF wf assms(2)] by (simp add: ended_def db' fix_nodes_graphs)
  then have quiet: "\<forall>ev \<in> set (map snd evs). \<not> ends_stream ev"
    using own_run_logged [OF run'] unfolding assms(5) log_events [OF log] by (auto simp: logged_def)
  have d: "distinct nodes \<and> set nodes = ready_ids (map snd evs) - set (get_terminal_node_ids ?db' g) \<and> rn_running r"
    using runner_loop_dispatch [OF assms(6)] quiet by (auto simp: runner_start_def upto_end_none)
  have "n \<in> ready_ids (map snd evs)" if n: "graph_of ?db n = Some g" "handed_out ?db n" "\<not> gather_node ?db n" for n
  proof -
    have "announced ?db' n" using own_run_logged [OF run'] n by (simp add: logged_def st frame_gather [OF f])
    then obtain sp where "NodeReady n sp \<in> ev_event ` {r \<in> set (db_events ?db'). ev_graph r = g}"
      using n(1) by (force simp: announced_def frame_graph_of [OF f])
    then show ?thesis using log_events [OF log, of g] assms(5) by (auto simp: ready_ids_def)
  qed
  then show ?thesis
    using d handed_terminal by (auto simp: terminal_ids [OF wf'] st frame_graph_of [OF f])
qed

lemma pair_started_own: "own_run True pair_started"
proof -
  have "own_run True pair_nodes"
    unfolding pair_nodes_def by (intro own_more [OF _ own_add_node] own_more [OF _ own_create_graph] own_init)
  moreover have "status_of pair_nodes ''b'' = Some N_Pending" by code_simp
  ultimately have "own_run True pair_built"
    unfolding pair_built_def by (intro own_more [OF _ own_add_edge]) simp_all
  then have "own_run True (start_graph pair_graph pair_built)" by (rule own_more [OF _ own_start])
  moreover have "status_of (start_graph pair_graph pair_built) ''a'' = Some N_Ready"
    "graph_of (start_graph pair_graph pair_built) ''a'' = Some pair_graph" by code_simp+
  ultimately show ?thesis unfolding pair_started_def by (rule own_more [OF _ own_start_node])
qed

text \<open>The process ends while \<open>a\<close> is running.\<close>

definition crashed :: orcha_state where
  "crashed = \<lparr>os_lattice = pair_started, os_pm = demo_pm, os_cancel = Map.empty, os_next = 0, os_cancelled = []\<rparr>"

theorem recovery_redispatches_witness:
  "\<exists>sent nodes r. runner_loop (\<lambda>_ _. 0) (la_tickets (fst (recover_graph pair_graph crashed))) pair_graph
      (map (\<lambda>x. (pair_started, snd x)) (get_events_after (os_lattice (snd (recover_graph pair_graph crashed))) pair_graph 0))
      (runner_start (os_lattice (snd (recover_graph pair_graph crashed))) pair_graph) = (sent, nodes, r) \<and>
    ''a'' \<in> set nodes \<and> distinct nodes \<and> rn_running r"
proof -
  have run: "own_run True (os_lattice crashed)" using pair_started_own by (simp add: crashed_def)
  have "pair_graph \<in> set (to_recover crashed)" by code_simp
  note rec = recovery_redispatches [OF run this prod.collapse [symmetric]]
  have len: "int (length (db_events (os_lattice (snd (recover_graph pair_graph crashed))))) < 2 ^ 63" by code_simp
  have a: "graph_of (os_lattice crashed) ''a'' = Some pair_graph" "handed_out (os_lattice crashed) ''a''"
    "\<not> gather_node (os_lattice crashed) ''a''" by code_simp+
  let ?st = "snd (recover_graph pair_graph crashed)"
  let ?evs = "map (\<lambda>x. (pair_started, snd x)) (get_events_after (os_lattice ?st) pair_graph 0)"
  obtain sent nodes r where l: "runner_loop (\<lambda>_ _. 0) (la_tickets (fst (recover_graph pair_graph crashed))) pair_graph ?evs
      (runner_start (os_lattice ?st) pair_graph) = (sent, nodes, r)" by (metis prod_cases3)
  have "map snd ?evs = map snd (get_events_after (os_lattice ?st) pair_graph 0)" by (simp add: comp_def)
  from rec [OF len this l] a l show ?thesis by blast
qed

subsection \<open>The stored configuration\<close>

lemma add_def_static: "static (snd (add_def g sp u db)) = static db"
  by (cases sp) (simp_all add: add_task_def add_synthesize_def add_validate_def add_gather_def add_review_def add_plan_def
      add_spec_def static_add_node)

lemma build_nodes_static: "static (snd (build_nodes g ds uuids ids db)) = static db"
proof (induction ds arbitrary: uuids ids db)
  case (Cons d ds)
  obtain r db1 where a: "add_def g (nd_spec d) (uuids 0) db = (r, db1)" by fastforce
  then have "static db1 = static db" using add_def_static by (metis snd_conv)
  then show ?case using Cons.IH a by (cases r) simp_all
qed simp

lemma build_edges_static: "static (snd (build_edges g ds uuids ids db)) = static db"
proof (induction ds arbitrary: uuids db)
  case (Cons d ds)
  have "static (snd (build_edges g ds uuids ids db1)) = static db" if "depends_on g n m u db = (r, db1)" for n m u r db1 uuids
    using that Cons.IH [of uuids db1] static_add_edge [of g m n None u db] by (simp add: depends_on_def)
  moreover have "static db1 = static db" if "depends_on g n m u db = (r, db1)" for n m u r db1
    using that static_add_edge [of g m n None u db] by (simp add: depends_on_def)
  ultimately show ?case by (simp split: option.split sum.split prod.split)
qed simp

lemma metadata_static: "static db' = static db \<Longrightarrow> metadata_of db' g = metadata_of db g"
  by (simp add: metadata_shapes)

lemma built_metadata:
  assumes "build_graph_from_definition ids metadata nodes edges db = (Inr (g, id_map), db')"
  shows "metadata_of db' g = Some metadata"
proof -
  obtain db1 db2 where 1: "create_graph metadata (bi_graph ids) db = (Inr g, db1)"
      and 2: "build_nodes g nodes (bi_node ids) Map.empty db1 = (Inr id_map, db2)"
      and 3: "build_edges g edges (bi_edge ids) id_map db2 = (Inr (), db')"
    using assms by (auto simp: build_graph_from_definition_def runtime_create_graph_def bind_res_def split: prod.splits sum.splits)
  have "metadata_of db1 g = Some metadata"
    using 1 by (auto simp: create_graph_def Let_def metadata_of_def row_by_append split: if_splits)
  moreover have "static db' = static db1"
    using build_nodes_static [of g nodes "bi_node ids" Map.empty db1] build_edges_static [of g edges "bi_edge ids" id_map db2] 2 3
    by simp
  ultimately show ?thesis using metadata_static by metis
qed

lemma stored_config_metadata: "stored_config db g = Option.bind (metadata_of db g) (json_get config_key)"
  by (simp add: stored_config_def get_graph_def metadata_of_def graph_counts_def row_to_graph_def split: option.split)

lemma enriched_config: "json_get config_key (enriched_metadata metadata model wd) = Some (run_config model wd)"
proof -
  have "map_of (filter (\<lambda>e. fst e \<noteq> k) es @ [(k, v)]) k = Some v" for es k and v :: json
    by (induction es) auto
  then show ?thesis by (simp add: enriched_metadata_def Let_def)
qed

lemma config_fields:
  "recovered_model (Some (run_config model wd)) = model_of_name model" "recovered_dir (Some (run_config model wd)) = wd"
  by (simp_all add: recovered_model_def recovered_dir_def config_field_def run_config_def work_dir_def)

lemma save_map_fresh:
  assumes "get_ticket_map pm g = []" and "distinct (map fst entries)"
  shows "get_ticket_map (save_ticket_map g entries pm) g = entries"
proof -
  have "get_ticket_map (save_ticket_map g entries pm) g = get_ticket_map pm g @ entries"
    if "distinct (map fst (get_ticket_map pm g @ entries))" for pm
    using that
  proof (induction entries arbitrary: pm)
    case (Cons e entries)
    obtain t n where e: "e = (t, n)" by (cases e)
    have "get_ticket_map (put_ticket g (t, n) pm) g = get_ticket_map pm g @ [(t, n)]"
    proof -
      have "t \<notin> fst ` set (get_ticket_map pm g)" using Cons.prems by (auto simp: e)
      then have "filter (\<lambda>r. (tm_graph r = g \<longrightarrow> tm_ticket r \<noteq> t) \<and> tm_graph r = g) (pm_maps pm) =
          filter (\<lambda>r. tm_graph r = g) (pm_maps pm)"
        by (intro filter_cong) (force simp: get_ticket_map_def)+
      then show ?thesis by (simp add: get_ticket_map_def put_ticket_def)
    qed
    then show ?case using Cons by (simp add: e save_ticket_map_def)
  qed (simp add: save_ticket_map_def)
  from this [of pm] show ?thesis using assms by simp
qed

lemma map_entries_distinct: "distinct (map fst (map_entries nodes id_map))"
proof -
  have "map fst (List.map_filter (\<lambda>t. map_option (\<lambda>n. (t, n)) (f t)) ts) = filter (\<lambda>t. f t \<noteq> None) ts"
    for ts and f :: "string \<rightharpoonup> node_id"
    by (induction ts) (auto simp: List.map_filter_simps split: option.split)
  then show ?thesis by (simp add: map_entries_def)
qed

lemma source_keeps_maps [simp]: "get_ticket_map (save_ticket_source g s pm) h = get_ticket_map pm h"
  by (simp add: get_ticket_map_def save_ticket_source_def)

text \<open>
  C40. A recovered run is the run that was started: whatever has happened to the stores since
  (any operations of the Lattice storage; the ticket map of the graph unchanged), the recovery takes up a
  graph started by \<open>run_tickets_async\<close> with the same model, directory and tickets.
\<close>

theorem recovery_keeps_config:
  assumes "run_tickets_async is_dir ids tickets metadata model wd st = (([GE_Started g], Some (a, l)), st1)"
    and "get_ticket_map (os_pm st) g = []"
    and "lattice_step\<^sup>*\<^sup>* (os_lattice st1) (os_lattice st2)" and "get_ticket_map (os_pm st2) g = get_ticket_map (os_pm st1) g"
    and "recover_graph g st2 = (l', st3)"
  shows "la_graph l' = la_graph l \<and> la_model l' = la_model l \<and> la_dir l' = la_dir l \<and> la_tickets l' = la_tickets l"
proof -
  obtain c :: compiled_graph and db id_map where b: "build_graph_from_definition ids (enriched_metadata metadata (model_name model) (work_dir wd))
        (cg_nodes c) (cg_edges c) (os_lattice st) = (Inr (g, id_map), db)"
      and s: "os_lattice st1 = db" "os_pm st1 = save_ticket_source g tickets (save_ticket_map g (map_entries (cg_nodes c) id_map) (os_pm st))"
      and l: "la_graph l = g" "la_model l = model_of_name (model_name model)" "la_dir l = work_dir wd"
        "la_tickets l = node_to_ticket (map_entries (cg_nodes c) id_map)"
    using assms(1) by (auto simp: run_tickets_async_def build_and_save_def start_launch_def register_cancel_def Let_def
        compile_error_def missing_dir_def split: sum.splits prod.splits if_splits)
  have "metadata_of (os_lattice st2) g = Some (enriched_metadata metadata (model_name model) (work_dir wd))"
    using metadata_stays [OF assms(3)] built_metadata [OF b] s(1) by simp
  moreover have "metadata_of (os_lattice st3) g = metadata_of (os_lattice st2) g"
    unfolding recover_graph_parts(1) [OF assms(5)] by (rule metadata_static [OF engine_writes_static [OF fix_nodes_writes]])
  ultimately have "stored_config (os_lattice st3) g = Some (run_config (model_name model) (work_dir wd))"
    by (simp add: stored_config_metadata enriched_config)
  moreover have "get_ticket_map (os_pm st2) g = map_entries (cg_nodes c) id_map"
    using assms(4) s(2) save_map_fresh [OF assms(2) map_entries_distinct] by simp
  ultimately show ?thesis using recover_graph_parts [OF assms(5)] l by (simp add: config_fields)
qed

definition idle :: orcha_state where
  "idle = \<lparr>os_lattice = empty_db True, os_pm = \<lparr>pm_maps = [], pm_sources = [], pm_logs = [], pm_now = 0\<rparr>,
     os_cancel = Map.empty, os_next = 0, os_cancelled = []\<rparr>"

definition plan_launched :: "run_answer \<times> orcha_state" where
  "plan_launched = run_tickets_async (\<lambda>_. True) \<lparr>bi_graph = ''g'', bi_node = plan_uuid, bi_edge = plan_uuid\<rparr> demo_plan JNull
     (Some ''opus'') (Some ''/w'') idle"

text \<open>The graph is started, and then the process ends.\<close>

definition plan_restarted :: orcha_state where
  "plan_restarted = (snd plan_launched)\<lparr>os_lattice := start_graph ''lattice-g'' (os_lattice (snd plan_launched)), os_cancel := Map.empty\<rparr>"

theorem recovery_keeps_config_witness:
  "la_model (fst (recover_graph ''lattice-g'' plan_restarted)) = Opus \<and>
   la_dir (fst (recover_graph ''lattice-g'' plan_restarted)) = ''/w''"
proof -
  have f: "fst (fst plan_launched) = [GE_Started ''lattice-g'']"
    "map_option (\<lambda>(a, l). (la_model l, la_dir l)) (snd (fst plan_launched)) = Some (Opus, ''/w'')"
    unfolding plan_launched_def run_tickets_async_def demo_plan_compiles sum.case by code_simp+
  obtain evs started st1 where p: "plan_launched = ((evs, started), st1)" by (metis prod.collapse)
  obtain a l where "started = Some (a, l)" "la_model l = Opus" "la_dir l = ''/w''"
    using f(2) by (auto simp: p)
  moreover have "evs = [GE_Started ''lattice-g'']" using f(1) unfolding p by simp
  ultimately have l: "plan_launched = (([GE_Started ''lattice-g''], Some (a, l)), st1)" "la_model l = Opus" "la_dir l = ''/w''"
    using p by simp_all
  have fresh: "get_ticket_map (os_pm idle) ''lattice-g'' = []" by code_simp
  have "lattice_step\<^sup>*\<^sup>* (os_lattice st1) (os_lattice plan_restarted)"
    "get_ticket_map (os_pm plan_restarted) ''lattice-g'' = get_ticket_map (os_pm st1) ''lattice-g''"
    unfolding plan_restarted_def l(1) by (auto intro: ls_start)
  from recovery_keeps_config [OF l(1) [unfolded plan_launched_def] fresh this prod.collapse [symmetric]]
  show ?thesis using l(2,3) by simp
qed

end
