(* ===== verification/Mneme_Program.thy ===== *)
theory Mneme_Program
  imports Claude_Render
begin

text \<open>
  Programs: one run of a skill, with its directory on disk and its row in the index.
  \<^verbatim>\<open>src/src/mneme/program/\<close> (handle, directory, manifest, trace), \<^verbatim>\<open>storage.rs\<close> (the index) and
  \<^verbatim>\<open>context.rs\<close>; the queries of \<^verbatim>\<open>activations/programs/\<close> are in \<^verbatim>\<open>Mneme_Queries\<close>.

  A file that the server writes as JSON is the value it encodes; a directory is the record of its files,
  the disk the map from the paths of program directories. Whether the operating system accepts a write is
  an argument of each operation: \<open>io path\<close> is the error, or \<open>None\<close>; a write that fails leaves the file as
  it was. The index accepts every write but a second row with the same key. Times are milliseconds;
  the manifest and the index each read the clock (\<open>now\<close>, then \<open>later\<close>).
\<close>

subsection \<open>Manifest and trace\<close>

datatype program_status = P_Running | P_Completed | P_Failed

fun program_status_str :: "program_status \<Rightarrow> string" where
  "program_status_str P_Running = ''running''"
| "program_status_str P_Completed = ''completed''"
| "program_status_str P_Failed = ''failed''"

definition parse_status :: "string \<Rightarrow> program_status option" where
  "parse_status s =
     (if s = ''running'' then Some P_Running else if s = ''completed'' then Some P_Completed
      else if s = ''failed'' then Some P_Failed else None)"

type_synonym program_id = string

record prog_manifest =
  mf_id :: program_id
  mf_parent :: "program_id option"
  mf_skill :: string
  mf_inputs :: json
  mf_inputs_version :: string
  mf_started :: int
  mf_finished :: "int option"
  mf_status :: program_status
  mf_artifact_version :: "string option"
  mf_substrate :: string
  mf_mneme :: string
  mf_version :: string
  mf_depth :: nat

definition manifest_open :: "program_id \<Rightarrow> string \<Rightarrow> json \<Rightarrow> string \<Rightarrow> string \<Rightarrow> int \<Rightarrow> prog_manifest" where
  "manifest_open i skill inputs sv mv now =
     \<lparr>mf_id = i, mf_parent = None, mf_skill = skill, mf_inputs = inputs, mf_inputs_version = ''0.1.0'', mf_started = now,
      mf_finished = None, mf_status = P_Running, mf_artifact_version = None, mf_substrate = sv, mf_mneme = mv,
      mf_version = ''0.1.0'', mf_depth = 0\<rparr>"

text \<open>The depth is a \<open>u8\<close>; \<open>saturating_add\<close>.\<close>

definition next_depth :: "nat \<Rightarrow> nat" where
  "next_depth d = min 255 (d + 1)"

definition with_parent :: "program_id \<Rightarrow> nat \<Rightarrow> prog_manifest \<Rightarrow> prog_manifest" where
  "with_parent parent d m = m\<lparr>mf_parent := Some parent, mf_depth := next_depth d\<rparr>"

definition manifest_complete :: "string \<Rightarrow> int \<Rightarrow> prog_manifest \<Rightarrow> prog_manifest" where
  "manifest_complete version now m =
     m\<lparr>mf_finished := Some now, mf_status := P_Completed, mf_artifact_version := Some version\<rparr>"

definition manifest_fail :: "int \<Rightarrow> prog_manifest \<Rightarrow> prog_manifest" where
  "manifest_fail now m = m\<lparr>mf_finished := Some now, mf_status := P_Failed\<rparr>"

definition manifest_duration :: "prog_manifest \<Rightarrow> int option" where
  "manifest_duration m = map_option (\<lambda>end. end - mf_started m) (mf_finished m)"

datatype trace_op = Swarm_Trial | Swarm_Aggregate | Swarm_Sequential | Swarm_Race | Loopback_Child

datatype trace_outcome = Trace_Ok | Trace_Err

record trace_entry =
  te_seq :: nat
  te_at :: int
  te_op :: trace_op
  te_args :: json
  te_sessions :: "string list"
  te_programs :: "string list"
  te_outcome :: trace_outcome
  te_duration :: nat

definition trace_new :: "nat \<Rightarrow> trace_op \<Rightarrow> json \<Rightarrow> string list \<Rightarrow> trace_outcome \<Rightarrow> nat \<Rightarrow> int \<Rightarrow> trace_entry" where
  "trace_new seq trop args sessions outcome duration now =
     \<lparr>te_seq = seq, te_at = now, te_op = trop, te_args = args, te_sessions = sessions, te_programs = [],
      te_outcome = outcome, te_duration = duration\<rparr>"

subsection \<open>Directories\<close>

record program_files =
  pf_manifest :: "prog_manifest option"
  pf_artifact :: "json option"
  pf_error :: "json option"
  pf_trace :: "trace_entry list"
  pf_sessions :: "string \<rightharpoonup> string"

definition no_files :: program_files where
  "no_files = \<lparr>pf_manifest = None, pf_artifact = None, pf_error = None, pf_trace = [], pf_sessions = Map.empty\<rparr>"

type_synonym disk = "string \<rightharpoonup> program_files"
type_synonym io = "string \<Rightarrow> string option"

datatype dir_error = Io_Error string string

definition dir_join :: "string \<Rightarrow> string \<Rightarrow> string" where
  "dir_join p q = p @ ''/'' @ q"

definition skills_dir :: "string \<Rightarrow> string" where
  "skills_dir root = dir_join root ''skills''"

definition sessions_dir :: "string \<Rightarrow> string" where
  "sessions_dir root = dir_join root ''sessions''"

text \<open>An access to the file \<open>path\<close> of the directory \<open>d\<close>: refused by the system, or it finds no directory.\<close>

definition write_file ::
  "io \<Rightarrow> string \<Rightarrow> string \<Rightarrow> (program_files \<Rightarrow> program_files) \<Rightarrow> disk \<Rightarrow> (dir_error, unit, disk) outcome" where
  "write_file io d path f disk =
     (case io path of
        Some e \<Rightarrow> (Inl (Io_Error path e), disk)
      | None \<Rightarrow>
          (case disk d of
             None \<Rightarrow> (Inl (Io_Error path ''No such file or directory (os error 2)''), disk)
           | Some fs \<Rightarrow> (Inr (), disk(d \<mapsto> f fs))))"

text \<open>The three directories are made in turn; what exists is kept.\<close>

definition make_dir :: "string \<Rightarrow> disk \<Rightarrow> disk" where
  "make_dir d disk = (case disk d of None \<Rightarrow> disk(d \<mapsto> no_files) | Some _ \<Rightarrow> disk)"

definition directory_create :: "io \<Rightarrow> string \<Rightarrow> program_id \<Rightarrow> disk \<Rightarrow> (dir_error, string, disk) outcome" where
  "directory_create io programs_root i disk =
     (let root = dir_join programs_root i
      in case io root of
           Some e \<Rightarrow> (Inl (Io_Error root e), disk)
         | None \<Rightarrow>
             (case io (sessions_dir root) of
                Some e \<Rightarrow> (Inl (Io_Error (sessions_dir root) e), make_dir root disk)
              | None \<Rightarrow>
                  (case io (skills_dir root) of
                     Some e \<Rightarrow> (Inl (Io_Error (skills_dir root) e), make_dir root disk)
                   | None \<Rightarrow> (Inr root, make_dir root disk))))"

definition directory_open :: "string \<Rightarrow> program_id \<Rightarrow> string" where
  "directory_open programs_root i = dir_join programs_root i"

definition write_manifest :: "io \<Rightarrow> string \<Rightarrow> prog_manifest \<Rightarrow> disk \<Rightarrow> (dir_error, unit, disk) outcome" where
  "write_manifest io d m = write_file io d (dir_join d ''manifest.json'') (\<lambda>fs. fs\<lparr>pf_manifest := Some m\<rparr>)"

definition read_manifest :: "string \<Rightarrow> disk \<Rightarrow> prog_manifest option" where
  "read_manifest d disk = Option.bind (disk d) pf_manifest"

definition write_artifact :: "io \<Rightarrow> string \<Rightarrow> json \<Rightarrow> disk \<Rightarrow> (dir_error, unit, disk) outcome" where
  "write_artifact io d v = write_file io d (dir_join d ''artifact.json'') (\<lambda>fs. fs\<lparr>pf_artifact := Some v\<rparr>)"

definition error_json :: "string \<Rightarrow> string \<Rightarrow> string \<Rightarrow> json" where
  "error_json kind message stage = JObj [(''kind'', JStr kind), (''message'', JStr message), (''stage'', JStr stage)]"

definition write_error :: "io \<Rightarrow> string \<Rightarrow> string \<Rightarrow> string \<Rightarrow> string \<Rightarrow> disk \<Rightarrow> (dir_error, unit, disk) outcome" where
  "write_error io d kind message stage =
     write_file io d (dir_join d ''error.json'') (\<lambda>fs. fs\<lparr>pf_error := Some (error_json kind message stage)\<rparr>)"

definition append_trace :: "io \<Rightarrow> string \<Rightarrow> trace_entry \<Rightarrow> disk \<Rightarrow> (dir_error, unit, disk) outcome" where
  "append_trace io d entry = write_file io d (dir_join d ''trace.jsonl'') (\<lambda>fs. fs\<lparr>pf_trace := pf_trace fs @ [entry]\<rparr>)"

definition write_session :: "io \<Rightarrow> string \<Rightarrow> string \<Rightarrow> string \<Rightarrow> disk \<Rightarrow> (dir_error, unit, disk) outcome" where
  "write_session io d s text =
     write_file io d (dir_join (sessions_dir d) (s @ ''.json'')) (\<lambda>fs. fs\<lparr>pf_sessions := (pf_sessions fs)(s \<mapsto> text)\<rparr>)"

subsection \<open>The index\<close>

record program_row =
  pw_id :: program_id
  pw_parent :: "program_id option"
  pw_skill :: string
  pw_status :: program_status
  pw_started :: int
  pw_finished :: "int option"
  pw_substrate :: string
  pw_mneme :: string
  pw_depth :: nat

text \<open>A second row with the same key is refused.\<close>

definition insert_program ::
  "program_id \<Rightarrow> program_id option \<Rightarrow> string \<Rightarrow> string \<Rightarrow> string \<Rightarrow> nat \<Rightarrow> int \<Rightarrow> program_row list \<Rightarrow>
   (string, unit, program_row list) outcome" where
  "insert_program i parent skill sv mv depth now rows =
     (if row_by pw_id i rows \<noteq> None then (Inl ''UNIQUE constraint failed: mneme_programs.program_id'', rows)
      else (Inr (), rows @
        [\<lparr>pw_id = i, pw_parent = parent, pw_skill = skill, pw_status = P_Running, pw_started = now, pw_finished = None,
          pw_substrate = sv, pw_mneme = mv, pw_depth = depth\<rparr>]))"

definition update_program_status :: "program_id \<Rightarrow> program_status \<Rightarrow> int \<Rightarrow> program_row list \<Rightarrow> program_row list" where
  "update_program_status i status now =
     update_where (\<lambda>r. pw_id r = i) (\<lambda>r. r\<lparr>pw_status := status, pw_finished := Some now\<rparr>)"

definition program_get :: "program_id \<Rightarrow> program_row list \<Rightarrow> program_row option" where
  "program_get i rows = row_by pw_id i rows"

definition program_list :: "program_status option \<Rightarrow> nat \<Rightarrow> program_row list \<Rightarrow> program_row list" where
  "program_list status limit rows =
     take limit (sort_key (\<lambda>r. - pw_started r)
       (case status of None \<Rightarrow> rows | Some s \<Rightarrow> filter (\<lambda>r. pw_status r = s) rows))"

subsection \<open>The handle of a program\<close>

record program =
  pr_dir :: string
  pr_manifest :: prog_manifest
  pr_seq :: nat
  pr_indexed :: bool

record mneme =
  mn_disk :: disk
  mn_index :: "program_row list option"

datatype program_error = Prog_Dir dir_error | Depth_Exceeded nat nat

definition max_program_depth :: nat where
  "max_program_depth = 8"

definition new_program ::
  "io \<Rightarrow> string \<Rightarrow> prog_manifest \<Rightarrow> disk \<Rightarrow> (program_error, program, disk) outcome" where
  "new_program io programs_root m disk =
     (case directory_create io programs_root (mf_id m) disk of
        (Inl e, disk1) \<Rightarrow> (Inl (Prog_Dir e), disk1)
      | (Inr d, disk1) \<Rightarrow>
          (case write_manifest io d m disk1 of
             (Inl e, disk2) \<Rightarrow> (Inl (Prog_Dir e), disk2)
           | (Inr _, disk2) \<Rightarrow> (Inr \<lparr>pr_dir = d, pr_manifest = m, pr_seq = 1, pr_indexed = False\<rparr>, disk2)))"

definition program_open ::
  "io \<Rightarrow> string \<Rightarrow> program_id \<Rightarrow> string \<Rightarrow> json \<Rightarrow> string \<Rightarrow> string \<Rightarrow> int \<Rightarrow> disk \<Rightarrow>
   (program_error, program, disk) outcome" where
  "program_open io programs_root i skill inputs sv mv now =
     new_program io programs_root (manifest_open i skill inputs sv mv now)"

definition program_open_child ::
  "io \<Rightarrow> program \<Rightarrow> program_id \<Rightarrow> string \<Rightarrow> json \<Rightarrow> int \<Rightarrow> disk \<Rightarrow> (program_error, program, disk) outcome" where
  "program_open_child io parent i skill inputs now disk =
     (let pm = pr_manifest parent; d = next_depth (mf_depth pm)
      in if max_program_depth < d then (Inl (Depth_Exceeded d max_program_depth), disk)
         else new_program io (skills_dir (pr_dir parent))
                (with_parent (mf_id pm) (mf_depth pm) (manifest_open i skill inputs (mf_substrate pm) (mf_mneme pm) now)) disk)"

text \<open>The counter is a \<open>u32\<close>: \<open>fetch_add\<close> wraps.\<close>

definition next_seq :: "program \<Rightarrow> nat \<times> program" where
  "next_seq p = (pr_seq p, p\<lparr>pr_seq := (pr_seq p + 1) mod 2 ^ 32\<rparr>)"

definition record_trace :: "io \<Rightarrow> program \<Rightarrow> trace_entry \<Rightarrow> disk \<Rightarrow> (program_error, unit, disk) outcome" where
  "record_trace io p entry disk = (case append_trace io (pr_dir p) entry disk of (r, disk1) \<Rightarrow> (map_sum Prog_Dir id r, disk1))"

text \<open>
  Closing: first the artifact (or the error), then the manifest, then the index. The first write that
  fails ends the call.
\<close>

definition close_index :: "program \<Rightarrow> program_status \<Rightarrow> int \<Rightarrow> program_row list option \<Rightarrow> program_row list option" where
  "close_index p status now idx =
     (if pr_indexed p then map_option (update_program_status (mf_id (pr_manifest p)) status now) idx else idx)"

definition close_with ::
  "(disk \<Rightarrow> (dir_error, unit, disk) outcome) \<Rightarrow> (prog_manifest \<Rightarrow> prog_manifest) \<Rightarrow> program_status \<Rightarrow> io \<Rightarrow> program \<Rightarrow> int \<Rightarrow>
   mneme \<Rightarrow> (dir_error, unit, mneme) outcome" where
  "close_with write_result finish status io p later st =
     (case write_result (mn_disk st) of
        (Inl e, disk1) \<Rightarrow> (Inl e, st\<lparr>mn_disk := disk1\<rparr>)
      | (Inr _, disk1) \<Rightarrow>
          (case write_manifest io (pr_dir p) (finish (pr_manifest p)) disk1 of
             (Inl e, disk2) \<Rightarrow> (Inl e, st\<lparr>mn_disk := disk2\<rparr>)
           | (Inr _, disk2) \<Rightarrow> (Inr (), st\<lparr>mn_disk := disk2, mn_index := close_index p status later (mn_index st)\<rparr>)))"

definition close_completed ::
  "io \<Rightarrow> program \<Rightarrow> json \<Rightarrow> string \<Rightarrow> int \<Rightarrow> int \<Rightarrow> mneme \<Rightarrow> (dir_error, unit, mneme) outcome" where
  "close_completed io p artifact version now later =
     close_with (write_artifact io (pr_dir p) artifact) (manifest_complete version now) P_Completed io p later"

definition close_failed ::
  "io \<Rightarrow> program \<Rightarrow> string \<Rightarrow> string \<Rightarrow> string \<Rightarrow> int \<Rightarrow> int \<Rightarrow> mneme \<Rightarrow> (dir_error, unit, mneme) outcome" where
  "close_failed io p kind message stage now later =
     close_with (write_error io (pr_dir p) kind message stage) (manifest_fail now) P_Failed io p later"

subsection \<open>The context\<close>

record mneme_context =
  mc_root :: string
  mc_substrate :: string
  mc_mneme :: string

text \<open>A row that cannot be inserted is only logged.\<close>

definition open_program ::
  "mneme_context \<Rightarrow> io \<Rightarrow> program_id \<Rightarrow> string \<Rightarrow> json \<Rightarrow> int \<Rightarrow> int \<Rightarrow> mneme \<Rightarrow> (program_error, program, mneme) outcome" where
  "open_program cx io i skill inputs now later st =
     (case program_open io (mc_root cx) i skill inputs (mc_substrate cx) (mc_mneme cx) now (mn_disk st) of
        (Inl e, disk1) \<Rightarrow> (Inl e, st\<lparr>mn_disk := disk1\<rparr>)
      | (Inr p, disk1) \<Rightarrow>
          (case mn_index st of
             None \<Rightarrow> (Inr p, st\<lparr>mn_disk := disk1\<rparr>)
           | Some rows \<Rightarrow>
               (Inr (p\<lparr>pr_indexed := True\<rparr>),
                st\<lparr>mn_disk := disk1,
                   mn_index := Some (snd (insert_program i None skill (mc_substrate cx) (mc_mneme cx)
                                            (mf_depth (pr_manifest p)) later rows))\<rparr>)))"

end
