(* ===== verification/Mneme_Queries.thy ===== *)
theory Mneme_Queries
  imports Mneme_Program
begin

text \<open>
  The methods of \<^verbatim>\<open>src/src/activations/programs/\<close>: status and list read the index, inspect and wait the
  directory. \<open>uuid\<close> is \<open>Uuid::parse_str\<close>: the canonical text, or the error. A file that is read was written
  completely: that a reader meets half of a write, or no permission to read, is left out.
\<close>

record program_summary =
  su_id :: program_id
  su_parent :: "program_id option"
  su_skill :: string
  su_status :: string
  su_started :: int
  su_finished :: "int option"
  su_depth :: nat

definition row_to_summary :: "program_row \<Rightarrow> program_summary" where
  "row_to_summary r =
     \<lparr>su_id = pw_id r, su_parent = pw_parent r, su_skill = pw_skill r, su_status = program_status_str (pw_status r),
      su_started = pw_started r, su_finished = pw_finished r, su_depth = pw_depth r\<rparr>"

definition parse_program_id :: "(string \<Rightarrow> string + string) \<Rightarrow> string \<Rightarrow> string + program_id" where
  "parse_program_id uuid s =
     (case uuid s of Inl e \<Rightarrow> Inl (''invalid program_id `'' @ s @ ''`: '' @ e) | Inr i \<Rightarrow> Inr i)"

datatype status_event = SE_Status program_summary | SE_NotFound string | SE_Error string

definition programs_status :: "(string \<Rightarrow> string + string) \<Rightarrow> string \<Rightarrow> mneme \<Rightarrow> status_event" where
  "programs_status uuid s st =
     (case mn_index st of
        None \<Rightarrow> SE_Error ''no SQLite storage attached to this substrate''
      | Some rows \<Rightarrow>
          (case parse_program_id uuid s of
             Inl e \<Rightarrow> SE_Error e
           | Inr i \<Rightarrow> (case program_get i rows of None \<Rightarrow> SE_NotFound s | Some r \<Rightarrow> SE_Status (row_to_summary r))))"

datatype list_event = LE_Program program_summary | LE_Completed nat | LE_Error string

definition programs_list :: "string option \<Rightarrow> nat option \<Rightarrow> mneme \<Rightarrow> list_event list" where
  "programs_list status limit st =
     (case mn_index st of
        None \<Rightarrow> [LE_Error ''no SQLite storage attached'']
      | Some rows \<Rightarrow>
          (case map_option parse_status status of
             Some None \<Rightarrow>
               [LE_Error (''unknown status `'' @ (case status of None \<Rightarrow> [] | Some s \<Rightarrow> s) @
                  ''`; expected running|completed|failed'')]
           | filtered \<Rightarrow>
               (let found = program_list (Option.bind filtered id) (case limit of None \<Rightarrow> 50 | Some n \<Rightarrow> n) rows
                in map (\<lambda>r. LE_Program (row_to_summary r)) found @ [LE_Completed (length found)])))"

record program_detail =
  pd_id :: string
  pd_manifest :: prog_manifest
  pd_artifact :: "json option"
  pd_error :: "json option"
  pd_trace_count :: nat

datatype inspect_event = IE_Detail program_detail | IE_NotFound string | IE_Error string

definition programs_inspect :: "(string \<Rightarrow> string + string) \<Rightarrow> mneme_context \<Rightarrow> string \<Rightarrow> mneme \<Rightarrow> inspect_event" where
  "programs_inspect uuid cx s st =
     (case parse_program_id uuid s of
        Inl e \<Rightarrow> IE_Error e
      | Inr i \<Rightarrow>
          (let d = directory_open (mc_root cx) i
           in case (mn_disk st d, read_manifest d (mn_disk st)) of
                (Some fs, Some m) \<Rightarrow>
                  IE_Detail \<lparr>pd_id = s, pd_manifest = m, pd_artifact = pf_artifact fs, pd_error = pf_error fs,
                    pd_trace_count = length (pf_trace fs)\<rparr>
              | _ \<Rightarrow> IE_NotFound s))"

subsection \<open>Waiting\<close>

text \<open>
  A round of \<open>wait\<close>: the disk that it finds, the time waited so far when it starts, and whether the time is
  up when it ends. \<open>None\<close> as the end: still waiting.
\<close>

datatype wait_end =
    WE_Completed string json nat
  | WE_Failed string json nat
  | WE_TimedOut string string nat
  | WE_NotFound string

datatype wait_event = WE_Progress string string nat

record wait_round =
  wr_disk :: disk
  wr_waited :: nat
  wr_late :: bool

definition or_unknown :: "string option \<Rightarrow> string" where
  "or_unknown s = (case s of None \<Rightarrow> ''unknown'' | Some t \<Rightarrow> t)"

fun wait_loop :: "string \<Rightarrow> string \<Rightarrow> string option \<Rightarrow> wait_round list \<Rightarrow> wait_event list \<times> wait_end option" where
  "wait_loop d s lst [] = ([], None)"
| "wait_loop d s lst (w # ws) =
     (case read_manifest d (wr_disk w) of
        None \<Rightarrow> ([], Some (if lst = None then WE_NotFound s else WE_TimedOut s (or_unknown lst) (wr_waited w)))
      | Some m \<Rightarrow>
          (let status = program_status_str (mf_status m);
               seen = (if lst = Some status then [] else [WE_Progress s status (wr_waited w)]);
               files = wr_disk w d
           in case mf_status m of
                P_Completed \<Rightarrow>
                  (seen, Some (WE_Completed s (case Option.bind files pf_artifact of None \<Rightarrow> JObj [] | Some v \<Rightarrow> v) (wr_waited w)))
              | P_Failed \<Rightarrow>
                  (seen, Some (WE_Failed s (case Option.bind files pf_error of
                     None \<Rightarrow> JObj [(''message'', JStr ''no error.json'')] | Some v \<Rightarrow> v) (wr_waited w)))
              | P_Running \<Rightarrow>
                  if wr_late w then (seen, Some (WE_TimedOut s status (wr_waited w)))
                  else (case wait_loop d s (Some status) ws of (evs, e) \<Rightarrow> (seen @ evs, e))))"

definition programs_wait ::
  "(string \<Rightarrow> string + string) \<Rightarrow> mneme_context \<Rightarrow> string \<Rightarrow> wait_round list \<Rightarrow> wait_event list \<times> wait_end option" where
  "programs_wait uuid cx s rounds =
     (case parse_program_id uuid s of
        Inl _ \<Rightarrow> ([], Some (WE_NotFound s))
      | Inr i \<Rightarrow> wait_loop (directory_open (mc_root cx) i) s None rounds)"

end
