(* ===== verification/Mneme_Program_Props.thy ===== *)
theory Mneme_Program_Props
  imports Mneme_Queries
begin

text \<open>
  The life of programs: all operations, of any number of programs at once, with any failures of the file
  system, as a step relation. The index agrees with the manifests on disk, a closed program has its result
  and stays as it is, and whoever waits for it is given that result.
\<close>

subsection \<open>Runs\<close>

text \<open>
  A state has the handles that are in use. A handle is given away by the call that closes the program, and
  all handles are lost when the server is restarted. New directories have fresh names (\<open>Uuid::new_v4\<close>).
\<close>

inductive program_step :: "mneme_context \<Rightarrow> program list \<times> mneme \<Rightarrow> program list \<times> mneme \<Rightarrow> bool" for cx where
  ps_open: "\<lbrakk>mn_disk st (dir_join (mc_root cx) i) = None; open_program cx io i skill inputs now later st = (r, st')\<rbrakk>
     \<Longrightarrow> program_step cx (live, st) (case r of Inl _ \<Rightarrow> live | Inr p \<Rightarrow> p # live, st')"
| ps_child: "\<lbrakk>parent \<in> set live; mn_disk st (dir_join (skills_dir (pr_dir parent)) i) = None;
      program_open_child io parent i skill inputs now (mn_disk st) = (r, disk')\<rbrakk>
     \<Longrightarrow> program_step cx (live, st) (case r of Inl _ \<Rightarrow> live | Inr p \<Rightarrow> p # live, st\<lparr>mn_disk := disk'\<rparr>)"
| ps_trace: "\<lbrakk>p \<in> set live; record_trace io p entry (mn_disk st) = (r, disk')\<rbrakk>
     \<Longrightarrow> program_step cx (live, st) (map (\<lambda>q. if q = p then snd (next_seq p) else q) live, st\<lparr>mn_disk := disk'\<rparr>)"
| ps_session: "\<lbrakk>p \<in> set live; write_session io (pr_dir p) s text (mn_disk st) = (r, disk')\<rbrakk>
     \<Longrightarrow> program_step cx (live, st) (live, st\<lparr>mn_disk := disk'\<rparr>)"
| ps_complete: "\<lbrakk>p \<in> set live; close_completed io p artifact version now later st = (r, st')\<rbrakk>
     \<Longrightarrow> program_step cx (live, st) (remove1 p live, st')"
| ps_fail: "\<lbrakk>p \<in> set live; close_failed io p kind message stage now later st = (r, st')\<rbrakk>
     \<Longrightarrow> program_step cx (live, st) (remove1 p live, st')"
| ps_restart: "program_step cx (live, st) ([], st)"

abbreviation program_reach :: "mneme_context \<Rightarrow> program list \<times> mneme \<Rightarrow> bool" where
  "program_reach cx x \<equiv> (program_step cx)\<^sup>*\<^sup>* ([], \<lparr>mn_disk = Map.empty, mn_index = Some []\<rparr>) x"

subsection \<open>The invariant\<close>

text \<open>What a row and a manifest have in common.\<close>

definition row_shows :: "program_row \<Rightarrow> prog_manifest \<Rightarrow> bool" where
  "row_shows r m \<longleftrightarrow> pw_id r = mf_id m \<and> pw_parent r = mf_parent m \<and> pw_skill r = mf_skill m \<and> pw_status r = mf_status m \<and>
     (pw_finished r = None \<longleftrightarrow> mf_finished m = None) \<and> pw_substrate r = mf_substrate m \<and> pw_mneme r = mf_mneme m \<and>
     pw_depth r = mf_depth m"

text \<open>The manifest of the top-level program with a given identifier.\<close>

definition top_manifest :: "mneme_context \<Rightarrow> disk \<Rightarrow> program_id \<Rightarrow> prog_manifest option" where
  "top_manifest cx disk i =
     Option.bind (read_manifest (dir_join (mc_root cx) i) disk) (\<lambda>m. if mf_parent m = None then Some m else None)"

text \<open>What the files of a directory hold, by the status in its manifest.\<close>

definition files_ok :: "program_files \<Rightarrow> bool" where
  "files_ok fs \<longleftrightarrow>
     (case pf_manifest fs of
        None \<Rightarrow> True
      | Some m \<Rightarrow> mf_depth m \<le> max_program_depth \<and>
          (case mf_status m of
             P_Running \<Rightarrow> mf_finished m = None \<and> mf_artifact_version m = None
           | P_Completed \<Rightarrow> mf_finished m \<noteq> None \<and> mf_artifact_version m \<noteq> None \<and> pf_artifact fs \<noteq> None
           | P_Failed \<Rightarrow> mf_finished m \<noteq> None \<and> mf_artifact_version m = None \<and> pf_error fs \<noteq> None))"

definition live_ok :: "mneme_context \<Rightarrow> disk \<Rightarrow> program \<Rightarrow> bool" where
  "live_ok cx disk p \<longleftrightarrow>
     read_manifest (pr_dir p) disk = Some (pr_manifest p) \<and> mf_status (pr_manifest p) = P_Running \<and>
     (if pr_indexed p then mf_parent (pr_manifest p) = None \<and> pr_dir p = dir_join (mc_root cx) (mf_id (pr_manifest p))
      else mf_parent (pr_manifest p) \<noteq> None)"

definition programs_ok :: "mneme_context \<Rightarrow> program list \<times> mneme \<Rightarrow> bool" where
  "programs_ok cx x \<longleftrightarrow>
     (\<forall>p \<in> set (fst x). live_ok cx (mn_disk (snd x)) p) \<and> distinct (map pr_dir (fst x)) \<and>
     (\<forall>d fs. mn_disk (snd x) d = Some fs \<longrightarrow> files_ok fs) \<and>
     (\<exists>rows. mn_index (snd x) = Some rows \<and>
        (\<forall>i. rel_option row_shows (program_get i rows) (top_manifest cx (mn_disk (snd x)) i)))"

subsection \<open>Writing a file\<close>

lemma write_file_cases:
  assumes "write_file io d path f disk = (r, disk')"
  shows "(\<exists>e. r = Inl e \<and> disk' = disk) \<or> (\<exists>fs. r = Inr () \<and> disk d = Some fs \<and> disk' = disk(d \<mapsto> f fs))"
proof (cases "io path")
  case None
  then show ?thesis using assms by (cases "disk d") (auto simp: write_file_def)
qed (use assms in \<open>auto simp: write_file_def\<close>)

text \<open>Writes that leave the manifest as it is.\<close>

definition beside :: "string \<Rightarrow> disk \<Rightarrow> disk \<Rightarrow> bool" where
  "beside d disk disk' \<longleftrightarrow> (\<forall>d'. d' \<noteq> d \<longrightarrow> disk' d' = disk d') \<and>
     map_option pf_manifest (disk' d) = map_option pf_manifest (disk d)"

lemma beside_refl [simp]: "beside d disk disk"
  by (simp add: beside_def)

lemma beside_manifest: "beside d disk disk' \<Longrightarrow> read_manifest d' disk' = read_manifest d' disk"
  by (cases "d' = d"; cases "disk d"; cases "disk' d") (auto simp: beside_def read_manifest_def)

lemma beside_written:
  assumes "write_file io d path f disk = (r, disk')" and "\<And>fs. pf_manifest (f fs) = pf_manifest fs"
  shows "beside d disk disk'"
  using write_file_cases [OF assms(1)] by (auto simp: beside_def assms(2))

lemma beside_made: "disk d = None \<Longrightarrow> disk' = disk \<or> disk' = make_dir d disk \<Longrightarrow> read_manifest d' disk' = read_manifest d' disk"
  by (auto simp: make_dir_def read_manifest_def no_files_def)

subsection \<open>New programs\<close>

lemma new_program_cases:
  fixes root m
  defines "d \<equiv> dir_join root (mf_id m)"
  assumes "new_program io root m disk = (r, disk')" and "disk d = None"
  shows "(\<exists>e. r = Inl e \<and> (disk' = disk \<or> disk' = make_dir d disk)) \<or>
    (r = Inr \<lparr>pr_dir = d, pr_manifest = m, pr_seq = 1, pr_indexed = False\<rparr> \<and>
     disk' = disk(d \<mapsto> no_files\<lparr>pf_manifest := Some m\<rparr>))"
proof (cases "directory_create io root (mf_id m) disk")
  case (Pair created disk1)
  show ?thesis
  proof (cases created)
    case (Inl e)
    then show ?thesis using Pair assms
      by (auto simp: new_program_def directory_create_def Let_def split: option.splits)
  next
    case (Inr d1)
    then have c: "d1 = d" "disk1 = make_dir d disk"
      using Pair by (auto simp: directory_create_def d_def Let_def split: option.splits)
    obtain r2 disk2 where w: "write_manifest io d m disk1 = (r2, disk2)" by fastforce
    have "disk1 d = Some no_files" using c assms(3) by (simp add: make_dir_def)
    then show ?thesis using write_file_cases [OF w [unfolded write_manifest_def]] w Pair Inr c assms
      by (auto simp: new_program_def make_dir_def)
  qed
qed

subsection \<open>Steps that leave the manifests as they are\<close>

lemma files_ok_running:
  "pf_manifest fs = Some m \<Longrightarrow> mf_status m = P_Running \<Longrightarrow> pf_manifest fs' = pf_manifest fs \<Longrightarrow> files_ok fs' = files_ok fs"
  by (simp add: files_ok_def)

lemma live_files:
  assumes "programs_ok cx (live, st)" and "p \<in> set live"
  obtains fs where "mn_disk st (pr_dir p) = Some fs" "files_ok fs" "pf_manifest fs = Some (pr_manifest p)"
    "mf_status (pr_manifest p) = P_Running"
proof -
  have "live_ok cx (mn_disk st) p" using assms by (simp add: programs_ok_def)
  then obtain fs where "mn_disk st (pr_dir p) = Some fs" "pf_manifest fs = Some (pr_manifest p)" "mf_status (pr_manifest p) = P_Running"
    by (auto simp: live_ok_def read_manifest_def bind_eq_Some_conv)
  then show ?thesis using that assms by (simp add: programs_ok_def)
qed

lemma live_manifest:
  assumes "programs_ok cx (live, st)" and "p \<in> set live"
  shows "mf_depth (pr_manifest p) \<le> max_program_depth \<and> mf_artifact_version (pr_manifest p) = None"
  using live_files [OF assms] by (fastforce simp: files_ok_def)

lemma beside_running:
  assumes "programs_ok cx (live, st)" and "p \<in> set live" and "beside (pr_dir p) (mn_disk st) disk'"
  shows "programs_ok cx (live, st\<lparr>mn_disk := disk'\<rparr>)"
proof -
  have m: "read_manifest d disk' = read_manifest d (mn_disk st)" for d by (rule beside_manifest [OF assms(3)])
  have l: "live_ok cx disk' q = live_ok cx (mn_disk st) q" for q by (simp add: live_ok_def m)
  have t: "top_manifest cx disk' i = top_manifest cx (mn_disk st) i" for i by (simp add: top_manifest_def m)
  have "files_ok fs'" if "disk' d = Some fs'" for d fs'
  proof (cases "d = pr_dir p")
    case True
    obtain fs where fs: "mn_disk st d = Some fs" "files_ok fs" "pf_manifest fs = Some (pr_manifest p)"
        "mf_status (pr_manifest p) = P_Running"
      using live_files [OF assms(1,2)] True by metis
    moreover have "pf_manifest fs' = pf_manifest fs" using assms(3) that fs True by (simp add: beside_def)
    ultimately show ?thesis using files_ok_running by metis
  qed (use assms that in \<open>auto simp: beside_def programs_ok_def\<close>)
  then show ?thesis using assms(1) by (simp add: programs_ok_def l t)
qed

lemma fewer_handles:
  "programs_ok cx (live, st) \<Longrightarrow> set live' \<subseteq> set live \<Longrightarrow> distinct (map pr_dir live') \<Longrightarrow> programs_ok cx (live', st)"
  by (auto simp: programs_ok_def)

lemma remove_handle: "programs_ok cx (live, st) \<Longrightarrow> programs_ok cx (remove1 p live, st)"
  using set_remove1_subset [of p live]
  by (auto simp: programs_ok_def distinct_map inj_on_def intro!: fewer_handles)

subsection \<open>Closing\<close>

lemma close_with_cases:
  assumes "close_with (write_file io (pr_dir p) path f) finish status io p later st = (r, st')"
    and f: "\<And>fs. pf_manifest (f fs) = pf_manifest fs"
  shows "(\<exists>e. r = Inl e \<and> beside (pr_dir p) (mn_disk st) (mn_disk st') \<and> st' = st\<lparr>mn_disk := mn_disk st'\<rparr>) \<or>
    (\<exists>fs. r = Inr () \<and> mn_disk st (pr_dir p) = Some fs \<and>
       st' = st\<lparr>mn_disk := (mn_disk st)(pr_dir p \<mapsto> (f fs)\<lparr>pf_manifest := Some (finish (pr_manifest p))\<rparr>),
                mn_index := close_index p status later (mn_index st)\<rparr>)"
proof -
  obtain r1 disk1 where w: "write_file io (pr_dir p) path f (mn_disk st) = (r1, disk1)" by fastforce
  obtain r2 disk2 where v: "write_manifest io (pr_dir p) (finish (pr_manifest p)) disk1 = (r2, disk2)" by fastforce
  note b = beside_written [OF w f]
  show ?thesis
  proof (cases r1)
    case (Inl e)
    then show ?thesis using assms(1) w b by (auto simp: close_with_def)
  next
    case (Inr u)
    then obtain fs where fs: "mn_disk st (pr_dir p) = Some fs" "disk1 = (mn_disk st)(pr_dir p \<mapsto> f fs)"
      using write_file_cases [OF w] by auto
    from write_file_cases [OF v [unfolded write_manifest_def]] show ?thesis
      using assms(1) w v Inr b fs by (auto simp: close_with_def)
  qed
qed

lemma rel_option_update:
  assumes "rel_option row_shows (program_get j rows) m"
    and "j = i \<Longrightarrow> rel_option row_shows (map_option (\<lambda>r. r\<lparr>pw_status := s, pw_finished := Some t\<rparr>) (program_get j rows)) m'"
    and "j \<noteq> i \<Longrightarrow> m' = m"
  shows "rel_option row_shows (program_get j (update_program_status i s t rows)) m'"
  using assms by (auto simp: program_get_def update_program_status_def row_by_update_where)

text \<open>What finishing does to a manifest.\<close>

definition finishes :: "program_status \<Rightarrow> (prog_manifest \<Rightarrow> prog_manifest) \<Rightarrow> bool" where
  "finishes status finish \<longleftrightarrow> (\<forall>m. mf_status (finish m) = status \<and> mf_finished (finish m) \<noteq> None \<and>
     mf_id (finish m) = mf_id m \<and> mf_parent (finish m) = mf_parent m \<and> mf_skill (finish m) = mf_skill m \<and>
     mf_substrate (finish m) = mf_substrate m \<and> mf_mneme (finish m) = mf_mneme m \<and> mf_depth (finish m) = mf_depth m)"

lemma finishing: "finishes P_Completed (manifest_complete v t)" "finishes P_Failed (manifest_fail t)"
  by (simp_all add: finishes_def manifest_complete_def manifest_fail_def)

lemma closed_ok:
  assumes ok: "programs_ok cx (live, st)" and p: "p \<in> set live" and fin: "finishes status finish"
    and fs: "files_ok (fs'\<lparr>pf_manifest := Some (finish (pr_manifest p))\<rparr>)"
    and st': "st' = st\<lparr>mn_disk := (mn_disk st)(pr_dir p \<mapsto> fs'\<lparr>pf_manifest := Some (finish (pr_manifest p))\<rparr>),
        mn_index := close_index p status later (mn_index st)\<rparr>"
  shows "programs_ok cx (remove1 p live, st')"
proof -
  let ?root = "mc_root cx" and ?m = "pr_manifest p"
  have dist: "distinct (map pr_dir live)" and lp: "live_ok cx (mn_disk st) p" using ok p by (auto simp: programs_ok_def)
  have other: "pr_dir q \<noteq> pr_dir p \<and> live_ok cx (mn_disk st) q" if "q \<in> set (remove1 p live)" for q
    using that ok p dist by (auto simp: programs_ok_def distinct_map inj_on_def)
  have l: "live_ok cx (mn_disk st') q" if "q \<in> set (remove1 p live)" for q
    using other [OF that] by (simp add: live_ok_def read_manifest_def st')
  have top: "top_manifest cx (mn_disk st') i =
      (if dir_join ?root i = pr_dir p then (if mf_parent ?m = None then Some (finish ?m) else None)
       else top_manifest cx (mn_disk st) i)" for i
    using fin by (simp add: top_manifest_def read_manifest_def st' finishes_def)
  have old: "read_manifest (pr_dir p) (mn_disk st) = Some ?m" using lp by (simp add: live_ok_def)
  obtain rows where rows: "mn_index st = Some rows"
      "\<And>i. rel_option row_shows (program_get i rows) (top_manifest cx (mn_disk st) i)"
    using ok by (auto simp: programs_ok_def)
  have "\<exists>rows'. mn_index st' = Some rows' \<and> (\<forall>i. rel_option row_shows (program_get i rows') (top_manifest cx (mn_disk st') i))"
  proof (cases "pr_indexed p")
    case True
    then have d: "pr_dir p = dir_join ?root (mf_id ?m)" "mf_parent ?m = None" using lp by (simp_all add: live_ok_def)
    have "rel_option row_shows (program_get i (update_program_status (mf_id ?m) status later rows)) (top_manifest cx (mn_disk st') i)" for i
    proof (rule rel_option_update [OF rows(2)])
      assume i: "i = mf_id ?m"
      have "top_manifest cx (mn_disk st) i = Some ?m" using d i old by (simp add: top_manifest_def)
      then obtain r where "program_get i rows = Some r" "row_shows r ?m"
        using rows(2) [of i] by (auto simp: option_rel_Some2)
      then show "rel_option row_shows (map_option (\<lambda>r. r\<lparr>pw_status := status, pw_finished := Some later\<rparr>) (program_get i rows))
          (top_manifest cx (mn_disk st') i)"
        using i d fin by (simp add: top row_shows_def finishes_def)
    next
      assume "i \<noteq> mf_id ?m"
      then show "top_manifest cx (mn_disk st') i = top_manifest cx (mn_disk st) i" using d by (simp add: top dir_join_def)
    qed
    then show ?thesis using True rows(1) by (simp add: st' close_index_def)
  next
    case False
    then have "mf_parent ?m \<noteq> None" using lp by (simp add: live_ok_def)
    then have "top_manifest cx (mn_disk st') i = top_manifest cx (mn_disk st) i" for i
      using old unfolding top by (auto simp: top_manifest_def)
    then show ?thesis using False rows by (simp add: st' close_index_def)
  qed
  moreover have "\<forall>d fs. mn_disk st' d = Some fs \<longrightarrow> files_ok fs" using ok fs by (auto simp: programs_ok_def st')
  moreover have "distinct (map pr_dir (remove1 p live))" using dist by (metis remove_handle [OF ok] programs_ok_def fst_conv)
  ultimately show ?thesis using l by (simp add: programs_ok_def)
qed

subsection \<open>Opening\<close>

lemma opened_ok:
  assumes ok: "programs_ok cx (live, st)" and new: "mn_disk st (pr_dir p) = None"
    and run: "mf_status (pr_manifest p) = P_Running" "mf_finished (pr_manifest p) = None" "mf_artifact_version (pr_manifest p) = None"
      "mf_depth (pr_manifest p) \<le> max_program_depth"
    and idx: "if pr_indexed p then mf_parent (pr_manifest p) = None \<and> pr_dir p = dir_join (mc_root cx) (mf_id (pr_manifest p)) \<and>
         (\<exists>rows r. mn_index st = Some rows \<and> idx' = Some (rows @ [r]) \<and> row_shows r (pr_manifest p))
       else mf_parent (pr_manifest p) \<noteq> None \<and> idx' = mn_index st"
  shows "programs_ok cx (p # live, st\<lparr>mn_disk := (mn_disk st)(pr_dir p \<mapsto> no_files\<lparr>pf_manifest := Some (pr_manifest p)\<rparr>), mn_index := idx'\<rparr>)"
    (is "programs_ok cx (_, ?st')")
proof -
  let ?m = "pr_manifest p"
  have none: "read_manifest (pr_dir p) (mn_disk st) = None" using new by (simp add: read_manifest_def)
  have other: "pr_dir q \<noteq> pr_dir p \<and> live_ok cx (mn_disk ?st') q" if "q \<in> set live" for q
    using that ok none by (auto simp: programs_ok_def live_ok_def read_manifest_def)
  have "live_ok cx (mn_disk ?st') p" using run idx by (simp add: live_ok_def read_manifest_def split: if_splits)
  have top: "top_manifest cx (mn_disk ?st') i =
      (if dir_join (mc_root cx) i = pr_dir p \<and> mf_parent ?m = None then Some ?m else top_manifest cx (mn_disk st) i)" for i
    using new by (auto simp: top_manifest_def read_manifest_def)
  obtain rows where rows: "mn_index st = Some rows"
      "\<And>i. rel_option row_shows (program_get i rows) (top_manifest cx (mn_disk st) i)"
    using ok by (auto simp: programs_ok_def)
  have "\<exists>rows'. idx' = Some rows' \<and> (\<forall>i. rel_option row_shows (program_get i rows') (top_manifest cx (mn_disk ?st') i))"
  proof (cases "pr_indexed p")
    case True
    then obtain r where r: "idx' = Some (rows @ [r])" "row_shows r ?m"
        and d: "pr_dir p = dir_join (mc_root cx) (mf_id ?m)" "mf_parent ?m = None"
      using idx rows(1) by auto
    have "program_get (mf_id ?m) rows = None"
      using rows(2) [of "mf_id ?m"] none d by (simp add: top_manifest_def)
    then have "program_get i (rows @ [r]) = (if i = mf_id ?m then Some r else program_get i rows)" for i
      using r(2) by (auto simp: program_get_def row_by_append row_shows_def split: option.split)
    moreover have "dir_join (mc_root cx) i = pr_dir p \<longleftrightarrow> i = mf_id ?m" for i using d by (simp add: dir_join_def)
    ultimately have "rel_option row_shows (program_get i (rows @ [r])) (top_manifest cx (mn_disk ?st') i)" for i
      unfolding top using r(2) rows(2) d(2) by auto
    then show ?thesis using r(1) by blast
  next
    case False
    then show ?thesis unfolding top using idx rows by auto
  qed
  moreover have "pr_dir p \<notin> pr_dir ` set live" using other by force
  then have "distinct (map pr_dir (p # live))" using ok by (simp add: programs_ok_def)
  moreover have "files_ok (no_files\<lparr>pf_manifest := Some ?m\<rparr>)" using run by (simp add: files_ok_def)
  ultimately show ?thesis using ok other \<open>live_ok cx (mn_disk ?st') p\<close> by (auto simp: programs_ok_def)
qed

lemma made_dir_ok:
  assumes "programs_ok cx (live, st)" and "mn_disk st d = None"
  shows "programs_ok cx (live, st\<lparr>mn_disk := make_dir d (mn_disk st)\<rparr>)"
proof -
  have m: "read_manifest d' (make_dir d (mn_disk st)) = read_manifest d' (mn_disk st)" for d'
    using assms(2) beside_made by metis
  then have "top_manifest cx (make_dir d (mn_disk st)) i = top_manifest cx (mn_disk st) i"
    "live_ok cx (make_dir d (mn_disk st)) p = live_ok cx (mn_disk st) p" for i p
    by (simp_all add: top_manifest_def live_ok_def)
  then show ?thesis using assms by (auto simp: programs_ok_def make_dir_def files_ok_def no_files_def)
qed

lemma new_program_ok:
  assumes "programs_ok cx (live, st)" and "mn_disk st (dir_join root (mf_id m)) = None"
    and "new_program io root m (mn_disk st) = (Inl e, disk')"
  shows "programs_ok cx (live, st\<lparr>mn_disk := disk'\<rparr>)"
  using new_program_cases [OF assms(3,2)] made_dir_ok [OF assms(1,2)] assms(1) by auto

subsection \<open>All steps\<close>

lemma step_ok: "program_step cx x y \<Longrightarrow> programs_ok cx x \<Longrightarrow> programs_ok cx y"
proof (induction rule: program_step.induct)
  case (ps_open st i io skill inputs now later r st' live)
  let ?m = "manifest_open i skill inputs (mc_substrate cx) (mc_mneme cx) now"
  obtain rows where rows: "mn_index st = Some rows"
      "\<And>i. rel_option row_shows (program_get i rows) (top_manifest cx (mn_disk st) i)"
    using ps_open.prems by (auto simp: programs_ok_def)
  have id: "mf_id ?m = i" by (simp add: manifest_open_def)
  have "program_get i rows = None"
    using rows(2) [of i] ps_open.hyps(1) by (simp add: top_manifest_def read_manifest_def)
  then have row: "\<exists>r. snd (insert_program i None skill (mc_substrate cx) (mc_mneme cx) (mf_depth ?m) later rows) = rows @ [r] \<and> row_shows r ?m"
    by (simp add: insert_program_def program_get_def row_shows_def manifest_open_def)
  obtain r1 disk1 where n: "new_program io (mc_root cx) ?m (mn_disk st) = (r1, disk1)" by fastforce
  have new: "mn_disk st (dir_join (mc_root cx) (mf_id ?m)) = None" using ps_open.hyps(1) id by simp
  show ?case
  proof (cases r1)
    case (Inl e)
    then show ?thesis using new_program_ok [OF ps_open.prems new] n ps_open.hyps(2) by (auto simp: open_program_def program_open_def)
  next
    case (Inr p1)
    then have r1: "r1 = Inr \<lparr>pr_dir = dir_join (mc_root cx) (mf_id ?m), pr_manifest = ?m, pr_seq = 1, pr_indexed = False\<rparr>"
      and d1: "disk1 = (mn_disk st)(dir_join (mc_root cx) (mf_id ?m) \<mapsto> no_files\<lparr>pf_manifest := Some ?m\<rparr>)"
      using new_program_cases [OF n new] by auto
    let ?p = "\<lparr>pr_dir = dir_join (mc_root cx) (mf_id ?m), pr_manifest = ?m, pr_seq = 1, pr_indexed = True\<rparr>"
    let ?idx = "Some (snd (insert_program i None skill (mc_substrate cx) (mc_mneme cx) (mf_depth ?m) later rows))"
    have "r = Inr ?p" "st' = st\<lparr>mn_disk := disk1, mn_index := ?idx\<rparr>"
      using ps_open.hyps(2) n r1 rows(1) by (auto simp: open_program_def program_open_def)
    moreover have "programs_ok cx (?p # live, st\<lparr>mn_disk := (mn_disk st)(pr_dir ?p \<mapsto> no_files\<lparr>pf_manifest := Some (pr_manifest ?p)\<rparr>), mn_index := ?idx\<rparr>)"
      using ps_open.prems new rows(1) row
      by (intro opened_ok) (auto simp: manifest_open_def max_program_depth_def)
    ultimately show ?thesis using d1 by simp
  qed
next
  case (ps_child parent live st i io skill inputs now r disk')
  let ?pm = "pr_manifest parent"
  let ?m = "with_parent (mf_id ?pm) (mf_depth ?pm) (manifest_open i skill inputs (mf_substrate ?pm) (mf_mneme ?pm) now)"
  have id: "mf_id ?m = i" by (simp add: with_parent_def manifest_open_def)
  show ?case
  proof (cases "max_program_depth < next_depth (mf_depth ?pm)")
    case True
    then show ?thesis using ps_child by (auto simp: program_open_child_def Let_def)
  next
    case False
    then have n: "new_program io (skills_dir (pr_dir parent)) ?m (mn_disk st) = (r, disk')"
      using ps_child.hyps by (simp add: program_open_child_def Let_def)
    have new: "mn_disk st (dir_join (skills_dir (pr_dir parent)) (mf_id ?m)) = None" using ps_child.hyps(2) id by simp
    show ?thesis
    proof (cases r)
      case (Inl e)
      then show ?thesis using new_program_ok [OF ps_child.prems new] n by auto
    next
      case (Inr p1)
      let ?p = "\<lparr>pr_dir = dir_join (skills_dir (pr_dir parent)) (mf_id ?m), pr_manifest = ?m, pr_seq = 1, pr_indexed = False\<rparr>"
      have "r = Inr ?p" and "disk' = (mn_disk st)(dir_join (skills_dir (pr_dir parent)) (mf_id ?m) \<mapsto> no_files\<lparr>pf_manifest := Some ?m\<rparr>)"
        using Inr new_program_cases [OF n new] by auto
      moreover have "programs_ok cx (?p # live, st\<lparr>mn_disk := (mn_disk st)(pr_dir ?p \<mapsto> no_files\<lparr>pf_manifest := Some (pr_manifest ?p)\<rparr>), mn_index := mn_index st\<rparr>)"
        using ps_child.prems new False by (intro opened_ok) (simp_all add: with_parent_def manifest_open_def)
      ultimately show ?thesis by simp
    qed
  qed
next
  case (ps_trace p live io entry st r disk')
  have b: "beside (pr_dir p) (mn_disk st) disk'"
    using ps_trace.hyps(2) beside_written by (fastforce simp: record_trace_def append_trace_def split: prod.splits)
  have "programs_ok cx (live, st\<lparr>mn_disk := disk'\<rparr>)" using ps_trace.prems ps_trace.hyps(1) b by (rule beside_running)
  moreover have "map pr_dir (map (\<lambda>q. if q = p then snd (next_seq p) else q) live) = map pr_dir live" by (simp add: next_seq_def)
  moreover have "live_ok cx disk' (snd (next_seq q)) = live_ok cx disk' q" for q by (simp add: live_ok_def next_seq_def)
  ultimately show ?case by (auto simp: programs_ok_def simp del: map_map map_eq_conv)
next
  case (ps_session p live io s t st r disk')
  then show ?case using beside_written [of io "pr_dir p"] by (intro beside_running) (auto simp: write_session_def)
next
  case (ps_complete p live io artifact version now later st r st')
  let ?f = "\<lambda>fs. fs\<lparr>pf_artifact := Some artifact\<rparr>"
  have c: "close_with (write_file io (pr_dir p) (dir_join (pr_dir p) ''artifact.json'') ?f) (manifest_complete version now) P_Completed io p later st = (r, st')"
    using ps_complete.hyps(2) by (simp add: close_completed_def write_artifact_def [abs_def])
  note d = live_manifest [OF ps_complete.prems ps_complete.hyps(1)]
  have keeps: "pf_manifest (?f fs) = pf_manifest fs" for fs by simp
  from close_with_cases [OF c keeps] show ?case
  proof (elim disjE exE conjE)
    fix e assume "beside (pr_dir p) (mn_disk st) (mn_disk st')" "st' = st\<lparr>mn_disk := mn_disk st'\<rparr>"
    then show ?thesis using beside_running [OF ps_complete.prems ps_complete.hyps(1)] remove_handle by metis
  next
    fix fs assume "st' = st\<lparr>mn_disk := (mn_disk st)(pr_dir p \<mapsto> (?f fs)\<lparr>pf_manifest := Some (manifest_complete version now (pr_manifest p))\<rparr>),
        mn_index := close_index p P_Completed later (mn_index st)\<rparr>"
    from closed_ok [OF ps_complete.prems ps_complete.hyps(1) finishing(1) _ this] show ?thesis
      using d by (simp add: files_ok_def manifest_complete_def)
  qed
next
  case (ps_fail p live io kind message stage now later st r st')
  let ?f = "\<lambda>fs. fs\<lparr>pf_error := Some (error_json kind message stage)\<rparr>"
  have c: "close_with (write_file io (pr_dir p) (dir_join (pr_dir p) ''error.json'') ?f) (manifest_fail now) P_Failed io p later st = (r, st')"
    using ps_fail.hyps(2) by (simp add: close_failed_def write_error_def [abs_def])
  note d = live_manifest [OF ps_fail.prems ps_fail.hyps(1)]
  have keeps: "pf_manifest (?f fs) = pf_manifest fs" for fs by simp
  from close_with_cases [OF c keeps] show ?case
  proof (elim disjE exE conjE)
    fix e assume "beside (pr_dir p) (mn_disk st) (mn_disk st')" "st' = st\<lparr>mn_disk := mn_disk st'\<rparr>"
    then show ?thesis using beside_running [OF ps_fail.prems ps_fail.hyps(1)] remove_handle by metis
  next
    fix fs assume "st' = st\<lparr>mn_disk := (mn_disk st)(pr_dir p \<mapsto> (?f fs)\<lparr>pf_manifest := Some (manifest_fail now (pr_manifest p))\<rparr>),
        mn_index := close_index p P_Failed later (mn_index st)\<rparr>"
    from closed_ok [OF ps_fail.prems ps_fail.hyps(1) finishing(2) _ this] show ?thesis
      using d by (simp add: files_ok_def manifest_fail_def)
  qed
qed (auto intro: fewer_handles)

lemma reach_ok: "program_reach cx x \<Longrightarrow> programs_ok cx x"
proof (induction rule: rtranclp_induct)
  case base
  then show ?case by (simp add: programs_ok_def top_manifest_def read_manifest_def program_get_def)
qed (rule step_ok)

subsection \<open>What a step changes\<close>

text \<open>Only new directories, and those of programs in use.\<close>

lemma new_program_frame:
  assumes "new_program io root m disk = (r, disk')" and "disk (dir_join root (mf_id m)) = None" and "disk d = Some fs"
  shows "disk' d = Some fs"
  using new_program_cases [OF assms(1,2)] assms(2,3) by (auto simp: make_dir_def)

lemma close_frame:
  assumes "close_with (write_file io (pr_dir p) path f) finish status io p later st = (r, st')"
    and "\<And>fs. pf_manifest (f fs) = pf_manifest fs" and "d \<noteq> pr_dir p"
  shows "mn_disk st' d = mn_disk st d"
  using close_with_cases [OF assms(1,2)] assms(3) by (auto simp: beside_def)

lemma step_frame:
  assumes "program_step cx x y" and "mn_disk (snd x) d = Some fs" and "d \<notin> pr_dir ` set (fst x)"
  shows "mn_disk (snd y) d = Some fs"
  using assms
proof (induction rule: program_step.induct)
  case (ps_open st i io skill inputs now later r st' live)
  obtain r1 disk1 where n: "new_program io (mc_root cx) (manifest_open i skill inputs (mc_substrate cx) (mc_mneme cx) now) (mn_disk st) = (r1, disk1)"
    by fastforce
  have "disk1 d = Some fs" using n ps_open.hyps(1) ps_open.prems(1) by (intro new_program_frame [OF n]) (simp_all add: manifest_open_def)
  moreover have "mn_disk st' = disk1"
    using ps_open.hyps(2) n by (auto simp: open_program_def program_open_def split: sum.splits option.splits)
  ultimately show ?case by simp
next
  case (ps_child parent live st i io skill inputs now r disk')
  show ?case
  proof (cases "max_program_depth < next_depth (mf_depth (pr_manifest parent))")
    case False
    then have n: "new_program io (skills_dir (pr_dir parent)) (with_parent (mf_id (pr_manifest parent)) (mf_depth (pr_manifest parent))
        (manifest_open i skill inputs (mf_substrate (pr_manifest parent)) (mf_mneme (pr_manifest parent)) now)) (mn_disk st) = (r, disk')"
      using ps_child.hyps(3) by (simp add: program_open_child_def Let_def)
    have "disk' d = Some fs"
      using ps_child.hyps(2) ps_child.prems(1) by (intro new_program_frame [OF n]) (simp_all add: with_parent_def manifest_open_def)
    then show ?thesis by simp
  qed (use ps_child in \<open>auto simp: program_open_child_def Let_def\<close>)
next
  case (ps_trace p live io entry st r disk')
  then obtain r1 where "write_file io (pr_dir p) (dir_join (pr_dir p) ''trace.jsonl'') (\<lambda>fs. fs\<lparr>pf_trace := pf_trace fs @ [entry]\<rparr>) (mn_disk st) = (r1, disk')"
    by (auto simp: record_trace_def append_trace_def split: prod.splits)
  from write_file_cases [OF this] show ?case using ps_trace by auto
next
  case (ps_session p live io s t st r disk')
  from write_file_cases [OF ps_session.hyps(2) [unfolded write_session_def]] show ?case using ps_session by auto
next
  case (ps_complete p live io artifact version now later st r st')
  have "mn_disk st' d = mn_disk st d"
    using ps_complete.hyps ps_complete.prems(2)
    by (intro close_frame [of io p _ "\<lambda>fs. fs\<lparr>pf_artifact := Some artifact\<rparr>"]) (auto simp: close_completed_def write_artifact_def [abs_def])
  then show ?case using ps_complete.prems(1) by simp
next
  case (ps_fail p live io kind message stage now later st r st')
  have "mn_disk st' d = mn_disk st d"
    using ps_fail.hyps ps_fail.prems(2)
    by (intro close_frame [of io p _ "\<lambda>fs. fs\<lparr>pf_error := Some (error_json kind message stage)\<rparr>"])
      (auto simp: close_failed_def write_error_def [abs_def])
  then show ?case using ps_fail.prems(1) by simp
qed simp

lemma closed_step:
  assumes "programs_ok cx x" and "program_step cx x y" and "mn_disk (snd x) d = Some fs" and "pf_manifest fs = Some m"
    and "mf_status m \<noteq> P_Running"
  shows "mn_disk (snd y) d = Some fs"
proof -
  have "d \<noteq> pr_dir p" if p: "p \<in> set (fst x)" for p
  proof
    assume d: "d = pr_dir p"
    have "programs_ok cx (fst x, snd x)" using assms(1) by simp
    then obtain fs' where "mn_disk (snd x) (pr_dir p) = Some fs'" "pf_manifest fs' = Some (pr_manifest p)" "mf_status (pr_manifest p) = P_Running"
      using p by (rule live_files)
    then show False using assms(3-5) d by simp
  qed
  then show ?thesis using step_frame [OF assms(2,3)] by blast
qed

lemma closed_steps:
  assumes "(program_step cx)\<^sup>*\<^sup>* x y" and "programs_ok cx x" and "mn_disk (snd x) d = Some fs" and "pf_manifest fs = Some m"
    and "mf_status m \<noteq> P_Running"
  shows "mn_disk (snd y) d = Some fs \<and> programs_ok cx y"
  using assms(1)
proof (induction rule: rtranclp_induct)
  case (step y z)
  then have y: "mn_disk (snd y) d = Some fs" "programs_ok cx y" by simp_all
  show ?case using closed_step [OF y(2) step.hyps(2) y(1) assms(4,5)] step_ok [OF step.hyps(2) y(2)] ..
qed (use assms in simp)

subsection \<open>Properties\<close>

text \<open>
  The index mirrors the disk while it accepts its writes: whatever programs have been opened, nested, traced and
  closed, with any failures of the file system and restarts of the server in between, looking up an identifier in the index
  and reading the manifest of the top-level program with that identifier agree on whether there is one, on
  its status and on all else the two have in common.
\<close>

theorem index_mirrors_disk:
  assumes "program_reach cx (live, st)" and "mn_index st = Some rows"
  shows "rel_option row_shows (program_get i rows) (top_manifest cx (mn_disk st) i)"
  using reach_ok [OF assms(1)] assms(2) by (auto simp: programs_ok_def)

text \<open>
  C19. A closed program stays as it was closed. Whatever programs are opened, nested, traced and closed, with any
  failures of the file system and restarts of the server in between: once the manifest of a program says that it
  has completed or failed, it records the end, the directory of a completed program holds its artifact and that of
  a failed one its error, and no later operation of any program (nor a restart) changes a file of the directory
  (the nested programs below it have directories of their own).
\<close>

theorem closed_program_stays:
  assumes "program_reach cx x" and "mn_disk (snd x) d = Some fs" and "pf_manifest fs = Some m" and "mf_status m \<noteq> P_Running"
    and "(program_step cx)\<^sup>*\<^sup>* x y"
  shows "mn_disk (snd y) d = Some fs \<and> mf_finished m \<noteq> None \<and>
    (if mf_status m = P_Completed then pf_artifact fs \<noteq> None else pf_error fs \<noteq> None)"
proof -
  have "files_ok fs" using reach_ok [OF assms(1)] assms(2) by (simp add: programs_ok_def)
  then have "mf_finished m \<noteq> None \<and> (if mf_status m = P_Completed then pf_artifact fs \<noteq> None else pf_error fs \<noteq> None)"
    using assms(3,4) by (cases "mf_status m") (auto simp: files_ok_def)
  then show ?thesis using closed_steps [OF assms(5) reach_ok [OF assms(1)] assms(2-4)] by simp
qed

lemma wait_running:
  assumes "\<forall>v \<in> set ws. \<exists>m. read_manifest d (wr_disk v) = Some m \<and> mf_status m = P_Running \<and> \<not> wr_late v"
  shows "wait_loop d s lst (ws @ rounds) =
     (case wait_loop d s (if ws = [] then lst else Some ''running'') rounds of
        (evs, e) \<Rightarrow> ((if ws = [] \<or> lst = Some ''running'' then [] else [WE_Progress s ''running'' (wr_waited (hd ws))]) @ evs, e))"
  using assms by (induction ws arbitrary: lst) (auto simp: Let_def split: prod.splits if_splits)

text \<open>
  Waiting for a program delivers its result: if the rounds of \<open>wait\<close> find it running, until one of them,
  before the time is up, finds the disk of a run in which the program has been closed, then \<open>wait\<close> reports
  each status once and ends in that round with the artifact of a completed program, or with the error of a
  failed one; it never falls back to an empty artifact.
\<close>

theorem wait_delivers:
  assumes "program_reach cx (live, st)" and "parse_program_id uuid s = Inr i"
    and "mn_disk st (dir_join (mc_root cx) i) = Some fs" and "pf_manifest fs = Some m" and "mf_status m \<noteq> P_Running"
    and "\<forall>v \<in> set ws. \<exists>n. read_manifest (dir_join (mc_root cx) i) (wr_disk v) = Some n \<and> mf_status n = P_Running \<and> \<not> wr_late v"
    and "wr_disk w = mn_disk st"
  shows "\<exists>v. (if mf_status m = P_Completed then pf_artifact fs else pf_error fs) = Some v \<and>
    programs_wait uuid cx s (ws @ w # rest) =
      ((if ws = [] then [] else [WE_Progress s ''running'' (wr_waited (hd ws))]) @
         [WE_Progress s (program_status_str (mf_status m)) (wr_waited w)],
       Some ((if mf_status m = P_Completed then WE_Completed else WE_Failed) s v (wr_waited w)))"
proof -
  have ok: "files_ok fs" using reach_ok [OF assms(1)] assms(3) by (simp add: programs_ok_def)
  have m: "read_manifest (dir_join (mc_root cx) i) (wr_disk w) = Some m" "wr_disk w (dir_join (mc_root cx) i) = Some fs"
    using assms(3,4,7) by (simp_all add: read_manifest_def)
  note r = wait_running [OF assms(6), of s None "w # rest"]
  show ?thesis
  proof (cases "mf_status m")
    case P_Completed
    then obtain v where "pf_artifact fs = Some v" using ok assms(4) by (auto simp: files_ok_def)
    then show ?thesis using r m P_Completed assms(2) by (simp add: programs_wait_def directory_open_def)
  next
    case P_Failed
    then obtain v where "pf_error fs = Some v" using ok assms(4) by (auto simp: files_ok_def)
    then show ?thesis using r m P_Failed assms(2) by (simp add: programs_wait_def directory_open_def)
  qed (use assms(5) in simp)
qed

subsection \<open>A run\<close>

definition demo_context :: mneme_context where
  "demo_context = \<lparr>mc_root = ''r'', mc_substrate = ''1'', mc_mneme = ''1''\<rparr>"

definition no_errors :: io where
  "no_errors _ = None"

definition demo_opened :: "(program_error, program, mneme) outcome" where
  "demo_opened = open_program demo_context no_errors ''i'' ''forecast.update'' JNull 1 2 \<lparr>mn_disk = Map.empty, mn_index = Some []\<rparr>"

definition demo_program :: program where
  "demo_program = \<lparr>pr_dir = ''r/i'', pr_manifest = manifest_open ''i'' ''forecast.update'' JNull ''1'' ''1'' 1, pr_seq = 1, pr_indexed = True\<rparr>"

definition demo_closed :: "(dir_error, unit, mneme) outcome" where
  "demo_closed = close_completed no_errors demo_program (JBool True) ''0.3.0'' 3 4 (snd demo_opened)"

lemma demo_reach:
  "program_reach demo_context ([demo_program], snd demo_opened)" "program_reach demo_context ([], snd demo_closed)"
proof -
  have p: "demo_opened = (Inr demo_program, snd demo_opened)"
    by (simp add: demo_opened_def demo_program_def open_program_def program_open_def new_program_def directory_create_def
        no_errors_def write_manifest_def write_file_def make_dir_def demo_context_def dir_join_def manifest_open_def Let_def)
  have "program_step demo_context ([], \<lparr>mn_disk = Map.empty, mn_index = Some []\<rparr>) ([demo_program], snd demo_opened)"
    using ps_open [OF _ p [unfolded demo_opened_def], where live = "[]"] by (simp add: demo_opened_def)
  then show 1: "program_reach demo_context ([demo_program], snd demo_opened)" by blast
  have "program_step demo_context ([demo_program], snd demo_opened) (remove1 demo_program [demo_program], snd demo_closed)"
    unfolding demo_closed_def by (rule ps_complete [OF _ prod.collapse [symmetric]]) simp
  with 1 show "program_reach demo_context ([], snd demo_closed)" by simp
qed

theorem index_mirrors_disk_witness:
  "\<exists>rows r m. mn_index (snd demo_closed) = Some rows \<and> program_get ''i'' rows = Some r \<and>
     top_manifest demo_context (mn_disk (snd demo_closed)) ''i'' = Some m \<and> row_shows r m \<and> pw_status r = P_Completed"
proof -
  obtain rows where rows: "mn_index (snd demo_closed) = Some rows"
    using reach_ok [OF demo_reach(2)] by (auto simp: programs_ok_def)
  have "map_option (map_option pw_status \<circ> program_get ''i'') (mn_index (snd demo_closed)) = Some (Some P_Completed)" by code_simp
  then obtain r where r: "program_get ''i'' rows = Some r" "pw_status r = P_Completed" using rows by auto
  moreover obtain m where "top_manifest demo_context (mn_disk (snd demo_closed)) ''i'' = Some m" "row_shows r m"
    using index_mirrors_disk [OF demo_reach(2) rows, of "''i''"] r(1) by (auto simp: option_rel_Some1)
  ultimately show ?thesis using rows by blast
qed

definition demo_closed_dir :: program_files where
  "demo_closed_dir = the (mn_disk (snd demo_closed) ''r/i'')"

lemma demo_closed_dir_facts:
  "mn_disk (snd demo_closed) ''r/i'' = Some demo_closed_dir" "pf_manifest demo_closed_dir = Some (the (pf_manifest demo_closed_dir))"
  "mf_status (the (pf_manifest demo_closed_dir)) \<noteq> P_Running" "pf_artifact demo_closed_dir = Some (JBool True)"
  "mf_status (the (pf_manifest demo_closed_dir)) = P_Completed"
proof -
  have "mn_disk (snd demo_closed) ''r/i'' \<noteq> None" "pf_manifest demo_closed_dir \<noteq> None"
    unfolding demo_closed_dir_def by code_simp+
  then show "mn_disk (snd demo_closed) ''r/i'' = Some demo_closed_dir" "pf_manifest demo_closed_dir = Some (the (pf_manifest demo_closed_dir))"
    by (auto simp: demo_closed_dir_def)
qed (code_simp+)

theorem closed_program_stays_witness:
  "mn_disk (snd demo_closed) ''r/i'' = Some demo_closed_dir \<and> pf_artifact demo_closed_dir \<noteq> None \<and>
     mf_finished (the (pf_manifest demo_closed_dir)) \<noteq> None"
proof -
  have "mn_disk (snd ([], snd demo_closed)) ''r/i'' = Some demo_closed_dir" using demo_closed_dir_facts(1) by simp
  from closed_program_stays [OF demo_reach(2) this demo_closed_dir_facts(2,3) rtranclp.rtrancl_refl] show ?thesis
    using demo_closed_dir_facts(5) by simp
qed

theorem wait_delivers_witness:
  "snd (programs_wait Inr demo_context ''i''
      [\<lparr>wr_disk = mn_disk (snd demo_opened), wr_waited = 0, wr_late = False\<rparr>,
       \<lparr>wr_disk = mn_disk (snd demo_closed), wr_waited = 2000, wr_late = False\<rparr>]) = Some (WE_Completed ''i'' (JBool True) 2000)"
proof -
  let ?v = "\<lparr>wr_disk = mn_disk (snd demo_opened), wr_waited = 0, wr_late = False\<rparr>"
  let ?w = "\<lparr>wr_disk = mn_disk (snd demo_closed), wr_waited = 2000, wr_late = False\<rparr>"
  have dir: "dir_join (mc_root demo_context) ''i'' = ''r/i''" by code_simp
  have i: "parse_program_id Inr ''i'' = Inr ''i''" by (simp add: parse_program_id_def)
  have run: "map_option mf_status (read_manifest ''r/i'' (mn_disk (snd demo_opened))) = Some P_Running" by code_simp
  have "\<forall>v \<in> set [?v]. \<exists>n. read_manifest ''r/i'' (wr_disk v) = Some n \<and> mf_status n = P_Running \<and> \<not> wr_late v"
    using run by auto
  from wait_delivers [OF demo_reach(2) i, unfolded dir, OF demo_closed_dir_facts(1-3) this, of ?w "[]"] show ?thesis
    using demo_closed_dir_facts(4,5) by auto
qed

end
