(* ===== verification/Spec2Isabelle.thy ===== *)
theory Spec2Isabelle
  imports Lattice_Props Orcha_Build Orcha_Runner_Props Orcha_Retry_Props Loopback_Props
    Arbor_Props Ticket_Props Claude_Session_Props Claude_Transfer_Props
    Orcha_Task_Props Orcha_Pm_Props Orcha_Recovery_Props Mneme_Program_Props
begin

text \<open>
  A model of the substrate, the server that runs plans of work with the Claude program. All paths are
  below \<^verbatim>\<open>src/src/activations\<close>, those of Mneme below \<^verbatim>\<open>src/src/mneme\<close>.

  \<^bold>\<open>The program and its model.\<close> Each activation of the server is a set of methods over an SQLite storage;
  a method answers with a stream of events. A table is the list of its rows in the order of insertion, a
  storage is a record of its tables, an operation is a function from the storage to its result and the new
  storage; what the database refuses (a key violation) is an error value of a sum type. A method is a
  function to the events it sends. Identifiers, timestamps and the answers of programs outside (Claude, a
  shell, the clock, the file system) are arguments. Texts are the bytes of their UTF-8 encoding.

  \<^item> \<^emph>\<open>Lattice\<close> (\<^verbatim>\<open>lattice/\<close>) keeps graphs of nodes joined by edges that carry tokens, readies a node once
    its inbound edges have tokens, and logs every transition as a numbered event. \<open>Lattice_Types\<close> (data),
    \<open>Lattice_Store\<close> (tables), \<open>Lattice_Engine\<close> (\<open>check_and_ready\<close>, \<open>advance_graph\<close>, \<open>start_graph\<close>,
    recovery writes), \<open>Lattice_Stream\<close> (\<open>execute_stream\<close>). Lemmas: \<open>Lattice_Frame\<close> (the five primitive
    writes), \<open>Lattice_Status\<close>, \<open>Lattice_Invariant\<close> (tables), \<open>Lattice_Reach\<close> (all operations as a step
    relation), \<open>Lattice_Safety\<close> and \<open>Lattice_Run\<close> (dependency order over all runs),
    \<open>Lattice_Termination\<close>, \<open>Lattice_Outcome\<close> (how a graph ends), \<open>Lattice_Logged\<close> (every node that was handed
    out has its event), \<open>Lattice_Graphs\<close> (the graphs form a forest); properties in \<open>Lattice_Props\<close>.
  \<^item> \<^emph>\<open>Orcha graphs\<close> (\<^verbatim>\<open>orcha/graph_runtime.rs\<close>, \<^verbatim>\<open>ticket_compiler.rs\<close>, \<^verbatim>\<open>graph_runner.rs\<close>, \<^verbatim>\<open>pm/\<close>): a plan in
    Markdown is compiled to a graph definition (\<open>Ticket_Compiler\<close>), built in Lattice (\<open>Orcha_Graph\<close>,
    \<open>Orcha_Build\<close>), run by a dispatcher that hands out ready nodes (\<open>Orcha_Runner\<close>, with the backward search
    in \<open>Orcha_Upstream\<close>), and shown ticket by ticket (\<open>Orcha_Pm\<close>). \<open>Orcha_Launch\<close> holds the methods of
    \<^verbatim>\<open>orcha/activation.rs\<close> that start, cancel, watch and recover runs. Properties in \<open>Ticket_Props\<close>,
    \<open>Orcha_Runner_Props\<close>, \<open>Orcha_Retry_Props\<close>, \<open>Orcha_Pm_Props\<close>, \<open>Orcha_Launch_Props\<close>,
    \<open>Orcha_Recovery_Props\<close>.
  \<^item> \<^emph>\<open>Orcha tasks\<close> (\<^verbatim>\<open>orcha/storage.rs\<close>, \<^verbatim>\<open>context.rs\<close>, \<^verbatim>\<open>orchestrator.rs\<close>): sessions of one or several agents,
    each a retry loop around a Claude session with a validation command. \<open>Orcha_Sessions\<close> (tables and
    cache), \<open>Orcha_Artifact\<close> (the validation request in an answer), \<open>Orcha_Task\<close>, \<open>Orcha_Agents\<close>;
    properties in \<open>Orcha_Sessions_Props\<close> and \<open>Orcha_Task_Props\<close>.
  \<^item> \<^emph>\<open>Loopback\<close> (\<^verbatim>\<open>claudecode_loopback/\<close>): permissions for tools that a parent session answers. \<open>Loopback\<close>,
    \<open>Loopback_Props\<close>. The review gate and the approvals of a task wait on the same store.
  \<^item> \<^emph>\<open>Arbor\<close> (\<^verbatim>\<open>arbor/\<close>): conversation trees with reference counts and views. \<open>Arbor_Types\<close>, \<open>Arbor_Store\<close>,
    \<open>Arbor_Views\<close>, \<open>Arbor_Activation\<close>; lemmas in \<open>Arbor_Invariant\<close>, \<open>Arbor_Life\<close>, \<open>Arbor_Paths\<close>,
    \<open>Arbor_Runs\<close>, \<open>Arbor_History\<close>; properties in \<open>Arbor_Props\<close>.
  \<^item> \<^emph>\<open>Claude Code\<close> (\<^verbatim>\<open>claudecode/\<close>): sessions whose turns are stored in Arbor trees and whose background
    turns fill stream buffers. \<open>Claude_Types\<close>, \<open>Claude_Store\<close>, \<open>Claude_Render\<close>, \<open>Claude_Chat\<close> (one turn),
    \<open>Claude_Activation\<close> (methods), \<open>Claude_Executor\<close> (the command line), \<open>Claude_Files\<close> and
    \<open>Claude_Transfer\<close> (session files); lemmas in \<open>Claude_Tables\<close>, \<open>Claude_Turn\<close>, \<open>Claude_History\<close>,
    \<open>Claude_Conversation\<close>, \<open>Claude_Background\<close>, \<open>Claude_Streams\<close>; properties in \<open>Claude_Props\<close>,
    \<open>Claude_Session_Props\<close>, \<open>Claude_Transfer_Props\<close>.
  \<^item> \<^emph>\<open>Mneme programs\<close> (\<^verbatim>\<open>program/\<close>, \<^verbatim>\<open>storage.rs\<close>, \<^verbatim>\<open>context.rs\<close>, and \<^verbatim>\<open>programs/\<close> among the activations): the
    runs of a skill, each with a directory on disk (manifest, artifact, error, trace) and a row in an index.
    \<open>Mneme_Program\<close> (opening, steps, the three ways to close), \<open>Mneme_Queries\<close> (status, list, inspect, wait);
    lemmas and the property in \<open>Mneme_Program_Props\<close>.

  \<open>Substrate_Prelude\<close> and \<open>Substrate_Text\<close> hold what all share: rows and keys, results with a state, the
  text operations of the Rust library.

  \<^bold>\<open>Interfaces.\<close> A locale states what a client needs of a provider; its interpretation is on the model's own
  operations. \<open>approval_store\<close> (\<open>Approval_Interface\<close>): requests and answers, for all who wait for an
  approval. \<open>cursor_log\<close> (\<open>Log_Interface\<close>): a log read behind a cursor, interpreted by the event table of
  Lattice and the stream buffers of Claude Code. \<open>parent_walk\<close> (\<open>Parent_Interface\<close>): upward walks,
  interpreted by the node table of Arbor and by the graph table of Lattice. \<open>retry_loop\<close> (\<open>Retry_Interface\<close>): bounded attempts, interpreted
  by the orchestrated task and the task of an agent.

  \<^bold>\<open>What the theorems show.\<close> Safety of a run: no node starts before its predecessors have finished, from a
  compiled plan to the last node, in every order of reports; \<open>GraphDone\<close> only when all nodes are complete,
  apart from \<open>start_graph\<close> on a graph whose edges form a cycle; each ready
  node is handed out once, and again after a restart of the server, with the configuration of the first run.
  Termination: \<open>advance_graph\<close> returns when edges into Gather nodes form no cycle;
  the searches and walks return on all reachable stores; cancelling
  reaches exactly the graphs below the given one; the attempts of a retry loop are counted exactly, and each
  task ends with exactly one final event. Refinement: a completed turn appends two messages to the conversation
  that a tree stands for; event streams and polls deliver every entry once, in order; the session cache is
  what a restart reads from the tables; an approval is what the last responder said. Invariants: keys,
  references, counters, the deletion dates of a tree; a closed program keeps its directory. Round trips: handles,
  stored events, session files, execution logs, and command lines as a shell reads them. Panics: the views
  of Arbor agree and panic on exactly the texts that the theorem describes; the import of a session file may
  panic as well.

  \<^bold>\<open>Bounds and fuel.\<close> Loops that may not end are \<open>partial_function (option)\<close>: \<open>None\<close> means that the code
  does not return, and a theorem says when it does (\<open>advance_loop\<close>, the walks of Arbor). Polling loops
  are functions of the list of what each poll finds; \<open>None\<close> as their result means that they still wait.
  Sequence numbers and limits keep their widths (\<open>word\<close>, or a range) where the code converts them. A panic is
  the value \<open>None\<close> or an explicit constructor.

  \<^bold>\<open>Parameters.\<close> The JSON printer and parser (\<open>json_codec\<close>), the clock, fresh identifiers, Claude's event
  stream, the shell, the file system as a map from paths to texts, the foreign type \<open>Handle\<close> and the
  resolver of handles.

  \<^bold>\<open>Not modelled.\<close> Failures of the database other than key violations; concurrent interleavings inside a
  storage operation: an operation is one step here, although the connection pool lets the statements of two
  operations alternate; log output. \<^verbatim>\<open>claudecode/render.rs\<close> is not
  part of the program (no module declares it). Of Mneme only the programs are modelled: its runtime
  is left out for its size, aggregation and calibration, like the forecast activation, because they compute
  in floating point. The other activations (cone, mustache, changelog, solar, bash, health, echo,
  interactive, chaos, registry), the plug-in system, the MCP
  bridge and the binaries are listed with reasons in the manifest.
\<close>

end
